(* ===== verification/Prelude.thy ===== *)
theory Prelude
  imports "HOL-Library.Word" "HOL-Library.Monad_Syntax"
begin

text \<open>
  Shared vocabulary of the development: the C integer types of \<^verbatim>\<open>zc_common.h\<close> as machine words,
  the byte-order macros, and arrays of bytes read and written with their bounds.  A C pointer that
  is only read is the list of the bytes from the place it points at to the end of its object;
  an access past that end is \<open>None\<close>, as is every other undefined behaviour of C the model keeps.
\<close>

unbundle bit_operations_syntax

named_theorems frame \<open>what an operation leaves unchanged\<close>
named_theorems pres \<open>an operation keeps an invariant\<close>

section \<open>Machine integers\<close>

type_synonym u8 = "8 word"
type_synonym u16 = "16 word"
type_synonym u32 = "32 word"

text \<open>The return codes \<^verbatim>\<open>ZC_RET_OK\<close> and \<^verbatim>\<open>ZC_RET_ERROR\<close>.\<close>

abbreviation (input) ZC_RET_OK :: u32 where "ZC_RET_OK \<equiv> 0"
abbreviation (input) ZC_RET_ERROR :: u32 where "ZC_RET_ERROR \<equiv> 1"

text \<open>
  The little-endian branch of the macros \<^verbatim>\<open>ZC_HTONS\<close> and \<^verbatim>\<open>ZC_HTONL\<close> (the target is a
  little-endian Cortex-M; \<^verbatim>\<open>ZC_BIG_ENDIAN\<close> is defined nowhere).
\<close>

definition ZC_HTONS :: "u16 \<Rightarrow> u16" where
  "ZC_HTONS n = push_bit 8 n OR drop_bit 8 n"

definition ZC_HTONL :: "u32 \<Rightarrow> u32" where
  "ZC_HTONL n = drop_bit 24 (n AND 0xff000000) OR drop_bit 8 (n AND 0x00ff0000)
     OR push_bit 8 (n AND 0x0000ff00) OR push_bit 24 (n AND 0x000000ff)"

lemma ZC_HTONS_involution [simp]: "ZC_HTONS (ZC_HTONS n) = n"
  by (rule bit_word_eqI) (auto simp: ZC_HTONS_def bit_simps)

lemma ZC_HTONS_inject [simp]: "ZC_HTONS m = ZC_HTONS n \<longleftrightarrow> m = n"
  by (metis ZC_HTONS_involution)

section \<open>Multi-byte fields in memory (little endian)\<close>

definition le16 :: "u8 list \<Rightarrow> u16" where
  "le16 b = ucast (b ! 0) OR push_bit 8 (ucast (b ! 1))"

definition bytes16 :: "u16 \<Rightarrow> u8 list" where
  "bytes16 w = [ucast w, ucast (drop_bit 8 w)]"

definition le32 :: "u8 list \<Rightarrow> u32" where
  "le32 b = ucast (b ! 0) OR push_bit 8 (ucast (b ! 1)) OR push_bit 16 (ucast (b ! 2))
     OR push_bit 24 (ucast (b ! 3))"

definition bytes32 :: "u32 \<Rightarrow> u8 list" where
  "bytes32 w = [ucast w, ucast (drop_bit 8 w), ucast (drop_bit 16 w), ucast (drop_bit 24 w)]"

lemma length_bytes16 [simp]: "length (bytes16 w) = 2"
  by (simp add: bytes16_def)

lemma length_bytes32 [simp]: "length (bytes32 w) = 4"
  by (simp add: bytes32_def)

lemma le16_bytes16 [simp]: "le16 (bytes16 w) = w"
  by (rule bit_word_eqI) (auto simp: le16_def bytes16_def bit_simps)

lemma le16_bytes16_Cons [simp]: "le16 [ucast w, ucast (drop_bit 8 w)] = w"
  using le16_bytes16 [of w] by (simp add: bytes16_def)

lemma length_2E: "length b = 2 \<Longrightarrow> (\<And>x y. b = [x, y] \<Longrightarrow> P) \<Longrightarrow> P"
  by (auto simp: numeral_2_eq_2 length_Suc_conv)

lemma length_4E: "length b = 4 \<Longrightarrow> (\<And>x y z w. b = [x, y, z, w] \<Longrightarrow> P) \<Longrightarrow> P"
  by (auto simp: eval_nat_numeral length_Suc_conv)

lemma le16_take [simp]: "2 \<le> n \<Longrightarrow> le16 (take n b) = le16 b"
  by (simp add: le16_def)

lemma le16_append [simp]: "2 \<le> length a \<Longrightarrow> le16 (a @ b) = le16 a"
  by (auto simp: le16_def nth_append)

lemma le32_append [simp]: "length a = 4 \<Longrightarrow> le32 (a @ b) = le32 a"
  by (auto elim!: length_4E simp: le32_def)

lemma le32_bytes32 [simp]: "le32 (bytes32 w) = w"
proof (rule bit_word_eqI)
  fix n assume n: "n < LENGTH(32)"
  consider "n < 8" | "8 \<le> n" "n < 16" | "16 \<le> n" "n < 24" | "24 \<le> n" "n < 32"
    using n by fastforce
  then show "bit (le32 (bytes32 w)) n = bit w n"
    by cases (auto simp: le32_def bytes32_def bit_simps)
qed

lemma bytes16_le16: "length b = 2 \<Longrightarrow> bytes16 (le16 b) = b"
proof -
  assume "length b = 2"
  then obtain x y where b: "b = [x, y]"
    by (auto simp: numeral_2_eq_2 length_Suc_conv)
  have "ucast (ucast x OR push_bit 8 (ucast y :: u16)) = x"
    by (rule bit_word_eqI) (auto simp: bit_simps)
  moreover have "ucast (drop_bit 8 (ucast x OR push_bit 8 (ucast y :: u16))) = y"
    by (rule bit_word_eqI) (auto simp: bit_simps dest: bit_imp_le_length)
  ultimately show ?thesis
    by (simp add: b le16_def bytes16_def)
qed

lemma bytes32_le32: "length b = 4 \<Longrightarrow> bytes32 (le32 b) = b"
proof (erule length_4E)
  fix x y z w assume b: "b = [x, y, z, w]"
  let ?v = "ucast x OR push_bit 8 (ucast y) OR push_bit 16 (ucast z) OR push_bit 24 (ucast w) :: u32"
  have "ucast ?v = x" "ucast (drop_bit 8 ?v) = y" "ucast (drop_bit 16 ?v) = z" "ucast (drop_bit 24 ?v) = w"
    by (rule bit_word_eqI; auto simp: bit_simps dest: bit_imp_le_length)+
  then show ?thesis by (simp add: b le32_def bytes32_def)
qed

lemma unat_of_nat_small: "n < 2 ^ LENGTH('a) \<Longrightarrow> unat (word_of_nat n :: 'a::len word) = n"
  by (simp add: unsigned_of_nat take_bit_nat_eq_self)

lemma unat_add_small:
  "unat a + unat b < 2 ^ LENGTH('a) \<Longrightarrow> unat (a + b :: 'a::len word) = unat a + unat b"
  by (simp add: unat_plus_if')

lemma unat_8: "unat (x :: u8) < 256"
  using unsigned_less [of x, where 'a=nat] by simp

lemma unat_16: "unat (x :: u16) < 65536"
  using unsigned_less [of x, where 'a=nat] by simp

lemma unat_32: "unat (x :: u32) < 4294967296"
  using unsigned_less [of x, where 'a=nat] by simp

lemma unat_ucast_up [simp]:
  "unat (ucast (x :: u8) :: u16) = unat x"
  "unat (ucast (x :: u8) :: u32) = unat x"
  "unat (ucast (y :: u16) :: u32) = unat y"
  using unat_8 [of x] unat_16 [of y]
  by (simp_all add: unsigned_ucast_eq take_bit_nat_eq_self)

section \<open>Arrays with their bounds\<close>

definition rd :: "'b list \<Rightarrow> nat \<Rightarrow> nat \<Rightarrow> 'b list option" where
  "rd b off n = (if off + n \<le> length b then Some (take n (drop off b)) else None)"

definition wr :: "'b list \<Rightarrow> nat \<Rightarrow> 'b list \<Rightarrow> 'b list option" where
  "wr b off d =
     (if off + length d \<le> length b then Some (take off b @ d @ drop (off + length d) b) else None)"

lemma rd_eq_Some: "rd b off n = Some d \<longleftrightarrow> off + n \<le> length b \<and> d = take n (drop off b)"
  by (auto simp: rd_def)

lemma wr_eq_Some:
  "wr b off d = Some b' \<longleftrightarrow>
     off + length d \<le> length b \<and> b' = take off b @ d @ drop (off + length d) b"
  by (auto simp: wr_def)

lemma rd_Some: "off + n \<le> length b \<Longrightarrow> rd b off n = Some (take n (drop off b))"
  by (simp add: rd_def)

lemma wr_Some:
  "off + length d \<le> length b \<Longrightarrow> wr b off d = Some (take off b @ d @ drop (off + length d) b)"
  by (simp add: wr_def)

lemma length_rd: "rd b off n = Some d \<Longrightarrow> length d = n"
  by (auto simp: rd_eq_Some)

lemma length_wr: "wr b off d = Some b' \<Longrightarrow> length b' = length b"
  by (auto simp: wr_eq_Some)

lemma wr_Nil [simp]: "off \<le> length b \<Longrightarrow> wr b off [] = Some b"
  by (simp add: wr_def)

lemma rd_wr_same:
  assumes "wr b off d = Some b'"
  shows "rd b' off (length d) = Some d"
  using assms by (auto simp: wr_eq_Some rd_eq_Some)

lemma rd_wr_before:
  assumes "wr b off d = Some b'" "i + n \<le> off"
  shows "rd b' i n = rd b i n"
proof -
  from assms have b': "b' = take off b @ d @ drop (off + length d) b"
    and le: "off + length d \<le> length b"
    by (auto simp: wr_eq_Some)
  have "take n (drop i b') = take n (drop i (take off b))"
    using assms(2) le by (simp add: b' drop_take)
  also have "\<dots> = take n (drop i b)"
    using assms(2) by (simp add: drop_take min_def)
  finally show ?thesis
    using le by (simp add: rd_def b')
qed

lemma rd_wr_after:
  assumes "wr b off d = Some b'" "off + length d \<le> i"
  shows "rd b' i n = rd b i n"
proof -
  from assms have b': "b' = take off b @ d @ drop (off + length d) b"
    and le: "off + length d \<le> length b"
    by (auto simp: wr_eq_Some)
  have "drop i b' = drop i b"
    using assms(2) le by (simp add: b')
  then show ?thesis
    using le by (simp add: rd_def b')
qed

definition rd1 :: "'b list \<Rightarrow> nat \<Rightarrow> 'b option" where
  "rd1 b i = (if i < length b then Some (b ! i) else None)"

definition rd16 :: "u8 list \<Rightarrow> nat \<Rightarrow> u16 option" where
  "rd16 b i = map_option le16 (rd b i 2)"

definition rd32 :: "u8 list \<Rightarrow> nat \<Rightarrow> u32 option" where
  "rd32 b i = map_option le32 (rd b i 4)"

lemma rd1_Cons [simp]: "rd1 (x # b) 0 = Some x" "rd1 (x # b) (Suc i) = rd1 b i"
  by (simp_all add: rd1_def)

lemma rd_append [simp]: "n \<le> length a \<Longrightarrow> rd (a @ b) 0 n = Some (take n a)"
  by (simp add: rd_def)

lemma rd_append_drop: "length a \<le> i \<Longrightarrow> rd (a @ b) i n = rd b (i - length a) n"
  by (auto simp: rd_def)

lemma rd_all [simp]: "n = length a \<Longrightarrow> rd a 0 n = Some a"
  by (simp add: rd_def)

lemma wr_append: "length a = length d \<Longrightarrow> wr (a @ b) 0 d = Some (d @ b)"
  by (simp add: wr_def)

lemma wr_prefix: "length d \<le> length b \<Longrightarrow> wr b 0 d = Some (d @ drop (length d) b)"
  by (simp add: wr_def)

lemma wr_behind:
  "length p + length d \<le> length b
   \<Longrightarrow> wr (p @ drop (length p) b) (length p) d = Some (p @ d @ drop (length p + length d) b)"
  by (simp add: wr_def add.commute)

section \<open>Sequencing\<close>

text \<open>Steps of C that can fail are sequenced in the option monad; these rules take a run apart.\<close>

lemma bindE:
  assumes "m \<bind> f = Some y"
  obtains x where "m = Some x" "f x = Some y"
  using assms by (cases m) auto

lemma bind_Some_iff: "m \<bind> f = Some y \<longleftrightarrow> (\<exists>x. m = Some x \<and> f x = Some y)"
  by (cases m) auto

text \<open>A statement about every byte is decided by looking at the 256 of them.\<close>

lemma all_bytes:
  assumes "list_all (\<lambda>n. P (word_of_nat n)) [0..<256]"
  shows "P (b :: u8)"
proof -
  have "unat b < 256"
    using unsigned_less [of b] by simp
  then have "P (word_of_nat (unat b))"
    using assms unfolding list_all_iff by (metis atLeastLessThan_iff le0 set_upt)
  then show ?thesis by simp
qed

end
