(* ===== verification/Crc.thy ===== *)
theory Crc
  imports Prelude
begin

text \<open>
  The checksum of every message, \<^verbatim>\<open>App/Adapter/ZC/crc.c\<close>: the three implementations of
  CRC-CCITT (bit by bit, by byte table, by half-byte table) and the function \<^verbatim>\<open>crc16_ccitt\<close> the
  protocol calls.  The bytes read from \<^verbatim>\<open>ptr\<close> are a list, so \<^verbatim>\<open>len\<close> is its length.  The lemmas show
  that one shift step is linear over XOR, that the tables hold eight and four such steps, and that
  the step is injective; the three routines then agree and short bursts of errors are detected.
\<close>

section \<open>The code\<close>

definition crc_ta_8 :: "u32 list" where
  "crc_ta_8 =
    [0x0000, 0x1021, 0x2042, 0x3063, 0x4084, 0x50a5, 0x60c6, 0x70e7,
     0x8108, 0x9129, 0xa14a, 0xb16b, 0xc18c, 0xd1ad, 0xe1ce, 0xf1ef,
     0x1231, 0x0210, 0x3273, 0x2252, 0x52b5, 0x4294, 0x72f7, 0x62d6,
     0x9339, 0x8318, 0xb37b, 0xa35a, 0xd3bd, 0xc39c, 0xf3ff, 0xe3de,
     0x2462, 0x3443, 0x0420, 0x1401, 0x64e6, 0x74c7, 0x44a4, 0x5485,
     0xa56a, 0xb54b, 0x8528, 0x9509, 0xe5ee, 0xf5cf, 0xc5ac, 0xd58d,
     0x3653, 0x2672, 0x1611, 0x0630, 0x76d7, 0x66f6, 0x5695, 0x46b4,
     0xb75b, 0xa77a, 0x9719, 0x8738, 0xf7df, 0xe7fe, 0xd79d, 0xc7bc,
     0x48c4, 0x58e5, 0x6886, 0x78a7, 0x0840, 0x1861, 0x2802, 0x3823,
     0xc9cc, 0xd9ed, 0xe98e, 0xf9af, 0x8948, 0x9969, 0xa90a, 0xb92b,
     0x5af5, 0x4ad4, 0x7ab7, 0x6a96, 0x1a71, 0x0a50, 0x3a33, 0x2a12,
     0xdbfd, 0xcbdc, 0xfbbf, 0xeb9e, 0x9b79, 0x8b58, 0xbb3b, 0xab1a,
     0x6ca6, 0x7c87, 0x4ce4, 0x5cc5, 0x2c22, 0x3c03, 0x0c60, 0x1c41,
     0xedae, 0xfd8f, 0xcdec, 0xddcd, 0xad2a, 0xbd0b, 0x8d68, 0x9d49,
     0x7e97, 0x6eb6, 0x5ed5, 0x4ef4, 0x3e13, 0x2e32, 0x1e51, 0x0e70,
     0xff9f, 0xefbe, 0xdfdd, 0xcffc, 0xbf1b, 0xaf3a, 0x9f59, 0x8f78,
     0x9188, 0x81a9, 0xb1ca, 0xa1eb, 0xd10c, 0xc12d, 0xf14e, 0xe16f,
     0x1080, 0x00a1, 0x30c2, 0x20e3, 0x5004, 0x4025, 0x7046, 0x6067,
     0x83b9, 0x9398, 0xa3fb, 0xb3da, 0xc33d, 0xd31c, 0xe37f, 0xf35e,
     0x02b1, 0x1290, 0x22f3, 0x32d2, 0x4235, 0x5214, 0x6277, 0x7256,
     0xb5ea, 0xa5cb, 0x95a8, 0x8589, 0xf56e, 0xe54f, 0xd52c, 0xc50d,
     0x34e2, 0x24c3, 0x14a0, 0x0481, 0x7466, 0x6447, 0x5424, 0x4405,
     0xa7db, 0xb7fa, 0x8799, 0x97b8, 0xe75f, 0xf77e, 0xc71d, 0xd73c,
     0x26d3, 0x36f2, 0x0691, 0x16b0, 0x6657, 0x7676, 0x4615, 0x5634,
     0xd94c, 0xc96d, 0xf90e, 0xe92f, 0x99c8, 0x89e9, 0xb98a, 0xa9ab,
     0x5844, 0x4865, 0x7806, 0x6827, 0x18c0, 0x08e1, 0x3882, 0x28a3,
     0xcb7d, 0xdb5c, 0xeb3f, 0xfb1e, 0x8bf9, 0x9bd8, 0xabbb, 0xbb9a,
     0x4a75, 0x5a54, 0x6a37, 0x7a16, 0x0af1, 0x1ad0, 0x2ab3, 0x3a92,
     0xfd2e, 0xed0f, 0xdd6c, 0xcd4d, 0xbdaa, 0xad8b, 0x9de8, 0x8dc9,
     0x7c26, 0x6c07, 0x5c64, 0x4c45, 0x3ca2, 0x2c83, 0x1ce0, 0x0cc1,
     0xef1f, 0xff3e, 0xcf5d, 0xdf7c, 0xaf9b, 0xbfba, 0x8fd9, 0x9ff8,
     0x6e17, 0x7e36, 0x4e55, 0x5e74, 0x2e93, 0x3eb2, 0x0ed1, 0x1ef0]"

definition crc_ta_4 :: "u32 list" where
  "crc_ta_4 =
    [0x0000, 0x1021, 0x2042, 0x3063, 0x4084, 0x50a5, 0x60c6, 0x70e7,
     0x8108, 0x9129, 0xa14a, 0xb16b, 0xc18c, 0xd1ad, 0xe1ce, 0xf1ef]"

text \<open>One turn of the inner loop of \<^verbatim>\<open>crc_cal_by_bit\<close>, for the data byte \<open>d\<close> and the mask \<open>i\<close>.\<close>

definition crc_bit_turn :: "u8 \<Rightarrow> u8 \<Rightarrow> u32 \<Rightarrow> u32" where
  "crc_bit_turn d i crc =
     (let crc = crc * 2;
          crc = (if crc AND 0x10000 \<noteq> 0 then crc XOR 0x11021 else crc)
      in if d AND i \<noteq> 0 then crc XOR 0x1021 else crc)"

text \<open>The inner loop \<^verbatim>\<open>for (i = 0x80; i != 0; i /= 2)\<close>.\<close>

function crc_bit_loop :: "u8 \<Rightarrow> u8 \<Rightarrow> u32 \<Rightarrow> u32" where
  "crc_bit_loop d i crc = (if i \<noteq> 0 then crc_bit_loop d (i div 2) (crc_bit_turn d i crc) else crc)"
  by pat_completeness auto
termination
  by (relation "measure (\<lambda>(d, i, crc). unat i)") (auto simp: unat_div unat_gt_0)

declare crc_bit_loop.simps [simp del]

fun crc_cal_by_bit_from :: "u32 \<Rightarrow> u8 list \<Rightarrow> u32" where
  "crc_cal_by_bit_from crc [] = crc"
| "crc_cal_by_bit_from crc (d # ptr) = crc_cal_by_bit_from (crc_bit_loop d 0x80 crc) ptr"

definition crc_cal_by_bit :: "u8 list \<Rightarrow> u32" where
  "crc_cal_by_bit ptr = crc_cal_by_bit_from 0 ptr"

definition crc_byte_turn :: "u8 \<Rightarrow> u16 \<Rightarrow> u16" where
  "crc_byte_turn d crc =
     (let high = ucast (crc div 256) :: u32
      in push_bit 8 crc XOR ucast (crc_ta_8 ! unat (high XOR ucast d)))"

definition crc_cal_by_byte :: "u8 list \<Rightarrow> u32" where
  "crc_cal_by_byte ptr = ucast (fold crc_byte_turn ptr 0)"

definition crc_halfbyte_turn :: "u8 \<Rightarrow> u16 \<Rightarrow> u16" where
  "crc_halfbyte_turn d crc =
     (let high = ucast (crc div 4096) :: u8;
          crc = push_bit 4 crc XOR ucast (crc_ta_4 ! unat (high XOR (d div 16)));
          high = ucast (crc div 4096) :: u8
      in push_bit 4 crc XOR ucast (crc_ta_4 ! unat (high XOR (d AND 0x0f))))"

definition crc_cal_by_halfbyte :: "u8 list \<Rightarrow> u32" where
  "crc_cal_by_halfbyte ptr = ucast (fold crc_halfbyte_turn ptr 0)"

definition crc16_ccitt :: "u8 list \<Rightarrow> u16" where
  "crc16_ccitt buf = ucast (crc_cal_by_bit buf)"

section \<open>One shift of the 16-bit register\<close>

lemma bit_word_times_2: "bit (x * 2 :: 'a::len word) n \<longleftrightarrow> 0 < n \<and> n < LENGTH('a) \<and> bit x (n - 1)"
  using bit_double_iff [of x n] by (auto simp: mult.commute dest: bit_imp_le_length)

definition shift1 :: "u16 \<Rightarrow> u16" where
  "shift1 x = x * 2 XOR (if bit x 15 then 0x1021 else 0)"

lemma shift1_xor: "shift1 (x XOR y) = shift1 x XOR shift1 y"
  by (rule bit_word_eqI) (auto simp: shift1_def bit_xor_iff bit_word_times_2)

lemma shift1_0 [simp]: "shift1 0 = 0"
  by (simp add: shift1_def)

lemma bit_shift1: "bit (shift1 x) n \<longleftrightarrow> (bit (x * 2) n \<noteq> (bit x 15 \<and> bit (0x1021 :: u16) n))"
  by (simp add: shift1_def bit_xor_iff)

lemma shift1_eq_0: "shift1 x = 0 \<longleftrightarrow> x = 0"
proof
  assume z: "shift1 x = 0"
  have b0: "\<not> bit x 15"
    using z bit_shift1 [of x 0] by (auto simp: bit_word_times_2)
  show "x = 0"
  proof (rule bit_word_eqI)
    fix n assume n: "n < LENGTH(16)"
    show "bit x n = bit (0 :: u16) n"
    proof (cases "n = 15")
      case False
      then have "bit x n = bit (x * 2) (Suc n)"
        using n by (simp add: bit_word_times_2)
      also have "\<dots> = False"
        using z b0 bit_shift1 [of x "Suc n"] by simp
      finally show ?thesis by simp
    qed (use b0 in simp)
  qed
qed simp

lemma bit_0x10000: "bit (0x10000 :: int) n \<longleftrightarrow> n = 16"
proof -
  have "(0x10000 :: int) = 2 ^ 16" by simp
  then show ?thesis by (simp only: bit_exp_iff) (auto simp: possible_bit_def)
qed

lemma xor_cancel: "(a XOR b) XOR (b XOR c) = a XOR (c :: 'a::len word)"
  by (rule bit_word_eqI) (auto simp: bit_xor_iff)

text \<open>Doubling the 16-bit register inside a 32-bit variable: the bit shifted out stays, at 16.\<close>

lemma double_ucast: "(ucast s * 2 :: u32) = ucast (s * 2) XOR (if bit s 15 then 0x10000 else 0)"
  for s :: u16
proof (rule bit_word_eqI)
  fix n assume "n < LENGTH(32)"
  then show "bit (ucast s * 2 :: u32) n
      = bit (ucast (s * 2) XOR (if bit s 15 then 0x10000 else 0) :: u32) n"
    by (cases "n = 16")
      (auto simp: bit_unsigned_iff bit_xor_iff bit_word_times_2 bit_0x10000 dest: bit_imp_le_length)
qed

lemma double_and_top: "(ucast s * 2 :: u32) AND 0x10000 \<noteq> 0 \<longleftrightarrow> bit s 15" for s :: u16
proof -
  have "\<not> bit (ucast (s * 2) :: u32) 16"
    by (auto simp: bit_unsigned_iff dest: bit_imp_le_length)
  then have "(ucast s * 2 :: u32) AND 0x10000 = (if bit s 15 then 0x10000 else 0)"
    by (intro bit_word_eqI) (auto simp: double_ucast bit_and_iff bit_xor_iff bit_0x10000)
  then show ?thesis by simp
qed

lemma crc_bit_turn_shift1:
  "crc_bit_turn d i (ucast s) = ucast (shift1 (if d AND i \<noteq> 0 then s XOR 0x8000 else s))"
proof -
  have split: "(0x11021 :: u32) = 0x10000 XOR ucast (0x1021 :: u16)"
    and poly: "(0x1021 :: u32) = ucast (0x1021 :: u16)"
    by simp_all
  have top: "shift1 (0x8000 :: u16) = 0x1021"
    by (simp add: shift1_def)
  have "crc_bit_turn 0 0 (ucast s) = ucast (shift1 s)"
  proof (cases "bit s 15")
    case True
    have "ucast s * 2 XOR 0x11021 = (ucast (s * 2 XOR 0x1021) :: u32)"
      using True by (simp only: double_ucast split unsigned_xor_eq if_True xor_cancel)
    with True show ?thesis
      by (simp only: crc_bit_turn_def Let_def double_and_top shift1_def if_True) simp
  next
    case False
    then show ?thesis
      by (simp only: crc_bit_turn_def Let_def double_and_top shift1_def) (simp add: double_ucast)
  qed
  moreover have "crc_bit_turn d i (ucast s)
      = crc_bit_turn 0 0 (ucast s) XOR (if d AND i \<noteq> 0 then ucast (0x1021 :: u16) else 0)"
    by (simp only: crc_bit_turn_def Let_def poly) simp
  ultimately show ?thesis
    by (simp add: shift1_xor top unsigned_xor_eq)
qed

section \<open>A byte and a half byte at a time\<close>

definition shift8 :: "u16 \<Rightarrow> u16" where
  "shift8 x = shift1 (shift1 (shift1 (shift1 (shift1 (shift1 (shift1 (shift1 x)))))))"
definition shift4 :: "u16 \<Rightarrow> u16" where
  "shift4 x = shift1 (shift1 (shift1 (shift1 x)))"

definition bytesel :: "u8 \<Rightarrow> u8 \<Rightarrow> u16 \<Rightarrow> u16" where
  "bytesel d i x = (if d AND i \<noteq> 0 then x else 0)"

lemma shift1_bytesel: "shift1 (bytesel d i x) = bytesel d i (shift1 x)"
  by (simp add: bytesel_def)

lemma byte_split:
  "push_bit 8 (ucast d :: u16) =
     bytesel d 0x80 0x8000 XOR bytesel d 0x40 0x4000 XOR bytesel d 0x20 0x2000 XOR bytesel d 0x10 0x1000
     XOR bytesel d 0x08 0x0800 XOR bytesel d 0x04 0x0400 XOR bytesel d 0x02 0x0200 XOR bytesel d 0x01 0x0100"
  by (rule all_bytes) code_simp

lemma shift1_values:
  "shift1 0x4000 = 0x8000" "shift1 0x2000 = 0x4000" "shift1 0x1000 = 0x2000" "shift1 0x0800 = 0x1000"
  "shift1 0x0400 = 0x0800" "shift1 0x0200 = 0x0400" "shift1 0x0100 = 0x0200"
  by (simp_all add: shift1_def)

lemma crc_bit_loop_step:
  "i \<noteq> 0 \<Longrightarrow> crc_bit_loop d i (ucast s) = crc_bit_loop d (i div 2) (ucast (shift1 (s XOR bytesel d i 0x8000)))"
  by (subst crc_bit_loop.simps) (simp add: crc_bit_turn_shift1 bytesel_def)

lemma crc_bit_loop_steps:
  "crc_bit_loop d 0x80 (ucast s) = crc_bit_loop d 0x40 (ucast (shift1 (s XOR bytesel d 0x80 0x8000)))"
  "crc_bit_loop d 0x40 (ucast s) = crc_bit_loop d 0x20 (ucast (shift1 (s XOR bytesel d 0x40 0x8000)))"
  "crc_bit_loop d 0x20 (ucast s) = crc_bit_loop d 0x10 (ucast (shift1 (s XOR bytesel d 0x20 0x8000)))"
  "crc_bit_loop d 0x10 (ucast s) = crc_bit_loop d 0x08 (ucast (shift1 (s XOR bytesel d 0x10 0x8000)))"
  "crc_bit_loop d 0x08 (ucast s) = crc_bit_loop d 0x04 (ucast (shift1 (s XOR bytesel d 0x08 0x8000)))"
  "crc_bit_loop d 0x04 (ucast s) = crc_bit_loop d 0x02 (ucast (shift1 (s XOR bytesel d 0x04 0x8000)))"
  "crc_bit_loop d 0x02 (ucast s) = crc_bit_loop d 0x01 (ucast (shift1 (s XOR bytesel d 0x02 0x8000)))"
  "crc_bit_loop d 0x01 (ucast s) = crc_bit_loop d 0 (ucast (shift1 (s XOR bytesel d 0x01 0x8000)))"
  "crc_bit_loop d 0 c = c"
  by (subst crc_bit_loop.simps, simp add: crc_bit_turn_shift1 bytesel_def)+

lemma crc_bit_loop_byte: "crc_bit_loop d 0x80 (ucast s) = ucast (shift8 (s XOR push_bit 8 (ucast d)))"
  by (simp only: byte_split shift8_def crc_bit_loop_steps shift1_xor shift1_bytesel shift1_values xor.assoc)

lemma crc_ta_8_sum:
  "crc_ta_8 ! unat d = ucast
     (bytesel d 0x80 0x9188 XOR bytesel d 0x40 0x48c4 XOR bytesel d 0x20 0x2462 XOR bytesel d 0x10 0x1231
     XOR bytesel d 0x08 0x8108 XOR bytesel d 0x04 0x4084 XOR bytesel d 0x02 0x2042 XOR bytesel d 0x01 0x1021)"
  by (rule all_bytes) code_simp

lemma shift8_values:
  "shift1 0x1021 = 0x2042" "shift1 0x2042 = 0x4084" "shift1 0x4084 = 0x8108" "shift1 0x8108 = 0x1231"
  "shift1 0x1231 = 0x2462" "shift1 0x2462 = 0x48c4" "shift1 0x48c4 = 0x9188" "shift1 0x8000 = 0x1021"
  by (simp_all add: shift1_def)

lemma crc_ta_8_table: "crc_ta_8 ! unat (d :: u8) = ucast (shift8 (push_bit 8 (ucast d)))"
  by (simp only: crc_ta_8_sum byte_split shift8_def shift1_xor shift1_bytesel shift1_values shift8_values)

lemma crc_ta_4_table: "unat d < 16 \<Longrightarrow> crc_ta_4 ! unat (d :: u8) = ucast (shift4 (push_bit 12 (ucast d)))"
proof -
  have "list_all (\<lambda>n. n < 16 \<longrightarrow> crc_ta_4 ! n = ucast (shift4 (push_bit 12 (word_of_nat n)))) [0..<16]"
    by code_simp
  then show "unat d < 16 \<Longrightarrow> ?thesis"
    by (auto simp: list_all_iff)
qed


lemma shift4_shift8: "shift4 (shift4 x) = shift8 x"
  by (simp add: shift4_def shift8_def)

lemma shift8_xor: "shift8 (x XOR y) = shift8 x XOR shift8 y"
  by (simp only: shift8_def shift1_xor)

lemma shift4_xor: "shift4 (x XOR y) = shift4 x XOR shift4 y"
  by (simp only: shift4_def shift1_xor)

lemma shift8_eq_0: "shift8 x = 0 \<longleftrightarrow> x = 0"
  by (simp only: shift8_def shift1_eq_0)

lemma shift1_low: "\<not> bit x 15 \<Longrightarrow> shift1 x = push_bit 1 x"
  by (simp add: shift1_def)

lemma shift1_push_bit: "\<not> bit x (15 - k) \<Longrightarrow> k < 16 \<Longrightarrow> shift1 (push_bit k x) = push_bit (Suc k) x"
  by (rule bit_word_eqI) (auto simp: shift1_def bit_word_times_2 bit_push_bit_iff bit_xor_iff)

lemma shift8_low: "shift8 (ucast (b :: u8)) = push_bit 8 (ucast b)"
proof -
  have *: "\<not> bit (ucast b :: u16) (15 - k)" if "k < 8" for k
    using that by (auto simp: bit_unsigned_iff dest: bit_imp_le_length)
  have "shift1 (push_bit k (ucast b)) = push_bit (Suc k) (ucast b)" if "k < 8" for k
    using * [OF that] that by (intro shift1_push_bit) auto
  from this [of 0] this [of 1] this [of 2] this [of 3] this [of 4] this [of 5] this [of 6] this [of 7]
  show ?thesis
    by (simp add: shift8_def eval_nat_numeral del: push_bit_of_1)
qed


lemma u16_u32: "ucast (ucast x :: u32) = x" for x :: u16
  by (rule bit_word_eqI) (simp add: bit_unsigned_iff)

lemma split_byte: "crc = push_bit 8 (ucast (ucast (drop_bit 8 crc) :: u8)) XOR ucast (ucast crc :: u8)" for crc :: u16
  by (rule bit_word_eqI) (auto simp: bit_xor_iff bit_push_bit_iff bit_unsigned_iff bit_drop_bit_eq)

lemma crc_byte_turn_eq: "crc_byte_turn d crc = shift8 (crc XOR push_bit 8 (ucast d))"
proof -
  define hi lo :: u8 where "hi = ucast (drop_bit 8 crc)" and "lo = ucast crc"
  have c: "crc = push_bit 8 (ucast hi) XOR ucast lo"
    unfolding hi_def lo_def by (rule split_byte)
  have "crc div 256 = drop_bit 8 crc"
    by (simp add: drop_bit_eq_div)
  then have "(ucast (crc div 256) :: u32) = ucast hi"
    by (intro bit_word_eqI) (auto simp: hi_def bit_unsigned_iff bit_drop_bit_eq dest: bit_imp_le_length)
  then have idx: "unat ((ucast (crc div 256) :: u32) XOR ucast d) = unat (hi XOR d)"
    using unsigned_less [where 'a=nat, of "hi XOR d"]
    by (simp flip: unsigned_xor_eq add: unsigned_ucast_eq take_bit_nat_eq_self)
  have sh: "push_bit 8 (ucast lo) = push_bit 8 crc"
    by (rule bit_word_eqI) (auto simp: lo_def bit_push_bit_iff bit_unsigned_iff)
  have cd: "crc XOR push_bit 8 (ucast d) = push_bit 8 (ucast (hi XOR d)) XOR ucast lo"
    by (subst c) (simp add: unsigned_xor_eq push_bit_xor ac_simps)
  show ?thesis
    unfolding crc_byte_turn_def Let_def idx crc_ta_8_table cd shift8_xor shift8_low sh
    by (simp add: ac_simps u16_u32)
qed

definition half_turn :: "u8 \<Rightarrow> u16 \<Rightarrow> u16" where
  "half_turn n crc = push_bit 4 crc XOR ucast (crc_ta_4 ! unat ((ucast (crc div 4096) :: u8) XOR n))"

lemma shift4_low:
  assumes "\<And>k. 12 \<le> k \<Longrightarrow> \<not> bit x k"
  shows "shift4 x = push_bit 4 x"
proof -
  have "shift1 (push_bit k x) = push_bit (Suc k) x" if "k < 4" for k
    using assms that by (intro shift1_push_bit) auto
  from this [of 0] this [of 1] this [of 2] this [of 3] show ?thesis
    by (simp add: shift4_def eval_nat_numeral del: push_bit_of_1)
qed

lemma and_xor_distrib: "(x XOR y) AND m = (x AND m) XOR (y AND m)" for x :: "'a::len word"
  by (rule bit_word_eqI) (auto simp: bit_xor_iff bit_and_iff)

lemma lt16_iff: "unat w < 16 \<longleftrightarrow> w AND 0xf0 = 0" for w :: u8
  by (rule all_bytes) code_simp

lemma half_turn_eq:
  assumes "unat n < 16"
  shows "half_turn n crc = shift4 (crc XOR push_bit 12 (ucast n))"
proof -
  define hi :: u8 where "hi = ucast (drop_bit 12 crc)"
  define lo where "lo = take_bit 12 crc"
  have c: "crc = push_bit 12 (ucast hi) XOR lo"
    unfolding hi_def lo_def
    by (rule bit_word_eqI)
      (auto simp: bit_xor_iff bit_push_bit_iff bit_unsigned_iff bit_drop_bit_eq bit_take_bit_iff)
  have hi: "ucast (crc div 4096) = hi"
    by (simp add: hi_def drop_bit_eq_div)
  have "unat hi < 16"
    using unsigned_less [where 'a=nat, of crc]
    by (simp add: hi_def unsigned_ucast_eq take_bit_nat_eq_self unat_div drop_bit_eq_div)
  then have le: "unat (hi XOR n) < 16"
    using assms by (simp add: lt16_iff and_xor_distrib)
  have low: "shift4 lo = push_bit 4 lo"
    by (rule shift4_low) (auto simp: lo_def bit_take_bit_iff)
  have sh: "push_bit 4 lo = push_bit 4 crc"
    by (rule bit_word_eqI) (auto simp: lo_def bit_push_bit_iff bit_take_bit_iff)
  have cd: "crc XOR push_bit 12 (ucast n) = push_bit 12 (ucast (hi XOR n)) XOR lo"
    by (subst c) (simp add: unsigned_xor_eq push_bit_xor ac_simps)
  show ?thesis
    unfolding half_turn_def hi crc_ta_4_table [OF le] cd shift4_xor low sh
    by (simp add: ac_simps u16_u32)
qed

lemma crc_halfbyte_turn_eq: "crc_halfbyte_turn d crc = shift8 (crc XOR push_bit 8 (ucast d))"
proof -
  define a b where "a = d div 16" and "b = d AND 0x0f"
  have a_eq: "a = drop_bit 4 d" and b_eq: "b = take_bit 4 d"
    by (simp_all add: a_def b_def drop_bit_eq_div take_bit_eq_mask mask_eq_exp_minus_1)
  have ab: "unat a < 16" "unat b < 16"
    using unsigned_less [where 'a=nat, of d]
    by (simp_all add: a_def b_eq unat_div unsigned_take_bit_eq take_bit_eq_mod unat_mod)
  have d: "push_bit 8 (ucast d :: u16) = push_bit 12 (ucast a) XOR push_bit 8 (ucast b)"
    by (rule bit_word_eqI)
      (auto simp: a_eq b_eq bit_xor_iff bit_push_bit_iff bit_unsigned_iff bit_drop_bit_eq bit_take_bit_iff)
  have "\<not> bit b k" if "4 \<le> k" for k
    using that by (simp add: b_eq bit_take_bit_iff)
  then have b: "shift4 (push_bit 8 (ucast b)) = push_bit 12 (ucast b)"
    by (subst shift4_low) (auto simp: bit_push_bit_iff bit_unsigned_iff)
  have "crc_halfbyte_turn d crc = half_turn b (half_turn a crc)"
    by (simp add: crc_halfbyte_turn_def half_turn_def Let_def a_def b_def)
  also have "\<dots> = shift4 (shift4 (crc XOR push_bit 12 (ucast a)) XOR shift4 (push_bit 8 (ucast b)))"
    by (simp add: half_turn_eq ab b)
  also have "\<dots> = shift8 (crc XOR push_bit 8 (ucast d))"
    by (simp only: shift4_xor [symmetric] shift4_shift8 d xor.assoc)
  finally show ?thesis .
qed

fun crc_run :: "u16 \<Rightarrow> u8 list \<Rightarrow> u16" where
  "crc_run s [] = s"
| "crc_run s (d # ds) = crc_run (shift8 (s XOR push_bit 8 (ucast d))) ds"

lemma crc_cal_by_bit_run: "crc_cal_by_bit_from (ucast s) ptr = ucast (crc_run s ptr)"
  by (induction ptr arbitrary: s) (simp_all add: crc_bit_loop_byte)

lemma crc_fold_run:
  assumes "\<And>d s. turn d s = shift8 (s XOR push_bit 8 (ucast d))"
  shows "fold turn ptr s = crc_run s ptr"
  by (induction ptr arbitrary: s) (simp_all add: assms)

lemma crc16_run: "crc16_ccitt buf = crc_run 0 buf"
  using crc_cal_by_bit_run [of 0 buf] by (simp add: crc16_ccitt_def crc_cal_by_bit_def u16_u32)

lemma crc_cal_by_byte_eq: "crc_cal_by_byte ptr = crc_cal_by_bit ptr"
  using crc_cal_by_bit_run [of 0 ptr]
  by (simp add: crc_cal_by_byte_def crc_cal_by_bit_def crc_fold_run [OF crc_byte_turn_eq])

lemma crc_cal_by_halfbyte_eq: "crc_cal_by_halfbyte ptr = crc_cal_by_bit ptr"
  using crc_cal_by_bit_run [of 0 ptr]
  by (simp add: crc_cal_by_halfbyte_def crc_cal_by_bit_def crc_fold_run [OF crc_halfbyte_turn_eq])


section \<open>What the checksum detects\<close>

lemma crc_run_append: "crc_run s (xs @ ys) = crc_run (crc_run s xs) ys"
  by (induction xs arbitrary: s) simp_all

lemma xor_eq_0: "x XOR y = 0 \<longleftrightarrow> x = (y :: 'a::len word)"
  by (metis xor.assoc xor.right_neutral xor_self_eq)

lemma xor_inject: "x XOR a = y XOR a \<longleftrightarrow> x = (y :: 'a::len word)"
  by (metis xor.assoc xor.right_neutral xor_self_eq)

lemma shift8_inject: "shift8 x = shift8 y \<longleftrightarrow> x = y"
  using shift8_eq_0 [of "x XOR y"] by (simp add: shift8_xor xor_eq_0)

lemma crc_run_inject: "crc_run s xs = crc_run s' xs \<longleftrightarrow> s = s'"
  by (induction xs arbitrary: s s') (simp_all add: shift8_inject xor_inject)

lemma crc_run_two_inject:
  assumes "crc_run s [a, b] = crc_run s [c, d]"
  shows "a = c \<and> b = d"
proof -
  have low: "push_bit 8 (ucast x :: u16) = shift8 (ucast x)" for x :: u8
    by (simp add: shift8_low)
  have "shift8 (s XOR push_bit 8 (ucast a)) XOR push_bit 8 (ucast b)
      = shift8 s XOR shift8 (push_bit 8 (ucast a) XOR ucast b)" for a b :: u8
    unfolding shift8_xor shift8_low by (simp only: xor.assoc)
  with assms have "shift8 s XOR shift8 (push_bit 8 (ucast a) XOR ucast b)
      = shift8 s XOR shift8 (push_bit 8 (ucast c) XOR ucast d)"
    by (simp add: shift8_inject)
  then have e: "(push_bit 8 (ucast a) XOR ucast b :: u16) = push_bit 8 (ucast c) XOR ucast d"
    by (simp only: xor.commute [of "shift8 s"] xor_inject shift8_inject)
  have *: "bit b n = bit d n \<and> bit a n = bit c n" if "n < 8" for n
    using arg_cong [OF e, of "\<lambda>x. bit x n"] arg_cong [OF e, of "\<lambda>x. bit x (n + 8)"] that
    by (auto simp: bit_xor_iff bit_unsigned_iff bit_push_bit_iff dest: bit_imp_le_length)
  show ?thesis
    by (auto intro!: bit_word_eqI simp: *)
qed

lemma crc16_burst:
  "crc16_ccitt (pre @ [a, b] @ post) = crc16_ccitt (pre @ [c, d] @ post) \<longleftrightarrow> a = c \<and> b = d"
  using crc_run_two_inject [of "crc_run 0 pre" a b c d]
  by (auto simp only: crc16_run crc_run_append crc_run_inject)

section \<open>Properties\<close>

text \<open>C37: The three routines of \<^verbatim>\<open>crc.c\<close> compute the same function: the checksum by the byte table
  and the checksum by the half-byte table are the checksum bit by bit, for every message.\<close>

theorem crc_routines_agree:
  "crc_cal_by_byte ptr = crc_cal_by_bit ptr \<and> crc_cal_by_halfbyte ptr = crc_cal_by_bit ptr"
  by (simp add: crc_cal_by_byte_eq crc_cal_by_halfbyte_eq)

text \<open>C39: Burst detection: two messages that differ only inside two adjacent bytes never have the same
  checksum, so \<^verbatim>\<open>crc16_ccitt\<close> detects every error confined to such a window, wherever it is.\<close>

theorem crc16_detects_bursts:
  "crc16_ccitt (pre @ [a, b] @ post) = crc16_ccitt (pre @ [c, d] @ post) \<longleftrightarrow> a = c \<and> b = d"
  by (rule crc16_burst)

end
