(* ===== verification/Messages.thy ===== *)
theory Messages
  imports Crc
begin

text \<open>
  The wire formats of \<^verbatim>\<open>zc_protocol_interface.h\<close> and the functions of \<^verbatim>\<open>zc_cloud_event.c\<close> that
  build messages and build and parse option lists, with \<^verbatim>\<open>PCT_CheckCrc\<close> of
  \<^verbatim>\<open>zc_protocol_controller.c\<close> that checks them.  A structure is a record whose \<open>u16\<close> and \<open>u32\<close>
  fields hold the value as it is stored, so the network byte order is visible as \<^const>\<open>ZC_HTONS\<close>;
  \<open>put_\<close> and \<open>get_\<close> functions are its bytes in memory.  The functions write into \<^verbatim>\<open>pu8Msg\<close>, the bytes
  from the pointer to the end of its object.
\<close>

section \<open>Constants\<close>

abbreviation (input) ZC_VERSION :: u8 where "ZC_VERSION \<equiv> 1"
abbreviation (input) ZC_HS_MSG_LEN :: nat where "ZC_HS_MSG_LEN \<equiv> 32"
abbreviation (input) ZC_HS_DEVICE_ID_LEN :: nat where "ZC_HS_DEVICE_ID_LEN \<equiv> 16"
abbreviation (input) ZC_HS_SESSION_KEY_LEN :: nat where "ZC_HS_SESSION_KEY_LEN \<equiv> 16"
abbreviation (input) ZC_DOMAIN_LEN :: nat where "ZC_DOMAIN_LEN \<equiv> 8"
abbreviation (input) ZC_EQVERSION_LEN :: nat where "ZC_EQVERSION_LEN \<equiv> 4"
abbreviation (input) ZC_MODULE_KEY_LEN :: nat where "ZC_MODULE_KEY_LEN \<equiv> 112"
abbreviation (input) ZC_OTA_MAX_CHUNK_LEN :: u32 where "ZC_OTA_MAX_CHUNK_LEN \<equiv> 384"

abbreviation (input) ZC_SEC_ALG_NONE :: u8 where "ZC_SEC_ALG_NONE \<equiv> 0"
abbreviation (input) ZC_SEC_ALG_RSA :: u8 where "ZC_SEC_ALG_RSA \<equiv> 1"
abbreviation (input) ZC_SEC_ALG_AES :: u8 where "ZC_SEC_ALG_AES \<equiv> 2"

abbreviation (input) ZC_CODE_EQ_BEGIN :: u8 where "ZC_CODE_EQ_BEGIN \<equiv> 0"
abbreviation (input) ZC_CODE_EQ_DONE :: u8 where "ZC_CODE_EQ_DONE \<equiv> 1"
abbreviation (input) ZC_CODE_WIFI_CONNECTED :: u8 where "ZC_CODE_WIFI_CONNECTED \<equiv> 2"
abbreviation (input) ZC_CODE_WIFI_DISCONNECTED :: u8 where "ZC_CODE_WIFI_DISCONNECTED \<equiv> 3"
abbreviation (input) ZC_CODE_CLOUD_CONNECTED :: u8 where "ZC_CODE_CLOUD_CONNECTED \<equiv> 4"
abbreviation (input) ZC_CODE_CLOUD_DISCONNECTED :: u8 where "ZC_CODE_CLOUD_DISCONNECTED \<equiv> 5"
abbreviation (input) ZC_CODE_CONFIG :: u8 where "ZC_CODE_CONFIG \<equiv> 6"
abbreviation (input) ZC_CODE_REGSITER :: u8 where "ZC_CODE_REGSITER \<equiv> 7"
abbreviation (input) ZC_CODE_REST :: u8 where "ZC_CODE_REST \<equiv> 8"
abbreviation (input) ZC_CODE_HANDSHAKE_1 :: u8 where "ZC_CODE_HANDSHAKE_1 \<equiv> 9"
abbreviation (input) ZC_CODE_HANDSHAKE_2 :: u8 where "ZC_CODE_HANDSHAKE_2 \<equiv> 10"
abbreviation (input) ZC_CODE_HANDSHAKE_3 :: u8 where "ZC_CODE_HANDSHAKE_3 \<equiv> 11"
abbreviation (input) ZC_CODE_HANDSHAKE_4 :: u8 where "ZC_CODE_HANDSHAKE_4 \<equiv> 12"
abbreviation (input) ZC_CODE_HEARTBEAT :: u8 where "ZC_CODE_HEARTBEAT \<equiv> 13"
abbreviation (input) ZC_CODE_EMPTY :: u8 where "ZC_CODE_EMPTY \<equiv> 14"
abbreviation (input) ZC_CODE_ACK :: u8 where "ZC_CODE_ACK \<equiv> 15"
abbreviation (input) ZC_CODE_ERR :: u8 where "ZC_CODE_ERR \<equiv> 16"
abbreviation (input) ZC_CODE_OTA_BEGIN :: u8 where "ZC_CODE_OTA_BEGIN \<equiv> 17"
abbreviation (input) ZC_CODE_OTA_FILE_BEGIN :: u8 where "ZC_CODE_OTA_FILE_BEGIN \<equiv> 18"
abbreviation (input) ZC_CODE_OTA_FILE_CHUNK :: u8 where "ZC_CODE_OTA_FILE_CHUNK \<equiv> 19"
abbreviation (input) ZC_CODE_OTA_FILE_END :: u8 where "ZC_CODE_OTA_FILE_END \<equiv> 20"
abbreviation (input) ZC_CODE_OTA_END :: u8 where "ZC_CODE_OTA_END \<equiv> 21"
abbreviation (input) ZC_CODE_ZOTA_BEGIN :: u8 where "ZC_CODE_ZOTA_BEGIN \<equiv> 22"
abbreviation (input) ZC_CODE_ZOTA_FILE_BEGIN :: u8 where "ZC_CODE_ZOTA_FILE_BEGIN \<equiv> 23"
abbreviation (input) ZC_CODE_ZOTA_FILE_CHUNK :: u8 where "ZC_CODE_ZOTA_FILE_CHUNK \<equiv> 24"
abbreviation (input) ZC_CODE_ZOTA_FILE_END :: u8 where "ZC_CODE_ZOTA_FILE_END \<equiv> 25"
abbreviation (input) ZC_CODE_ZOTA_END :: u8 where "ZC_CODE_ZOTA_END \<equiv> 26"
abbreviation (input) ZC_CODE_BC_INFO :: u8 where "ZC_CODE_BC_INFO \<equiv> 27"
abbreviation (input) ZC_CODE_CLIENT_ACCESS_REQ :: u8 where "ZC_CODE_CLIENT_ACCESS_REQ \<equiv> 28"
abbreviation (input) ZC_CODE_CLIENT_ACCESS_RSP :: u8 where "ZC_CODE_CLIENT_ACCESS_RSP \<equiv> 29"
abbreviation (input) ZC_CODE_CLIENT_QUERY_REQ :: u8 where "ZC_CODE_CLIENT_QUERY_REQ \<equiv> 30"
abbreviation (input) ZC_CODE_CLIENT_QUERY_RSP :: u8 where "ZC_CODE_CLIENT_QUERY_RSP \<equiv> 31"
abbreviation (input) ZC_CODE_TOKEN_SET :: u8 where "ZC_CODE_TOKEN_SET \<equiv> 32"
abbreviation (input) ZC_CODE_ACCESS_POINT_RSP :: u8 where "ZC_CODE_ACCESS_POINT_RSP \<equiv> 33"
abbreviation (input) ZC_CODE_RESET_NETWORK :: u8 where "ZC_CODE_RESET_NETWORK \<equiv> 34"

abbreviation (input) ZC_OPT_TRANSPORT :: u16 where "ZC_OPT_TRANSPORT \<equiv> 0"
abbreviation (input) ZC_OPT_SSESSION :: u16 where "ZC_OPT_SSESSION \<equiv> 1"

section \<open>Structures\<close>

record ZC_SecHead =
  u16TotalMsg :: u16
  u8SecType :: u8
  u8Resver :: u8

definition put_SecHead :: "ZC_SecHead \<Rightarrow> u8 list" where
  "put_SecHead h = bytes16 (u16TotalMsg h) @ [u8SecType h, u8Resver h]"

definition get_SecHead :: "u8 list \<Rightarrow> ZC_SecHead" where
  "get_SecHead b = \<lparr>u16TotalMsg = le16 b, u8SecType = b ! 2, u8Resver = b ! 3\<rparr>"

record ZC_MessageHead =
  Version :: u8
  MsgId :: u8
  MsgCode :: u8
  OptNum :: u8
  Payloadlen :: u16
  TotalMsgCrc :: "u8 list"

definition put_MessageHead :: "ZC_MessageHead \<Rightarrow> u8 list" where
  "put_MessageHead h =
     [Version h, MsgId h, MsgCode h, OptNum h] @ bytes16 (Payloadlen h) @ TotalMsgCrc h"

definition get_MessageHead :: "u8 list \<Rightarrow> ZC_MessageHead" where
  "get_MessageHead b =
     \<lparr>Version = b ! 0, MsgId = b ! 1, MsgCode = b ! 2, OptNum = b ! 3,
      Payloadlen = le16 (drop 4 b), TotalMsgCrc = take 2 (drop 6 b)\<rparr>"

record ZC_MessageOptHead =
  OptCode :: u16
  OptLen :: u16

definition put_MessageOptHead :: "ZC_MessageOptHead \<Rightarrow> u8 list" where
  "put_MessageOptHead h = bytes16 (OptCode h) @ bytes16 (OptLen h)"

definition get_MessageOptHead :: "u8 list \<Rightarrow> ZC_MessageOptHead" where
  "get_MessageOptHead b = \<lparr>OptCode = le16 b, OptLen = le16 (drop 2 b)\<rparr>"

text \<open>The two pointers of an option list, \<open>None\<close> for \<^verbatim>\<open>NULL\<close>.\<close>

record ZC_OptList =
  pstruTransportInfo :: "u8 list option"
  pstruSsession :: "u8 list option"

lemma length_put_SecHead [simp]: "length (put_SecHead h) = 4"
  by (simp add: put_SecHead_def)

lemma length_put_MessageHead [simp]:
  "length (TotalMsgCrc h) = 2 \<Longrightarrow> length (put_MessageHead h) = 8"
  by (simp add: put_MessageHead_def)

lemma length_put_MessageOptHead [simp]: "length (put_MessageOptHead h) = 4"
  by (simp add: put_MessageOptHead_def)

lemma get_put_SecHead [simp]: "get_SecHead (put_SecHead h @ b) = h"
  by (simp add: get_SecHead_def put_SecHead_def nth_append)

lemma get_put_MessageHead [simp]:
  "length (TotalMsgCrc h) = 2 \<Longrightarrow> get_MessageHead (put_MessageHead h @ b) = h"
  by (simp add: get_MessageHead_def put_MessageHead_def nth_append)

lemma get_put_MessageOptHead [simp]: "get_MessageOptHead (put_MessageOptHead h @ b) = h"
  by (simp add: get_MessageOptHead_def put_MessageOptHead_def)

section \<open>Building messages\<close>

text \<open>The two bytes of \<^verbatim>\<open>TotalMsgCrc\<close>: the high byte first.\<close>

definition crc_bytes :: "u16 \<Rightarrow> u8 list" where
  "crc_bytes crc = [ucast (drop_bit 8 (crc AND 0xff00)), ucast (crc AND 0xff)]"

definition EVENT_BuildEmptyMsg :: "u8 \<Rightarrow> u8 list \<Rightarrow> (u8 list \<times> u16) option" where
  "EVENT_BuildEmptyMsg u8MsgId pu8Msg = do {
     let crc = crc16_ccitt [];
     buf \<leftarrow> wr pu8Msg 0 (put_MessageHead
       \<lparr>Version = ZC_VERSION, MsgId = u8MsgId, MsgCode = ZC_CODE_EMPTY, OptNum = 0, Payloadlen = 0,
        TotalMsgCrc = crc_bytes crc\<rparr>);
     Some (buf, 8)
   }"

definition EVENT_BuildHeartMsg :: "u8 list \<Rightarrow> (u8 list \<times> u16) option" where
  "EVENT_BuildHeartMsg pu8Msg = do {
     let crc = crc16_ccitt [];
     buf \<leftarrow> wr pu8Msg 0 (put_MessageHead
       \<lparr>Version = ZC_VERSION, MsgId = 0, MsgCode = ZC_CODE_HEARTBEAT, OptNum = 0, Payloadlen = 0,
        TotalMsgCrc = crc_bytes crc\<rparr>);
     Some (buf, 8)
   }"

text \<open>The payload is read at its pointer (no byte of it when \<^verbatim>\<open>u16PayloadLen\<close> is 0, as for \<^verbatim>\<open>NULL\<close>).\<close>

definition EVENT_BuildMsg ::
  "u8 \<Rightarrow> u8 \<Rightarrow> u8 list \<Rightarrow> u8 list \<Rightarrow> u16 \<Rightarrow> (u8 list \<times> u16) option" where
  "EVENT_BuildMsg u8MsgCode u8MsgId pu8Msg pu8Payload u16PayloadLen = do {
     payload \<leftarrow> rd pu8Payload 0 (unat u16PayloadLen);
     let crc = crc16_ccitt payload;
     buf \<leftarrow> wr pu8Msg 0 (put_MessageHead
       \<lparr>Version = ZC_VERSION, MsgId = u8MsgId, MsgCode = u8MsgCode, OptNum = 0,
        Payloadlen = ZC_HTONS u16PayloadLen, TotalMsgCrc = crc_bytes crc\<rparr>);
     buf \<leftarrow> wr buf 8 payload;
     Some (buf, 8 + u16PayloadLen)
   }"

section \<open>Options\<close>

fun EVENT_ParseOption_loop :: "nat \<Rightarrow> u8 list \<Rightarrow> ZC_OptList \<Rightarrow> u16 \<Rightarrow> (ZC_OptList \<times> u16) option" where
  "EVENT_ParseOption_loop 0 pstruOptHead optlist optlen = Some (optlist, optlen)"
| "EVENT_ParseOption_loop (Suc n) pstruOptHead optlist optlen = do {
     b \<leftarrow> rd pstruOptHead 0 4;
     let h = get_MessageOptHead b;
     let optlist = (if ZC_HTONS (OptCode h) = ZC_OPT_TRANSPORT
                    then optlist\<lparr>pstruTransportInfo := Some (drop 4 pstruOptHead)\<rparr>
                    else if ZC_HTONS (OptCode h) = ZC_OPT_SSESSION
                    then optlist\<lparr>pstruSsession := Some (drop 4 pstruOptHead)\<rparr>
                    else optlist);
     EVENT_ParseOption_loop n (drop (4 + unat (ZC_HTONS (OptLen h))) pstruOptHead) optlist
       (optlen + 4 + ZC_HTONS (OptLen h))
   }"

definition EVENT_ParseOption :: "u8 list \<Rightarrow> ZC_OptList \<Rightarrow> (ZC_OptList \<times> u16) option" where
  "EVENT_ParseOption pstruMsg optlist = do {
     optnum \<leftarrow> rd1 pstruMsg 3;
     EVENT_ParseOption_loop (unat optnum) (drop 8 pstruMsg) optlist 0
   }"

text \<open>
  \<^verbatim>\<open>EVENT_BuildOption\<close>: the counter \<^verbatim>\<open>u16OptLen\<close> is a \<^verbatim>\<open>u8\<close>, and the session option is written at the
  start of the buffer even when a transport option is already there.  The result is the buffer, the
  number of options and their length.
\<close>

definition EVENT_BuildOption :: "ZC_OptList option \<Rightarrow> u8 list \<Rightarrow> (u8 list \<times> u8 \<times> u16) option" where
  "EVENT_BuildOption pstruOptList pu8Buffer =
     (case pstruOptList of
        None \<Rightarrow> Some (pu8Buffer, 0, 0)
      | Some optlist \<Rightarrow> do {
          (buf, optnum, optlen) \<leftarrow>
            (case pstruTransportInfo optlist of
               None \<Rightarrow> Some (pu8Buffer, 0 :: u8, 0 :: u8)
             | Some p \<Rightarrow> do {
                 buf \<leftarrow> wr pu8Buffer 0 (put_MessageOptHead
                         \<lparr>OptCode = ZC_HTONS ZC_OPT_TRANSPORT, OptLen = ZC_HTONS 16\<rparr>);
                 d \<leftarrow> rd p 0 16;
                 buf \<leftarrow> wr buf 4 d;
                 Some (buf, 1, 20)
               });
          (buf, optnum, optlen) \<leftarrow>
            (case pstruSsession optlist of
               None \<Rightarrow> Some (buf, optnum, optlen)
             | Some p \<Rightarrow> do {
                 buf \<leftarrow> wr buf 0 (put_MessageOptHead
                         \<lparr>OptCode = ZC_HTONS ZC_OPT_SSESSION, OptLen = ZC_HTONS 4\<rparr>);
                 d \<leftarrow> rd p 0 4;
                 buf \<leftarrow> wr buf 4 d;
                 Some (buf, optnum + 1, optlen + 8)
               });
          Some (buf, optnum, ucast optlen)
        })"

section \<open>Checking a message\<close>

definition PCT_CheckCrc :: "u8 list \<Rightarrow> u8 list \<Rightarrow> u16 \<Rightarrow> u32 option" where
  "PCT_CheckCrc pu8Crc pu8Data u16Len = do {
     d \<leftarrow> rd pu8Data 0 (unat u16Len);
     hi \<leftarrow> rd1 pu8Crc 0;
     lo \<leftarrow> rd1 pu8Crc 1;
     let u16RecvCrc = push_bit 8 (ucast hi) + ucast lo;
     Some (if crc16_ccitt d = u16RecvCrc then ZC_RET_OK else ZC_RET_ERROR)
   }"

section \<open>Messages as bytes\<close>

lemma length_crc_bytes [simp]: "length (crc_bytes c) = 2"
  by (simp add: crc_bytes_def)

lemma bit_255: "bit (255 :: int) n \<longleftrightarrow> n < 8"
  using bit_mask_iff [of 8 n, where 'a=int] by (simp add: mask_eq_exp_minus_1)

lemma crc_bytes_eq: "crc_bytes c = [hi, lo] \<longleftrightarrow> c = push_bit 8 (ucast hi) + ucast lo"
proof -
  have c: "crc_bytes c = [hi, lo] \<longleftrightarrow> hi = ucast (drop_bit 8 c) \<and> lo = ucast c" for hi lo
    unfolding crc_bytes_def by (intro arg_cong2 [where f="(\<and>)"] conj_cong iffI conjI refl)
      (auto intro!: bit_word_eqI simp: bit_simps bit_and_iff bit_255)
  have sum: "push_bit 8 (ucast hi) + ucast lo = (push_bit 8 (ucast hi) OR ucast lo :: u16)"
    by (intro disjunctive_add) (auto simp: bit_push_bit_iff bit_unsigned_iff dest: bit_imp_le_length)
  show ?thesis
    unfolding c sum
  proof (intro iffI conjI; (elim conjE)?)
    assume "hi = ucast (drop_bit 8 c)" "lo = ucast c"
    then show "c = push_bit 8 (ucast hi) OR ucast lo"
      by (intro bit_word_eqI)
        (auto simp: bit_or_iff bit_push_bit_iff bit_unsigned_iff bit_drop_bit_eq)
  next
    assume "c = push_bit 8 (ucast hi) OR ucast lo"
    then show "hi = ucast (drop_bit 8 c)" "lo = ucast c"
      by (auto intro!: bit_word_eqI simp: bit_simps) (auto dest: bit_imp_le_length)
  qed
qed

lemma crc_bytes_inject: "crc_bytes c = crc_bytes c' \<longleftrightarrow> c = c'"
  by (metis crc_bytes_eq crc_bytes_def)

text \<open>The message the build functions leave at the start of the buffer.\<close>

definition message_head :: "u8 \<Rightarrow> u8 \<Rightarrow> u8 list \<Rightarrow> ZC_MessageHead" where
  "message_head code i payload =
     \<lparr>Version = ZC_VERSION, MsgId = i, MsgCode = code, OptNum = 0,
      Payloadlen = ZC_HTONS (word_of_nat (length payload)),
      TotalMsgCrc = crc_bytes (crc16_ccitt payload)\<rparr>"

definition message :: "u8 \<Rightarrow> u8 \<Rightarrow> u8 list \<Rightarrow> u8 list" where
  "message code i payload = put_MessageHead (message_head code i payload) @ payload"

lemma length_message [simp]: "length (message code i payload) = 8 + length payload"
  by (simp add: message_def message_head_def)

lemma EVENT_BuildMsg_message:
  assumes "unat n \<le> length p" "8 + unat n \<le> length buf"
  shows "EVENT_BuildMsg code i buf p n
    = Some (message code i (take (unat n) p) @ drop (8 + unat n) buf, 8 + n)"
proof -
  define h where "h = message_head code i (take (unat n) p)"
  have l: "length (put_MessageHead h) = 8"
    by (simp add: h_def message_head_def)
  have h: "h = \<lparr>Version = ZC_VERSION, MsgId = i, MsgCode = code, OptNum = 0,
      Payloadlen = ZC_HTONS n, TotalMsgCrc = crc_bytes (crc16_ccitt (take (unat n) p))\<rparr>"
    using assms(1) by (simp add: h_def message_head_def min_def)
  have "wr (put_MessageHead h @ drop 8 buf) 8 (take (unat n) p)
      = Some (put_MessageHead h @ take (unat n) p @ drop (8 + unat n) buf)"
    using wr_behind [of "put_MessageHead h" "take (unat n) p" buf] assms l
    by (simp add: min_def)
  with assms l show ?thesis
    by (simp add: EVENT_BuildMsg_def Let_def rd_def wr_prefix message_def flip: h h_def)
qed

lemma EVENT_BuildMsg_None:
  "\<not> (unat n \<le> length p \<and> 8 + unat n \<le> length buf) \<Longrightarrow> EVENT_BuildMsg code i buf p n = None"
  by (auto simp: EVENT_BuildMsg_def Let_def rd_def wr_def min_def split: bind_splits)

lemma EVENT_BuildEmptyMsg_message:
  "8 \<le> length buf \<Longrightarrow> EVENT_BuildEmptyMsg i buf = Some (message ZC_CODE_EMPTY i [] @ drop 8 buf, 8)"
  by (simp add: EVENT_BuildEmptyMsg_def message_def message_head_def wr_prefix ZC_HTONS_def)

lemma EVENT_BuildHeartMsg_message:
  "8 \<le> length buf \<Longrightarrow> EVENT_BuildHeartMsg buf = Some (message ZC_CODE_HEARTBEAT 0 [] @ drop 8 buf, 8)"
  by (simp add: EVENT_BuildHeartMsg_def message_def message_head_def wr_prefix ZC_HTONS_def)

lemma get_MessageHead_message [simp]:
  "get_MessageHead (message code i payload @ b) = message_head code i payload"
  by (simp add: message_def message_head_def)

lemma drop_message [simp]: "drop 8 (message code i payload @ b) = payload @ b"
  by (simp add: message_def message_head_def)

lemma drop_message_all [simp]: "drop 8 (message code i payload) = payload"
  using drop_message [of code i payload "[]"] by simp

lemma PCT_CheckCrc_eq:
  assumes "length crc = 2" "unat n \<le> length d"
  shows "PCT_CheckCrc crc d n =
     Some (if crc_bytes (crc16_ccitt (take (unat n) d)) = crc then ZC_RET_OK else ZC_RET_ERROR)"
  using assms
  by (auto elim!: length_2E simp: PCT_CheckCrc_def rd_Some Let_def crc_bytes_eq)

section \<open>Options as bytes\<close>

definition option_bytes :: "u16 \<Rightarrow> u8 list \<Rightarrow> u8 list" where
  "option_bytes code d = put_MessageOptHead
     \<lparr>OptCode = ZC_HTONS code, OptLen = ZC_HTONS (word_of_nat (length d))\<rparr> @ d"

lemma length_option_bytes [simp]: "length (option_bytes code d) = 4 + length d"
  by (simp add: option_bytes_def)

lemma EVENT_BuildOption_transport:
  assumes "16 \<le> length p" "20 \<le> length buf"
  shows "EVENT_BuildOption (Some \<lparr>pstruTransportInfo = Some p, pstruSsession = None\<rparr>) buf
    = Some (option_bytes ZC_OPT_TRANSPORT (take 16 p) @ drop 20 buf, 1, 20)"
  using assms wr_behind [of "put_MessageOptHead h" "take 16 p" buf for h]
  by (simp add: EVENT_BuildOption_def option_bytes_def wr_prefix rd_Some min_def)

lemma EVENT_BuildOption_session:
  assumes "4 \<le> length p" "8 \<le> length buf"
  shows "EVENT_BuildOption (Some \<lparr>pstruTransportInfo = None, pstruSsession = Some p\<rparr>) buf
    = Some (option_bytes ZC_OPT_SSESSION (take 4 p) @ drop 8 buf, 1, 8)"
  using assms wr_behind [of "put_MessageOptHead h" "take 4 p" buf for h]
  by (simp add: EVENT_BuildOption_def option_bytes_def wr_prefix rd_Some min_def)

text \<open>With both options the session option overwrites the head of the transport option.\<close>

lemma EVENT_BuildOption_both:
  assumes "16 \<le> length p" "4 \<le> length q" "20 \<le> length buf"
  shows "EVENT_BuildOption (Some \<lparr>pstruTransportInfo = Some p, pstruSsession = Some q\<rparr>) buf
    = Some (option_bytes ZC_OPT_SSESSION (take 4 q) @ drop 4 (take 16 p) @ drop 20 buf, 2, 28)"
proof -
  let ?h = "put_MessageOptHead \<lparr>OptCode = ZC_HTONS 0, OptLen = ZC_HTONS 16\<rparr>"
  let ?k = "put_MessageOptHead \<lparr>OptCode = ZC_HTONS 1, OptLen = ZC_HTONS 4\<rparr>"
  have "wr (?h @ drop 4 buf) 4 (take 16 p) = Some (?h @ take 16 p @ drop 20 buf)"
    using assms wr_behind [of ?h "take 16 p" buf] by (simp add: min_def)
  moreover have "wr (?h @ take 16 p @ drop 20 buf) 0 ?k = Some (?k @ take 16 p @ drop 20 buf)"
    by (rule wr_append) simp
  moreover have "wr (?k @ take 16 p @ drop 20 buf) 4 (take 4 q)
      = Some (?k @ take 4 q @ drop 4 (take 16 p) @ drop 20 buf)"
    using assms by (simp add: wr_def)
  ultimately show ?thesis
    using assms by (simp add: EVENT_BuildOption_def option_bytes_def wr_prefix rd_Some min_def)
qed

lemma EVENT_ParseOption_one:
  assumes "length d < 2 ^ 16"
  shows "EVENT_ParseOption_loop (Suc n) (option_bytes code d @ rest) l k =
    EVENT_ParseOption_loop n rest
      (if code = ZC_OPT_TRANSPORT then l\<lparr>pstruTransportInfo := Some (d @ rest)\<rparr>
       else if code = ZC_OPT_SSESSION then l\<lparr>pstruSsession := Some (d @ rest)\<rparr> else l)
      (k + 4 + word_of_nat (length d))"
  using assms get_put_MessageOptHead [where b="[]"]
  by (simp add: option_bytes_def Let_def unat_of_nat_small)

lemma EVENT_ParseOption_single:
  assumes "length msg = 8" "msg ! 3 = 1" "length d < 2 ^ 16"
  shows "EVENT_ParseOption (msg @ option_bytes code d @ rest) l =
    Some (if code = ZC_OPT_TRANSPORT then l\<lparr>pstruTransportInfo := Some (d @ rest)\<rparr>
       else if code = ZC_OPT_SSESSION then l\<lparr>pstruSsession := Some (d @ rest)\<rparr> else l,
      4 + word_of_nat (length d))"
  using assms EVENT_ParseOption_one [of d 0 code rest l 0]
  by (simp add: EVENT_ParseOption_def rd1_def nth_append del: EVENT_ParseOption_loop.simps(2))

section \<open>Properties\<close>

text \<open>C14: \<^verbatim>\<open>EVENT_BuildMsg\<close> and \<^verbatim>\<open>PCT_CheckCrc\<close> fit together: with enough room for the 8 bytes of head and
  the payload, the message built carries the code, the identifier and the length it was given in
  network order, its payload is the caller's, the rest of the buffer is unchanged, the length
  returned is that of the message and the receiver's check accepts it.\<close>

theorem EVENT_BuildMsg_accepted:
  assumes "unat n \<le> length p" "8 + unat n \<le> length buf"
  shows "\<exists>m h. EVENT_BuildMsg code i buf p n = Some (m, 8 + n) \<and> h = get_MessageHead m
    \<and> MsgCode h = code \<and> MsgId h = i \<and> Version h = ZC_VERSION \<and> OptNum h = 0
    \<and> ZC_HTONS (Payloadlen h) = n
    \<and> take (unat n) (drop 8 m) = take (unat n) p \<and> drop (8 + unat n) m = drop (8 + unat n) buf
    \<and> PCT_CheckCrc (TotalMsgCrc h) (drop 8 m) (ZC_HTONS (Payloadlen h)) = Some ZC_RET_OK"
  unfolding EVENT_BuildMsg_message [OF assms]
  using assms by (simp add: message_head_def PCT_CheckCrc_eq min_def)

theorem EVENT_BuildMsg_accepted_witness:
  "\<exists>m. EVENT_BuildMsg ZC_CODE_ACK 7 (replicate 20 0) [1, 2, 3] 3 = Some (m, 11)
    \<and> PCT_CheckCrc (TotalMsgCrc (get_MessageHead m)) (drop 8 m) 3 = Some ZC_RET_OK"
  using EVENT_BuildMsg_accepted [of 3 "[1, 2, 3]" "replicate 20 0" ZC_CODE_ACK 7] by auto

text \<open>C38: The check of a received message rejects it whenever its payload differs from the one sent only
  inside two adjacent bytes (and only then): no burst of up to sixteen wrong bits inside them passes.\<close>

theorem PCT_CheckCrc_detects_bursts:
  assumes "EVENT_BuildMsg code i buf (pre @ [a, b] @ post) n = Some (m, len)"
    "unat n = length (pre @ [a, b] @ post)"
  shows "PCT_CheckCrc (TotalMsgCrc (get_MessageHead m)) (pre @ [c, d] @ post) n
    = Some (if a = c \<and> b = d then ZC_RET_OK else ZC_RET_ERROR)"
proof -
  have "8 + unat n \<le> length buf"
    using assms EVENT_BuildMsg_None [of n "pre @ [a, b] @ post" buf code i] by fastforce
  then have "m = message code i (pre @ [a, b] @ post) @ drop (8 + unat n) buf"
    using assms EVENT_BuildMsg_message [of n "pre @ [a, b] @ post" buf code i] by simp
  then have "TotalMsgCrc (get_MessageHead m) = crc_bytes (crc16_ccitt (pre @ [a, b] @ post))"
    by (simp add: message_head_def)
  with assms(2) show ?thesis
    using crc16_burst [of pre a b post c d]
    by (subst PCT_CheckCrc_eq) (auto simp: crc_bytes_inject)
qed

theorem PCT_CheckCrc_detects_bursts_witness:
  "\<exists>m. EVENT_BuildMsg 3 1 (replicate 20 0) [9, 8, 7, 6] 4 = Some (m, 12)
     \<and> PCT_CheckCrc (TotalMsgCrc (get_MessageHead m)) [9, 8, 5, 6] 4 = Some ZC_RET_ERROR"
  using PCT_CheckCrc_detects_bursts [of 3 1 "replicate 20 0" "[9]" 8 7 "[6]" 4 _ _ 8 5]
    EVENT_BuildMsg_message [of 4 "[9, 8, 7, 6]" "replicate 20 0" 3 1]
  by simp

text \<open>C36: Options survive the trip: what \<^verbatim>\<open>EVENT_BuildOption\<close> writes for a transport option or for a
  session option, behind a message head that announces the number of options it returned, is what
  \<^verbatim>\<open>EVENT_ParseOption\<close> finds, and both agree on the length of the options.\<close>

theorem EVENT_option_roundtrip:
  assumes "opts = \<lparr>pstruTransportInfo = Some p, pstruSsession = None\<rparr> \<and> 16 \<le> length p
     \<or> opts = \<lparr>pstruTransportInfo = None, pstruSsession = Some q\<rparr> \<and> 4 \<le> length q"
    and "20 \<le> length buf" "length msg = 8"
    and "EVENT_BuildOption (Some opts) buf = Some (buf', num, len)" "msg ! 3 = num"
  shows "\<exists>l. EVENT_ParseOption (msg @ buf') \<lparr>pstruTransportInfo = None, pstruSsession = None\<rparr> = Some (l, len)
    \<and> map_option (take 16) (pstruTransportInfo l) = map_option (take 16) (pstruTransportInfo opts)
    \<and> map_option (take 4) (pstruSsession l) = map_option (take 4) (pstruSsession opts)"
  using assms
  by (auto simp: EVENT_BuildOption_transport EVENT_BuildOption_session EVENT_ParseOption_single)

theorem EVENT_option_roundtrip_witness:
  "\<exists>buf' l. EVENT_BuildOption (Some \<lparr>pstruTransportInfo = None, pstruSsession = Some [1, 2, 3, 4]\<rparr>)
       (replicate 30 0) = Some (buf', 1, 8)
     \<and> EVENT_ParseOption ([1, 7, 4, 1, 0, 8, 0, 0] @ buf')
         \<lparr>pstruTransportInfo = None, pstruSsession = None\<rparr> = Some (l, 8)
     \<and> map_option (take 4) (pstruSsession l) = Some [1, 2, 3, 4]"
  using EVENT_option_roundtrip [of "\<lparr>pstruTransportInfo = None, pstruSsession = Some [1, 2, 3, 4]\<rparr>" "[]"
      "[1, 2, 3, 4]" "replicate 30 0" "[1, 7, 4, 1, 0, 8, 0, 0]" _ 1 8]
    EVENT_BuildOption_session [of "[1, 2, 3, 4]" "replicate 30 0"]
  by auto

end
