(* ===== verification/MsgQueue.thy ===== *)
theory MsgQueue
  imports Messages
begin

text \<open>
  The message queue and the reassembly buffer of \<^verbatim>\<open>zc_message_queue.c\<close>.  The queue is the ring of four
  nodes linked by \<^verbatim>\<open>pstruNext\<close>: a pointer to a node is its index in \<^verbatim>\<open>struQueue\<close>, and a message
  pointer is an optional reference (\<open>None\<close> for \<^verbatim>\<open>NULL\<close>).  The ring refines a bounded first-in
  first-out queue of three messages, stated as a locale.  \<^verbatim>\<open>MSG_RecvData\<close> refines the accumulation of
  a byte stream into one frame.
\<close>

section \<open>The queue\<close>

abbreviation (input) MSG_QUEUE_MAXLEN :: nat where "MSG_QUEUE_MAXLEN \<equiv> 3"

record 'm MSG_QueNode =
  pstruNext :: "nat option"
  pu8Msg :: "'m option"

record 'm MSG_Queue =
  pstruHead :: nat
  pstruTail :: nat
  struQueue :: "'m MSG_QueNode list"

text \<open>The loop of \<^verbatim>\<open>MSG_InitQueue\<close>, where \<open>k\<close> of the four nodes remain and \<open>p\<close> is \<^verbatim>\<open>pstrNode\<close>.\<close>

fun MSG_InitQueue_loop :: "nat \<Rightarrow> nat \<Rightarrow> nat option \<Rightarrow> 'm MSG_QueNode list \<Rightarrow> 'm MSG_QueNode list" where
  "MSG_InitQueue_loop 0 i p nodes = nodes"
| "MSG_InitQueue_loop (Suc k) i p nodes =
     MSG_InitQueue_loop k (Suc i) (Some i) (nodes[i := \<lparr>pstruNext = p, pu8Msg = None\<rparr>])"

definition MSG_InitQueue :: "'m MSG_Queue \<Rightarrow> 'm MSG_Queue" where
  "MSG_InitQueue q =
     (let nodes = MSG_InitQueue_loop (MSG_QUEUE_MAXLEN + 1) 0 None (struQueue q);
          nodes = nodes[0 := (nodes ! 0)\<lparr>pstruNext := Some MSG_QUEUE_MAXLEN\<rparr>]
      in q\<lparr>struQueue := nodes, pstruHead := 0, pstruTail := 0\<rparr>)"

definition MSG_PushMsg :: "'m MSG_Queue \<Rightarrow> 'm option \<Rightarrow> ('m MSG_Queue \<times> u32) option" where
  "MSG_PushMsg q m = do {
     tail \<leftarrow> rd1 (struQueue q) (pstruTail q);
     if pstruNext tail = Some (pstruHead q) then Some (q, ZC_RET_ERROR)
     else do {
       next \<leftarrow> pstruNext tail;
       Some (q\<lparr>struQueue := (struQueue q)[pstruTail q := tail\<lparr>pu8Msg := m\<rparr>], pstruTail := next\<rparr>,
         ZC_RET_OK)
     }
   }"

definition MSG_PopMsg :: "'m MSG_Queue \<Rightarrow> ('m MSG_Queue \<times> 'm option) option" where
  "MSG_PopMsg q =
     (if pstruHead q = pstruTail q then Some (q, None)
      else do {
        head \<leftarrow> rd1 (struQueue q) (pstruHead q);
        next \<leftarrow> pstruNext head;
        Some (q\<lparr>struQueue := (struQueue q)[pstruHead q := head\<lparr>pu8Msg := None\<rparr>], pstruHead := next\<rparr>,
          pu8Msg head)
      })"

subsection \<open>The contract of a bounded queue\<close>

text \<open>
  What the senders and the receiver rely on: \<open>push\<close> fails exactly on a full queue and leaves it
  alone, otherwise it appends; \<open>pop\<close> takes the oldest message, or \<^verbatim>\<open>NULL\<close> from an empty queue.
\<close>

locale bounded_fifo =
  fixes cap :: nat
    and inv :: "'q \<Rightarrow> bool"
    and contents :: "'q \<Rightarrow> 'm option list"
    and start :: "'q \<Rightarrow> 'q"
    and push :: "'q \<Rightarrow> 'm option \<Rightarrow> ('q \<times> u32) option"
    and pop :: "'q \<Rightarrow> ('q \<times> 'm option) option"
    and storage :: "'q \<Rightarrow> bool"
  assumes start_inv: "storage q \<Longrightarrow> inv (start q)"
    and start_contents: "storage q \<Longrightarrow> contents (start q) = []"
    and inv_storage: "inv q \<Longrightarrow> storage q"
    and bounded: "inv q \<Longrightarrow> length (contents q) \<le> cap"
    and push_full: "inv q \<Longrightarrow> length (contents q) = cap \<Longrightarrow> push q m = Some (q, ZC_RET_ERROR)"
    and push_room: "inv q \<Longrightarrow> length (contents q) < cap \<Longrightarrow>
      \<exists>q'. push q m = Some (q', ZC_RET_OK) \<and> inv q' \<and> contents q' = contents q @ [m]"
    and pop_empty: "inv q \<Longrightarrow> contents q = [] \<Longrightarrow> pop q = Some (q, None)"
    and pop_first: "inv q \<Longrightarrow> contents q = m # ms \<Longrightarrow>
      \<exists>q'. pop q = Some (q', m) \<and> inv q' \<and> contents q' = ms"
begin

lemma push_total: "inv q \<Longrightarrow> \<exists>q' r. push q m = Some (q', r) \<and> inv q' \<and> r \<in> {ZC_RET_OK, ZC_RET_ERROR}"
proof (cases "length (contents q) = cap")
  case True
  then show "inv q \<Longrightarrow> ?thesis" using push_full [of q m] by simp
next
  case False
  then show "inv q \<Longrightarrow> ?thesis" using push_room [of q m] bounded [of q] by (metis insertI1 le_neq_implies_less)
qed

lemma pop_total: "inv q \<Longrightarrow> \<exists>q' m. pop q = Some (q', m) \<and> inv q'"
  by (cases "contents q") (use pop_empty [of q] pop_first [of q] in auto)

lemma push_cases:
  assumes "inv q" "push q m = Some (q', r)"
  obtains "length (contents q) = cap" "r = ZC_RET_ERROR" "q' = q"
  | "length (contents q) < cap" "r = ZC_RET_OK" "inv q'" "contents q' = contents q @ [m]"
proof (cases "length (contents q) = cap")
  case True
  with push_full [OF assms(1) True, of m] assms(2) show thesis
    by (intro that(1)) auto
next
  case False
  then have lt: "length (contents q) < cap" using bounded [OF assms(1)] by simp
  with push_room [OF assms(1) lt, of m] assms(2) show thesis
    by (intro that(2)) auto
qed

lemma pop_cases:
  assumes "inv q" "pop q = Some (q', m)"
  obtains "contents q = []" "m = None" "q' = q"
  | "contents q = m # contents q'" "inv q'"
  using assms pop_empty [of q] pop_first [of q] by (cases "contents q") force+

end

subsection \<open>The ring provides it\<close>

text \<open>
  After \<^verbatim>\<open>MSG_InitQueue\<close> the nodes are linked 0, 3, 2, 1, 0.  The messages are found by walking from
  the head to the tail.
\<close>

definition ring_next :: "nat \<Rightarrow> nat" where
  "ring_next i = (i + 3) mod 4"

definition ring_storage :: "'m MSG_Queue \<Rightarrow> bool" where
  "ring_storage q \<longleftrightarrow> length (struQueue q) = 4"

definition ring_inv :: "'m MSG_Queue \<Rightarrow> bool" where
  "ring_inv q \<longleftrightarrow> length (struQueue q) = 4 \<and> pstruHead q < 4 \<and> pstruTail q < 4
     \<and> map pstruNext (struQueue q) = [Some 3, Some 0, Some 1, Some 2]"

definition ring_count :: "'m MSG_Queue \<Rightarrow> nat" where
  "ring_count q = (pstruHead q + 4 - pstruTail q) mod 4"

definition ring_contents :: "'m MSG_Queue \<Rightarrow> 'm option list" where
  "ring_contents q = map (\<lambda>k. pu8Msg (struQueue q ! ((pstruHead q + 3 * k) mod 4))) [0..<ring_count q]"

lemma less_4E:
  assumes "(i :: nat) < 4"
  obtains "i = 0" | "i = 1" | "i = 2" | "i = 3"
  using assms by linarith

lemma ring_nodesE:
  assumes "ring_inv q"
  obtains a b c d h t where
    "q = \<lparr>pstruHead = h, pstruTail = t, struQueue =
        [\<lparr>pstruNext = Some 3, pu8Msg = a\<rparr>, \<lparr>pstruNext = Some 0, pu8Msg = b\<rparr>,
         \<lparr>pstruNext = Some 1, pu8Msg = c\<rparr>, \<lparr>pstruNext = Some 2, pu8Msg = d\<rparr>]\<rparr>" "h < 4" "t < 4"
proof -
  have "length (struQueue q) = 4"
    using assms by (simp add: ring_inv_def)
  then obtain n0 n1 n2 n3 where n: "struQueue q = [n0, n1, n2, n3]"
    by (rule length_4E)
  show thesis
    using assms that [of "pstruHead q" "pstruTail q" "pu8Msg n0" "pu8Msg n1" "pu8Msg n2" "pu8Msg n3"]
    by (simp add: ring_inv_def n)
qed

lemma ring_start:
  assumes "ring_storage q"
  shows "ring_inv (MSG_InitQueue q)" "ring_contents (MSG_InitQueue q) = []"
proof -
  from assms obtain n0 n1 n2 n3 where "struQueue q = [n0, n1, n2, n3]"
    by (auto simp: ring_storage_def elim: length_4E)
  then have "MSG_InitQueue q = q\<lparr>struQueue :=
      [\<lparr>pstruNext = Some 3, pu8Msg = None\<rparr>, \<lparr>pstruNext = Some 0, pu8Msg = None\<rparr>,
       \<lparr>pstruNext = Some 1, pu8Msg = None\<rparr>, \<lparr>pstruNext = Some 2, pu8Msg = None\<rparr>],
      pstruHead := 0, pstruTail := 0\<rparr>"
    by (simp add: MSG_InitQueue_def numeral_3_eq_3 numeral_2_eq_2)
  then show "ring_inv (MSG_InitQueue q)" "ring_contents (MSG_InitQueue q) = []"
    by (simp_all add: ring_inv_def ring_contents_def ring_count_def)
qed

text \<open>The messages of an explicit ring, by the positions of its head and tail.\<close>

lemma ring_contents_explicit:
  "ring_contents \<lparr>pstruHead = h, pstruTail = t, struQueue = nodes\<rparr> =
     map (\<lambda>k. pu8Msg (nodes ! ((h + 3 * k) mod 4))) [0..<(h + 4 - t) mod 4]"
  by (simp add: ring_contents_def ring_count_def)

lemma upt_small: "[0..<1] = [0 :: nat]" "[0..<2] = [0, 1 :: nat]" "[0..<3] = [0, 1, 2 :: nat]"
  by (simp_all add: upt_rec)

lemmas ring_defs = ring_inv_def ring_contents_explicit upt_small rd1_def

lemma ring_push:
  assumes "ring_inv q"
  shows "length (ring_contents q) = 3 \<Longrightarrow> MSG_PushMsg q m = Some (q, ZC_RET_ERROR)"
    and "length (ring_contents q) < 3 \<Longrightarrow>
      \<exists>q'. MSG_PushMsg q m = Some (q', ZC_RET_OK) \<and> ring_inv q' \<and> ring_contents q' = ring_contents q @ [m]"
  using assms
  by (elim ring_nodesE less_4E; simp add: MSG_PushMsg_def ring_defs)+

lemma ring_pop:
  assumes "ring_inv q"
  shows "ring_contents q = [] \<Longrightarrow> MSG_PopMsg q = Some (q, None)"
    and "ring_contents q = m # ms \<Longrightarrow>
      \<exists>q'. MSG_PopMsg q = Some (q', m) \<and> ring_inv q' \<and> ring_contents q' = ms"
  using assms
  by (elim ring_nodesE less_4E; simp add: MSG_PopMsg_def ring_defs)+

interpretation msgq: bounded_fifo 3 ring_inv ring_contents MSG_InitQueue MSG_PushMsg MSG_PopMsg ring_storage
proof
  fix q :: "'m MSG_Queue"
  show "ring_inv q \<Longrightarrow> length (ring_contents q) \<le> 3"
    using mod_less_divisor [of 4 "pstruHead q + 4 - pstruTail q"]
    by (simp add: ring_contents_def ring_count_def)
  show "ring_inv q \<Longrightarrow> ring_storage q"
    by (simp add: ring_inv_def ring_storage_def)
qed (fact ring_start ring_push ring_pop)+

section \<open>The receive buffer\<close>

abbreviation (input) MSG_BUFFER_MAXLEN :: nat where "MSG_BUFFER_MAXLEN \<equiv> 600"
abbreviation (input) MSG_BUFFER_IDLE :: u8 where "MSG_BUFFER_IDLE \<equiv> 0"
abbreviation (input) MSG_BUFFER_FULL :: u8 where "MSG_BUFFER_FULL \<equiv> 1"
abbreviation (input) MSG_BUFFER_SEGMENT_NOHEAD :: u8 where "MSG_BUFFER_SEGMENT_NOHEAD \<equiv> 2"
abbreviation (input) MSG_BUFFER_SEGMENT_HEAD :: u8 where "MSG_BUFFER_SEGMENT_HEAD \<equiv> 3"

record MSG_Buffer =
  u32Len :: u32
  u8Status :: u8
  u8MsgBuffer :: "u8 list"

text \<open>
  \<^verbatim>\<open>MSG_RecvData\<close>, branch by branch; the lengths are \<^verbatim>\<open>u32\<close> and wrap as in C.  \<open>recv_copy\<close> is its
  \<^verbatim>\<open>memcpy\<close> of the first \<open>n\<close> bytes of \<^verbatim>\<open>pu8Data\<close> into the message buffer at \<open>off\<close>.
\<close>

definition recv_copy :: "MSG_Buffer \<Rightarrow> u32 \<Rightarrow> u8 list \<Rightarrow> u32 \<Rightarrow> MSG_Buffer option" where
  "recv_copy b off pu8Data n = do {
     d \<leftarrow> rd pu8Data 0 (unat n);
     m \<leftarrow> wr (u8MsgBuffer b) (unat off) d;
     Some (b\<lparr>u8MsgBuffer := m\<rparr>)
   }"

definition MSG_RecvData :: "MSG_Buffer \<Rightarrow> u8 list \<Rightarrow> u32 \<Rightarrow> (MSG_Buffer \<times> u32) option" where
  "MSG_RecvData b pu8Data u32DataLen =
     (if u8Status b = MSG_BUFFER_FULL then Some (b, ZC_RET_ERROR)
      else if u8Status b = MSG_BUFFER_IDLE then
        (if u32DataLen < 4 then do {
           b \<leftarrow> recv_copy b 0 pu8Data u32DataLen;
           Some (b\<lparr>u8Status := MSG_BUFFER_SEGMENT_NOHEAD, u32Len := u32DataLen\<rparr>, ZC_RET_OK)
         } else do {
           total \<leftarrow> rd16 pu8Data 0;
           let u32MsgLen = ucast (ZC_HTONS total) + 4;
           if u32MsgLen > 600 then Some (b\<lparr>u8Status := MSG_BUFFER_IDLE, u32Len := 0\<rparr>, ZC_RET_ERROR)
           else if u32MsgLen \<le> u32DataLen then do {
             b \<leftarrow> recv_copy b 0 pu8Data u32MsgLen;
             Some (b\<lparr>u8Status := MSG_BUFFER_FULL, u32Len := u32MsgLen\<rparr>, ZC_RET_OK)
           } else do {
             b \<leftarrow> recv_copy b 0 pu8Data u32DataLen;
             Some (b\<lparr>u8Status := MSG_BUFFER_SEGMENT_HEAD, u32Len := u32DataLen\<rparr>, ZC_RET_OK)
           }
         })
      else if u8Status b = MSG_BUFFER_SEGMENT_HEAD then do {
        total \<leftarrow> rd16 (u8MsgBuffer b) 0;
        let u32MsgLen = ucast (ZC_HTONS total) + 4;
        if u32MsgLen \<le> u32DataLen + u32Len b then do {
          b \<leftarrow> recv_copy b (u32Len b) pu8Data (u32MsgLen - u32Len b);
          Some (b\<lparr>u8Status := MSG_BUFFER_FULL, u32Len := u32MsgLen\<rparr>, ZC_RET_OK)
        } else do {
          b \<leftarrow> recv_copy b (u32Len b) pu8Data u32DataLen;
          Some (b\<lparr>u32Len := u32Len b + u32DataLen, u8Status := MSG_BUFFER_SEGMENT_HEAD\<rparr>, ZC_RET_OK)
        }
      } else if u8Status b = MSG_BUFFER_SEGMENT_NOHEAD then
        (if u32Len b + u32DataLen < 4 then do {
           b \<leftarrow> recv_copy b (u32Len b) pu8Data u32DataLen;
           Some (b\<lparr>u32Len := u32Len b + u32DataLen, u8Status := MSG_BUFFER_SEGMENT_NOHEAD\<rparr>, ZC_RET_OK)
         } else do {
           b \<leftarrow> recv_copy b (u32Len b) pu8Data (4 - u32Len b);
           total \<leftarrow> rd16 (u8MsgBuffer b) 0;
           let u32MsgLen = ucast (ZC_HTONS total) + 4;
           if u32MsgLen > 600 then Some (b\<lparr>u8Status := MSG_BUFFER_IDLE, u32Len := 0\<rparr>, ZC_RET_ERROR)
           else if u32MsgLen \<le> u32DataLen + u32Len b then do {
             b \<leftarrow> recv_copy b (u32Len b) pu8Data (u32MsgLen - u32Len b);
             Some (b\<lparr>u8Status := MSG_BUFFER_FULL, u32Len := u32MsgLen\<rparr>, ZC_RET_OK)
           } else do {
             b \<leftarrow> recv_copy b (u32Len b) pu8Data u32DataLen;
             Some (b\<lparr>u8Status := MSG_BUFFER_SEGMENT_HEAD, u32Len := u32Len b + u32DataLen\<rparr>, ZC_RET_OK)
           }
         })
      else Some (b, ZC_RET_ERROR))"


subsection \<open>The accumulation of a frame\<close>

text \<open>The length of a frame from its first bytes, the bytes a buffer has accumulated, and the step
  on them that \<^verbatim>\<open>MSG_RecvData\<close> implements: status, bytes kept and result.\<close>

definition frame_len :: "u8 list \<Rightarrow> nat" where
  "frame_len s = unat (ZC_HTONS (le16 s)) + 4"

definition recv_acc :: "MSG_Buffer \<Rightarrow> u8 list" where
  "recv_acc b = (if u8Status b = MSG_BUFFER_IDLE then [] else take (unat (u32Len b)) (u8MsgBuffer b))"

definition recv_step :: "u8 list \<Rightarrow> u8 list \<Rightarrow> u8 \<times> u8 list \<times> u32" where
  "recv_step acc d =
     (let s = acc @ d in
      if length s < 4 then (MSG_BUFFER_SEGMENT_NOHEAD, s, ZC_RET_OK)
      else if 600 < frame_len s then (MSG_BUFFER_IDLE, [], ZC_RET_ERROR)
      else if frame_len s \<le> length s then (MSG_BUFFER_FULL, take (frame_len s) s, ZC_RET_OK)
      else (MSG_BUFFER_SEGMENT_HEAD, s, ZC_RET_OK))"

definition recv_inv :: "MSG_Buffer \<Rightarrow> bool" where
  "recv_inv b \<longleftrightarrow> length (u8MsgBuffer b) = 600 \<and> unat (u32Len b) \<le> 600 \<and>
     (u8Status b = MSG_BUFFER_IDLE \<or> u8Status b = MSG_BUFFER_FULL
      \<or> u8Status b = MSG_BUFFER_SEGMENT_NOHEAD \<and> unat (u32Len b) < 4
      \<or> u8Status b = MSG_BUFFER_SEGMENT_HEAD \<and> 4 \<le> unat (u32Len b)
        \<and> unat (u32Len b) < frame_len (u8MsgBuffer b) \<and> frame_len (u8MsgBuffer b) \<le> 600)"

lemma frame_len_append [simp]: "2 \<le> length a \<Longrightarrow> frame_len (a @ b) = frame_len a"
  by (simp add: frame_len_def)

lemma frame_len_take [simp]: "2 \<le> n \<Longrightarrow> frame_len (take n a) = frame_len a"
  by (simp add: frame_len_def)

lemma frame_len_word: "unat (ucast (ZC_HTONS (le16 s)) + 4 :: u32) = frame_len s"
  using unat_16 [of "ZC_HTONS (le16 s)"]
  by (simp add: frame_len_def unat_add_small)

lemma recv_copy_Some:
  assumes "unat n \<le> length d" "unat off + unat n \<le> length (u8MsgBuffer b)"
  shows "recv_copy b off d n = Some (b\<lparr>u8MsgBuffer := take (unat off) (u8MsgBuffer b)
      @ take (unat n) d @ drop (unat off + unat n) (u8MsgBuffer b)\<rparr>)"
  using assms by (simp add: recv_copy_def rd_Some wr_Some)

lemma rd16_Some: "off + 2 \<le> length b \<Longrightarrow> rd16 b off = Some (le16 (drop off b))"
  by (simp add: rd16_def rd_Some)

lemmas recv_simps = MSG_RecvData_def recv_step_def Let_def recv_inv_def recv_acc_def recv_copy_Some
  rd16_Some word_less_nat_alt word_le_nat_alt frame_len_word

lemma MSG_RecvData_idle:
  assumes "length (u8MsgBuffer b) = 600" "u8Status b = MSG_BUFFER_IDLE" "unat n \<le> length d" "unat (u32Len b) \<le> 600"
  shows "\<exists>b' r. MSG_RecvData b d n = Some (b', r) \<and> recv_inv b'
    \<and> (u8Status b', recv_acc b', r) = recv_step [] (take (unat n) d)"
proof -
  let ?N = "unat n" and ?D = "take (unat n) d"
  have D: "length ?D = ?N" using assms(3) by simp
  consider "?N < 4" | "4 \<le> ?N" "600 < frame_len d" | "4 \<le> ?N" "frame_len d \<le> 600" "frame_len d \<le> ?N"
    | "4 \<le> ?N" "frame_len d \<le> 600" "?N < frame_len d"
    by linarith
  then show ?thesis
    by cases (use assms D in \<open>auto simp: recv_simps min_def\<close>)
qed

lemma MSG_RecvData_head:
  assumes "recv_inv b" "u8Status b = MSG_BUFFER_SEGMENT_HEAD" "unat n \<le> length d" "unat n + 600 < 2 ^ 32"
  shows "\<exists>b' r. MSG_RecvData b d n = Some (b', r) \<and> recv_inv b'
    \<and> (u8Status b', recv_acc b', r) = recv_step (recv_acc b) (take (unat n) d)"
proof -
  let ?N = "unat n" and ?L = "unat (u32Len b)" and ?F = "frame_len (u8MsgBuffer b)"
  let ?M = "ucast (ZC_HTONS (le16 (u8MsgBuffer b))) + 4 :: u32"
  have i: "length (u8MsgBuffer b) = 600" "4 \<le> ?L" "?L < ?F" "?F \<le> 600"
    using assms by (auto simp: recv_inv_def)
  have sum: "unat (n + u32Len b) = ?N + ?L" "unat (u32Len b + n) = ?L + ?N"
    using assms(4) i by (simp_all add: unat_add_small)
  have sub: "unat (?M - u32Len b) = ?F - ?L"
    using i by (subst unat_sub) (simp_all add: word_le_nat_alt frame_len_word)
  have copy: "recv_copy b (u32Len b) d (?M - u32Len b) = Some (b\<lparr>u8MsgBuffer := take ?L (u8MsgBuffer b)
      @ take (?F - ?L) d @ drop ?F (u8MsgBuffer b)\<rparr>)" if "?F \<le> ?N + ?L"
    using that i assms(3) by (subst recv_copy_Some) (simp_all add: sub)
  show ?thesis
    using i assms(2,3) by (cases "?F \<le> ?N + ?L") (auto simp: recv_simps sum copy)
qed

lemma MSG_RecvData_nohead:
  assumes "recv_inv b" "u8Status b = MSG_BUFFER_SEGMENT_NOHEAD" "unat n \<le> length d" "unat n + 600 < 2 ^ 32"
  shows "\<exists>b' r. MSG_RecvData b d n = Some (b', r) \<and> recv_inv b'
    \<and> (u8Status b', recv_acc b', r) = recv_step (recv_acc b) (take (unat n) d)"
proof -
  let ?N = "unat n" and ?L = "unat (u32Len b)" and ?B = "u8MsgBuffer b"
  have i: "length ?B = 600" "?L < 4"
    using assms by (auto simp: recv_inv_def)
  have sum: "unat (n + u32Len b) = ?N + ?L" "unat (u32Len b + n) = ?L + ?N"
    using assms(4) i by (simp_all add: unat_add_small)
  show ?thesis
  proof (cases "?L + ?N < 4")
    case True
    then show ?thesis using i assms(2,3) by (auto simp: recv_simps sum)
  next
    case False
    let ?s = "take ?L ?B @ take ?N d" and ?B1 = "take ?L ?B @ take (4 - ?L) d @ drop 4 ?B"
    let ?b1 = "b\<lparr>u8MsgBuffer := ?B1\<rparr>"
    have "unat (4 - u32Len b) = 4 - ?L"
      using i by (subst unat_sub) (simp_all add: word_le_nat_alt)
    then have copy1: "recv_copy b (u32Len b) d (4 - u32Len b) = Some ?b1"
      using i False assms(3) by (subst recv_copy_Some) simp_all
    have "take 2 ?B1 = take 2 ?s"
      using i False assms(3) by (auto simp: take_append min_def)
    then have F: "frame_len ?B1 = frame_len ?s"
      by (metis frame_len_take order_refl)
    let ?F = "frame_len ?s" and ?M = "ucast (ZC_HTONS (le16 ?B1)) + 4 :: u32"
    have M: "unat ?M = ?F"
      by (simp only: frame_len_word F)
    have F4: "4 \<le> ?F"
      by (simp add: frame_len_def)
    then have "u32Len b \<le> ?M"
      using i unfolding word_le_nat_alt M by simp
    then have sub: "unat (?M - u32Len b) = ?F - ?L"
      by (simp only: unat_sub M)
    have len1: "length ?B1 = 600" and pre: "take ?L ?B1 = take ?L ?B"
      using i False assms(3) by auto
    have copy2: "recv_copy ?b1 (u32Len b) d k
        = Some (b\<lparr>u8MsgBuffer := take ?L ?B @ take (unat k) d @ drop (?L + unat k) ?B1\<rparr>)"
      if "unat k \<le> ?N" "?L + unat k \<le> 600" for k
      using that assms(3) len1 pre by (subst recv_copy_Some) simp_all
    have run: "MSG_RecvData b d n =
       (if 600 < ?F then Some (?b1\<lparr>u8Status := MSG_BUFFER_IDLE, u32Len := 0\<rparr>, ZC_RET_ERROR)
        else if ?F \<le> ?N + ?L then do {
             b \<leftarrow> recv_copy ?b1 (u32Len b) d (?M - u32Len b);
             Some (b\<lparr>u8Status := MSG_BUFFER_FULL, u32Len := ?M\<rparr>, ZC_RET_OK)
           } else do {
             b \<leftarrow> recv_copy ?b1 (u32Len b) d n;
             Some (b\<lparr>u8Status := MSG_BUFFER_SEGMENT_HEAD, u32Len := u32Len b + n\<rparr>, ZC_RET_OK)
           })"
      using False assms(2) len1
      by (simp add: MSG_RecvData_def Let_def copy1 rd16_Some word_less_nat_alt word_le_nat_alt sum M)
    consider "600 < ?F" | "?F \<le> 600" "?F \<le> ?N + ?L" | "?F \<le> 600" "?N + ?L < ?F"
      by linarith
    then show ?thesis
    proof cases
      case 1
      then show ?thesis using run False len1 assms(2,3) i by (auto simp: recv_simps)
    next
      case 2
      then show ?thesis
        using run False assms(2,3) i F4
        by (auto simp: copy2 sub recv_step_def Let_def recv_inv_def recv_acc_def M)
    next
      case 3
      have "frame_len (take ?L ?B @ take ?N d @ rest) = ?F" for rest
        using False i assms(3) frame_len_append [of ?s rest] by simp
      then show ?thesis
        using 3 run False assms(2,3) i
        by (auto simp: copy2 sum recv_step_def Let_def recv_inv_def recv_acc_def)
    qed
  qed
qed

text \<open>The refinement: in every state but FULL the code takes the abstract step, without a fault.\<close>

lemma MSG_RecvData_refines:
  assumes "recv_inv b" "u8Status b \<noteq> MSG_BUFFER_FULL" "unat n \<le> length d" "unat n + 600 < 2 ^ 32"
  shows "\<exists>b' r. MSG_RecvData b d n = Some (b', r) \<and> recv_inv b'
    \<and> (u8Status b', recv_acc b', r) = recv_step (recv_acc b) (take (unat n) d)"
proof -
  from assms consider "u8Status b = 0" | "u8Status b = 2" | "u8Status b = 3"
    by (auto simp: recv_inv_def)
  then show ?thesis
  proof cases
    case 1
    then have "length (u8MsgBuffer b) = 600" "unat (u32Len b) \<le> 600" "recv_acc b = []"
      using assms(1) by (auto simp: recv_inv_def recv_acc_def)
    then show ?thesis using 1 assms(3) MSG_RecvData_idle [of b n d] by metis
  next
    case 2
    then show ?thesis using assms by (intro MSG_RecvData_nohead)
  next
    case 3
    then show ?thesis using assms by (intro MSG_RecvData_head)
  qed
qed

lemma MSG_RecvData_full: "u8Status b = MSG_BUFFER_FULL \<Longrightarrow> MSG_RecvData b d n = Some (b, ZC_RET_ERROR)"
  by (simp add: MSG_RecvData_def)

lemma MSG_RecvData_total:
  assumes "recv_inv b" "unat n \<le> length d" "unat n + 600 < 2 ^ 32"
  shows "\<exists>b' r. MSG_RecvData b d n = Some (b', r) \<and> recv_inv b'"
  using assms MSG_RecvData_refines [of b n d] MSG_RecvData_full [of b d n] by (cases "u8Status b = 1") auto

lemma MSG_RecvData_status_OK:
  assumes "recv_inv b" "MSG_RecvData b d n = Some (b', r)" "unat n \<le> length d" "unat n + 600 < 2 ^ 32"
  shows "r \<in> {ZC_RET_OK, ZC_RET_ERROR}"
  using assms MSG_RecvData_refines [of b n d] MSG_RecvData_full [of b d n]
  by (cases "u8Status b = 1") (auto simp: recv_step_def Let_def split: if_splits)

text \<open>A stream delivered in pieces, one call of \<^verbatim>\<open>MSG_RecvData\<close> after the other.\<close>

fun MSG_RecvAll :: "MSG_Buffer \<Rightarrow> u8 list list \<Rightarrow> MSG_Buffer option" where
  "MSG_RecvAll b [] = Some b"
| "MSG_RecvAll b (d # ds) = MSG_RecvData b d (word_of_nat (length d)) \<bind> (\<lambda>(b', r). MSG_RecvAll b' ds)"

lemma recv_step_partial:
  assumes "length (acc @ d) < frame_len f" "2 \<le> length f" "frame_len f \<le> 600"
    "length (acc @ d) \<ge> 2 \<Longrightarrow> frame_len (acc @ d) = frame_len f"
  shows "\<exists>st. recv_step acc d = (st, acc @ d, ZC_RET_OK) \<and> st \<noteq> MSG_BUFFER_FULL \<and> st \<noteq> MSG_BUFFER_IDLE"
  using assms by (auto simp: recv_step_def Let_def)

lemma prefix_frame_len:
  assumes "frame = s @ t" "2 \<le> length s"
  shows "frame_len s = frame_len frame"
  using assms by simp

lemma MSG_RecvAll_frame:
  assumes "recv_inv b" "u8Status b \<noteq> MSG_BUFFER_FULL" "frame_len frame = length frame" "length frame \<le> 600"
    "recv_acc b @ concat ds = frame" "length (recv_acc b) < length frame"
  shows "\<exists>b'. MSG_RecvAll b ds = Some b' \<and> recv_inv b' \<and> u8Status b' = MSG_BUFFER_FULL
    \<and> recv_acc b' = frame"
  using assms
proof (induction ds arbitrary: b)
  case Nil
  then show ?case by simp
next
  case (Cons d ds)
  have small: "length d \<le> 600"
    using Cons.prems(4,5) by (metis (no_types, lifting) concat.simps(2) length_append le_add1 le_add2 le_trans)
  then have n: "unat (word_of_nat (length d) :: u32) = length d"
    by (simp add: unat_of_nat_small)
  let ?s = "recv_acc b @ d"
  have split: "frame = ?s @ concat ds"
    using Cons.prems(5) by simp
  have pre: "2 \<le> length ?s \<Longrightarrow> frame_len ?s = length frame"
    using prefix_frame_len [OF split] Cons.prems(3) by simp
  obtain b' r where run: "MSG_RecvData b d (word_of_nat (length d)) = Some (b', r)" "recv_inv b'"
    and st: "(u8Status b', recv_acc b', r) = recv_step (recv_acc b) d"
    using MSG_RecvData_refines [of b "word_of_nat (length d)" d] Cons.prems(1,2) small n by auto
  have F4: "4 \<le> length frame"
    using Cons.prems(3) by (simp add: frame_len_def)
  show ?case
  proof (cases "length ?s < length frame")
    case True
    then have "u8Status b' \<noteq> MSG_BUFFER_FULL \<and> recv_acc b' = ?s"
      using st pre Cons.prems(4) F4 by (auto simp: recv_step_def Let_def split: if_splits)
    then show ?thesis
      using Cons.IH [of b'] run True Cons.prems(3,4) split by simp
  next
    case False
    then have s: "?s = frame" and rest: "concat ds = []"
      using split by (auto dest: arg_cong [where f=length])
    then have full: "u8Status b' = MSG_BUFFER_FULL" "recv_acc b' = frame"
      using st Cons.prems(3,4) F4 by (auto simp: recv_step_def Let_def)
    have "MSG_RecvAll b' ds = Some b'"
      using full(1) rest by (induction ds) (simp_all add: MSG_RecvData_full)
    then show ?thesis
      using run full by simp
  qed
qed

section \<open>Properties\<close>

text \<open>C15: The ring of \<^verbatim>\<open>zc_message_queue.c\<close> refines a first-in first-out queue of three messages:
  \<^verbatim>\<open>MSG_PushMsg\<close> fails, and changes nothing, exactly when three messages wait, and otherwise appends
  its message; \<^verbatim>\<open>MSG_PopMsg\<close> takes the oldest message, or NULL from the empty queue; neither follows
  a wild pointer, and both keep the ring well formed.\<close>

theorem MSG_Queue_refines_fifo:
  assumes "ring_inv q"
  shows "(\<exists>q' r. MSG_PushMsg q m = Some (q', r) \<and> ring_inv q' \<and>
      (if length (ring_contents q) = 3 then r = ZC_RET_ERROR \<and> q' = q
       else r = ZC_RET_OK \<and> ring_contents q' = ring_contents q @ [m])) \<and>
    (\<exists>q' x. MSG_PopMsg q = Some (q', x) \<and> ring_inv q' \<and>
      (if ring_contents q = [] then x = None \<and> q' = q else ring_contents q = x # ring_contents q'))"
proof
  obtain q' r where "MSG_PushMsg q m = Some (q', r)" "ring_inv q'"
    using msgq.push_total [OF assms] by blast
  then show "\<exists>q' r. MSG_PushMsg q m = Some (q', r) \<and> ring_inv q' \<and>
      (if length (ring_contents q) = 3 then r = ZC_RET_ERROR \<and> q' = q
       else r = ZC_RET_OK \<and> ring_contents q' = ring_contents q @ [m])"
    using assms by (auto elim: msgq.push_cases)
next
  obtain q' x where pop: "MSG_PopMsg q = Some (q', x)" "ring_inv q'"
    using msgq.pop_total [OF assms] by blast
  show "\<exists>q' x. MSG_PopMsg q = Some (q', x) \<and> ring_inv q' \<and>
      (if ring_contents q = [] then x = None \<and> q' = q else ring_contents q = x # ring_contents q')"
    by (rule msgq.pop_cases [OF assms pop(1)]) (use pop in auto)
qed

theorem MSG_Queue_refines_fifo_witness:
  "let q = MSG_InitQueue \<lparr>pstruHead = 0, pstruTail = 0,
       struQueue = replicate 4 \<lparr>pstruNext = None, pu8Msg = None :: nat option\<rparr>\<rparr> in
   ring_contents q = [] \<and>
   (\<exists>q'. MSG_PushMsg q (Some 7) = Some (q', ZC_RET_OK) \<and> ring_contents q' = [Some 7])"
  using MSG_Queue_refines_fifo [of "MSG_InitQueue \<lparr>pstruHead = 0, pstruTail = 0,
       struQueue = replicate 4 \<lparr>pstruNext = None, pu8Msg = None :: nat option\<rparr>\<rparr>" "Some 7"]
    ring_start [of "\<lparr>pstruHead = 0, pstruTail = 0,
       struQueue = replicate 4 \<lparr>pstruNext = None, pu8Msg = None :: nat option\<rparr>\<rparr>"]
  by (auto simp: Let_def ring_storage_def)

text \<open>C12: \<^verbatim>\<open>MSG_RecvData\<close> never faults and refines the accumulation of a stream: from a well-formed buffer
  that does not hold a finished frame, for any chunk, the result, the status and the bytes kept are
  those of the abstract step on the bytes kept so far, and the buffer stays well formed (never more
  than 600 bytes, a frame announced longer than 600 is refused and dropped).\<close>

theorem MSG_RecvData_refines_stream:
  assumes "recv_inv b" "u8Status b \<noteq> MSG_BUFFER_FULL" "unat n \<le> length d" "unat n + 600 < 2 ^ 32"
  shows "\<exists>b' r. MSG_RecvData b d n = Some (b', r) \<and> recv_inv b'
    \<and> (u8Status b', recv_acc b', r) = recv_step (recv_acc b) (take (unat n) d)"
  using assms by (rule MSG_RecvData_refines)

theorem MSG_RecvData_refines_stream_witness:
  "\<exists>b'. MSG_RecvData \<lparr>u32Len = 0, u8Status = MSG_BUFFER_IDLE, u8MsgBuffer = replicate 600 0\<rparr>
       [0, 2, 1, 0, 5, 6, 7] 7 = Some (b', ZC_RET_OK)
     \<and> u8Status b' = MSG_BUFFER_FULL \<and> recv_acc b' = [0, 2, 1, 0, 5, 6]"
proof -
  let ?b = "\<lparr>u32Len = 0, u8Status = MSG_BUFFER_IDLE, u8MsgBuffer = replicate 600 0\<rparr>"
  have "frame_len [0, 2, 1, 0, 5, 6, 7] = 6"
    by code_simp
  then have "recv_step (recv_acc ?b) (take 7 [0, 2, 1, 0, 5, 6, 7]) = (MSG_BUFFER_FULL, [0, 2, 1, 0, 5, 6], ZC_RET_OK)"
    by (simp add: recv_acc_def recv_step_def)
  then show ?thesis
    using MSG_RecvData_refines_stream [of ?b 7 "[0, 2, 1, 0, 5, 6, 7]"]
    by (auto simp: recv_inv_def)
qed

text \<open>C13: However TCP cuts a frame, the receiver reassembles it: if the chunks add up to one whole frame
  of at most 600 bytes, receiving them one after the other into an idle buffer ends in the FULL
  state, with exactly the bytes of the frame in the buffer.\<close>

theorem MSG_RecvAll_reassembles:
  assumes "length (u8MsgBuffer b) = 600" "u8Status b = MSG_BUFFER_IDLE" "u32Len b = 0"
    and "frame_len (concat ds) = length (concat ds)" "length (concat ds) \<le> 600"
  shows "\<exists>b'. MSG_RecvAll b ds = Some b' \<and> u8Status b' = MSG_BUFFER_FULL
    \<and> unat (u32Len b') = length (concat ds) \<and> take (length (concat ds)) (u8MsgBuffer b') = concat ds"
proof -
  have "0 < frame_len (concat ds)"
    by (simp add: frame_len_def)
  then obtain b' where b': "MSG_RecvAll b ds = Some b'" "recv_inv b'" "u8Status b' = MSG_BUFFER_FULL"
      "recv_acc b' = concat ds"
    using MSG_RecvAll_frame [of b "concat ds" ds] assms by (auto simp: recv_inv_def recv_acc_def)
  then have "unat (u32Len b') = length (concat ds)"
    by (auto simp: recv_inv_def recv_acc_def dest: arg_cong [where f=length])
  with b' show ?thesis
    by (auto simp: recv_acc_def)
qed

theorem MSG_RecvAll_reassembles_witness:
  "\<exists>b'. MSG_RecvAll \<lparr>u32Len = 0, u8Status = MSG_BUFFER_IDLE, u8MsgBuffer = replicate 600 0\<rparr>
       [[0], [], [2, 1, 0, 9], [8]] = Some b' \<and> u8Status b' = MSG_BUFFER_FULL
     \<and> take 6 (u8MsgBuffer b') = [0, 2, 1, 0, 9, 8]"
proof -
  have "frame_len [0, 2, 1, 0, 9, 8] = 6"
    by code_simp
  then show ?thesis
    using MSG_RecvAll_reassembles [of "\<lparr>u32Len = 0, u8Status = MSG_BUFFER_IDLE, u8MsgBuffer = replicate 600 0\<rparr>"
        "[[0], [], [2, 1, 0, 9], [8]]"]
    by (auto simp del: MSG_RecvAll.simps simp: numeral_eq_Suc)
qed

end
