(* ===== verification/Aes.thy ===== *)
theory Aes
  imports AesTables
begin

text \<open>
  The block cipher of \<^verbatim>\<open>App/Adapter/aes/aes_core.c\<close>: the tables, the two key schedules and the
  encryption and decryption of a block, in the rolled form the build selects (\<^verbatim>\<open>FULL_UNROLL\<close> is
  undefined).  An \<^verbatim>\<open>AES_KEY\<close> is its array \<^verbatim>\<open>rd_key\<close> of 60 words and its number of rounds; the
  moving pointer \<^verbatim>\<open>rk\<close> is the rest of that array.  The lemmas relate the tables to multiplication in
  GF(256) and to the S-box, and show that decryption with the decryption schedule undoes encryption.
\<close>

section \<open>The key schedules\<close>

record AES_KEY =
  rd_key :: "u32 list"
  rounds :: nat

text \<open>The macros \<^verbatim>\<open>GETU32\<close> and \<^verbatim>\<open>PUTU32\<close> of \<^verbatim>\<open>aes_locl.h\<close> (big endian), at an offset of a byte array.\<close>

definition GETU32 :: "u8 list \<Rightarrow> nat \<Rightarrow> u32" where
  "GETU32 pt i = push_bit 24 (ucast (pt ! i)) XOR push_bit 16 (ucast (pt ! (i + 1)))
     XOR push_bit 8 (ucast (pt ! (i + 2))) XOR ucast (pt ! (i + 3))"

definition PUTU32 :: "u32 \<Rightarrow> u8 list" where
  "PUTU32 st = [ucast (drop_bit 24 st), ucast (drop_bit 16 st), ucast (drop_bit 8 st), ucast st]"

text \<open>The S-box applied to the rotated word, and to the word itself, as the schedule uses them.\<close>

definition sub_rot :: "u32 \<Rightarrow> u32" where
  "sub_rot temp =
     ((Te4 ! unat (drop_bit 16 temp AND 0xff)) AND 0xff000000) XOR
     ((Te4 ! unat (drop_bit 8 temp AND 0xff)) AND 0x00ff0000) XOR
     ((Te4 ! unat (temp AND 0xff)) AND 0x0000ff00) XOR
     ((Te4 ! unat (drop_bit 24 temp)) AND 0x000000ff)"

definition sub_word :: "u32 \<Rightarrow> u32" where
  "sub_word temp =
     ((Te4 ! unat (drop_bit 24 temp)) AND 0xff000000) XOR
     ((Te4 ! unat (drop_bit 16 temp AND 0xff)) AND 0x00ff0000) XOR
     ((Te4 ! unat (drop_bit 8 temp AND 0xff)) AND 0x0000ff00) XOR
     ((Te4 ! unat (temp AND 0xff)) AND 0x000000ff)"

text \<open>\<open>rk[p + d] = rk[p + a] ^ w\<close>, the assignment the schedules repeat.\<close>

definition set_xor :: "nat \<Rightarrow> nat \<Rightarrow> u32 \<Rightarrow> u32 list \<Rightarrow> u32 list" where
  "set_xor d a w rk = rk[d := rk ! a XOR w]"

text \<open>The three assignments \<open>rk[d + 1] = rk[a] ^ rk[d]\<close> and so on that end every turn.\<close>

definition next_three :: "nat \<Rightarrow> nat \<Rightarrow> u32 list \<Rightarrow> u32 list" where
  "next_three d a rk =
     (let rk = set_xor (d + 1) a (rk ! d) rk;
          rk = set_xor (d + 2) (a + 1) (rk ! (d + 1)) rk
      in set_xor (d + 3) (a + 2) (rk ! (d + 2)) rk)"

text \<open>
  The three loops of \<^verbatim>\<open>AES_set_encrypt_key\<close>, first one turn of each: \<open>n\<close> turns remain, \<open>i\<close> is the
  counter and \<open>p\<close> the position of \<^verbatim>\<open>rk\<close> in the array.  The last turn of the longer keys stops early.
\<close>

definition turn_128 :: "nat \<Rightarrow> nat \<Rightarrow> u32 list \<Rightarrow> u32 list" where
  "turn_128 i p rk =
     (let temp = rk ! (p + 3)
      in next_three (p + 4) (p + 1) (rk[p + 4 := rk ! p XOR sub_rot temp XOR rcon ! i]))"

fun AES_expand_128 :: "nat \<Rightarrow> nat \<Rightarrow> nat \<Rightarrow> u32 list \<Rightarrow> u32 list" where
  "AES_expand_128 0 i p rk = rk"
| "AES_expand_128 (Suc n) i p rk = AES_expand_128 n (i + 1) (p + 4) (turn_128 i p rk)"

definition turn_192 :: "nat \<Rightarrow> nat \<Rightarrow> u32 list \<Rightarrow> u32 list" where
  "turn_192 i p rk =
     (let temp = rk ! (p + 5)
      in next_three (p + 6) (p + 1) (rk[p + 6 := rk ! p XOR sub_rot temp XOR rcon ! i]))"

definition turn_192_rest :: "nat \<Rightarrow> u32 list \<Rightarrow> u32 list" where
  "turn_192_rest p rk =
     (let rk = set_xor (p + 10) (p + 4) (rk ! (p + 9)) rk
      in set_xor (p + 11) (p + 5) (rk ! (p + 10)) rk)"

fun AES_expand_192 :: "nat \<Rightarrow> nat \<Rightarrow> nat \<Rightarrow> u32 list \<Rightarrow> u32 list" where
  "AES_expand_192 0 i p rk = rk"
| "AES_expand_192 (Suc n) i p rk =
     (if n = 0 then turn_192 i p rk
      else AES_expand_192 n (i + 1) (p + 6) (turn_192_rest p (turn_192 i p rk)))"

definition turn_256 :: "nat \<Rightarrow> nat \<Rightarrow> u32 list \<Rightarrow> u32 list" where
  "turn_256 i p rk =
     (let temp = rk ! (p + 7)
      in next_three (p + 8) (p + 1) (rk[p + 8 := rk ! p XOR sub_rot temp XOR rcon ! i]))"

definition turn_256_rest :: "nat \<Rightarrow> u32 list \<Rightarrow> u32 list" where
  "turn_256_rest p rk =
     (let temp = rk ! (p + 11)
      in next_three (p + 12) (p + 5) (rk[p + 12 := rk ! (p + 4) XOR sub_word temp]))"

fun AES_expand_256 :: "nat \<Rightarrow> nat \<Rightarrow> nat \<Rightarrow> u32 list \<Rightarrow> u32 list" where
  "AES_expand_256 0 i p rk = rk"
| "AES_expand_256 (Suc n) i p rk =
     (if n = 0 then turn_256 i p rk
      else AES_expand_256 n (i + 1) (p + 8) (turn_256_rest p (turn_256 i p rk)))"

text \<open>Load \<open>n\<close> words of the user's key into the start of the array.\<close>

definition load_key :: "nat \<Rightarrow> u8 list \<Rightarrow> u32 list \<Rightarrow> u32 list" where
  "load_key n userKey rk = map (\<lambda>i. GETU32 userKey (4 * i)) [0..<n] @ drop n rk"

text \<open>The status and the key; \<open>None\<close> when the array behind \<^verbatim>\<open>userKey\<close> is too short for \<^verbatim>\<open>bits\<close>.\<close>

definition AES_set_encrypt_key :: "u8 list option \<Rightarrow> int \<Rightarrow> AES_KEY \<Rightarrow> (int \<times> AES_KEY) option" where
  "AES_set_encrypt_key userKey bits key =
     (case userKey of
        None \<Rightarrow> Some (-1, key)
      | Some uk \<Rightarrow>
          if bits \<noteq> 128 \<and> bits \<noteq> 192 \<and> bits \<noteq> 256 then Some (-2, key)
          else if length uk < nat bits div 8 then None
          else
            let key = key\<lparr>rounds := (if bits = 128 then 10 else if bits = 192 then 12 else 14)\<rparr>
            in if bits = 128 then
                 Some (0, key\<lparr>rd_key := AES_expand_128 10 0 0 (load_key 4 uk (rd_key key))\<rparr>)
               else if bits = 192 then
                 Some (0, key\<lparr>rd_key := AES_expand_192 8 0 0 (load_key 6 uk (rd_key key))\<rparr>)
               else
                 Some (0, key\<lparr>rd_key := AES_expand_256 7 0 0 (load_key 8 uk (rd_key key))\<rparr>))"

text \<open>The loop that inverts the order of the round keys.\<close>

definition swap_words :: "nat \<Rightarrow> nat \<Rightarrow> u32 list \<Rightarrow> u32 list" where
  "swap_words i j rk = (let temp = rk ! i; rk = rk[i := rk ! j] in rk[j := temp])"

definition swap_round_keys :: "nat \<Rightarrow> nat \<Rightarrow> u32 list \<Rightarrow> u32 list" where
  "swap_round_keys i j rk =
     swap_words (i + 3) (j + 3) (swap_words (i + 2) (j + 2) (swap_words (i + 1) (j + 1) (swap_words i j rk)))"

function AES_invert_order :: "nat \<Rightarrow> nat \<Rightarrow> u32 list \<Rightarrow> u32 list" where
  "AES_invert_order i j rk =
     (if i < j then AES_invert_order (i + 4) (j - 4) (swap_round_keys i j rk) else rk)"
  by pat_completeness auto
termination by (relation "measure (\<lambda>(i, j, rk). j - i)") auto

declare AES_invert_order.simps [simp del]

text \<open>The inverse MixColumn transform of one word of a round key.\<close>

definition inv_mix_key :: "u32 \<Rightarrow> u32" where
  "inv_mix_key w =
     (Td0 ! unat ((Te4 ! unat (drop_bit 24 w)) AND 0xff)) XOR
     (Td1 ! unat ((Te4 ! unat (drop_bit 16 w AND 0xff)) AND 0xff)) XOR
     (Td2 ! unat ((Te4 ! unat (drop_bit 8 w AND 0xff)) AND 0xff)) XOR
     (Td3 ! unat ((Te4 ! unat (w AND 0xff)) AND 0xff))"

definition inv_mix_round_key :: "nat \<Rightarrow> u32 list \<Rightarrow> u32 list" where
  "inv_mix_round_key p rk =
     (let rk = rk[p := inv_mix_key (rk ! p)];
          rk = rk[p + 1 := inv_mix_key (rk ! (p + 1))];
          rk = rk[p + 2 := inv_mix_key (rk ! (p + 2))]
      in rk[p + 3 := inv_mix_key (rk ! (p + 3))])"

fun AES_inv_mix :: "nat \<Rightarrow> nat \<Rightarrow> u32 list \<Rightarrow> u32 list" where
  "AES_inv_mix 0 p rk = rk"
| "AES_inv_mix (Suc n) p rk = AES_inv_mix n (p + 4) (inv_mix_round_key (p + 4) rk)"

definition AES_set_decrypt_key :: "u8 list option \<Rightarrow> int \<Rightarrow> AES_KEY \<Rightarrow> (int \<times> AES_KEY) option" where
  "AES_set_decrypt_key userKey bits key = do {
     (status, key) \<leftarrow> AES_set_encrypt_key userKey bits key;
     if status < 0 then Some (status, key)
     else
       let rk = AES_invert_order 0 (4 * rounds key) (rd_key key);
           rk = AES_inv_mix (rounds key - 1) 0 rk
       in Some (0, key\<lparr>rd_key := rk\<rparr>)
   }"

section \<open>A block\<close>

type_synonym state4 = "u32 \<times> u32 \<times> u32 \<times> u32"

text \<open>Four words of the key at an index from \<^verbatim>\<open>rk\<close>.\<close>

definition rk4 :: "u32 list \<Rightarrow> nat \<Rightarrow> state4 option" where
  "rk4 rk i = (if i + 3 < length rk then Some (rk ! i, rk ! (i + 1), rk ! (i + 2), rk ! (i + 3)) else None)"

definition Te_word :: "u32 \<Rightarrow> u32 \<Rightarrow> u32 \<Rightarrow> u32 \<Rightarrow> u32" where
  "Te_word s0 s1 s2 s3 =
     Te0 ! unat (drop_bit 24 s0) XOR Te1 ! unat (drop_bit 16 s1 AND 0xff) XOR
     Te2 ! unat (drop_bit 8 s2 AND 0xff) XOR Te3 ! unat (s3 AND 0xff)"

fun Te_round :: "state4 \<Rightarrow> state4 \<Rightarrow> state4" where
  "Te_round (s0, s1, s2, s3) (k0, k1, k2, k3) =
     (Te_word s0 s1 s2 s3 XOR k0, Te_word s1 s2 s3 s0 XOR k1,
      Te_word s2 s3 s0 s1 XOR k2, Te_word s3 s0 s1 s2 XOR k3)"

definition Te4_word :: "u32 \<Rightarrow> u32 \<Rightarrow> u32 \<Rightarrow> u32 \<Rightarrow> u32" where
  "Te4_word t0 t1 t2 t3 =
     ((Te4 ! unat (drop_bit 24 t0)) AND 0xff000000) XOR
     ((Te4 ! unat (drop_bit 16 t1 AND 0xff)) AND 0x00ff0000) XOR
     ((Te4 ! unat (drop_bit 8 t2 AND 0xff)) AND 0x0000ff00) XOR
     ((Te4 ! unat (t3 AND 0xff)) AND 0x000000ff)"

fun Te_last :: "state4 \<Rightarrow> state4 \<Rightarrow> state4" where
  "Te_last (t0, t1, t2, t3) (k0, k1, k2, k3) =
     (Te4_word t0 t1 t2 t3 XOR k0, Te4_word t1 t2 t3 t0 XOR k1,
      Te4_word t2 t3 t0 t1 XOR k2, Te4_word t3 t0 t1 t2 XOR k3)"

text \<open>
  The loop \<^verbatim>\<open>for (;;)\<close> with \<open>r\<close> as its counter (a counter that starts at 0 would run off the key):
  the state \<^verbatim>\<open>t0..t3\<close> and the rest of the key at the \<^verbatim>\<open>break\<close>.
\<close>

fun AES_encrypt_loop :: "nat \<Rightarrow> u32 list \<Rightarrow> state4 \<Rightarrow> (state4 \<times> u32 list) option" where
  "AES_encrypt_loop 0 rk s = None"
| "AES_encrypt_loop (Suc r) rk s = do {
     k \<leftarrow> rk4 rk 4;
     let t = Te_round s k;
     let rk = drop 8 rk;
     if r = 0 then Some (t, rk)
     else do {
       k \<leftarrow> rk4 rk 0;
       AES_encrypt_loop r rk (Te_round t k)
     }
   }"

fun xor4 :: "state4 \<Rightarrow> state4 \<Rightarrow> state4" where
  "xor4 (s0, s1, s2, s3) (k0, k1, k2, k3) = (s0 XOR k0, s1 XOR k1, s2 XOR k2, s3 XOR k3)"

definition get_state :: "u8 list \<Rightarrow> state4" where
  "get_state b = (GETU32 b 0, GETU32 b 4, GETU32 b 8, GETU32 b 12)"

fun put_state :: "state4 \<Rightarrow> u8 list" where
  "put_state (s0, s1, s2, s3) = PUTU32 s0 @ PUTU32 s1 @ PUTU32 s2 @ PUTU32 s3"

text \<open>The 16 bytes written at \<^verbatim>\<open>out\<close> for the 16 bytes read at \<^verbatim>\<open>in\<close> (all read before any is written).\<close>

definition AES_encrypt :: "u8 list \<Rightarrow> AES_KEY \<Rightarrow> u8 list option" where
  "AES_encrypt inp key = do {
     b \<leftarrow> rd inp 0 16;
     k \<leftarrow> rk4 (rd_key key) 0;
     (t, rk) \<leftarrow> AES_encrypt_loop (rounds key div 2) (rd_key key) (xor4 (get_state b) k);
     k \<leftarrow> rk4 rk 0;
     Some (put_state (Te_last t k))
   }"

definition Td_word :: "u32 \<Rightarrow> u32 \<Rightarrow> u32 \<Rightarrow> u32 \<Rightarrow> u32" where
  "Td_word s0 s3 s2 s1 =
     Td0 ! unat (drop_bit 24 s0) XOR Td1 ! unat (drop_bit 16 s3 AND 0xff) XOR
     Td2 ! unat (drop_bit 8 s2 AND 0xff) XOR Td3 ! unat (s1 AND 0xff)"

fun Td_round :: "state4 \<Rightarrow> state4 \<Rightarrow> state4" where
  "Td_round (s0, s1, s2, s3) (k0, k1, k2, k3) =
     (Td_word s0 s3 s2 s1 XOR k0, Td_word s1 s0 s3 s2 XOR k1,
      Td_word s2 s1 s0 s3 XOR k2, Td_word s3 s2 s1 s0 XOR k3)"

definition Td4_word :: "u32 \<Rightarrow> u32 \<Rightarrow> u32 \<Rightarrow> u32 \<Rightarrow> u32" where
  "Td4_word t0 t3 t2 t1 =
     ((Td4 ! unat (drop_bit 24 t0)) AND 0xff000000) XOR
     ((Td4 ! unat (drop_bit 16 t3 AND 0xff)) AND 0x00ff0000) XOR
     ((Td4 ! unat (drop_bit 8 t2 AND 0xff)) AND 0x0000ff00) XOR
     ((Td4 ! unat (t1 AND 0xff)) AND 0x000000ff)"

fun Td_last :: "state4 \<Rightarrow> state4 \<Rightarrow> state4" where
  "Td_last (t0, t1, t2, t3) (k0, k1, k2, k3) =
     (Td4_word t0 t3 t2 t1 XOR k0, Td4_word t1 t0 t3 t2 XOR k1,
      Td4_word t2 t1 t0 t3 XOR k2, Td4_word t3 t2 t1 t0 XOR k3)"

fun AES_decrypt_loop :: "nat \<Rightarrow> u32 list \<Rightarrow> state4 \<Rightarrow> (state4 \<times> u32 list) option" where
  "AES_decrypt_loop 0 rk s = None"
| "AES_decrypt_loop (Suc r) rk s = do {
     k \<leftarrow> rk4 rk 4;
     let t = Td_round s k;
     let rk = drop 8 rk;
     if r = 0 then Some (t, rk)
     else do {
       k \<leftarrow> rk4 rk 0;
       AES_decrypt_loop r rk (Td_round t k)
     }
   }"

definition AES_decrypt :: "u8 list \<Rightarrow> AES_KEY \<Rightarrow> u8 list option" where
  "AES_decrypt inp key = do {
     b \<leftarrow> rd inp 0 16;
     k \<leftarrow> rk4 (rd_key key) 0;
     (t, rk) \<leftarrow> AES_decrypt_loop (rounds key div 2) (rd_key key) (xor4 (get_state b) k);
     k \<leftarrow> rk4 rk 0;
     Some (put_state (Td_last t k))
   }"

section \<open>The tables and GF(256)\<close>

text \<open>Multiplication by 2 in GF(256) and the multiples of \<^verbatim>\<open>Td0\<close>, the S-box and its inverse as the
  tables hold them, and the word of four bytes with its bytes.\<close>

definition xtime :: "u8 \<Rightarrow> u8" where
  "xtime b = push_bit 1 b XOR (if bit b 7 then 0x1b else 0)"

definition mul9 :: "u8 \<Rightarrow> u8" where
  "mul9 b = xtime (xtime (xtime b)) XOR b"

definition mulb :: "u8 \<Rightarrow> u8" where
  "mulb b = xtime (xtime (xtime b)) XOR xtime b XOR b"

definition muld :: "u8 \<Rightarrow> u8" where
  "muld b = xtime (xtime (xtime b)) XOR xtime (xtime b) XOR b"

definition mule :: "u8 \<Rightarrow> u8" where
  "mule b = xtime (xtime (xtime b)) XOR xtime (xtime b) XOR xtime b"

definition sbox :: "u8 \<Rightarrow> u8" where
  "sbox b = ucast (Te4 ! unat b)"

definition inv_sbox :: "u8 \<Rightarrow> u8" where
  "inv_sbox b = ucast (Td4 ! unat b)"

definition cat4 :: "u8 \<Rightarrow> u8 \<Rightarrow> u8 \<Rightarrow> u8 \<Rightarrow> u32" where
  "cat4 a b c d = push_bit 24 (ucast a) OR push_bit 16 (ucast b) OR push_bit 8 (ucast c) OR ucast d"

definition byte3 :: "u32 \<Rightarrow> u8" where "byte3 w = ucast (drop_bit 24 w)"
definition byte2 :: "u32 \<Rightarrow> u8" where "byte2 w = ucast (drop_bit 16 w)"
definition byte1 :: "u32 \<Rightarrow> u8" where "byte1 w = ucast (drop_bit 8 w)"
definition byte0 :: "u32 \<Rightarrow> u8" where "byte0 w = ucast w"

lemmas byte_defs = byte3_def byte2_def byte1_def byte0_def

lemma bytes_cat4 [simp]:
  "byte3 (cat4 a b c d) = a" "byte2 (cat4 a b c d) = b" "byte1 (cat4 a b c d) = c" "byte0 (cat4 a b c d) = d"
  by (rule bit_word_eqI; auto simp: byte_defs cat4_def bit_simps dest: bit_imp_le_length)+

lemma bytes_xor [simp]:
  "byte3 (x XOR y) = byte3 x XOR byte3 y" "byte2 (x XOR y) = byte2 x XOR byte2 y"
  "byte1 (x XOR y) = byte1 x XOR byte1 y" "byte0 (x XOR y) = byte0 x XOR byte0 y"
  by (rule bit_word_eqI; auto simp: byte_defs bit_simps)+

lemma cat4_bytes [simp]: "cat4 (byte3 w) (byte2 w) (byte1 w) (byte0 w) = w"
proof (rule bit_word_eqI)
  fix n assume n: "n < LENGTH(32)"
  consider "n < 8" | "8 \<le> n" "n < 16" | "16 \<le> n" "n < 24" | "24 \<le> n" "n < 32"
    using n by fastforce
  then show "bit (cat4 (byte3 w) (byte2 w) (byte1 w) (byte0 w)) n = bit w n"
    by cases (auto simp: byte_defs cat4_def bit_simps)
qed

lemma word_by_bytes:
  "byte3 x = byte3 y \<Longrightarrow> byte2 x = byte2 y \<Longrightarrow> byte1 x = byte1 y \<Longrightarrow> byte0 x = byte0 y \<Longrightarrow> x = y"
  by (metis cat4_bytes)

lemma cat4_xor: "cat4 a b c d XOR cat4 a' b' c' d' = cat4 (a XOR a') (b XOR b') (c XOR c') (d XOR d')"
  by (rule word_by_bytes) simp_all

lemma bytes_and [simp]:
  "byte3 (x AND y) = byte3 x AND byte3 y" "byte2 (x AND y) = byte2 x AND byte2 y"
  "byte1 (x AND y) = byte1 x AND byte1 y" "byte0 (x AND y) = byte0 x AND byte0 y"
  by (rule bit_word_eqI; auto simp: byte_defs bit_simps)+

lemma byte_max: "(b :: u8) AND 255 = b" "(255 :: u8) AND b = b"
proof -
  have "(255 :: u8) = -1" by simp
  then show "(b :: u8) AND 255 = b" "(255 :: u8) AND b = b"
    by (simp_all only: and.right_neutral and.left_neutral)
qed

lemma bytes_masks:
  "byte3 0xff000000 = 255" "byte2 0xff000000 = 0" "byte1 0xff000000 = 0" "byte0 0xff000000 = 0"
  "byte3 0x00ff0000 = 0" "byte2 0x00ff0000 = 255" "byte1 0x00ff0000 = 0" "byte0 0x00ff0000 = 0"
  "byte3 0x0000ff00 = 0" "byte2 0x0000ff00 = 0" "byte1 0x0000ff00 = 255" "byte0 0x0000ff00 = 0"
  "byte3 0x000000ff = 0" "byte2 0x000000ff = 0" "byte1 0x000000ff = 0" "byte0 0x000000ff = 255"
  by code_simp+

lemma bytes_0: "byte3 0 = 0" "byte2 0 = 0" "byte1 0 = 0" "byte0 0 = 0"
  by code_simp+

lemma cat4_masks:
  "cat4 a b c d AND 0xff000000 = cat4 a 0 0 0" "cat4 a b c d AND 0x00ff0000 = cat4 0 b 0 0"
  "cat4 a b c d AND 0x0000ff00 = cat4 0 0 c 0" "cat4 a b c d AND 0x000000ff = cat4 0 0 0 d"
  by (rule word_by_bytes; simp add: bytes_masks byte_max)+

text \<open>The index expressions of the code are the bytes.\<close>

lemma ucast_and_255: "ucast (w AND 0xff) = (ucast w :: u8)" for w :: u32
proof -
  have "byte0 (w AND 0xff) = byte0 w"
    by (simp add: bytes_masks byte_max)
  then show ?thesis by (simp add: byte0_def)
qed

lemma index_and: "unat (w AND 0xff) = unat (byte0 w)" for w :: u32
proof -
  have "w AND 0xff = take_bit 8 w"
    by (simp add: take_bit_eq_mask mask_eq_exp_minus_1)
  then have "unat (w AND 0xff) = take_bit 8 (unat w)"
    by (simp add: unsigned_take_bit_eq)
  also have "\<dots> = unat (byte0 w)"
    by (simp add: byte0_def unsigned_ucast_eq)
  finally show ?thesis .
qed

lemma indices:
  "unat (drop_bit 24 w) = unat (byte3 w)" "unat (drop_bit 16 w AND 0xff) = unat (byte2 w)"
  "unat (drop_bit 8 w AND 0xff) = unat (byte1 w)" "unat (w AND 0xff) = unat (byte0 w)" for w :: u32
proof -
  have "drop_bit 24 w = take_bit 8 (drop_bit 24 w)"
    by (rule bit_word_eqI) (auto simp: bit_simps dest: bit_imp_le_length)
  then have "unat (drop_bit 24 w) = take_bit 8 (unat (drop_bit 24 w))"
    by (metis unsigned_take_bit_eq)
  then show "unat (drop_bit 24 w) = unat (byte3 w)"
    by (simp add: byte3_def unsigned_ucast_eq)
qed (simp_all only: index_and byte_defs)

subsection \<open>The entries of the tables\<close>

text \<open>Each table is the one the comment at its top announces; the lists are compared entry by entry.\<close>

definition all_u8 :: "u8 list" where
  "all_u8 = map word_of_nat [0..<256]"

lemma length_tables:
  "length Te4 = 256" "length Td4 = 256"
  by (simp_all add: Te4_def Td4_def)

text \<open>The same functions on integers, where the simplifier evaluates them quickly.\<close>

definition xt :: "int \<Rightarrow> int" where
  "xt s = (if s < 128 then 2 * s else (2 * s - 256) XOR 27)"

definition int4 :: "int \<Rightarrow> int \<Rightarrow> int \<Rightarrow> int \<Rightarrow> int" where
  "int4 a b c d = ((a * 256 + b) * 256 + c) * 256 + d"

lemma uint_xtime: "uint (xtime b) = xt (uint b)"
  by (rule all_bytes) code_simp

lemma uint_low: "uint (ucast w :: u8) = uint w mod 256" for w :: u32
  by (simp add: unsigned_ucast_eq take_bit_eq_mod)

lemma uint_cat4: "uint (cat4 a b c d) = int4 (uint a) (uint b) (uint c) (uint d)"
proof -
  have lt: "uint x < 256" for x :: u8
    using unsigned_less [of x, where 'a=int] by simp
  have push: "uint (push_bit 24 (ucast x) :: u32) = uint x * 16777216"
    "uint (push_bit 16 (ucast x) :: u32) = uint x * 65536"
    "uint (push_bit 8 (ucast x) :: u32) = uint x * 256"
    "uint (ucast x :: u32) = uint x" for x :: u8
    using lt [of x]
    by (simp_all only: unsigned_push_bit_eq unsigned_ucast_eq)
      (simp_all add: push_bit_eq_mult take_bit_int_eq_self)
  have "push_bit 8 (ucast c) OR ucast d = push_bit 8 (ucast c) + (ucast d :: u32)"
    by (rule disjunctive_add [symmetric]) (auto simp: bit_simps dest: bit_imp_le_length)
  moreover have "push_bit 16 (ucast b) OR (push_bit 8 (ucast c) OR ucast d)
      = push_bit 16 (ucast b) + (push_bit 8 (ucast c) OR ucast d :: u32)"
    by (rule disjunctive_add [symmetric]) (auto simp: bit_simps dest: bit_imp_le_length)
  moreover have "push_bit 24 (ucast a) OR (push_bit 16 (ucast b) OR (push_bit 8 (ucast c) OR ucast d))
      = push_bit 24 (ucast a) + (push_bit 16 (ucast b) OR (push_bit 8 (ucast c) OR ucast d) :: u32)"
    by (rule disjunctive_add [symmetric]) (auto simp: bit_simps dest: bit_imp_le_length)
  ultimately have "cat4 a b c d
      = push_bit 24 (ucast a) + (push_bit 16 (ucast b) + (push_bit 8 (ucast c) + ucast d))"
    by (simp only: cat4_def)
  then have "uint (cat4 a b c d)
      = (uint a * 16777216 + (uint b * 65536 + (uint c * 256 + uint d))) mod 2 ^ LENGTH(32)"
    by (simp only: uint_word_ariths push mod_add_left_eq mod_add_right_eq)
  also have "\<dots> = int4 (uint a) (uint b) (uint c) (uint d)"
    using lt [of a] lt [of b] lt [of c] lt [of d]
    by (subst mod_pos_pos_trivial) (simp_all add: int4_def)
  finally show ?thesis .
qed

text \<open>The rotation by one byte that leads from each of the first tables to the next.\<close>

definition rot8 :: "u32 \<Rightarrow> u32" where
  "rot8 w = cat4 (byte0 w) (byte3 w) (byte2 w) (byte1 w)"

lemma rot8_cat4 [simp]: "rot8 (cat4 a b c d) = cat4 d a b c"
  by (simp add: rot8_def)

lemma uint_rot8: "uint (rot8 w) = uint w div 256 + uint w mod 256 * 16777216"
proof -
  define a b c d where "a = uint (byte3 w)" and "b = uint (byte2 w)" and "c = uint (byte1 w)" and "d = uint (byte0 w)"
  have "0 \<le> d" "d < 256"
    using unsigned_less [of "byte0 w", where 'a=int] by (simp_all add: d_def)
  moreover have "uint w = int4 a b c d"
    using uint_cat4 [of "byte3 w" "byte2 w" "byte1 w" "byte0 w"] by (simp add: a_def b_def c_def d_def)
  moreover have "uint (rot8 w) = int4 d a b c"
    by (simp add: rot8_def uint_cat4 a_def b_def c_def d_def)
  moreover have "(d + 256 * k) div 256 = k \<and> (d + 256 * k) mod 256 = d" for k
    using calculation(1,2) by simp
  ultimately show ?thesis
    by (simp only: int4_def mult.commute [of _ 256] add.commute [of _ d]) simp
qed

lemma list_all2_map: "list_all2 (\<lambda>x y. uint x = uint (f y)) xs ys \<Longrightarrow> xs = map f (ys :: u32 list)" for f :: "u32 \<Rightarrow> u32"
  by (induction rule: list_all2_induct) (simp_all add: word_uint_eq_iff)

lemmas uint_bytes = uint_cat4 uint_xtime uint_low unsigned_xor_eq

lemma Te4_list: "Te4 = map (\<lambda>w. let s = ucast w in cat4 s s s s) Te4"
  by (rule list_all2_map) (simp only: uint_bytes Let_def, simp add: Te4_def int4_def)

lemma Te0_ints: "list_all2 (\<lambda>w v. uint w = (let s = uint v mod 256 in int4 (xt s) s s (xt s XOR s))) Te0 Te4"
  by (simp add: Te0_def Te4_def int4_def xt_def)

lemma Te0_list: "Te0 = map (\<lambda>w. let s = ucast w in cat4 (xtime s) s s (xtime s XOR s)) Te4"
  using Te0_ints by (intro list_all2_map) (simp only: uint_bytes Let_def)

lemma Te1_ints: "list_all2 (\<lambda>w v. uint w = uint v div 256 + uint v mod 256 * 16777216) Te1 Te0"
  by (simp add: Te1_def Te0_def)

lemma Te1_list: "Te1 = map rot8 Te0"
  using Te1_ints by (intro list_all2_map) (simp only: uint_rot8)

lemma Te2_ints: "list_all2 (\<lambda>w v. uint w = uint v div 256 + uint v mod 256 * 16777216) Te2 Te1"
  by (simp add: Te2_def Te1_def)

lemma Te2_list: "Te2 = map rot8 Te1"
  using Te2_ints by (intro list_all2_map) (simp only: uint_rot8)

lemma Te3_ints: "list_all2 (\<lambda>w v. uint w = uint v div 256 + uint v mod 256 * 16777216) Te3 Te2"
  by (simp add: Te3_def Te2_def)

lemma Te3_list: "Te3 = map rot8 Te2"
  using Te3_ints by (intro list_all2_map) (simp only: uint_rot8)

lemma Td4_list: "Td4 = map (\<lambda>w. let s = ucast w in cat4 s s s s) Td4"
  by (rule list_all2_map) (simp only: uint_bytes Let_def, simp add: Td4_def int4_def)

lemma Td0_ints: "list_all2 (\<lambda>w v. uint w =
    (let s = uint v mod 256; x = xt s; y = xt x; z = xt y in int4 (z XOR y XOR x) (z XOR s) (z XOR y XOR s) (z XOR x XOR s))) Td0 Td4"
  by (simp add: Td0_def Td4_def int4_def xt_def)

lemma Td0_list: "Td0 = map (\<lambda>w. let s = ucast w in cat4 (mule s) (mul9 s) (muld s) (mulb s)) Td4"
  using Td0_ints
  by (intro list_all2_map) (simp only: uint_bytes mule_def mul9_def muld_def mulb_def Let_def)

lemma Td1_ints: "list_all2 (\<lambda>w v. uint w = uint v div 256 + uint v mod 256 * 16777216) Td1 Td0"
  by (simp add: Td1_def Td0_def)

lemma Td1_list: "Td1 = map rot8 Td0"
  using Td1_ints by (intro list_all2_map) (simp only: uint_rot8)

lemma Td2_ints: "list_all2 (\<lambda>w v. uint w = uint v div 256 + uint v mod 256 * 16777216) Td2 Td1"
  by (simp add: Td2_def Td1_def)

lemma Td2_list: "Td2 = map rot8 Td1"
  using Td2_ints by (intro list_all2_map) (simp only: uint_rot8)

lemma Td3_ints: "list_all2 (\<lambda>w v. uint w = uint v div 256 + uint v mod 256 * 16777216) Td3 Td2"
  by (simp add: Td3_def Td2_def)

lemma Td3_list: "Td3 = map rot8 Td2"
  using Td3_ints by (intro list_all2_map) (simp only: uint_rot8)

lemma Td4_inverts_Te4: "map (\<lambda>w. Td4 ! unat (ucast w :: u8)) Te4 = map (\<lambda>b. cat4 b b b b) all_u8"
  by code_simp

lemma unat_256: "unat (b :: u8) < 256"
  by (rule unat_8)

lemma nth_map_table: "xs = map f ys \<Longrightarrow> length ys = 256 \<Longrightarrow> xs ! unat (b :: u8) = f (ys ! unat b)"
  using unat_256 [of b] by simp

lemma Te4_entry: "Te4 ! unat b = cat4 (sbox b) (sbox b) (sbox b) (sbox b)"
  using nth_map_table [OF Te4_list length_tables(1), of b] by (simp add: sbox_def Let_def)

lemma Td4_entry: "Td4 ! unat b = cat4 (inv_sbox b) (inv_sbox b) (inv_sbox b) (inv_sbox b)"
  using nth_map_table [OF Td4_list length_tables(2), of b] by (simp add: inv_sbox_def Let_def)

lemma length_maps: "length (map f Te4) = 256" "length (map f Td4) = 256"
  by (simp_all add: length_tables)

lemma Te_entries:
  "Te0 ! unat b = cat4 (xtime (sbox b)) (sbox b) (sbox b) (xtime (sbox b) XOR sbox b)"
  "Te1 ! unat b = cat4 (xtime (sbox b) XOR sbox b) (xtime (sbox b)) (sbox b) (sbox b)"
  "Te2 ! unat b = cat4 (sbox b) (xtime (sbox b) XOR sbox b) (xtime (sbox b)) (sbox b)"
  "Te3 ! unat b = cat4 (sbox b) (sbox b) (xtime (sbox b) XOR sbox b) (xtime (sbox b))"
  using unat_256 [of b]
  by (simp_all add: Te3_list Te2_list Te1_list, simp_all add: Te0_list length_tables sbox_def Let_def)

lemma Td_entries:
  "Td0 ! unat b = (let s = inv_sbox b in cat4 (mule s) (mul9 s) (muld s) (mulb s))"
  "Td1 ! unat b = (let s = inv_sbox b in cat4 (mulb s) (mule s) (mul9 s) (muld s))"
  "Td2 ! unat b = (let s = inv_sbox b in cat4 (muld s) (mulb s) (mule s) (mul9 s))"
  "Td3 ! unat b = (let s = inv_sbox b in cat4 (mul9 s) (muld s) (mulb s) (mule s))"
  using unat_256 [of b]
  by (simp_all add: Td3_list Td2_list Td1_list, simp_all add: Td0_list length_tables inv_sbox_def Let_def)

lemma inv_sbox_sbox [simp]: "inv_sbox (sbox b) = b"
proof -
  have "Td4 ! unat (ucast (Te4 ! unat b) :: u8) = cat4 b b b b"
    using arg_cong [OF Td4_inverts_Te4, of "\<lambda>xs. xs ! unat b"] unat_256 [of b]
    by (simp add: all_u8_def length_tables del: upt_conv_Cons)
  then have "byte0 (Td4 ! unat (sbox b)) = b"
    by (simp add: sbox_def)
  then show ?thesis
    by (simp add: inv_sbox_def byte0_def)
qed

section \<open>A round in terms of bytes\<close>

lemma xtime_xor: "xtime (a XOR b) = xtime a XOR xtime b"
  by (rule bit_word_eqI) (auto simp: xtime_def bit_xor_iff bit_push_bit_iff)

lemma xtime_0 [simp]: "xtime 0 = 0"
  by (simp add: xtime_def)

lemmas mul_defs = mule_def muld_def mulb_def mul9_def

lemma byte0_drop [simp]: "byte0 (drop_bit 16 w) = byte2 w" "byte0 (drop_bit 8 w) = byte1 w"
  by (simp_all add: byte_defs)

definition mix :: "u32 \<Rightarrow> u32" where
  "mix w = (let a = byte3 w; b = byte2 w; c = byte1 w; d = byte0 w in
     cat4 (xtime a XOR xtime b XOR b XOR c XOR d) (a XOR xtime b XOR xtime c XOR c XOR d)
          (a XOR b XOR xtime c XOR xtime d XOR d) (xtime a XOR a XOR b XOR c XOR xtime d))"

definition srsb :: "u32 \<Rightarrow> u32 \<Rightarrow> u32 \<Rightarrow> u32 \<Rightarrow> u32" where
  "srsb s0 s1 s2 s3 = cat4 (sbox (byte3 s0)) (sbox (byte2 s1)) (sbox (byte1 s2)) (sbox (byte0 s3))"

definition isrsb :: "u32 \<Rightarrow> u32 \<Rightarrow> u32 \<Rightarrow> u32 \<Rightarrow> u32" where
  "isrsb s0 s3 s2 s1 =
     cat4 (inv_sbox (byte3 s0)) (inv_sbox (byte2 s3)) (inv_sbox (byte1 s2)) (inv_sbox (byte0 s1))"

lemma isrsb_srsb: "isrsb (srsb s0 a b c) (srsb d s1 e f) (srsb g h s2 i) (srsb j k l s3)
    = cat4 (byte3 s0) (byte2 s1) (byte1 s2) (byte0 s3)"
  by (simp add: isrsb_def srsb_def)

lemma Te_word_mix: "Te_word s0 s1 s2 s3 = mix (srsb s0 s1 s2 s3)"
  by (simp add: Te_word_def indices Te_entries cat4_xor mix_def srsb_def Let_def ac_simps)

lemma Te4_word_srsb: "Te4_word s0 s1 s2 s3 = srsb s0 s1 s2 s3"
  by (simp add: Te4_word_def indices Te4_entry cat4_masks cat4_xor srsb_def)

lemma Td4_word_isrsb: "Td4_word s0 s1 s2 s3 = isrsb s0 s1 s2 s3"
  by (simp add: Td4_word_def indices Td4_entry cat4_masks cat4_xor isrsb_def)

lemma inv_mix_key_bytes:
  "inv_mix_key (cat4 a b c d) =
     cat4 (mule a XOR mulb b XOR muld c XOR mul9 d) (mul9 a XOR mule b XOR mulb c XOR muld d)
          (muld a XOR mul9 b XOR mule c XOR mulb d) (mulb a XOR muld b XOR mul9 c XOR mule d)"
  by (simp add: inv_mix_key_def indices Te4_entry Td_entries Let_def cat4_xor)

lemma Td_word_inv_mix: "Td_word s0 s1 s2 s3 = inv_mix_key (isrsb s0 s1 s2 s3)"
  by (simp add: Td_word_def indices Td_entries Let_def cat4_xor isrsb_def inv_mix_key_bytes)

lemma mul_xor: "mule (a XOR b) = mule a XOR mule b" "muld (a XOR b) = muld a XOR muld b"
  "mulb (a XOR b) = mulb a XOR mulb b" "mul9 (a XOR b) = mul9 a XOR mul9 b"
  by (simp_all add: mul_defs xtime_xor ac_simps)

lemma inv_mix_key_xor: "inv_mix_key (x XOR y) = inv_mix_key x XOR inv_mix_key y"
proof -
  have "inv_mix_key (cat4 a b c d XOR cat4 a' b' c' d')
      = inv_mix_key (cat4 a b c d) XOR inv_mix_key (cat4 a' b' c' d')" for a b c d a' b' c' d'
    by (simp add: cat4_xor inv_mix_key_bytes mul_xor ac_simps)
  from this [of "byte3 x" "byte2 x" "byte1 x" "byte0 x" "byte3 y" "byte2 y" "byte1 y" "byte0 y"]
  show ?thesis by simp
qed

lemma xor_dup: "x XOR (x XOR y) = y" for x :: "'a::len word"
  by (simp flip: xor.assoc)

lemma inv_mix_key_mix [simp]: "inv_mix_key (mix w) = w"
proof -
  have "inv_mix_key (mix (cat4 a b c d)) = cat4 a b c d" for a b c d
    by (simp add: mix_def Let_def inv_mix_key_bytes mul_xor)
      (simp add: mul_defs xtime_xor ac_simps xor_dup)
  from this [of "byte3 w" "byte2 w" "byte1 w" "byte0 w"] show ?thesis by simp
qed


section \<open>Whole rounds, and the schedules by round keys\<close>

fun mix4 :: "state4 \<Rightarrow> state4" where
  "mix4 (a, b, c, d) = (mix a, mix b, mix c, mix d)"

fun srsb4 :: "state4 \<Rightarrow> state4" where
  "srsb4 (s0, s1, s2, s3) = (srsb s0 s1 s2 s3, srsb s1 s2 s3 s0, srsb s2 s3 s0 s1, srsb s3 s0 s1 s2)"

fun inv_mix4 :: "state4 \<Rightarrow> state4" where
  "inv_mix4 (a, b, c, d) = (inv_mix_key a, inv_mix_key b, inv_mix_key c, inv_mix_key d)"

lemma Te_round_eq: "Te_round s k = xor4 (mix4 (srsb4 s)) k"
  by (cases s; cases k) (simp add: Te_word_mix)

lemma Te_last_eq: "Te_last s k = xor4 (srsb4 s) k"
  by (cases s; cases k) (simp add: Te4_word_srsb)

lemma Td_round_srsb4: "Td_round (srsb4 s) (inv_mix4 k) = inv_mix4 (xor4 s k)"
  by (cases s; cases k) (simp add: Td_word_inv_mix isrsb_srsb inv_mix_key_xor)

lemma Td_last_srsb4: "Td_last (srsb4 s) k = xor4 s k"
  by (cases s; cases k) (simp add: Td4_word_isrsb isrsb_srsb)

lemma inv_mix4_mix4 [simp]: "inv_mix4 (mix4 s) = s"
  by (cases s) simp

lemma xor4_cancel [simp]: "xor4 (xor4 s k) k = s"
  by (cases s; cases k) (simp add: xor.assoc)

text \<open>Decryption undoes one round of encryption at a time.\<close>

lemma Td_round_Te_round: "Td_round (srsb4 (Te_round s k)) (inv_mix4 k) = srsb4 s"
  by (simp add: Td_round_srsb4 Te_round_eq)

text \<open>The round key \<open>m\<close> of an array.\<close>

definition round_key :: "u32 list \<Rightarrow> nat \<Rightarrow> state4" where
  "round_key rk m = (rk ! (4 * m), rk ! (4 * m + 1), rk ! (4 * m + 2), rk ! (4 * m + 3))"

lemma rk4_round_key: "4 * m + 3 < length rk \<Longrightarrow> rk4 rk (4 * m) = Some (round_key rk m)"
  by (simp add: rk4_def round_key_def)

lemma rk4_drop: "rk4 (drop n rk) i = rk4 rk (n + i)"
  by (auto simp: rk4_def add.assoc)

fun enc_rounds :: "u32 list \<Rightarrow> nat \<Rightarrow> nat \<Rightarrow> state4 \<Rightarrow> state4" where
  "enc_rounds rk m 0 s = s"
| "enc_rounds rk m (Suc n) s = enc_rounds rk (Suc m) n (Te_round s (round_key rk m))"

fun dec_rounds :: "u32 list \<Rightarrow> nat \<Rightarrow> nat \<Rightarrow> state4 \<Rightarrow> state4" where
  "dec_rounds rk m 0 s = s"
| "dec_rounds rk m (Suc n) s = dec_rounds rk (Suc m) n (Td_round s (round_key rk m))"

lemma AES_encrypt_loop_rounds:
  assumes "0 < r" "4 * m + 8 * r \<le> length rk"
  shows "AES_encrypt_loop r (drop (4 * m) rk) s
    = Some (enc_rounds rk (m + 1) (2 * r - 1) s, drop (4 * m + 8 * r) rk)"
  using assms
proof (induction r arbitrary: m s)
  case (Suc r)
  have k: "rk4 rk (4 * m + 4) = Some (round_key rk (m + 1))"
    using rk4_round_key [of "m + 1" rk] Suc.prems by (simp add: algebra_simps)
  show ?case
  proof (cases r)
    case 0
    with k show ?thesis by (simp add: rk4_drop add.commute)
  next
    case (Suc q)
    have k2: "rk4 rk (4 * m + 8) = Some (round_key rk (m + 2))"
      using rk4_round_key [of "m + 2" rk] Suc.prems \<open>r = Suc q\<close> by (simp add: algebra_simps)
    have "AES_encrypt_loop r (drop (4 * (m + 2)) rk) s'
        = Some (enc_rounds rk (m + 3) (2 * r - 1) s', drop (4 * (m + 2) + 8 * r) rk)" for s'
      using Suc.IH [of "m + 2" s'] Suc.prems \<open>r = Suc q\<close> by (simp add: eval_nat_numeral)
    with k k2 \<open>r = Suc q\<close> show ?thesis
      by (simp add: rk4_drop algebra_simps eval_nat_numeral)
  qed
qed simp

lemma AES_decrypt_loop_rounds:
  assumes "0 < r" "4 * m + 8 * r \<le> length rk"
  shows "AES_decrypt_loop r (drop (4 * m) rk) s
    = Some (dec_rounds rk (m + 1) (2 * r - 1) s, drop (4 * m + 8 * r) rk)"
  using assms
proof (induction r arbitrary: m s)
  case (Suc r)
  have k: "rk4 rk (4 * m + 4) = Some (round_key rk (m + 1))"
    using rk4_round_key [of "m + 1" rk] Suc.prems by (simp add: algebra_simps)
  show ?case
  proof (cases r)
    case 0
    with k show ?thesis by (simp add: rk4_drop add.commute)
  next
    case (Suc q)
    have k2: "rk4 rk (4 * m + 8) = Some (round_key rk (m + 2))"
      using rk4_round_key [of "m + 2" rk] Suc.prems \<open>r = Suc q\<close> by (simp add: algebra_simps)
    have "AES_decrypt_loop r (drop (4 * (m + 2)) rk) s'
        = Some (dec_rounds rk (m + 3) (2 * r - 1) s', drop (4 * (m + 2) + 8 * r) rk)" for s'
      using Suc.IH [of "m + 2" s'] Suc.prems \<open>r = Suc q\<close> by (simp add: eval_nat_numeral)
    with k k2 \<open>r = Suc q\<close> show ?thesis
      by (simp add: rk4_drop algebra_simps eval_nat_numeral)
  qed
qed simp

lemma enc_rounds_end:
  "enc_rounds rk m (Suc n) s = Te_round (enc_rounds rk m n s) (round_key rk (m + n))"
  by (induction n arbitrary: m s) simp_all

lemma dec_rounds_end:
  "dec_rounds rk m (Suc n) s = Td_round (dec_rounds rk m n s) (round_key rk (m + n))"
  by (induction n arbitrary: m s) simp_all

text \<open>The decryption schedule as \<^verbatim>\<open>AES_set_decrypt_key\<close> makes it from the encryption schedule.\<close>

definition inverse_schedule :: "nat \<Rightarrow> u32 list \<Rightarrow> u32 list \<Rightarrow> bool" where
  "inverse_schedule N ek dk \<longleftrightarrow> length dk = length ek \<and> round_key dk 0 = round_key ek N
     \<and> round_key dk N = round_key ek 0
     \<and> (\<forall>i. 0 < i \<and> i < N \<longrightarrow> round_key dk i = inv_mix4 (round_key ek (N - i)))"

lemma dec_rounds_enc_rounds:
  assumes "inverse_schedule N ek dk" "j < N"
  shows "dec_rounds dk 1 j (srsb4 (enc_rounds ek 1 (N - 1) s)) = srsb4 (enc_rounds ek 1 (N - 1 - j) s)"
  using assms(2)
proof (induction j)
  case (Suc j)
  define n where "n = N - 1 - Suc j"
  have n: "N - 1 - j = Suc n" "N - Suc j = Suc n"
    using Suc.prems by (simp_all add: n_def)
  have "dec_rounds dk 1 (Suc j) (srsb4 (enc_rounds ek 1 (N - 1) s))
      = Td_round (srsb4 (enc_rounds ek 1 (Suc n) s)) (round_key dk (1 + j))"
    using Suc.IH Suc.prems by (simp only: dec_rounds_end n(1))
  also have "round_key dk (1 + j) = inv_mix4 (round_key ek (1 + n))"
    using assms(1) Suc.prems n(2) by (simp add: inverse_schedule_def)
  also have "Td_round (srsb4 (enc_rounds ek 1 (Suc n) s)) (inv_mix4 (round_key ek (1 + n)))
      = srsb4 (enc_rounds ek 1 n s)"
    by (simp only: enc_rounds_end Td_round_Te_round)
  finally show ?case
    by (simp only: n_def)
qed simp

subsection \<open>Bytes and state\<close>

lemma GETU32_cat4: "GETU32 pt i = cat4 (pt ! i) (pt ! (i + 1)) (pt ! (i + 2)) (pt ! (i + 3))"
proof -
  have "push_bit 24 (ucast a) = cat4 a 0 0 0" "push_bit 16 (ucast a) = cat4 0 a 0 0"
    "push_bit 8 (ucast a) = cat4 0 0 a 0" "ucast a = cat4 0 0 0 a" for a
    by (simp_all add: cat4_def)
  then show ?thesis
    by (simp only: GETU32_def cat4_xor) simp
qed

lemma PUTU32_bytes: "PUTU32 w = [byte3 w, byte2 w, byte1 w, byte0 w]"
  by (simp add: PUTU32_def byte_defs)

lemma length_put_state [simp]: "length (put_state s) = 16"
  by (cases s) (simp add: PUTU32_def)

lemma get_put_state [simp]: "get_state (put_state s) = s"
  by (cases s) (simp add: get_state_def GETU32_cat4 PUTU32_bytes)

lemma put_get_state: "length b = 16 \<Longrightarrow> put_state (get_state b) = b"
  by (auto simp: get_state_def GETU32_cat4 PUTU32_bytes eval_nat_numeral length_Suc_conv)

lemma AES_encrypt_eq:
  assumes "16 \<le> length inp" "even (rounds key)" "0 < rounds key" "4 * (rounds key + 1) \<le> length (rd_key key)"
  shows "AES_encrypt inp key = Some (put_state (xor4
    (srsb4 (enc_rounds (rd_key key) 1 (rounds key - 1) (xor4 (get_state (take 16 inp)) (round_key (rd_key key) 0))))
    (round_key (rd_key key) (rounds key))))"
proof -
  obtain r where r: "rounds key = 2 * r" "0 < r"
    using assms(2,3) by (auto elim!: evenE)
  have "rk4 (rd_key key) 0 = Some (round_key (rd_key key) 0)"
    "rk4 (rd_key key) (8 * r) = Some (round_key (rd_key key) (2 * r))"
    using rk4_round_key [of 0 "rd_key key"] rk4_round_key [of "2 * r" "rd_key key"] assms(4) r by simp_all
  moreover have "AES_encrypt_loop r (rd_key key) s
      = Some (enc_rounds (rd_key key) 1 (2 * r - 1) s, drop (8 * r) (rd_key key))" for s
    using AES_encrypt_loop_rounds [of r 0 "rd_key key" s] assms(4) r by simp
  ultimately show ?thesis
    using assms(1) r by (simp add: AES_encrypt_def rd_Some rk4_drop Te_last_eq)
qed

lemma AES_decrypt_eq:
  assumes "16 \<le> length inp" "even (rounds key)" "0 < rounds key" "4 * (rounds key + 1) \<le> length (rd_key key)"
  shows "AES_decrypt inp key = Some (put_state (Td_last
    (dec_rounds (rd_key key) 1 (rounds key - 1) (xor4 (get_state (take 16 inp)) (round_key (rd_key key) 0)))
    (round_key (rd_key key) (rounds key))))"
proof -
  obtain r where r: "rounds key = 2 * r" "0 < r"
    using assms(2,3) by (auto elim!: evenE)
  have "rk4 (rd_key key) 0 = Some (round_key (rd_key key) 0)"
    "rk4 (rd_key key) (8 * r) = Some (round_key (rd_key key) (2 * r))"
    using rk4_round_key [of 0 "rd_key key"] rk4_round_key [of "2 * r" "rd_key key"] assms(4) r by simp_all
  moreover have "AES_decrypt_loop r (rd_key key) s
      = Some (dec_rounds (rd_key key) 1 (2 * r - 1) s, drop (8 * r) (rd_key key))" for s
    using AES_decrypt_loop_rounds [of r 0 "rd_key key" s] assms(4) r by simp
  ultimately show ?thesis
    using assms(1) r by (simp add: AES_decrypt_def rd_Some rk4_drop)
qed

lemma AES_decrypt_encrypt_schedule:
  assumes "length b = 16" "even (rounds ek)" "0 < rounds ek" "4 * (rounds ek + 1) \<le> length (rd_key ek)"
    and "rounds dk = rounds ek" "inverse_schedule (rounds ek) (rd_key ek) (rd_key dk)"
  shows "\<exists>c. AES_encrypt b ek = Some c \<and> length c = 16 \<and> AES_decrypt c dk = Some b"
proof -
  have len: "length (rd_key dk) = length (rd_key ek)"
    and k0: "round_key (rd_key dk) 0 = round_key (rd_key ek) (rounds ek)"
    and kN: "round_key (rd_key dk) (rounds ek) = round_key (rd_key ek) 0"
    using assms(6) by (simp_all add: inverse_schedule_def)
  have dec: "dec_rounds (rd_key dk) 1 (rounds ek - 1) (srsb4 (enc_rounds (rd_key ek) 1 (rounds ek - 1) s)) = srsb4 s" for s
    using dec_rounds_enc_rounds [OF assms(6), of "rounds ek - 1" s] assms(3) by simp
  show ?thesis
    using assms(1-5) len
    by (simp add: AES_encrypt_eq AES_decrypt_eq k0 kN dec Td_last_srsb4 put_get_state del: One_nat_def)
qed

subsection \<open>The schedules\<close>

lemma length_swap [simp]: "length (swap_words i j rk) = length rk"
  by (simp add: swap_words_def Let_def)

lemma nth_swap:
  "i < length rk \<Longrightarrow> j < length rk \<Longrightarrow>
     swap_words i j rk ! k = (if k = j then rk ! i else if k = i then rk ! j else rk ! k)"
  by (auto simp: swap_words_def Let_def nth_list_update)

lemma index4: "c < 4 \<Longrightarrow> d < 4 \<Longrightarrow> 4 * m + c = 4 * a + d \<longleftrightarrow> m = a \<and> c = (d :: nat)"
  by presburger

lemma length_swap_round_keys [simp]: "length (swap_round_keys i j rk) = length rk"
  by (simp add: swap_round_keys_def)

lemma nth_swap_round_keys:
  assumes "i + 4 \<le> j" "j + 3 < length rk"
  shows "swap_round_keys i j rk ! k =
    (if i \<le> k \<and> k < i + 4 then rk ! (j + (k - i))
     else if j \<le> k \<and> k < j + 4 then rk ! (i + (k - j)) else rk ! k)"
proof -
  have "k < i \<or> k = i \<or> k = i + 1 \<or> k = i + 2 \<or> k = i + 3 \<or> i + 4 \<le> k \<and> k < j
      \<or> k = j \<or> k = j + 1 \<or> k = j + 2 \<or> k = j + 3 \<or> j + 4 \<le> k"
    using assms(1) by linarith
  then show ?thesis
    unfolding swap_round_keys_def using assms
    by (elim disjE) (simp_all add: nth_swap)
qed

lemma round_key_swap:
  assumes "a < b" "4 * b + 3 < length rk"
  shows "round_key (swap_round_keys (4 * a) (4 * b) rk) m
    = round_key rk (if m = a then b else if m = b then a else m)"
proof -
  have *: "4 * a + 4 \<le> 4 * b" using assms(1) by simp
  have in_block: "4 * x \<le> 4 * m + c \<and> 4 * m + c < 4 * x + 4 \<longleftrightarrow> m = x" if "c < 4" for x c :: nat
    using that by presburger
  have "swap_round_keys (4 * a) (4 * b) rk ! (4 * m + c)
      = rk ! (4 * (if m = a then b else if m = b then a else m) + c)" if "c < 4" for c
    using in_block [OF that, of a] in_block [OF that, of b]
    by (simp add: nth_swap_round_keys [OF * assms(2)])
  from this [of 0] this [of 1] this [of 2] this [of 3] show ?thesis
    by (simp add: round_key_def)
qed

lemma length_invert_order [simp]: "length (AES_invert_order i j rk) = length rk"
  by (induction i j rk rule: AES_invert_order.induct) (subst AES_invert_order.simps, simp)

lemma round_key_invert_order:
  "4 * b + 3 < length rk \<Longrightarrow> round_key (AES_invert_order (4 * a) (4 * b) rk) m
     = round_key rk (if a \<le> m \<and> m \<le> b then a + b - m else m)"
proof (induction "b - a" arbitrary: a b rk m rule: less_induct)
  case less
  show ?case
  proof (cases "a < b")
    case True
    have "AES_invert_order (4 * a) (4 * b) rk
        = AES_invert_order (4 * (a + 1)) (4 * (b - 1)) (swap_round_keys (4 * a) (4 * b) rk)"
      using True by (subst AES_invert_order.simps) (simp add: algebra_simps)
    moreover have "4 * (b - 1) + 3 < length (swap_round_keys (4 * a) (4 * b) rk)"
      using less.prems by simp
    ultimately have "round_key (AES_invert_order (4 * a) (4 * b) rk) m
        = round_key (swap_round_keys (4 * a) (4 * b) rk) (if a + 1 \<le> m \<and> m \<le> b - 1 then a + 1 + (b - 1) - m else m)"
      using less.hyps [of "b - 1" "a + 1"] True by simp
    then show ?thesis
      using True round_key_swap [OF True less.prems] by auto
  next
    case False
    then show ?thesis
      by (subst AES_invert_order.simps) (auto intro: arg_cong [where f="round_key rk"])
  qed
qed

lemma length_inv_mix_round_key [simp]: "length (inv_mix_round_key p rk) = length rk"
  by (simp add: inv_mix_round_key_def Let_def)

lemma round_key_inv_mix_round_key:
  assumes "4 * x + 3 < length rk"
  shows "round_key (inv_mix_round_key (4 * x) rk) m
    = (if m = x then inv_mix4 (round_key rk m) else round_key rk m)"
proof -
  have nth: "inv_mix_round_key p rk ! k =
      (if p \<le> k \<and> k < p + 4 then inv_mix_key (rk ! k) else rk ! k)" if "p + 3 < length rk" for p k
  proof -
    have "k < p \<or> k = p \<or> k = p + 1 \<or> k = p + 2 \<or> k = p + 3 \<or> p + 4 \<le> k"
      by linarith
    then show ?thesis
      using that by (elim disjE) (simp_all add: inv_mix_round_key_def Let_def)
  qed
  have in_block: "4 * x \<le> 4 * m + c \<and> 4 * m + c < 4 * x + 4 \<longleftrightarrow> m = x" if "c < 4" for c :: nat
    using that by presburger
  have "inv_mix_round_key (4 * x) rk ! (4 * m + c)
      = (if m = x then inv_mix_key (rk ! (4 * m + c)) else rk ! (4 * m + c))" if "c < 4" for c
    using in_block [OF that] by (simp add: nth [OF assms])
  from this [of 0] this [of 1] this [of 2] this [of 3] show ?thesis
    by (simp add: round_key_def)
qed

lemma length_inv_mix [simp]: "length (AES_inv_mix n p rk) = length rk"
  by (induction n p rk rule: AES_inv_mix.induct) simp_all

lemma round_key_inv_mix:
  "4 * (x + n) + 3 < length rk \<Longrightarrow> round_key (AES_inv_mix n (4 * x) rk) m
     = (if x < m \<and> m \<le> x + n then inv_mix4 (round_key rk m) else round_key rk m)"
proof (induction n arbitrary: x rk)
  case (Suc n)
  have "round_key (AES_inv_mix n (4 * (x + 1)) (inv_mix_round_key (4 * (x + 1)) rk)) m
      = (if x + 1 < m \<and> m \<le> x + 1 + n then inv_mix4 (round_key (inv_mix_round_key (4 * (x + 1)) rk) m)
         else round_key (inv_mix_round_key (4 * (x + 1)) rk) m)"
    using Suc.prems by (intro Suc.IH) simp
  then show ?case
    using Suc.prems round_key_inv_mix_round_key [of "x + 1" rk m] by (auto simp: algebra_simps)
qed auto

lemma AES_set_decrypt_key_schedule:
  assumes "AES_set_encrypt_key uk bits key = Some (0, ek)" "4 * (rounds ek + 1) \<le> length (rd_key ek)"
    "0 < rounds ek"
  shows "\<exists>dk. AES_set_decrypt_key uk bits key = Some (0, dk) \<and> rounds dk = rounds ek
    \<and> inverse_schedule (rounds ek) (rd_key ek) (rd_key dk)"
proof -
  let ?N = "rounds ek"
  define inv where "inv = AES_invert_order 0 (4 * ?N) (rd_key ek)"
  let ?rk = "AES_inv_mix (?N - 1) 0 inv"
  have len: "length inv = length (rd_key ek)"
    by (simp add: inv_def)
  have order: "round_key inv m = round_key (rd_key ek) (if m \<le> ?N then ?N - m else m)" for m
    using round_key_invert_order [of ?N "rd_key ek" 0 m] assms(2) by (simp add: inv_def)
  have mixed: "round_key ?rk m = (if 0 < m \<and> m \<le> ?N - 1 then inv_mix4 (round_key inv m) else round_key inv m)" for m
    using round_key_inv_mix [of 0 "?N - 1" inv m] assms(2,3) len by simp
  have "inverse_schedule ?N (rd_key ek) ?rk"
    using assms(3) len by (auto simp: inverse_schedule_def order mixed simp del: One_nat_def)
  then show ?thesis
    using assms(1) by (simp add: AES_set_decrypt_key_def Let_def inv_def)
qed

lemma length_set_xor [simp]: "length (set_xor d a w rk) = length rk"
  by (simp add: set_xor_def)

lemma length_next_three [simp]: "length (next_three d a rk) = length rk"
  by (simp add: next_three_def Let_def)

lemma length_turns [simp]:
  "length (turn_128 i p rk) = length rk" "length (turn_192 i p rk) = length rk"
  "length (turn_192_rest p rk) = length rk" "length (turn_256 i p rk) = length rk"
  "length (turn_256_rest p rk) = length rk"
  by (simp_all add: turn_128_def turn_192_def turn_192_rest_def turn_256_def turn_256_rest_def Let_def)

lemma length_expand [simp]:
  "length (AES_expand_128 n i p rk) = length rk" "length (AES_expand_192 n i p rk) = length rk"
  "length (AES_expand_256 n i p rk) = length rk"
  by (induction n arbitrary: i p rk) simp_all

lemma length_load_key: "n \<le> length rk \<Longrightarrow> length (load_key n uk rk) = length rk"
  by (simp add: load_key_def)

text \<open>A key of one of the three lengths gets a schedule long enough for its rounds.\<close>

lemma AES_set_encrypt_key_ok:
  assumes "bits \<in> {128, 192, 256}" "nat bits div 8 \<le> length uk" "length (rd_key key) = 60"
  shows "\<exists>ek. AES_set_encrypt_key (Some uk) bits key = Some (0, ek) \<and> length (rd_key ek) = 60
    \<and> rounds ek \<in> {10, 12, 14}"
  using assms by (auto simp: AES_set_encrypt_key_def Let_def length_load_key)

subsection \<open>The schedule does not depend on what the key object held\<close>

definition agree :: "nat \<Rightarrow> u32 list \<Rightarrow> u32 list \<Rightarrow> bool" where
  "agree k xs ys \<longleftrightarrow> length xs = length ys \<and> (\<forall>i<k. xs ! i = ys ! i)"

lemma agree_nth: "agree k xs ys \<Longrightarrow> i < k \<Longrightarrow> xs ! i = ys ! i"
  by (simp add: agree_def)

lemma agree_update:
  "agree d xs ys \<Longrightarrow> d < length xs \<Longrightarrow> v = w \<Longrightarrow> k = Suc d \<Longrightarrow> agree k (xs[d := v]) (ys[d := w])"
  by (auto simp: agree_def nth_list_update less_Suc_eq)

lemma agree_set_xor:
  "agree d xs ys \<Longrightarrow> a < d \<Longrightarrow> b < d \<Longrightarrow> d < length xs \<Longrightarrow> k = Suc d
    \<Longrightarrow> agree k (set_xor d a (xs ! b) xs) (set_xor d a (ys ! b) ys)"
  by (simp add: set_xor_def agree_nth agree_update)

text \<open>The words at the end of a turn.\<close>

lemma agree_three:
  assumes "agree k xs ys" "k = d + 1" "a \<le> d" "d + 4 \<le> length xs" "m = d + 4"
  shows "agree m (next_three d a xs) (next_three d a ys)"
proof -
  let ?x = "set_xor (d + 1) a (xs ! d) xs" and ?y = "set_xor (d + 1) a (ys ! d) ys"
  have "agree (d + 2) ?x ?y"
    using assms by (intro agree_set_xor) simp_all
  then have "agree (d + 3) (set_xor (d + 2) (a + 1) (?x ! (d + 1)) ?x) (set_xor (d + 2) (a + 1) (?y ! (d + 1)) ?y)"
    using assms by (intro agree_set_xor) simp_all
  then show ?thesis
    unfolding next_three_def Let_def using assms by (intro agree_set_xor) simp_all
qed

lemma agree_turn_128:
  assumes "agree (p + 4) xs ys" "p + 8 \<le> length xs"
  shows "agree (p + 8) (turn_128 i p xs) (turn_128 i p ys)"
  unfolding turn_128_def Let_def
  by (rule agree_three [OF agree_update [OF assms(1)]])
    (use assms in \<open>simp_all add: agree_nth [OF assms(1)]\<close>)

lemma agree_turn_192:
  assumes "agree (p + 6) xs ys" "p + 10 \<le> length xs"
  shows "agree (p + 10) (turn_192 i p xs) (turn_192 i p ys)"
  unfolding turn_192_def Let_def
  by (rule agree_three [OF agree_update [OF assms(1)]])
    (use assms in \<open>simp_all add: agree_nth [OF assms(1)]\<close>)

lemma agree_turn_192_rest:
  assumes "agree (p + 10) xs ys" "p + 12 \<le> length xs"
  shows "agree (p + 12) (turn_192_rest p xs) (turn_192_rest p ys)"
  unfolding turn_192_rest_def Let_def
  by (rule agree_set_xor [OF agree_set_xor [OF assms(1)]]) (use assms(2) in simp_all)

lemma agree_turn_256:
  assumes "agree (p + 8) xs ys" "p + 12 \<le> length xs"
  shows "agree (p + 12) (turn_256 i p xs) (turn_256 i p ys)"
  unfolding turn_256_def Let_def
  by (rule agree_three [OF agree_update [OF assms(1)]])
    (use assms in \<open>simp_all add: agree_nth [OF assms(1)]\<close>)

lemma agree_turn_256_rest:
  assumes "agree (p + 12) xs ys" "p + 16 \<le> length xs"
  shows "agree (p + 16) (turn_256_rest p xs) (turn_256_rest p ys)"
  unfolding turn_256_rest_def Let_def
  by (rule agree_three [OF agree_update [OF assms(1)]])
    (use assms in \<open>simp_all add: agree_nth [OF assms(1)]\<close>)

lemma agree_expand_128:
  "agree (p + 4) xs ys \<Longrightarrow> p + 4 + 4 * n \<le> length xs
    \<Longrightarrow> agree (p + 4 + 4 * n) (AES_expand_128 n i p xs) (AES_expand_128 n i p ys)"
proof (induction n arbitrary: i p xs ys)
  case (Suc n)
  from Suc.IH [of "p + 4" "turn_128 i p xs" "turn_128 i p ys" "i + 1"] Suc.prems
  show ?case by (simp add: agree_turn_128 algebra_simps)
qed simp

lemma agree_expand_192:
  "agree (p + 6) xs ys \<Longrightarrow> p + 6 * n + 4 \<le> length xs \<Longrightarrow> 0 < n
    \<Longrightarrow> agree (p + 6 * n + 4) (AES_expand_192 n i p xs) (AES_expand_192 n i p ys)"
proof (induction n arbitrary: i p xs ys)
  case (Suc n)
  show ?case
  proof (cases "n = 0")
    case True
    then show ?thesis using Suc.prems agree_turn_192 [of p xs ys i] by (simp add: add.commute)
  next
    case False
    let ?f = "\<lambda>xs. turn_192_rest p (turn_192 i p xs)"
    have "agree (p + 6 + 6) (?f xs) (?f ys)"
      using Suc.prems False agree_turn_192_rest [of p "turn_192 i p xs" "turn_192 i p ys"]
        agree_turn_192 [of p xs ys i] by (simp add: add.assoc)
    from Suc.IH [OF this, of "i + 1"] Suc.prems False show ?thesis
      by (simp add: algebra_simps)
  qed
qed simp

lemma agree_expand_256:
  "agree (p + 8) xs ys \<Longrightarrow> p + 8 * n + 4 \<le> length xs \<Longrightarrow> 0 < n
    \<Longrightarrow> agree (p + 8 * n + 4) (AES_expand_256 n i p xs) (AES_expand_256 n i p ys)"
proof (induction n arbitrary: i p xs ys)
  case (Suc n)
  show ?case
  proof (cases "n = 0")
    case True
    then show ?thesis using Suc.prems agree_turn_256 [of p xs ys i] by (simp add: add.commute)
  next
    case False
    let ?f = "\<lambda>xs. turn_256_rest p (turn_256 i p xs)"
    have "agree (p + 8 + 8) (?f xs) (?f ys)"
      using Suc.prems False agree_turn_256_rest [of p "turn_256 i p xs" "turn_256 i p ys"]
        agree_turn_256 [of p xs ys i] by (simp add: add.assoc)
    from Suc.IH [OF this, of "i + 1"] Suc.prems False show ?thesis
      by (simp add: algebra_simps)
  qed
qed simp

lemma agree_load_key: "n \<le> 60 \<Longrightarrow> length xs = 60 \<Longrightarrow> length ys = 60 \<Longrightarrow> agree n (load_key n uk xs) (load_key n uk ys)"
  by (simp add: agree_def load_key_def nth_append)

lemma AES_set_encrypt_key_agree:
  assumes "AES_set_encrypt_key (Some uk) bits k = Some (0, ek)" "length (rd_key k) = 60"
    and "AES_set_encrypt_key (Some uk) bits k' = Some (0, ek')" "length (rd_key k') = 60"
  shows "rounds ek = rounds ek'" "agree (4 * (rounds ek + 1)) (rd_key ek) (rd_key ek')"
proof -
  have a: "agree n (load_key n uk (rd_key k)) (load_key n uk (rd_key k'))" if "n \<le> 60" for n
    using agree_load_key [OF that assms(2,4)] .
  have l: "length (load_key n uk (rd_key k)) = 60" if "n \<le> 60" for n
    using that assms(2) by (simp add: length_load_key)
  have "agree 44 (AES_expand_128 10 0 0 (load_key 4 uk (rd_key k))) (AES_expand_128 10 0 0 (load_key 4 uk (rd_key k')))"
    using agree_expand_128 [of 0 "load_key 4 uk (rd_key k)" "load_key 4 uk (rd_key k')" 10 0] a [of 4] l [of 4] by simp
  moreover have "agree 52 (AES_expand_192 8 0 0 (load_key 6 uk (rd_key k))) (AES_expand_192 8 0 0 (load_key 6 uk (rd_key k')))"
    using agree_expand_192 [of 0 "load_key 6 uk (rd_key k)" "load_key 6 uk (rd_key k')" 8 0] a [of 6] l [of 6] by simp
  moreover have "agree 60 (AES_expand_256 7 0 0 (load_key 8 uk (rd_key k))) (AES_expand_256 7 0 0 (load_key 8 uk (rd_key k')))"
    using agree_expand_256 [of 0 "load_key 8 uk (rd_key k)" "load_key 8 uk (rd_key k')" 7 0] a [of 8] l [of 8] by simp
  ultimately show "rounds ek = rounds ek'" "agree (4 * (rounds ek + 1)) (rd_key ek) (rd_key ek')"
    using assms(1,3) by (auto simp: AES_set_encrypt_key_def Let_def split: if_splits)
qed

lemma enc_rounds_agree:
  "agree (4 * (m + n)) xs ys \<Longrightarrow> enc_rounds xs m n s = enc_rounds ys m n s"
proof (induction n arbitrary: m s)
  case (Suc n)
  have "round_key xs m = round_key ys m"
    by (simp add: round_key_def agree_nth [OF Suc.prems])
  with Suc.IH [of "Suc m"] Suc.prems show ?case by simp
qed simp

lemma AES_encrypt_agree:
  assumes "agree (4 * (rounds ek + 1)) (rd_key ek) (rd_key ek')" "rounds ek = rounds ek'"
    "even (rounds ek)" "0 < rounds ek" "4 * (rounds ek + 1) \<le> length (rd_key ek)" "16 \<le> length inp"
  shows "AES_encrypt inp ek = AES_encrypt inp ek'"
proof -
  have "length (rd_key ek) = length (rd_key ek')"
    using assms(1) by (simp add: agree_def)
  moreover have "round_key (rd_key ek) m = round_key (rd_key ek') m" if "m \<le> rounds ek" for m
    using that by (simp add: round_key_def agree_nth [OF assms(1)])
  moreover have "agree (4 * (1 + (rounds ek - 1))) (rd_key ek) (rd_key ek')"
    using assms(1,4) by (simp add: agree_def)
  note enc_rounds_agree [OF this]
  ultimately show ?thesis
    using assms(2-6) by (simp add: AES_encrypt_eq)
qed

text \<open>The pair of schedules made from one key, whatever the two key objects held before.\<close>

lemma AES_key_pair:
  assumes "bits \<in> {128, 192, 256}" "nat bits div 8 \<le> length uk"
    and "length (rd_key k) = 60" "length (rd_key k') = 60"
  shows "\<exists>ek dk. AES_set_encrypt_key (Some uk) bits k = Some (0, ek)
    \<and> AES_set_decrypt_key (Some uk) bits k' = Some (0, dk)
    \<and> (\<forall>b. length b = 16 \<longrightarrow>
         (\<exists>c. AES_encrypt b ek = Some c \<and> length c = 16 \<and> AES_decrypt c dk = Some b))"
proof -
  obtain ek where ek: "AES_set_encrypt_key (Some uk) bits k = Some (0, ek)" "length (rd_key ek) = 60"
      "rounds ek \<in> {10, 12, 14}"
    using AES_set_encrypt_key_ok [OF assms(1-3)] by blast
  obtain ek' where ek': "AES_set_encrypt_key (Some uk) bits k' = Some (0, ek')" "length (rd_key ek') = 60"
      "rounds ek' \<in> {10, 12, 14}"
    using AES_set_encrypt_key_ok [OF assms(1,2,4)] by blast
  have fit: "4 * (rounds ek' + 1) \<le> length (rd_key ek')" "0 < rounds ek'" "even (rounds ek')"
    using ek' by auto
  obtain dk where dk: "AES_set_decrypt_key (Some uk) bits k' = Some (0, dk)" "rounds dk = rounds ek'"
      "inverse_schedule (rounds ek') (rd_key ek') (rd_key dk)"
    using AES_set_decrypt_key_schedule [OF ek'(1) fit(1,2)] by blast
  have "rounds ek = rounds ek'" "agree (4 * (rounds ek + 1)) (rd_key ek) (rd_key ek')"
    using AES_set_encrypt_key_agree [OF ek(1) assms(3) ek'(1) assms(4)] by auto
  then have "AES_encrypt b ek = AES_encrypt b ek'" if "length b = 16" for b
    using that fit ek(2,3) by (intro AES_encrypt_agree) auto
  then show ?thesis
    using ek(1) dk AES_decrypt_encrypt_schedule [of _ ek' dk] fit by auto
qed

section \<open>Properties\<close>

text \<open>C34: For a key of 128, 192 or 256 bits the schedules of \<^verbatim>\<open>AES_set_encrypt_key\<close> and
  \<^verbatim>\<open>AES_set_decrypt_key\<close> fit together: both return 0 whatever the key objects held before, every block
  encrypts, and \<^verbatim>\<open>AES_decrypt\<close> with the decryption key returns the block \<^verbatim>\<open>AES_encrypt\<close> was given.\<close>

theorem AES_decrypt_encrypt:
  assumes "bits \<in> {128, 192, 256}" "nat bits div 8 \<le> length uk"
    and "length (rd_key k) = 60" "length (rd_key k') = 60" "length b = 16"
  shows "\<exists>ek dk c. AES_set_encrypt_key (Some uk) bits k = Some (0, ek)
    \<and> AES_set_decrypt_key (Some uk) bits k' = Some (0, dk)
    \<and> AES_encrypt b ek = Some c \<and> length c = 16 \<and> AES_decrypt c dk = Some b"
  using AES_key_pair [OF assms(1-4)] assms(5) by blast

theorem AES_decrypt_encrypt_witness:
  "\<exists>ek dk c. AES_set_encrypt_key (Some (replicate 16 7)) 128 \<lparr>rd_key = replicate 60 0, rounds = 0\<rparr> = Some (0, ek)
    \<and> AES_set_decrypt_key (Some (replicate 16 7)) 128 \<lparr>rd_key = replicate 60 1, rounds = 3\<rparr> = Some (0, dk)
    \<and> AES_encrypt (replicate 16 9) ek = Some c \<and> AES_decrypt c dk = Some (replicate 16 9)"
  using AES_decrypt_encrypt [of 128 "replicate 16 7" "\<lparr>rd_key = replicate 60 0, rounds = 0\<rparr>"
      "\<lparr>rd_key = replicate 60 1, rounds = 3\<rparr>" "replicate 16 9"]
  by auto

end
