(* ===== verification/AesCbc.thy ===== *)
theory AesCbc
  imports Aes
begin

text \<open>
  CBC mode with padding, \<^verbatim>\<open>App/Adapter/aes/aes_cbc.c\<close>, for the callers of the firmware: the input
  and the output are different objects, so the branch for \<^verbatim>\<open>in == out\<close> is not modelled.  The output
  is the list of bytes from \<^verbatim>\<open>out\<close> to the end of its object.  A locale states what the mode needs of
  a block cipher; the lemmas in it show that decryption recovers the padded plaintext.
\<close>

section \<open>The code\<close>

abbreviation (input) AES_BLOCK_SIZE :: nat where "AES_BLOCK_SIZE \<equiv> 16"

definition xor_bytes :: "u8 list \<Rightarrow> u8 list \<Rightarrow> u8 list" where
  "xor_bytes a b = map2 (XOR) a b"

text \<open>
  The two \<^verbatim>\<open>while (len >= AES_BLOCK_SIZE)\<close> loops: \<^verbatim>\<open>in\<close>, \<^verbatim>\<open>len\<close>, \<^verbatim>\<open>iv\<close>, the distance of \<^verbatim>\<open>out\<close> from
  where it started, and the output.  The cipher applied to a block is an argument.
\<close>

function cbc_encrypt_loop ::
  "(u8 list \<Rightarrow> u8 list option) \<Rightarrow> u8 list \<Rightarrow> nat \<Rightarrow> u8 list \<Rightarrow> nat \<Rightarrow> u8 list
    \<Rightarrow> (u8 list \<times> nat \<times> u8 list \<times> nat \<times> u8 list) option" where
  "cbc_encrypt_loop E inp len iv off out =
     (if AES_BLOCK_SIZE \<le> len then do {
        b \<leftarrow> rd inp 0 AES_BLOCK_SIZE;
        c \<leftarrow> E (xor_bytes b iv);
        out \<leftarrow> wr out off c;
        cbc_encrypt_loop E (drop AES_BLOCK_SIZE inp) (len - AES_BLOCK_SIZE) c (off + AES_BLOCK_SIZE) out
      } else Some (inp, len, iv, off, out))"
  by pat_completeness auto
termination by (relation "measure (\<lambda>(E, inp, len, iv, off, out). len)") auto

function cbc_decrypt_loop ::
  "(u8 list \<Rightarrow> u8 list option) \<Rightarrow> u8 list \<Rightarrow> nat \<Rightarrow> u8 list \<Rightarrow> nat \<Rightarrow> u8 list
    \<Rightarrow> (u8 list \<times> nat \<times> u8 list \<times> nat \<times> u8 list) option" where
  "cbc_decrypt_loop D inp len iv off out =
     (if AES_BLOCK_SIZE \<le> len then do {
        c \<leftarrow> rd inp 0 AES_BLOCK_SIZE;
        p \<leftarrow> D c;
        out \<leftarrow> wr out off (xor_bytes p iv);
        cbc_decrypt_loop D (drop AES_BLOCK_SIZE inp) (len - AES_BLOCK_SIZE) c (off + AES_BLOCK_SIZE) out
      } else Some (inp, len, iv, off, out))"
  by pat_completeness auto
termination by (relation "measure (\<lambda>(D, inp, len, iv, off, out). len)") auto

declare cbc_encrypt_loop.simps [simp del] cbc_decrypt_loop.simps [simp del]

text \<open>The branch \<^verbatim>\<open>AES_ENCRYPT\<close>: the output and \<^verbatim>\<open>*outlength\<close>.\<close>

definition AES_cbc_core_encrypt ::
  "(u8 list \<Rightarrow> u8 list option) \<Rightarrow> u8 list \<Rightarrow> u8 list \<Rightarrow> u32 \<Rightarrow> u8 list \<Rightarrow> (u8 list \<times> u32) option" where
  "AES_cbc_core_encrypt E inp out length' ivec = do {
     tempiv \<leftarrow> rd ivec 0 AES_BLOCK_SIZE;
     (inp, len, iv, off, out) \<leftarrow> cbc_encrypt_loop E inp (unat length') tempiv 0 out;
     if len \<noteq> 0 then do {
       let paddingLen = AES_BLOCK_SIZE - len;
       b \<leftarrow> rd inp 0 len;
       c \<leftarrow> E (xor_bytes (b @ replicate paddingLen (word_of_nat paddingLen)) iv);
       out \<leftarrow> wr out off c;
       Some (out, length' + word_of_nat paddingLen)
     } else do {
       let paddingLen = AES_BLOCK_SIZE;
       c \<leftarrow> E (xor_bytes (replicate AES_BLOCK_SIZE (word_of_nat paddingLen)) iv);
       out \<leftarrow> wr out off c;
       Some (out, length' + word_of_nat paddingLen)
     }
   }"

text \<open>
  The branch \<^verbatim>\<open>AES_DECRYPT\<close> with \<^verbatim>\<open>in != out\<close>; \<^verbatim>\<open>*(out - 1)\<close> with nothing written yet lies before the
  output, and the length it is subtracted from is unsigned.
\<close>

definition AES_cbc_core_decrypt ::
  "(u8 list \<Rightarrow> u8 list option) \<Rightarrow> u8 list \<Rightarrow> u8 list \<Rightarrow> u32 \<Rightarrow> u8 list \<Rightarrow> (u8 list \<times> u32) option" where
  "AES_cbc_core_decrypt D inp out length' ivec = do {
     tempiv \<leftarrow> rd ivec 0 AES_BLOCK_SIZE;
     (inp, len, iv, off, out) \<leftarrow> cbc_decrypt_loop D inp (unat length') tempiv 0 out;
     if len \<noteq> 0 then do {
       c \<leftarrow> rd inp 0 AES_BLOCK_SIZE;
       tmp \<leftarrow> D c;
       out \<leftarrow> wr out off (take len (xor_bytes tmp iv));
       last \<leftarrow> rd1 out (off + len - 1);
       Some (out, length' - ucast last)
     } else if off = 0 then None
     else do {
       last \<leftarrow> rd1 out (off - 1);
       Some (out, length' - ucast last)
     }
   }"

text \<open>
  \<open>struKey\<close> is the key object on the stack, whose first contents are indeterminate; the status of the
  key schedule is ignored.
\<close>

definition AES_CBC_Encrypt ::
  "AES_KEY \<Rightarrow> u8 list \<Rightarrow> u32 \<Rightarrow> u8 list \<Rightarrow> u32 \<Rightarrow> u8 list \<Rightarrow> u8 list \<Rightarrow> (u8 list \<times> u32) option" where
  "AES_CBC_Encrypt struKey PlainText PlainTextLength Key KeyLength IV CipherText = do {
     (status, struKey) \<leftarrow> AES_set_encrypt_key (Some Key) (uint (KeyLength * 8)) struKey;
     AES_cbc_core_encrypt (\<lambda>b. AES_encrypt b struKey) PlainText CipherText PlainTextLength IV
   }"

definition AES_CBC_Decrypt ::
  "AES_KEY \<Rightarrow> u8 list \<Rightarrow> u32 \<Rightarrow> u8 list \<Rightarrow> u32 \<Rightarrow> u8 list \<Rightarrow> u8 list \<Rightarrow> (u8 list \<times> u32) option" where
  "AES_CBC_Decrypt struKey CipherText CipherTextLength Key KeyLength IV PlainText = do {
     (status, struKey) \<leftarrow> AES_set_decrypt_key (Some Key) (uint (KeyLength * 8)) struKey;
     AES_cbc_core_decrypt (\<lambda>b. AES_decrypt b struKey) CipherText PlainText CipherTextLength IV
   }"

section \<open>The mode on whole blocks\<close>

lemma length_xor_bytes [simp]: "length (xor_bytes a b) = min (length a) (length b)"
  by (simp add: xor_bytes_def)

lemma xor_bytes_cancel: "length a \<le> length b \<Longrightarrow> xor_bytes (xor_bytes a b) b = a"
  by (rule nth_equalityI) (simp_all add: xor_bytes_def xor.assoc)

text \<open>The chaining, block by block: the reference the loops implement.\<close>

fun cbc_blocks :: "(u8 list \<Rightarrow> u8 list option) \<Rightarrow> u8 list \<Rightarrow> u8 list list \<Rightarrow> u8 list list option" where
  "cbc_blocks E iv [] = Some []"
| "cbc_blocks E iv (b # bs) = do {
     c \<leftarrow> E (xor_bytes b iv);
     cs \<leftarrow> cbc_blocks E c bs;
     Some (c # cs)
   }"

definition pad_block :: "u8 list \<Rightarrow> u8 list" where
  "pad_block r = r @ replicate (16 - length r) (word_of_nat (16 - length r))"

lemma pad_block_snoc:
  assumes "length r < 16"
  shows "pad_block r = (r @ replicate (15 - length r) (word_of_nat (16 - length r))) @ [word_of_nat (16 - length r)]"
proof -
  have "16 - length r = Suc (15 - length r)"
    using assms by simp
  then show ?thesis
    unfolding pad_block_def by (simp add: replicate_append_same)
qed

definition blocks16 :: "u8 list list \<Rightarrow> bool" where
  "blocks16 bs \<longleftrightarrow> (\<forall>b\<in>set bs. length b = 16)"

lemma blocks16_simps [simp]: "blocks16 []" "blocks16 (b # bs) \<longleftrightarrow> length b = 16 \<and> blocks16 bs"
  "blocks16 (bs @ cs) \<longleftrightarrow> blocks16 bs \<and> blocks16 cs"
  by (auto simp: blocks16_def)

lemma length_concat16 [simp]: "blocks16 bs \<Longrightarrow> length (concat bs) = 16 * length bs"
  by (induction bs) simp_all

lemma split_blocks:
  "\<exists>bs r. p = concat bs @ r \<and> blocks16 bs \<and> length r < 16"
proof (induction "length p" arbitrary: p rule: less_induct)
  case less
  show ?case
  proof (cases "length p < 16")
    case True
    then show ?thesis by (intro exI [of _ "[]"] exI [of _ p]) simp
  next
    case False
    then have "length (drop 16 p) < length p"
      by simp
    from less [OF this] obtain bs r where
      bs: "drop 16 p = concat bs @ r" "blocks16 bs" "length r < 16"
      by blast
    have "p = concat (take 16 p # bs) @ r"
      using bs(1) append_take_drop_id [of 16 p] by simp
    moreover have "blocks16 (take 16 p # bs)"
      using bs(2) False by simp
    ultimately show ?thesis using bs(3) by blast
  qed
qed

lemma cbc_blocks_append:
  "cbc_blocks E iv bs = Some cs \<Longrightarrow> cbc_blocks E iv (bs @ [b]) =
     E (xor_bytes b (last (iv # cs))) \<bind> (\<lambda>c. Some (cs @ [c]))"
proof (induction bs arbitrary: iv cs)
  case (Cons a bs)
  then obtain c ds where "E (xor_bytes a iv) = Some c" "cbc_blocks E c bs = Some ds" "cs = c # ds"
    by (auto simp: bind_Some_iff)
  with Cons.IH [of c ds] show ?case
    by (cases "E (xor_bytes b (last (c # ds)))") auto
qed auto

lemma rd1_middle: "k = length xs \<Longrightarrow> rd1 (xs @ y # ys) k = Some y"
  by (simp add: rd1_def)

locale block_cipher =
  fixes valid :: "'k \<Rightarrow> bool"
    and E :: "'k \<Rightarrow> u8 list \<Rightarrow> u8 list option"
    and D :: "'k \<Rightarrow> u8 list \<Rightarrow> u8 list option"
  assumes cipher: "valid k \<Longrightarrow> length b = 16 \<Longrightarrow> \<exists>c. E k b = Some c \<and> length c = 16 \<and> D k c = Some b"
begin

lemma cbc_blocks_total:
  "valid k \<Longrightarrow> blocks16 bs \<Longrightarrow> length iv = 16 \<Longrightarrow>
     \<exists>cs. cbc_blocks (E k) iv bs = Some cs \<and> blocks16 cs \<and> length cs = length bs"
proof (induction bs arbitrary: iv)
  case (Cons b bs)
  then obtain c where "E k (xor_bytes b iv) = Some c" "length c = 16"
    using cipher [of k "xor_bytes b iv"] by auto
  with Cons.IH [of c] Cons.prems show ?case by auto
qed simp

lemma cbc_encrypt_loop_blocks:
  "valid k \<Longrightarrow> blocks16 bs \<Longrightarrow> length iv = 16 \<Longrightarrow> n < 16 \<Longrightarrow> off + 16 * length bs \<le> length out
    \<Longrightarrow> cbc_blocks (E k) iv bs = Some cs
    \<Longrightarrow> cbc_encrypt_loop (E k) (concat bs @ r) (16 * length bs + n) iv off out =
      Some (r, n, last (iv # cs), off + 16 * length bs,
        take off out @ concat cs @ drop (off + 16 * length bs) out)"
proof (induction bs arbitrary: iv off out cs)
  case Nil
  then show ?case by (subst cbc_encrypt_loop.simps) simp
next
  case (Cons b bs)
  obtain c ds where c: "E k (xor_bytes b iv) = Some c" and ds: "cbc_blocks (E k) c bs = Some ds"
    and cs: "cs = c # ds"
    using Cons.prems(6) by (auto simp: bind_Some_iff)
  have lc: "length c = 16"
    using cipher [of k "xor_bytes b iv"] c Cons.prems by auto
  let ?out = "take off out @ c @ drop (off + 16) out"
  have "cbc_encrypt_loop (E k) (concat bs @ r) (16 * length bs + n) c (off + 16) ?out =
      Some (r, n, last (c # ds), off + 16 + 16 * length bs,
        take (off + 16) ?out @ concat ds @ drop (off + 16 + 16 * length bs) ?out)"
    using Cons.prems lc ds by (intro Cons.IH) simp_all
  moreover have "wr out off c = Some ?out"
    using Cons.prems(5) lc by (simp add: wr_Some)
  ultimately show ?case
    using Cons.prems c lc cs by (subst cbc_encrypt_loop.simps) (simp add: ac_simps)
qed

lemma cbc_decrypt_loop_blocks:
  "valid k \<Longrightarrow> blocks16 bs \<Longrightarrow> length iv = 16 \<Longrightarrow> off + 16 * length bs \<le> length out
    \<Longrightarrow> cbc_blocks (E k) iv bs = Some cs
    \<Longrightarrow> cbc_decrypt_loop (D k) (concat cs @ r) (16 * length bs) iv off out =
      Some (r, 0, last (iv # cs), off + 16 * length bs,
        take off out @ concat bs @ drop (off + 16 * length bs) out)"
proof (induction bs arbitrary: iv off out cs)
  case Nil
  then show ?case by (subst cbc_decrypt_loop.simps) simp
next
  case (Cons b bs)
  obtain c ds where c: "E k (xor_bytes b iv) = Some c" and ds: "cbc_blocks (E k) c bs = Some ds"
    and cs: "cs = c # ds"
    using Cons.prems(5) by (auto simp: bind_Some_iff)
  have lc: "length c = 16" and dc: "D k c = Some (xor_bytes b iv)"
    using cipher [of k "xor_bytes b iv"] c Cons.prems by auto
  have b: "xor_bytes (xor_bytes b iv) iv = b"
    using Cons.prems(2,3) by (simp add: xor_bytes_cancel)
  let ?out = "take off out @ b @ drop (off + 16) out"
  have "cbc_decrypt_loop (D k) (concat ds @ r) (16 * length bs) c (off + 16) ?out =
      Some (r, 0, last (c # ds), off + 16 + 16 * length bs,
        take (off + 16) ?out @ concat bs @ drop (off + 16 + 16 * length bs) ?out)"
    using Cons.prems lc ds by (intro Cons.IH) simp_all
  moreover have "wr out off b = Some ?out"
    using Cons.prems(2,4) by (simp add: wr_Some)
  ultimately show ?case
    using Cons.prems dc lc cs b by (subst cbc_decrypt_loop.simps) (simp add: ac_simps)
qed

lemma cbc_core_encrypt:
  assumes "valid k" "unat n \<le> length inp" "16 \<le> length ivec"
    and "take (unat n) inp = concat bs @ r" "blocks16 bs" "length r < 16"
    and "16 * length bs + 16 \<le> length out"
  shows "\<exists>cs. cbc_blocks (E k) (take 16 ivec) (bs @ [pad_block r]) = Some cs \<and> blocks16 cs
    \<and> length cs = length bs + 1
    \<and> AES_cbc_core_encrypt (E k) inp out n ivec =
        Some (concat cs @ drop (16 * length cs) out, n + word_of_nat (16 - length r))"
proof -
  let ?iv = "take 16 ivec"
  have iv: "length ?iv = 16" using assms(3) by simp
  have n: "unat n = 16 * length bs + length r"
    using assms(2,5) arg_cong [OF assms(4), of length] by simp
  have inp: "inp = concat bs @ r @ drop (unat n) inp"
    using append_take_drop_id [of "unat n" inp] assms(4) by simp
  obtain cs where cs: "cbc_blocks (E k) ?iv bs = Some cs" "blocks16 cs" "length cs = length bs"
    using cbc_blocks_total [OF assms(1,5) iv] by blast
  have last_cs: "length (last (?iv # cs)) = 16"
    using cs(2) iv by (cases cs rule: rev_cases) simp_all
  have pad: "length (pad_block r) = 16" "pad_block r = r @ replicate (16 - length r) (word_of_nat (16 - length r))"
    using assms(6) by (simp_all add: pad_block_def)
  obtain c where c: "E k (xor_bytes (pad_block r) (last (?iv # cs))) = Some c" "length c = 16"
    using cipher [OF assms(1), of "xor_bytes (pad_block r) (last (?iv # cs))"] last_cs pad(1) by auto
  let ?mid = "concat cs @ drop (16 * length bs) out"
  have loop: "cbc_encrypt_loop (E k) inp (unat n) ?iv 0 out
      = Some (r @ drop (unat n) inp, length r, last (?iv # cs), 16 * length bs, ?mid)"
    using cbc_encrypt_loop_blocks [OF assms(1,5) iv assms(6) _ cs(1), of 0 out "r @ drop (unat n) inp"]
      assms(7) n inp by simp
  have wrote: "wr ?mid (16 * length bs) c = Some (concat (cs @ [c]) @ drop (16 * length (cs @ [c])) out)"
    using assms(7) c(2) cs by (simp add: wr_Some ac_simps)
  have "cbc_blocks (E k) ?iv (bs @ [pad_block r]) = Some (cs @ [c])"
    using cbc_blocks_append [OF cs(1)] c(1) by simp
  moreover have "AES_cbc_core_encrypt (E k) inp out n ivec =
        Some (concat (cs @ [c]) @ drop (16 * length (cs @ [c])) out, n + word_of_nat (16 - length r))"
    using assms(3) loop c(1) wrote pad(2)
    by (cases "r = []") (simp_all add: AES_cbc_core_encrypt_def rd_Some)
  ultimately show ?thesis
    using cs c(2) by (intro exI [of _ "cs @ [c]"]) simp
qed

lemma cbc_core_decrypt:
  assumes "valid k" "cbc_blocks (E k) (take 16 ivec) (bs @ [pad_block r]) = Some cs" "blocks16 bs"
    and "length r < 16" "16 \<le> length ivec" "unat n = 16 * length bs + 16"
    and "16 * length bs + 16 \<le> length out"
  shows "AES_cbc_core_decrypt (D k) (concat cs @ rest) out n ivec =
    Some (concat bs @ pad_block r @ drop (unat n) out, n - word_of_nat (16 - length r))"
proof -
  have bs: "blocks16 (bs @ [pad_block r])"
    using assms(3,4) by (simp add: pad_block_def)
  let ?q = "concat bs @ pad_block r @ drop (unat n) out"
  have loop: "cbc_decrypt_loop (D k) (concat cs @ rest) (unat n) (take 16 ivec) 0 out
      = Some (rest, 0, last (take 16 ivec # cs), unat n, ?q)"
    using cbc_decrypt_loop_blocks [OF assms(1) bs _ _ assms(2), of 0 out rest] assms(5-7)
    by (simp add: algebra_simps)
  have q: "?q = (concat bs @ r @ replicate (15 - length r) (word_of_nat (16 - length r)))
      @ word_of_nat (16 - length r) # drop (unat n) out"
    by (simp add: pad_block_snoc [OF assms(4)])
  have "unat n - 1 = length (concat bs @ r @ replicate (15 - length r) (word_of_nat (16 - length r) :: u8))"
    using assms(3,4,6) by simp
  then have "rd1 ?q (unat n - 1) = Some (word_of_nat (16 - length r))"
    unfolding q by (rule rd1_middle)
  moreover have "ucast (word_of_nat (16 - length r) :: u8) = (word_of_nat (16 - length r) :: u32)"
    by (intro word_unat_eq_iff [THEN iffD2]) (simp add: unat_of_nat_small)
  ultimately show ?thesis
    using loop assms(5,6) by (simp add: AES_cbc_core_decrypt_def rd_Some)
qed

end

section \<open>The cipher of the firmware\<close>

text \<open>Two key objects are a pair when the two schedules of one key were stored in them.\<close>

definition aes_pair :: "u8 list \<Rightarrow> int \<Rightarrow> AES_KEY \<times> AES_KEY \<Rightarrow> bool" where
  "aes_pair uk bits p \<longleftrightarrow> bits \<in> {128, 192, 256} \<and> nat bits div 8 \<le> length uk
     \<and> (\<exists>k k'. length (rd_key k) = 60 \<and> length (rd_key k') = 60
          \<and> AES_set_encrypt_key (Some uk) bits k = Some (0, fst p)
          \<and> AES_set_decrypt_key (Some uk) bits k' = Some (0, snd p))"

interpretation aes: block_cipher
  "\<lambda>p. \<exists>uk bits. aes_pair uk bits p" "\<lambda>p b. AES_encrypt b (fst p)" "\<lambda>p b. AES_decrypt b (snd p)"
proof
  fix p b
  assume "\<exists>uk bits. aes_pair uk bits p" "length (b :: u8 list) = 16"
  then obtain uk bits k k' where *: "bits \<in> {128, 192, 256}" "nat bits div 8 \<le> length uk"
    "length (rd_key k) = 60" "length (rd_key k') = 60"
    "AES_set_encrypt_key (Some uk) bits k = Some (0, fst p)"
    "AES_set_decrypt_key (Some uk) bits k' = Some (0, snd p)"
    by (auto simp: aes_pair_def)
  from AES_key_pair [OF *(1-4)] *(5,6) \<open>length b = 16\<close>
  show "\<exists>c. AES_encrypt b (fst p) = Some c \<and> length c = 16 \<and> AES_decrypt c (snd p) = Some b"
    by auto
qed

lemma aes_pair_exists:
  assumes "bits \<in> {128, 192, 256}" "nat bits div 8 \<le> length uk"
    and "length (rd_key k) = 60" "length (rd_key k') = 60"
  obtains ek dk where "AES_set_encrypt_key (Some uk) bits k = Some (0, ek)"
    "AES_set_decrypt_key (Some uk) bits k' = Some (0, dk)" "aes_pair uk bits (ek, dk)"
  using AES_key_pair [OF assms] assms by (auto simp: aes_pair_def)

text \<open>Encrypting and decrypting a text, with the length of the cipher text written out.\<close>

lemma AES_CBC_roundtrip_blocks:
  assumes key: "kl \<in> {16, 24, 32}" "unat kl \<le> length uk"
    and obj: "length (rd_key k) = 60" "length (rd_key k') = 60"
    and fits: "unat n \<le> length p" "unat n < 2 ^ 32 - 16" and iv: "16 \<le> length iv"
    and room: "16 * (unat n div 16) + 16 \<le> length out" "16 * (unat n div 16) + 16 \<le> length out'"
  obtains c q m where "length c = 16 * (unat n div 16) + 16" "unat m = length c"
    "AES_CBC_Encrypt k p n uk kl iv out = Some (c @ drop (length c) out, m)"
    "\<And>rest. AES_CBC_Decrypt k' (c @ rest) m uk kl iv out' = Some (take (unat n) p @ q, n)"
    "length q = length out' - unat n"
proof -
  define bits where "bits = uint (kl * 8)"
  have bits: "bits \<in> {128, 192, 256}" "nat bits div 8 = unat kl"
    using key(1) by (auto simp: bits_def)
  obtain ek dk where
    ek: "AES_set_encrypt_key (Some uk) bits k = Some (0, ek)" and
    dk: "AES_set_decrypt_key (Some uk) bits k' = Some (0, dk)" and pair: "aes_pair uk bits (ek, dk)"
    using aes_pair_exists [OF bits(1) _ obj] bits(2) key(2) by metis
  have v: "\<exists>uk bits. aes_pair uk bits (ek, dk)"
    using pair by blast
  obtain bs r where bs: "take (unat n) p = concat bs @ r" "blocks16 bs" "length r < 16"
    using split_blocks by blast
  have n: "unat n = 16 * length bs + length r"
    using fits(1) bs(2) arg_cong [OF bs(1), of length] by simp
  then have d: "unat n div 16 = length bs"
    using bs(3) by simp
  obtain cs where cs: "cbc_blocks (\<lambda>b. AES_encrypt b ek) (take 16 iv) (bs @ [pad_block r]) = Some cs"
      "blocks16 cs" "length cs = length bs + 1"
      "AES_cbc_core_encrypt (\<lambda>b. AES_encrypt b ek) p out n iv =
        Some (concat cs @ drop (16 * length cs) out, n + word_of_nat (16 - length r))"
    using aes.cbc_core_encrypt [OF v fits(1) iv bs, of out] room(1) d unfolding fst_conv by metis
  let ?m = "n + word_of_nat (16 - length r) :: u32"
  have small: "unat (word_of_nat (16 - length r) :: u32) = 16 - length r"
    by (rule unat_of_nat_small) simp
  have m: "unat ?m = 16 * length bs + 16"
    using fits(2) n bs(3) small by (subst unat_add_small) auto
  let ?q = "replicate (16 - length r) (word_of_nat (16 - length r)) @ drop (unat ?m) out'"
  have "AES_cbc_core_decrypt (\<lambda>b. AES_decrypt b dk) (concat cs @ rest) out' ?m iv =
      Some (take (unat n) p @ ?q, n)" for rest
    using aes.cbc_core_decrypt [OF v, of iv bs r cs ?m out' rest] cs(1) bs iv m room(2) d
    by (simp add: pad_block_def)
  then show thesis
    using ek dk cs m d n room(2) bs(3)
    by (intro that [of "concat cs" ?m ?q])
      (simp_all add: AES_CBC_Encrypt_def AES_CBC_Decrypt_def flip: bits_def)
qed

text \<open>What a call that returns has written, whatever it was given: it stayed inside the output.\<close>

lemma length_AES_encrypt: "AES_encrypt b key = Some c \<Longrightarrow> length c = 16"
  by (auto simp: AES_encrypt_def bind_Some_iff PUTU32_def)

lemma length_AES_decrypt: "AES_decrypt b key = Some c \<Longrightarrow> length c = 16"
  by (auto simp: AES_decrypt_def bind_Some_iff PUTU32_def)

lemma cbc_encrypt_loop_lengths:
  "cbc_encrypt_loop E inp len iv off out = Some (inp', len', iv', off', out')
    \<Longrightarrow> length out' = length out \<and> len' = len mod 16 \<and> off' = off + 16 * (len div 16)"
proof (induction len arbitrary: inp iv off out rule: less_induct)
  case (less len)
  show ?case
  proof (cases "16 \<le> len")
    case True
    with less.prems obtain b c o' where step: "E (xor_bytes b iv) = Some c" "wr out off c = Some o'"
      and rest: "cbc_encrypt_loop E (drop 16 inp) (len - 16) c (off + 16) o' = Some (inp', len', iv', off', out')"
      by (subst (asm) cbc_encrypt_loop.simps) (auto simp: bind_Some_iff)
    have "len mod 16 = (len - 16) mod 16" "len div 16 = (len - 16) div 16 + 1"
      using True by (simp_all add: le_mod_geq le_div_geq)
    then show ?thesis
      using less.IH [OF _ rest] length_wr [OF step(2)] True by simp
  next
    case False
    then show ?thesis
      using less.prems by (subst (asm) cbc_encrypt_loop.simps) simp
  qed
qed

lemma cbc_core_encrypt_lengths:
  assumes "AES_cbc_core_encrypt E inp out n ivec = Some (out', m)" "\<And>b c. E b = Some c \<Longrightarrow> length c = 16"
    and "unat n < 2 ^ 32 - 16"
  shows "length out' = length out" "unat m = 16 * (unat n div 16) + 16" "unat m \<le> length out"
proof -
  obtain iv inp' len' iv' off' o' where loop: "cbc_encrypt_loop E inp (unat n) iv 0 out = Some (inp', len', iv', off', o')"
    and rest: "\<exists>b c. E b = Some c \<and> wr o' off' c = Some out' \<and> m = n + word_of_nat (16 - len')"
    using assms(1) by (fastforce simp: AES_cbc_core_encrypt_def bind_Some_iff Let_def split: if_splits)
  note l = cbc_encrypt_loop_lengths [OF loop]
  then obtain c where *: "length o' = length out" "length c = 16" "wr o' (16 * (unat n div 16)) c = Some out'"
    "m = n + word_of_nat (16 - unat n mod 16)"
    using rest assms(2) by auto
  have "unat (word_of_nat (16 - unat n mod 16) :: u32) = 16 - unat n mod 16"
    by (intro unat_of_nat_small) simp
  then have "unat m = unat n + (16 - unat n mod 16)"
    unfolding *(4) using assms(3) by (subst unat_add_small) auto
  then show m: "unat m = 16 * (unat n div 16) + 16"
    by presburger
  show "length out' = length out"
    using length_wr [OF *(3)] *(1) by simp
  show "unat m \<le> length out"
    using *(1-3) m by (simp add: wr_eq_Some)
qed

lemma AES_CBC_Encrypt_lengths:
  assumes "AES_CBC_Encrypt k p n uk kl iv out = Some (out', m)" "unat n < 2 ^ 32 - 16"
  shows "length out' = length out" "unat m = 16 * (unat n div 16) + 16" "unat m \<le> length out"
proof -
  obtain key where core: "AES_cbc_core_encrypt (\<lambda>b. AES_encrypt b key) p out n iv = Some (out', m)"
    using assms(1) by (auto simp: AES_CBC_Encrypt_def bind_Some_iff)
  have len: "length c = 16" if "AES_encrypt b key = Some c" for b c
    using that by (rule length_AES_encrypt)
  show "length out' = length out" "unat m = 16 * (unat n div 16) + 16" "unat m \<le> length out"
    using cbc_core_encrypt_lengths [OF core len assms(2)] by simp_all
qed

lemma cbc_decrypt_loop_length:
  "cbc_decrypt_loop D inp len iv off out = Some (inp', len', iv', off', out') \<Longrightarrow> length out' = length out"
proof (induction len arbitrary: inp iv off out rule: less_induct)
  case (less len)
  show ?case
  proof (cases "16 \<le> len")
    case True
    with less.prems obtain c p o' where step: "wr out off (xor_bytes p iv) = Some o'"
      and rest: "cbc_decrypt_loop D (drop 16 inp) (len - 16) c (off + 16) o' = Some (inp', len', iv', off', out')"
      by (subst (asm) cbc_decrypt_loop.simps) (auto simp: bind_Some_iff)
    then show ?thesis
      using less.IH [OF _ rest] length_wr [OF step] True by simp
  next
    case False
    then show ?thesis
      using less.prems by (subst (asm) cbc_decrypt_loop.simps) simp
  qed
qed

lemma AES_CBC_Decrypt_length:
  "AES_CBC_Decrypt k c n uk kl iv out = Some (out', m) \<Longrightarrow> length out' = length out"
  by (auto simp: AES_CBC_Decrypt_def AES_cbc_core_decrypt_def bind_Some_iff Let_def split: if_splits
      dest!: cbc_decrypt_loop_length length_wr)

section \<open>Properties\<close>

text \<open>C35: With a key of 16, 24 or 32 bytes and room for the padded text in both outputs,
  \<^verbatim>\<open>AES_CBC_Encrypt\<close> produces a cipher text of the next multiple of 16 bytes above the plain text,
  writes nothing behind it, and \<^verbatim>\<open>AES_CBC_Decrypt\<close> of that cipher text with the same key and IV
  restores the plain text and its exact length.\<close>

theorem AES_CBC_roundtrip:
  assumes "kl \<in> {16, 24, 32}" "unat kl \<le> length uk"
    and "length (rd_key k) = 60" "length (rd_key k') = 60"
    and "unat n \<le> length p" "unat n < 2 ^ 32 - 16" "16 \<le> length iv"
    and "16 * (unat n div 16) + 16 \<le> length out" "16 * (unat n div 16) + 16 \<le> length out'"
  shows "\<exists>c q m. unat m = 16 * (unat n div 16) + 16 \<and> length c = unat m
    \<and> AES_CBC_Encrypt k p n uk kl iv out = Some (c @ drop (length c) out, m)
    \<and> AES_CBC_Decrypt k' (c @ rest) m uk kl iv out' = Some (take (unat n) p @ q, n)"
  using AES_CBC_roundtrip_blocks [OF assms] by metis

theorem AES_CBC_roundtrip_witness:
  "\<exists>c q m. unat m = 32 \<and> length c = unat m
    \<and> AES_CBC_Encrypt \<lparr>rd_key = replicate 60 0, rounds = 0\<rparr> (replicate 20 3) 20 (replicate 16 7) 16 (replicate 16 1)
        (replicate 40 0) = Some (c @ drop (length c) (replicate 40 0), m)
    \<and> AES_CBC_Decrypt \<lparr>rd_key = replicate 60 5, rounds = 9\<rparr> (c @ []) m (replicate 16 7) 16 (replicate 16 1)
        (replicate 32 0) = Some (take 20 (replicate 20 3) @ q, 20)"
  using AES_CBC_roundtrip [of 16 "replicate 16 7" "\<lparr>rd_key = replicate 60 0, rounds = 0\<rparr>"
      "\<lparr>rd_key = replicate 60 5, rounds = 9\<rparr>" 20 "replicate 20 3" "replicate 16 1" "replicate 40 0" "replicate 32 0" "[]"]
  by simp

end
