(* ===== verification/ZcState.thy ===== *)
theory ZcState
  imports MsgQueue
begin

text \<open>
  The state of the protocol core (\<^verbatim>\<open>App/Adapter/ZC\<close>): its global variables as one record, with the
  structures of \<^verbatim>\<open>zc_protocol_controller.h\<close>, \<^verbatim>\<open>zc_timer.h\<close>, \<^verbatim>\<open>zc_client_manager.h\<close>,
  \<^verbatim>\<open>zc_configuration.h\<close> and \<^verbatim>\<open>zc_module_interface.h\<close>.  The platform underneath is the record of
  functions \<^verbatim>\<open>PTC_ModuleAdapter\<close>, an argument of the operations that call through it, with its own
  state in the field \<open>platform\<close>.  Output on the debug console (\<^verbatim>\<open>ZC_Printf\<close>, \<^verbatim>\<open>ZC_TraceData\<close>) is not
  modelled.
\<close>

section \<open>Constants\<close>

abbreviation (input) PCT_STATE_SLEEP :: u8 where "PCT_STATE_SLEEP \<equiv> 0"
abbreviation (input) PCT_STATE_INIT :: u8 where "PCT_STATE_INIT \<equiv> 1"
abbreviation (input) PCT_STATE_ACCESS_NET :: u8 where "PCT_STATE_ACCESS_NET \<equiv> 2"
abbreviation (input) PCT_STATE_WAIT_ACCESS :: u8 where "PCT_STATE_WAIT_ACCESS \<equiv> 3"
abbreviation (input) PCT_STATE_WAIT_ACCESSRSP :: u8 where "PCT_STATE_WAIT_ACCESSRSP \<equiv> 4"
abbreviation (input) PCT_STATE_WAIT_MSG4 :: u8 where "PCT_STATE_WAIT_MSG4 \<equiv> 5"
abbreviation (input) PCT_STATE_CONNECT_CLOUD :: u8 where "PCT_STATE_CONNECT_CLOUD \<equiv> 6"
abbreviation (input) PCT_STATE_DISCONNECT_CLOUD :: u8 where "PCT_STATE_DISCONNECT_CLOUD \<equiv> 7"

abbreviation (input) PCT_INVAILD_SOCKET :: u32 where "PCT_INVAILD_SOCKET \<equiv> 0xFFFFFFFF"
abbreviation (input) PCT_TIMER_RECONNECT :: u8 where "PCT_TIMER_RECONNECT \<equiv> 0"
abbreviation (input) PCT_TIMER_REACCESS :: u8 where "PCT_TIMER_REACCESS \<equiv> 1"
abbreviation (input) PCT_TIMER_SENDMOUDLE :: u8 where "PCT_TIMER_SENDMOUDLE \<equiv> 2"
abbreviation (input) PCT_TIMER_SENDHEART :: u8 where "PCT_TIMER_SENDHEART \<equiv> 3"
abbreviation (input) PCT_TIMER_REGISTER :: u8 where "PCT_TIMER_REGISTER \<equiv> 4"
abbreviation (input) PCT_TIMER_INTERVAL_RECONNECT :: u32 where "PCT_TIMER_INTERVAL_RECONNECT \<equiv> 1000"
abbreviation (input) PCT_TIMER_INTERVAL_HEART :: u32 where "PCT_TIMER_INTERVAL_HEART \<equiv> 60000"
abbreviation (input) PCT_TIMER_INTERVAL_SENDMOUDLE :: u32 where "PCT_TIMER_INTERVAL_SENDMOUDLE \<equiv> 1000"
abbreviation (input) PCT_TIMER_INTERVAL_REGISTER :: u32 where "PCT_TIMER_INTERVAL_REGISTER \<equiv> 1000"
abbreviation (input) PCT_SEND_BC_MAX_NUM :: u16 where "PCT_SEND_BC_MAX_NUM \<equiv> 300"
abbreviation (input) PCT_KEY_UNRECVED :: u8 where "PCT_KEY_UNRECVED \<equiv> 0"
abbreviation (input) PCT_KEY_RECVED :: u8 where "PCT_KEY_RECVED \<equiv> 1"
abbreviation (input) PCT_TIMER_INVAILD :: u8 where "PCT_TIMER_INVAILD \<equiv> 0xFF"
abbreviation (input) PCT_SENDMOUDLE_NUM :: u8 where "PCT_SENDMOUDLE_NUM \<equiv> 4"

abbreviation (input) ZC_CLOUD_PORT :: u16 where "ZC_CLOUD_PORT \<equiv> 9100"
abbreviation (input) ZC_SERVER_PORT :: u16 where "ZC_SERVER_PORT \<equiv> 9689"
abbreviation (input) ZC_MOUDLE_PORT :: u16 where "ZC_MOUDLE_PORT \<equiv> 7689"
abbreviation (input) ZC_MOUDLE_BROADCAST_PORT :: u16 where "ZC_MOUDLE_BROADCAST_PORT \<equiv> 8689"
abbreviation (input) ZC_IPTYPE_IPV4 :: u8 where "ZC_IPTYPE_IPV4 \<equiv> 0"
abbreviation (input) ZC_CONNECT_TYPE_TCP :: u8 where "ZC_CONNECT_TYPE_TCP \<equiv> 1"

abbreviation (input) ZC_TIMER_MAX_NUM :: nat where "ZC_TIMER_MAX_NUM \<equiv> 10"
abbreviation (input) ZC_TIMER_STATUS_IDLE :: u8 where "ZC_TIMER_STATUS_IDLE \<equiv> 0"
abbreviation (input) ZC_TIMER_STATUS_USED :: u8 where "ZC_TIMER_STATUS_USED \<equiv> 1"

abbreviation (input) ZC_CLIENT_STATUS_INIT :: u8 where "ZC_CLIENT_STATUS_INIT \<equiv> 0"
abbreviation (input) ZC_CLIENT_STATUS_WAKEUP :: u8 where "ZC_CLIENT_STATUS_WAKEUP \<equiv> 1"
abbreviation (input) ZC_CLIENT_STATUS_IDLE :: u8 where "ZC_CLIENT_STATUS_IDLE \<equiv> 2"
abbreviation (input) ZC_CLIENT_STATUS_BUSY :: u8 where "ZC_CLIENT_STATUS_BUSY \<equiv> 3"
abbreviation (input) ZC_CLIENT_INVAILD_FLAG :: u32 where "ZC_CLIENT_INVAILD_FLAG \<equiv> 0"
abbreviation (input) ZC_CLIENT_VAILD_FLAG :: u32 where "ZC_CLIENT_VAILD_FLAG \<equiv> 1"
abbreviation (input) ZC_MAX_CLIENT_NUM :: nat where "ZC_MAX_CLIENT_NUM \<equiv> 4"

abbreviation (input) MSG_BUFFER_SEND_MAX_NUM :: nat where "MSG_BUFFER_SEND_MAX_NUM \<equiv> 3"
abbreviation (input) MSG_BULID_BUFFER_MAXLEN :: u16 where "MSG_BULID_BUFFER_MAXLEN \<equiv> 600"
abbreviation (input) ZC_MAGIC_LEN :: nat where "ZC_MAGIC_LEN \<equiv> 4"
abbreviation (input) ZC_MAX_UARTBUF_LEN :: u32 where "ZC_MAX_UARTBUF_LEN \<equiv> 1000"

section \<open>Structures\<close>

record PTC_Connection =
  u32Socket :: u32
  u8IpType :: u8
  u8ConnectionType :: u8
  u16Port :: u16
  u32ConnectionTimes :: u32

text \<open>The address of a datagram: IPv4 address and port, \<open>None\<close> for \<^verbatim>\<open>NULL\<close>.\<close>

record ZC_SendParam =
  u8NeedPoll :: u8
  pu8AddrPara :: "(u32 \<times> u16) option"

record PTC_OtaInfo =
  u32TotalLen :: u32
  u32RecvOffset :: u32
  u8Crc :: "u8 list"

text \<open>The buffers a message pointer can point to.\<close>

datatype buffer_ref = RecvBuffer | RetxBuffer | SendBuffer nat

record PTC_ProtocolCon =
  u8MainState :: u8
  u8keyRecv :: u8
  u8ReconnectTimer :: u8
  u8AccessTimer :: u8
  u8HeartTimer :: u8
  u8SendMoudleTimer :: u8
  u8RegisterTimer :: u8
  u8ReSendMoudleNum :: u8
  pu8SendMoudleBuffer :: "buffer_ref option"
  struCloudConnection :: PTC_Connection
  struClientConnection :: PTC_Connection
  u8SessionKey :: "u8 list"
  IvSend :: "u8 list"
  IvRecv :: "u8 list"
  RandMsg :: "u8 list"
  u16SendBcNum :: u16
  struOtaInfo :: PTC_OtaInfo

record ZC_Timer =
  u8TimerStatus :: u8
  u8Type :: u8
  pu8Timer :: "nat option"

record ZC_ClientInfo =
  u8ClientStates :: u8
  u32ClientBusyId :: u8
  u32ClientVaildFlag :: "u32 list"
  u32ClientFd :: "u32 list"

record ZC_UartBuffer =
  u32Status :: u32
  u32RecvLen :: u32
  u8UartBuffer :: "u8 list"

record ZC_SwitchInfo =
  u32TraceSwitch :: u32
  u32SecSwitch :: u32
  u32WifiConfig :: u32
  u32ServerAddrConfig :: u32
  u8Ssid :: "u8 list"
  u8Password :: "u8 list"
  u32ServerIp :: u32
  u16ServerPort :: u16
  u16Pad :: u16

record ZC_CloudInfo =
  u8CloudKey :: "u8 list"
  u8CloudAddr :: "u8 list"
  u8TokenKey :: "u8 list"

record ZC_RegisterInfo =
  u8PrivateKey :: "u8 list"
  u8DeviciId :: "u8 list"
  u8EqVersion :: "u8 list"

record ZC_ConnectionInfo =
  u32ConnectionMagicFlag :: u32
  u8ConnectionSsid :: "u8 list"
  u8ConnectionPassword :: "u8 list"

record ZC_ConfigDB =
  u32MagicFlag :: u32
  struConnection :: ZC_ConnectionInfo
  struCloudInfo :: ZC_CloudInfo
  struSwitchInfo :: ZC_SwitchInfo

text \<open>
  The global variables.  \<open>stack\<close> is the supply of indeterminate bytes: what a local variable holds
  before it is written.  The static \<^verbatim>\<open>sleepcount\<close> of \<^verbatim>\<open>ZC_SendBc\<close> and the variables of \<^verbatim>\<open>ac_hal.c\<close>
  are here too.
\<close>

record 'h zc =
  g_u8MsgBuildBuffer :: "u8 list"
  g_struRecvBuffer :: MSG_Buffer
  g_struClientBuffer :: MSG_Buffer
  g_struRetxBuffer :: MSG_Buffer
  g_struSendBuffer :: "MSG_Buffer list"
  g_struRecvQueue :: "buffer_ref MSG_Queue"
  g_struSendQueue :: "buffer_ref MSG_Queue"
  g_struUartBuffer :: ZC_UartBuffer
  g_u8ClientSendLen :: u8
  g_struProtocolController :: PTC_ProtocolCon
  g_struTimer :: "ZC_Timer list"
  g_struClientInfo :: ZC_ClientInfo
  g_struZcConfigDb :: ZC_ConfigDB
  g_struRegisterInfo :: ZC_RegisterInfo
  g_Bcfd :: u32
  g_pu8RemoteAddr :: "(u32 \<times> u16) option"
  g_u32GloablIp :: u32
  g_u32BcSleepCount :: u32
  sleepcount :: u32
  g_u8DevMsgBuildBuffer :: "u8 list"
  g_u32CloudStatus :: u32
  g_u32WifiPowerStatus :: u32
  stack :: "nat \<Rightarrow> u8"
  platform :: 'h

abbreviation con :: "'h zc \<Rightarrow> PTC_ProtocolCon" where
  "con \<equiv> g_struProtocolController"

abbreviation con_update :: "(PTC_ProtocolCon \<Rightarrow> PTC_ProtocolCon) \<Rightarrow> 'h zc \<Rightarrow> 'h zc" where
  "con_update \<equiv> g_struProtocolController_update"

text \<open>Take \<open>n\<close> indeterminate bytes.\<close>

definition indet :: "nat \<Rightarrow> 'h zc \<Rightarrow> u8 list \<times> 'h zc" where
  "indet n s = (map (stack s) [0..<n], s\<lparr>stack := (\<lambda>i. stack s (i + n))\<rparr>)"

section \<open>The platform\<close>

text \<open>
  \<^verbatim>\<open>PTC_ModuleAdapter\<close>: an operation takes the state and returns it; \<^verbatim>\<open>pfunSetTimer\<close> also returns what it
  stores through its pointer argument, if it stores anything.  \<^verbatim>\<open>pfunConnectToCloud\<close> and
  \<^verbatim>\<open>pfunListenClient\<close> are always given the connections of the controller.  The last fields are the
  two RSA routines of \<^verbatim>\<open>tropicssl\<close> that \<^verbatim>\<open>zc_sec_engine.c\<close> calls (modulus, exponent or private key, and
  input to status, length and output) and two numbers that the build defines outside the sources.
\<close>

record 'h PTC_ModuleAdapter =
  pfunConnectToCloud :: "'h zc \<Rightarrow> ('h zc \<times> u32) option"
  pfunListenClient :: "'h zc \<Rightarrow> ('h zc \<times> u32) option"
  pfunSendTcpData :: "u32 \<Rightarrow> u8 list \<Rightarrow> u16 \<Rightarrow> ZC_SendParam \<Rightarrow> 'h zc \<Rightarrow> 'h zc option"
  pfunSendUdpData :: "u32 \<Rightarrow> u8 list \<Rightarrow> u16 \<Rightarrow> ZC_SendParam \<Rightarrow> 'h zc \<Rightarrow> 'h zc option"
  pfunUpdate :: "u8 list \<Rightarrow> u32 \<Rightarrow> u32 \<Rightarrow> 'h zc \<Rightarrow> ('h zc \<times> u32) option"
  pfunUpdateFinish :: "u32 \<Rightarrow> 'h zc \<Rightarrow> ('h zc \<times> u32) option"
  pfunSendToMoudle :: "u8 list \<Rightarrow> u16 \<Rightarrow> 'h zc \<Rightarrow> ('h zc \<times> u32) option"
  pfunRest :: "'h zc \<Rightarrow> 'h zc option"
  pfunSetTimer :: "u8 \<Rightarrow> u32 \<Rightarrow> 'h zc \<Rightarrow> ('h zc \<times> u32 \<times> u8 option) option"
  pfunStopTimer :: "u8 \<Rightarrow> 'h zc \<Rightarrow> 'h zc option"
  pfunWriteFlash :: "u8 list \<Rightarrow> u16 \<Rightarrow> 'h zc \<Rightarrow> 'h zc option"
  rsa_pkcs1_encrypt :: "u8 list \<Rightarrow> u8 list \<Rightarrow> u8 list \<Rightarrow> int \<times> u8 list"
  rsa_pkcs1_decrypt :: "u8 list list \<Rightarrow> u8 list \<Rightarrow> int \<times> int \<times> u8 list"
  ZC_MODULE_VERSION :: u32
  ZC_MODULE_TYPE :: u8

text \<open>Store through the pointer given to \<^verbatim>\<open>pfunSetTimer\<close>.\<close>

definition store_index :: "((u8 \<Rightarrow> u8) \<Rightarrow> PTC_ProtocolCon \<Rightarrow> PTC_ProtocolCon) \<Rightarrow> u8 option \<Rightarrow> 'h zc \<Rightarrow> 'h zc" where
  "store_index field i s = (case i of None \<Rightarrow> s | Some v \<Rightarrow> con_update (field (\<lambda>_. v)) s)"

definition set_timer ::
  "'h PTC_ModuleAdapter \<Rightarrow> u8 \<Rightarrow> u32 \<Rightarrow> ((u8 \<Rightarrow> u8) \<Rightarrow> PTC_ProtocolCon \<Rightarrow> PTC_ProtocolCon) \<Rightarrow> 'h zc \<Rightarrow> 'h zc option" where
  "set_timer A ty interval field s = do {
     (s, r, i) \<leftarrow> pfunSetTimer A ty interval s;
     Some (store_index field i s)
   }"

section \<open>Message buffers and queues\<close>

definition get_buffer :: "buffer_ref \<Rightarrow> 'h zc \<Rightarrow> MSG_Buffer option" where
  "get_buffer r s = (case r of
     RecvBuffer \<Rightarrow> Some (g_struRecvBuffer s)
   | RetxBuffer \<Rightarrow> Some (g_struRetxBuffer s)
   | SendBuffer i \<Rightarrow> rd1 (g_struSendBuffer s) i)"

definition set_buffer :: "buffer_ref \<Rightarrow> MSG_Buffer \<Rightarrow> 'h zc \<Rightarrow> 'h zc" where
  "set_buffer r b s = (case r of
     RecvBuffer \<Rightarrow> s\<lparr>g_struRecvBuffer := b\<rparr>
   | RetxBuffer \<Rightarrow> s\<lparr>g_struRetxBuffer := b\<rparr>
   | SendBuffer i \<Rightarrow> s\<lparr>g_struSendBuffer := (g_struSendBuffer s)[i := b]\<rparr>)"

text \<open>\<^verbatim>\<open>pstruBuffer->u32Len = 0; pstruBuffer->u8Status = MSG_BUFFER_IDLE;\<close>\<close>

definition idle :: "MSG_Buffer \<Rightarrow> MSG_Buffer" where
  "idle b = b\<lparr>u32Len := 0, u8Status := MSG_BUFFER_IDLE\<rparr>"

definition release :: "buffer_ref \<Rightarrow> 'h zc \<Rightarrow> 'h zc option" where
  "release r s = do { b \<leftarrow> get_buffer r s; Some (set_buffer r (idle b) s) }"

definition MSG_Init :: "'h zc \<Rightarrow> 'h zc" where
  "MSG_Init s = s\<lparr>g_struRecvQueue := MSG_InitQueue (g_struRecvQueue s),
     g_struSendQueue := MSG_InitQueue (g_struSendQueue s),
     g_struRecvBuffer := idle (g_struRecvBuffer s),
     g_struSendBuffer := map idle (g_struSendBuffer s),
     g_struClientBuffer := idle (g_struClientBuffer s)\<rparr>"

section \<open>The state at the start of the program\<close>

text \<open>Objects with static storage start as zero bytes.\<close>

definition zero_buffer :: MSG_Buffer where
  "zero_buffer = \<lparr>u32Len = 0, u8Status = MSG_BUFFER_IDLE, u8MsgBuffer = replicate 600 0\<rparr>"

definition zero_queue :: "'m MSG_Queue" where
  "zero_queue = \<lparr>pstruHead = 0, pstruTail = 0, struQueue = replicate 4 \<lparr>pstruNext = None, pu8Msg = None\<rparr>\<rparr>"

definition zero_connection :: PTC_Connection where
  "zero_connection = \<lparr>u32Socket = 0, u8IpType = 0, u8ConnectionType = 0, u16Port = 0, u32ConnectionTimes = 0\<rparr>"

definition zero_con :: PTC_ProtocolCon where
  "zero_con = \<lparr>u8MainState = 0, u8keyRecv = 0, u8ReconnectTimer = 0, u8AccessTimer = 0, u8HeartTimer = 0,
     u8SendMoudleTimer = 0, u8RegisterTimer = 0, u8ReSendMoudleNum = 0, pu8SendMoudleBuffer = None,
     struCloudConnection = zero_connection, struClientConnection = zero_connection,
     u8SessionKey = replicate 16 0, IvSend = replicate 16 0, IvRecv = replicate 16 0, RandMsg = replicate 32 0,
     u16SendBcNum = 0, struOtaInfo = \<lparr>u32TotalLen = 0, u32RecvOffset = 0, u8Crc = replicate 2 0\<rparr>\<rparr>"

definition zero_config :: ZC_ConfigDB where
  "zero_config = \<lparr>u32MagicFlag = 0,
     struConnection = \<lparr>u32ConnectionMagicFlag = 0, u8ConnectionSsid = replicate 32 0,
       u8ConnectionPassword = replicate 64 0\<rparr>,
     struCloudInfo = \<lparr>u8CloudKey = replicate 36 0, u8CloudAddr = replicate 20 0, u8TokenKey = replicate 16 0\<rparr>,
     struSwitchInfo = \<lparr>u32TraceSwitch = 0, u32SecSwitch = 0, u32WifiConfig = 0, u32ServerAddrConfig = 0,
       u8Ssid = replicate 32 0, u8Password = replicate 64 0, u32ServerIp = 0, u16ServerPort = 0, u16Pad = 0\<rparr>\<rparr>"

definition zc_start :: "(nat \<Rightarrow> u8) \<Rightarrow> 'h \<Rightarrow> 'h zc" where
  "zc_start st h = \<lparr>g_u8MsgBuildBuffer = replicate 600 0, g_struRecvBuffer = zero_buffer,
     g_struClientBuffer = zero_buffer, g_struRetxBuffer = zero_buffer, g_struSendBuffer = replicate 3 zero_buffer,
     g_struRecvQueue = zero_queue, g_struSendQueue = zero_queue,
     g_struUartBuffer = \<lparr>u32Status = 0, u32RecvLen = 0, u8UartBuffer = replicate 1000 0\<rparr>,
     g_u8ClientSendLen = 0, g_struProtocolController = zero_con,
     g_struTimer = replicate 10 \<lparr>u8TimerStatus = 0, u8Type = 0, pu8Timer = None\<rparr>,
     g_struClientInfo = \<lparr>u8ClientStates = 0, u32ClientBusyId = 0, u32ClientVaildFlag = replicate 4 0,
       u32ClientFd = replicate 4 0\<rparr>,
     g_struZcConfigDb = zero_config,
     g_struRegisterInfo = \<lparr>u8PrivateKey = replicate 112 0, u8DeviciId = replicate 24 0, u8EqVersion = replicate 4 0\<rparr>,
     g_Bcfd = 0, g_pu8RemoteAddr = None, g_u32GloablIp = 0, g_u32BcSleepCount = 0, sleepcount = 0,
     g_u8DevMsgBuildBuffer = replicate 600 0, g_u32CloudStatus = 0, g_u32WifiPowerStatus = 0,
     stack = st, platform = h\<rparr>"

text \<open>A platform on which every call succeeds without effect, for concrete runs.\<close>

definition quiet_adapter :: "'h PTC_ModuleAdapter" where
  "quiet_adapter = \<lparr>pfunConnectToCloud = (\<lambda>s. Some (s, ZC_RET_OK)), pfunListenClient = (\<lambda>s. Some (s, ZC_RET_OK)),
     pfunSendTcpData = (\<lambda>fd d n p s. Some s), pfunSendUdpData = (\<lambda>fd d n p s. Some s),
     pfunUpdate = (\<lambda>d off n s. Some (s, ZC_RET_OK)), pfunUpdateFinish = (\<lambda>n s. Some (s, ZC_RET_OK)),
     pfunSendToMoudle = (\<lambda>d n s. Some (s, ZC_RET_OK)), pfunRest = Some,
     pfunSetTimer = (\<lambda>ty i s. Some (s, ZC_RET_OK, Some 0)), pfunStopTimer = (\<lambda>i s. Some s),
     pfunWriteFlash = (\<lambda>d n s. Some s),
     rsa_pkcs1_encrypt = (\<lambda>N E b. if 21 < length b then (1, [])
       else (0, word_of_nat (length b) # b @ replicate (31 - length b) 0)),
     rsa_pkcs1_decrypt = (\<lambda>k c. (0, int (unat (c ! 0)), take (unat (c ! 0)) (drop 1 c))),
     ZC_MODULE_VERSION = 0x0102, ZC_MODULE_TYPE = 1\<rparr>"

end
