(* ===== verification/Config.thy ===== *)
theory Config
  imports ZcState
begin

text \<open>
  The configuration of \<^verbatim>\<open>zc_configuration.c\<close>, with the bytes of \<^verbatim>\<open>ZC_ConfigDB\<close> and
  \<^verbatim>\<open>ZC_RegisterInfo\<close> as they are written to the flash memory and read from it, and \<^verbatim>\<open>ZC_Rand\<close> of
  \<^verbatim>\<open>zc_common.c\<close>.
\<close>

section \<open>Constants\<close>

abbreviation (input) ZC_MAGIC_FLAG :: u32 where "ZC_MAGIC_FLAG \<equiv> 0x04083207"
abbreviation (input) ZC_GET_TYPE_CLOUDKEY :: u8 where "ZC_GET_TYPE_CLOUDKEY \<equiv> 0"
abbreviation (input) ZC_GET_TYPE_DEVICEID :: u8 where "ZC_GET_TYPE_DEVICEID \<equiv> 1"
abbreviation (input) ZC_GET_TYPE_PRIVATEKEY :: u8 where "ZC_GET_TYPE_PRIVATEKEY \<equiv> 2"
abbreviation (input) ZC_GET_TYPE_VESION :: u8 where "ZC_GET_TYPE_VESION \<equiv> 3"
abbreviation (input) ZC_GET_TYPE_TOKENKEY :: u8 where "ZC_GET_TYPE_TOKENKEY \<equiv> 4"
abbreviation (input) ZC_SSID_MAX_LEN :: nat where "ZC_SSID_MAX_LEN \<equiv> 32"
abbreviation (input) ZC_PASSWORD_MAX_LEN :: nat where "ZC_PASSWORD_MAX_LEN \<equiv> 64"
abbreviation (input) ZC_CLOUD_ADDR_MAX_LEN :: nat where "ZC_CLOUD_ADDR_MAX_LEN \<equiv> 20"
abbreviation (input) ZC_CLOUD_KEY_MAX_LEN :: nat where "ZC_CLOUD_KEY_MAX_LEN \<equiv> 36"

definition g_u8DefaultCloudKey :: "u8 list" where
  "g_u8DefaultCloudKey =
    [0xb8, 0xd9, 0x35, 0xe4, 0xd6, 0xd8, 0xf2, 0xd6, 0xc8, 0x28, 0x2f, 0x9f, 0xd9, 0x62, 0x48, 0xc7,
     0x96, 0xa9, 0xed, 0x5b, 0x5a, 0x1a, 0x95, 0x59, 0xd2, 0x3c, 0xbb, 0x5f, 0x1b, 0x03, 0x07, 0x3f,
     0x01, 0x00, 0x01, 0x00]"

definition g_u8DefaultTokenKey :: "u8 list" where
  "g_u8DefaultTokenKey =
    [0x01, 0x02, 0x03, 0x04, 0x05, 0x05, 0x05, 0x05, 0x05, 0x05, 0x05, 0x05, 0x05, 0x05, 0x05, 0x05]"

text \<open>The bytes of a string literal, with its terminating zero.\<close>

definition c_string :: "string \<Rightarrow> u8 list" where
  "c_string cs = map (\<lambda>c. of_char c) cs @ [0]"

section \<open>The bytes of the two databases\<close>

definition ConnectionInfo_bytes :: "ZC_ConnectionInfo \<Rightarrow> u8 list" where
  "ConnectionInfo_bytes c = bytes32 (u32ConnectionMagicFlag c) @ u8ConnectionSsid c @ u8ConnectionPassword c"

definition CloudInfo_bytes :: "ZC_CloudInfo \<Rightarrow> u8 list" where
  "CloudInfo_bytes c = u8CloudKey c @ u8CloudAddr c @ u8TokenKey c"

definition SwitchInfo_bytes :: "ZC_SwitchInfo \<Rightarrow> u8 list" where
  "SwitchInfo_bytes c = bytes32 (u32TraceSwitch c) @ bytes32 (u32SecSwitch c) @ bytes32 (u32WifiConfig c)
     @ bytes32 (u32ServerAddrConfig c) @ u8Ssid c @ u8Password c @ bytes32 (u32ServerIp c)
     @ bytes16 (u16ServerPort c) @ bytes16 (u16Pad c)"

definition ConfigDB_bytes :: "ZC_ConfigDB \<Rightarrow> u8 list" where
  "ConfigDB_bytes c = bytes32 (u32MagicFlag c) @ ConnectionInfo_bytes (struConnection c)
     @ CloudInfo_bytes (struCloudInfo c) @ SwitchInfo_bytes (struSwitchInfo c)"

definition RegisterInfo_bytes :: "ZC_RegisterInfo \<Rightarrow> u8 list" where
  "RegisterInfo_bytes r = u8PrivateKey r @ u8DeviciId r @ u8EqVersion r"

text \<open>The bytes of an object of the type seen as the structure.\<close>

definition field :: "nat \<Rightarrow> nat \<Rightarrow> u8 list \<Rightarrow> u8 list" where
  "field off n b = take n (drop off b)"

definition ConnectionInfo_of :: "u8 list \<Rightarrow> ZC_ConnectionInfo" where
  "ConnectionInfo_of b = \<lparr>u32ConnectionMagicFlag = le32 (field 0 4 b), u8ConnectionSsid = field 4 32 b,
     u8ConnectionPassword = field 36 64 b\<rparr>"

definition CloudInfo_of :: "u8 list \<Rightarrow> ZC_CloudInfo" where
  "CloudInfo_of b = \<lparr>u8CloudKey = field 0 36 b, u8CloudAddr = field 36 20 b, u8TokenKey = field 56 16 b\<rparr>"

definition SwitchInfo_of :: "u8 list \<Rightarrow> ZC_SwitchInfo" where
  "SwitchInfo_of b = \<lparr>u32TraceSwitch = le32 (field 0 4 b), u32SecSwitch = le32 (field 4 4 b),
     u32WifiConfig = le32 (field 8 4 b), u32ServerAddrConfig = le32 (field 12 4 b),
     u8Ssid = field 16 32 b, u8Password = field 48 64 b, u32ServerIp = le32 (field 112 4 b),
     u16ServerPort = le16 (field 116 2 b), u16Pad = le16 (field 118 2 b)\<rparr>"

definition ConfigDB_of :: "u8 list \<Rightarrow> ZC_ConfigDB" where
  "ConfigDB_of b = \<lparr>u32MagicFlag = le32 (field 0 4 b), struConnection = ConnectionInfo_of (field 4 100 b),
     struCloudInfo = CloudInfo_of (field 104 72 b), struSwitchInfo = SwitchInfo_of (field 176 120 b)\<rparr>"

definition RegisterInfo_of :: "u8 list \<Rightarrow> ZC_RegisterInfo" where
  "RegisterInfo_of b = \<lparr>u8PrivateKey = field 0 112 b, u8DeviciId = field 112 24 b, u8EqVersion = field 136 4 b\<rparr>"

text \<open>The array fields have their declared lengths.\<close>

definition config_ok :: "ZC_ConfigDB \<Rightarrow> bool" where
  "config_ok c \<longleftrightarrow> length (u8ConnectionSsid (struConnection c)) = 32
     \<and> length (u8ConnectionPassword (struConnection c)) = 64
     \<and> length (u8CloudKey (struCloudInfo c)) = 36 \<and> length (u8CloudAddr (struCloudInfo c)) = 20
     \<and> length (u8TokenKey (struCloudInfo c)) = 16
     \<and> length (u8Ssid (struSwitchInfo c)) = 32 \<and> length (u8Password (struSwitchInfo c)) = 64"

definition register_ok :: "ZC_RegisterInfo \<Rightarrow> bool" where
  "register_ok r \<longleftrightarrow> length (u8PrivateKey r) = 112 \<and> length (u8DeviciId r) = 24 \<and> length (u8EqVersion r) = 4"

section \<open>The operations\<close>

definition config_update :: "(ZC_SwitchInfo \<Rightarrow> ZC_SwitchInfo) \<Rightarrow> (ZC_CloudInfo \<Rightarrow> ZC_CloudInfo) \<Rightarrow> 'h zc \<Rightarrow> 'h zc" where
  "config_update f g s = s\<lparr>g_struZcConfigDb := (g_struZcConfigDb s)
     \<lparr>struSwitchInfo := f (struSwitchInfo (g_struZcConfigDb s)),
      struCloudInfo := g (struCloudInfo (g_struZcConfigDb s))\<rparr>\<rparr>"

definition ZC_ConfigInitPara :: "'h zc \<Rightarrow> 'h zc" where
  "ZC_ConfigInitPara s =
     (let c = (g_struZcConfigDb s)\<lparr>u32MagicFlag := ZC_MAGIC_FLAG,
            struConnection := (struConnection (g_struZcConfigDb s))\<lparr>u32ConnectionMagicFlag := 0xFFFFFFFF\<rparr>\<rparr>
      in config_update
        (\<lambda>w. w\<lparr>u32SecSwitch := 1, u32TraceSwitch := 0, u32WifiConfig := 0, u32ServerAddrConfig := 0,
               u16ServerPort := ZC_CLOUD_PORT\<rparr>)
        (\<lambda>w. w\<lparr>u8CloudAddr := c_string ''device.ablecloud.cn'', u8CloudKey := g_u8DefaultCloudKey,
               u8TokenKey := g_u8DefaultTokenKey\<rparr>)
        (s\<lparr>g_struZcConfigDb := c\<rparr>))"

definition write_config :: "'h PTC_ModuleAdapter \<Rightarrow> 'h zc \<Rightarrow> 'h zc option" where
  "write_config A s =
     (let b = ConfigDB_bytes (g_struZcConfigDb s) in pfunWriteFlash A b (word_of_nat (length b)) s)"

text \<open>\<^verbatim>\<open>pu8Data\<close> seen as \<^verbatim>\<open>ZC_Configuration\<close>, 176 bytes.\<close>

definition ZC_ConfigPara :: "'h PTC_ModuleAdapter \<Rightarrow> u8 list \<Rightarrow> 'h zc \<Rightarrow> 'h zc option" where
  "ZC_ConfigPara A pu8Data s = do {
     c \<leftarrow> rd pu8Data 0 174;
     write_config A (config_update
       (\<lambda>w. w\<lparr>u32SecSwitch := ZC_HTONL (le32 (field 4 4 c)), u32TraceSwitch := ZC_HTONL (le32 (field 0 4 c)),
              u32WifiConfig := ZC_HTONL (le32 (field 8 4 c)),
              u32ServerAddrConfig := ZC_HTONL (le32 (field 12 4 c)),
              u32ServerIp := ZC_HTONL (le32 (field 112 4 c)),
              u16ServerPort := ZC_HTONS (le16 (field 172 2 c)),
              u8Password := field 48 ZC_PASSWORD_MAX_LEN c, u8Ssid := field 16 ZC_SSID_MAX_LEN c\<rparr>)
       (\<lambda>w. w\<lparr>u8CloudAddr := field 116 ZC_CLOUD_ADDR_MAX_LEN c, u8CloudKey := field 136 ZC_CLOUD_KEY_MAX_LEN c\<rparr>)
       s)
   }"

text \<open>\<^verbatim>\<open>pu8Data\<close> seen as \<^verbatim>\<open>ZC_RegisterReq\<close>: version, key, domain, device, 140 bytes.\<close>

definition ZC_StoreRegisterInfo :: "u8 list \<Rightarrow> 'h zc \<Rightarrow> 'h zc option" where
  "ZC_StoreRegisterInfo pu8Data s = do {
     r \<leftarrow> rd pu8Data 0 140;
     Some (s\<lparr>g_struRegisterInfo :=
       \<lparr>u8PrivateKey = field 4 ZC_MODULE_KEY_LEN r,
        u8DeviciId = field 124 ZC_HS_DEVICE_ID_LEN r @ field 116 ZC_DOMAIN_LEN r,
        u8EqVersion = field 0 ZC_EQVERSION_LEN r\<rparr>\<rparr>)
   }"

definition ZC_StoreTokenKey :: "'h PTC_ModuleAdapter \<Rightarrow> u8 list \<Rightarrow> 'h zc \<Rightarrow> 'h zc option" where
  "ZC_StoreTokenKey A pu8Data s = do {
     k \<leftarrow> rd pu8Data 0 ZC_HS_SESSION_KEY_LEN;
     write_config A (config_update (\<lambda>w. w) (\<lambda>w. w\<lparr>u8TokenKey := k\<rparr>) s)
   }"

definition connection_update :: "(ZC_ConnectionInfo \<Rightarrow> ZC_ConnectionInfo) \<Rightarrow> 'h zc \<Rightarrow> 'h zc" where
  "connection_update f s = s\<lparr>g_struZcConfigDb := (g_struZcConfigDb s)
     \<lparr>struConnection := f (struConnection (g_struZcConfigDb s))\<rparr>\<rparr>"

definition ZC_StoreConnectionInfo :: "'h PTC_ModuleAdapter \<Rightarrow> u8 list \<Rightarrow> u8 list \<Rightarrow> 'h zc \<Rightarrow> 'h zc option" where
  "ZC_StoreConnectionInfo A pu8Ssid pu8Password s = do {
     ssid \<leftarrow> rd pu8Ssid 0 ZC_SSID_MAX_LEN;
     password \<leftarrow> rd pu8Password 0 ZC_PASSWORD_MAX_LEN;
     write_config A (connection_update
       (\<lambda>c. c\<lparr>u32ConnectionMagicFlag := ZC_MAGIC_FLAG, u8ConnectionSsid := ssid,
              u8ConnectionPassword := password\<rparr>) s)
   }"

definition ZC_StoreAccessInfo :: "'h PTC_ModuleAdapter \<Rightarrow> u8 list \<Rightarrow> u8 list \<Rightarrow> 'h zc \<Rightarrow> 'h zc option" where
  "ZC_StoreAccessInfo A pu8ServerIp pu8ServerPort s = do {
     ip \<leftarrow> rd32 pu8ServerIp 0;
     port \<leftarrow> rd16 pu8ServerPort 0;
     write_config A (config_update
       (\<lambda>w. w\<lparr>u32ServerAddrConfig := 1, u32ServerIp := ip, u16ServerPort := port\<rparr>) (\<lambda>w. w)
       (connection_update (\<lambda>c. c\<lparr>u32ConnectionMagicFlag := ZC_MAGIC_FLAG\<rparr>) s))
   }"

text \<open>The pointer it returns, as the bytes from there to the end of the array; \<open>None\<close> when the type is
  unknown and nothing is stored.\<close>

definition ZC_GetStoreInfor :: "u8 \<Rightarrow> 'h zc \<Rightarrow> u8 list option" where
  "ZC_GetStoreInfor ty s =
     (if ty = ZC_GET_TYPE_CLOUDKEY then Some (u8CloudKey (struCloudInfo (g_struZcConfigDb s)))
      else if ty = ZC_GET_TYPE_DEVICEID then Some (u8DeviciId (g_struRegisterInfo s))
      else if ty = ZC_GET_TYPE_PRIVATEKEY then Some (u8PrivateKey (g_struRegisterInfo s))
      else if ty = ZC_GET_TYPE_VESION then Some (u8EqVersion (g_struRegisterInfo s))
      else if ty = ZC_GET_TYPE_TOKENKEY then Some (u8TokenKey (struCloudInfo (g_struZcConfigDb s)))
      else None)"

section \<open>Random letters\<close>

text \<open>The 32 letters of a nonce from the eight values that \<^verbatim>\<open>rand\<close> returns.\<close>

definition rand_letter :: "u32 \<Rightarrow> nat \<Rightarrow> u8" where
  "rand_letter r k = ucast (drop_bit k r) mod 26 + 65"

definition ZC_Rand :: "(nat \<Rightarrow> u32) \<Rightarrow> u8 list" where
  "ZC_Rand rand = concat (map (\<lambda>i. [rand_letter (rand i) 0, rand_letter (rand i) 8,
     rand_letter (rand i) 16, rand_letter (rand i) 24]) [0..<ZC_HS_MSG_LEN div 4])"

section \<open>Lemmas\<close>

lemma field_append_first [simp]: "length a = n \<Longrightarrow> field 0 n (a @ b) = a"
  by (simp add: field_def)

lemma field_append_skip: "length a \<le> off \<Longrightarrow> field off n (a @ b) = field (off - length a) n b"
  by (simp add: field_def)

lemma field_all [simp]: "length a = n \<Longrightarrow> field 0 n a = a"
  by (simp add: field_def)

lemma length_field [simp]: "length (field off n b) = min n (length b - off)"
  by (simp add: field_def)

lemma ConnectionInfo_of_bytes:
  assumes "length (u8ConnectionSsid c) = 32" "length (u8ConnectionPassword c) = 64"
  shows "ConnectionInfo_of (ConnectionInfo_bytes c) = c" "length (ConnectionInfo_bytes c) = 100"
  using assms by (simp_all add: ConnectionInfo_of_def ConnectionInfo_bytes_def field_append_skip)

lemma CloudInfo_of_bytes:
  assumes "length (u8CloudKey c) = 36" "length (u8CloudAddr c) = 20" "length (u8TokenKey c) = 16"
  shows "CloudInfo_of (CloudInfo_bytes c) = c" "length (CloudInfo_bytes c) = 72"
  using assms by (simp_all add: CloudInfo_of_def CloudInfo_bytes_def field_append_skip)

lemma SwitchInfo_of_bytes:
  assumes "length (u8Ssid c) = 32" "length (u8Password c) = 64"
  shows "SwitchInfo_of (SwitchInfo_bytes c) = c" "length (SwitchInfo_bytes c) = 120"
  using assms by (simp_all add: SwitchInfo_of_def SwitchInfo_bytes_def field_append_skip)

lemma ConfigDB_of_bytes:
  assumes "config_ok c"
  shows "ConfigDB_of (ConfigDB_bytes c) = c" "length (ConfigDB_bytes c) = 296"
  using assms
  by (simp_all add: config_ok_def ConfigDB_of_def ConfigDB_bytes_def field_append_skip
      ConnectionInfo_of_bytes CloudInfo_of_bytes SwitchInfo_of_bytes)

lemma RegisterInfo_of_bytes:
  assumes "register_ok r"
  shows "RegisterInfo_of (RegisterInfo_bytes r) = r" "length (RegisterInfo_bytes r) = 140"
  using assms by (simp_all add: register_ok_def RegisterInfo_of_def RegisterInfo_bytes_def field_append_skip)

lemma length_c_string [simp]: "length (c_string cs) = length cs + 1"
  by (simp add: c_string_def)

lemma config_update_simps [simp]:
  "g_struProtocolController (config_update f g s) = g_struProtocolController s"
  "struSwitchInfo (g_struZcConfigDb (config_update f g s)) = f (struSwitchInfo (g_struZcConfigDb s))"
  "struCloudInfo (g_struZcConfigDb (config_update f g s)) = g (struCloudInfo (g_struZcConfigDb s))"
  "struConnection (g_struZcConfigDb (config_update f g s)) = struConnection (g_struZcConfigDb s)"
  by (simp_all add: config_update_def)

lemma config_ok_init: "config_ok (g_struZcConfigDb s) \<Longrightarrow> config_ok (g_struZcConfigDb (ZC_ConfigInitPara s))"
  by (simp add: ZC_ConfigInitPara_def Let_def config_ok_def g_u8DefaultCloudKey_def g_u8DefaultTokenKey_def)

lemma length_ZC_Rand [simp]: "length (ZC_Rand rand) = 32"
  by (simp add: ZC_Rand_def length_concat comp_def sum_list_triv)

lemma unat_rand_letter: "65 \<le> unat (rand_letter r k) \<and> unat (rand_letter r k) \<le> 90"
proof -
  define x where "x = unat (ucast (drop_bit k r) mod (26 :: u8))"
  have x: "x < 26"
    by (simp add: x_def unat_mod)
  then have "unat (rand_letter r k) = x + 65"
    unfolding rand_letter_def by (subst unat_add_small) (auto simp: x_def)
  then show ?thesis using x by simp
qed

lemma ZC_Rand_letters: "c \<in> set (ZC_Rand rand) \<Longrightarrow> 65 \<le> unat c \<and> unat c \<le> 90"
  unfolding ZC_Rand_def using unat_rand_letter by auto

end
