(* ===== verification/SecEngine.thy ===== *)
theory SecEngine
  imports AesCbc Config
begin

text \<open>
  The security engine \<^verbatim>\<open>zc_sec_engine.c\<close>: the choice of the algorithm, the padding it announces, AES
  with the session key and RSA in blocks of 21 bytes.  An output buffer is the list of bytes from the
  pointer to the end of its object.  The two RSA routines are those of the adapter record; the \<open>malloc\<close>
  of their context succeeds.
\<close>

section \<open>The code\<close>

text \<open>\<^verbatim>\<open>u8SecFlag\<close>, computed the same way in three functions.\<close>

definition sec_flag :: "'h zc \<Rightarrow> u8 \<Rightarrow> u8" where
  "sec_flag s ty =
     (let sw = u32SecSwitch (struSwitchInfo (g_struZcConfigDb s))
      in if sw = 0 then ZC_SEC_ALG_NONE
         else if sw = 2 then (if ty = ZC_SEC_ALG_RSA then ZC_SEC_ALG_NONE else ty)
         else ty)"

text \<open>\<^verbatim>\<open>ZC_SEC_RSA_KEY_LEN >> 3\<close>.\<close>

abbreviation (input) RSA_LEN :: nat where "RSA_LEN \<equiv> 32"

definition SEC_PaddingCheck :: "'h zc \<Rightarrow> u8 \<Rightarrow> u16 \<Rightarrow> u32 \<times> u16" where
  "SEC_PaddingCheck s ty u16PlainLen =
     (let f = sec_flag s ty
      in if f = ZC_SEC_ALG_AES then
           let LastBlockSize = u16PlainLen mod 16
           in (ZC_RET_OK, if LastBlockSize > 0 then 16 - LastBlockSize else 16)
         else if f = ZC_SEC_ALG_RSA then
           let LastBlockSize = u16PlainLen mod 32
           in (ZC_RET_OK, if LastBlockSize > 0 then 32 - LastBlockSize else 0)
         else (ZC_RET_OK, 0))"

text \<open>
  The public key as modulus and exponent, and the six parts of the private key.  The \<open>k\<close> turns of
  \<^verbatim>\<open>mpi_read_binary\<close> for the private key start at \<^verbatim>\<open>u16StartPos\<close>.
\<close>

definition SEC_InitRsaContextWithPublicKey :: "u8 list \<Rightarrow> (u8 list \<times> u8 list) option" where
  "SEC_InitRsaContextWithPublicKey pu8Pubkey = do {
     N \<leftarrow> rd pu8Pubkey 0 RSA_LEN;
     E \<leftarrow> rd pu8Pubkey RSA_LEN 3;
     Some (N, E)
   }"

fun read_mpis :: "nat list \<Rightarrow> nat \<Rightarrow> u8 list \<Rightarrow> u8 list list option" where
  "read_mpis [] pos key = Some []"
| "read_mpis (n # ns) pos key = do {
     m \<leftarrow> rd key pos n;
     ms \<leftarrow> read_mpis ns (pos + n) key;
     Some (m # ms)
   }"

definition SEC_InitRsaContextWithPrivateKey :: "u8 list \<Rightarrow> u8 list list option" where
  "SEC_InitRsaContextWithPrivateKey pu8PrivateKey = read_mpis [32, 16, 16, 16, 16, 16] 0 pu8PrivateKey"

text \<open>
  One call of \<^verbatim>\<open>rsa_pkcs1_encrypt\<close> or \<^verbatim>\<open>rsa_pkcs1_decrypt\<close> that writes into the output at an offset.
\<close>

definition rsa_put :: "(u8 list \<Rightarrow> int \<times> u8 list) \<Rightarrow> u8 list \<Rightarrow> u16 \<Rightarrow> u8 list \<Rightarrow> (int \<times> u8 list) option" where
  "rsa_put enc b off out = do {
     let (ret, c) = enc b;
     out \<leftarrow> wr out (unat off) c;
     Some (ret, out)
   }"

definition rsa_get :: "(u8 list \<Rightarrow> int \<times> int \<times> u8 list) \<Rightarrow> u8 list \<Rightarrow> u16 \<Rightarrow> u8 list \<Rightarrow> (int \<times> int \<times> u8 list) option" where
  "rsa_get dec c off out = do {
     let (ret, n, b) = dec c;
     out \<leftarrow> wr out (unat off) b;
     Some (ret, n, out)
   }"

text \<open>
  The loop over full blocks: the last status, \<^verbatim>\<open>u16ReadLen\<close>, \<^verbatim>\<open>*pu16CiperLen\<close> and the output.  The
  routine is given the key; what it leaves in the output is written whatever its status.
\<close>

function rsa_encrypt_loop ::
  "(u8 list \<Rightarrow> int \<times> u8 list) \<Rightarrow> u8 list \<Rightarrow> nat \<Rightarrow> int \<Rightarrow> nat \<Rightarrow> u16 \<Rightarrow> u8 list
    \<Rightarrow> (int \<times> nat \<times> u16 \<times> u8 list) option" where
  "rsa_encrypt_loop enc pu8Plainbuf len ret rdlen clen out =
     (if rdlen + (RSA_LEN - 11) \<le> len then do {
        b \<leftarrow> rd pu8Plainbuf rdlen (RSA_LEN - 11);
        (ret, out) \<leftarrow> rsa_put enc b clen out;
        if ret \<noteq> 0 then Some (ret, rdlen, clen, out)
        else rsa_encrypt_loop enc pu8Plainbuf len ret (rdlen + (RSA_LEN - 11)) (clen + 32) out
      } else Some (ret, rdlen, clen, out))"
  by pat_completeness auto
termination by (relation "measure (\<lambda>(enc, p, len, ret, rdlen, clen, out). len - rdlen)") auto

text \<open>The blocks of a text: the last status, the output and the length of the cipher text.\<close>

definition rsa_encrypt_text ::
  "(u8 list \<Rightarrow> int \<times> u8 list) \<Rightarrow> u8 list \<Rightarrow> nat \<Rightarrow> u8 list \<Rightarrow> (int \<times> u8 list \<times> u16) option" where
  "rsa_encrypt_text enc pu8Plainbuf len out =
     (if len + 11 > RSA_LEN then do {
        (ret, rdlen, clen, out) \<leftarrow> rsa_encrypt_loop enc pu8Plainbuf len 0 0 0 out;
        if rdlen < len then do {
          b \<leftarrow> rd pu8Plainbuf rdlen (len - rdlen);
          (ret, out) \<leftarrow> rsa_put enc b clen out;
          Some (ret, out, clen + 32)
        } else Some (ret, out, clen)
      } else do {
        b \<leftarrow> rd pu8Plainbuf 0 len;
        (ret, out) \<leftarrow> rsa_put enc b 0 out;
        Some (ret, out, 32)
      })"

definition SEC_EncryptTextByRsa ::
  "'h PTC_ModuleAdapter \<Rightarrow> 'h zc \<Rightarrow> u8 list \<Rightarrow> u8 list \<Rightarrow> u16 \<Rightarrow> (u32 \<times> u8 list \<times> u16) option" where
  "SEC_EncryptTextByRsa A s out pu8Plainbuf u16Len = do {
     pu8PublicKey \<leftarrow> ZC_GetStoreInfor ZC_GET_TYPE_CLOUDKEY s;
     (N, E) \<leftarrow> SEC_InitRsaContextWithPublicKey pu8PublicKey;
     (ret, out, clen) \<leftarrow> rsa_encrypt_text (rsa_pkcs1_encrypt A N E) pu8Plainbuf (unat u16Len) out;
     Some (if ret \<noteq> 0 then ZC_RET_ERROR else ZC_RET_OK, out, clen)
   }"

function rsa_decrypt_loop ::
  "(u8 list \<Rightarrow> int \<times> int \<times> u8 list) \<Rightarrow> u8 list \<Rightarrow> nat \<Rightarrow> int \<Rightarrow> nat \<Rightarrow> u16 \<Rightarrow> u8 list
    \<Rightarrow> (int \<times> nat \<times> u16 \<times> u8 list) option" where
  "rsa_decrypt_loop dec pu8CiperBuf len ret rdlen plen out =
     (if rdlen + RSA_LEN \<le> len then do {
        c \<leftarrow> rd pu8CiperBuf rdlen RSA_LEN;
        (ret, n, out) \<leftarrow> rsa_get dec c plen out;
        if ret \<noteq> 0 then Some (ret, rdlen, plen, out)
        else rsa_decrypt_loop dec pu8CiperBuf len ret (rdlen + RSA_LEN) (plen + word_of_int n) out
      } else Some (ret, rdlen, plen, out))"
  by pat_completeness auto
termination by (relation "measure (\<lambda>(dec, c, len, ret, rdlen, plen, out). len - rdlen)") auto

definition rsa_decrypt_text ::
  "(u8 list \<Rightarrow> int \<times> int \<times> u8 list) \<Rightarrow> u8 list \<Rightarrow> nat \<Rightarrow> u8 list \<Rightarrow> (int \<times> u8 list \<times> u16) option" where
  "rsa_decrypt_text dec pu8CiperBuf len out =
     (if len > RSA_LEN then do {
        (ret, rdlen, plen, out) \<leftarrow> rsa_decrypt_loop dec pu8CiperBuf len 0 0 0 out;
        if rdlen < len then do {
          c \<leftarrow> rd pu8CiperBuf rdlen RSA_LEN;
          (ret, n, out) \<leftarrow> rsa_get dec c plen out;
          Some (ret, out, plen + word_of_int n)
        } else Some (ret, out, plen)
      } else do {
        c \<leftarrow> rd pu8CiperBuf 0 RSA_LEN;
        (ret, n, out) \<leftarrow> rsa_get dec c 0 out;
        Some (ret, out, word_of_int n)
      })"

definition SEC_DecryptTextByRsa ::
  "'h PTC_ModuleAdapter \<Rightarrow> 'h zc \<Rightarrow> u8 list \<Rightarrow> u8 list \<Rightarrow> u16 \<Rightarrow> (u32 \<times> u8 list \<times> u16) option" where
  "SEC_DecryptTextByRsa A s pu8CiperBuf out u16Len = do {
     pu8PrivateKey \<leftarrow> ZC_GetStoreInfor ZC_GET_TYPE_PRIVATEKEY s;
     key \<leftarrow> SEC_InitRsaContextWithPrivateKey pu8PrivateKey;
     (ret, out, plen) \<leftarrow> rsa_decrypt_text (rsa_pkcs1_decrypt A key) pu8CiperBuf (unat u16Len) out;
     Some (if ret \<noteq> 0 then ZC_RET_ERROR else ZC_RET_OK, out, plen)
   }"

declare rsa_encrypt_loop.simps [simp del] rsa_decrypt_loop.simps [simp del]

text \<open>
  A key object on the stack.  The schedules overwrite what the cipher reads of it, so its first contents
  do not matter (\<open>AES_CBC_roundtrip\<close> is about any).
\<close>

definition key_object :: AES_KEY where
  "key_object = \<lparr>rd_key = replicate 60 0, rounds = 0\<rparr>"

definition SEC_AesEncrypt :: "'h zc \<Rightarrow> u8 list \<Rightarrow> u8 list \<Rightarrow> u16 \<Rightarrow> u16 \<Rightarrow> (u32 \<times> u8 list \<times> u16) option" where
  "SEC_AesEncrypt s out pu8Plainbuf u16Len u16CiperLen =
     (if u8keyRecv (con s) \<noteq> PCT_KEY_RECVED then Some (ZC_RET_ERROR, out, u16CiperLen)
      else do {
        (out, n) \<leftarrow> AES_CBC_Encrypt key_object pu8Plainbuf (ucast u16Len) (u8SessionKey (con s)) 16 (IvSend (con s)) out;
        Some (ZC_RET_OK, out, ucast n)
      })"

definition SEC_AesDecrypt :: "'h zc \<Rightarrow> u8 list \<Rightarrow> u8 list \<Rightarrow> u16 \<Rightarrow> u16 \<Rightarrow> (u32 \<times> u8 list \<times> u16) option" where
  "SEC_AesDecrypt s pu8CiperBuf out u16Len u16PlainLen =
     (if u8keyRecv (con s) \<noteq> PCT_KEY_RECVED then Some (ZC_RET_ERROR, out, u16PlainLen)
      else do {
        (out, n) \<leftarrow> AES_CBC_Decrypt key_object pu8CiperBuf (ucast u16Len) (u8SessionKey (con s)) 16 (IvRecv (con s)) out;
        Some (ZC_RET_OK, out, ucast n)
      })"

text \<open>The result, the output buffer and the length; the last argument is what the length held before.\<close>

definition SEC_Encrypt ::
  "'h PTC_ModuleAdapter \<Rightarrow> 'h zc \<Rightarrow> ZC_SecHead \<Rightarrow> u8 list \<Rightarrow> u8 list \<Rightarrow> u16 \<Rightarrow> (u32 \<times> u8 list \<times> u16) option" where
  "SEC_Encrypt A s h out pu8PlainBuf u16CiperLen =
     (let f = sec_flag s (u8SecType h); n = ZC_HTONS (u16TotalMsg h)
      in if f = ZC_SEC_ALG_NONE then do {
           d \<leftarrow> rd pu8PlainBuf 0 (unat n);
           out \<leftarrow> wr out 0 d;
           Some (ZC_RET_OK, out, n)
         } else if f = ZC_SEC_ALG_RSA then SEC_EncryptTextByRsa A s out pu8PlainBuf n
         else if f = ZC_SEC_ALG_AES then SEC_AesEncrypt s out pu8PlainBuf n u16CiperLen
         else Some (ZC_RET_ERROR, out, u16CiperLen))"

definition SEC_Decrypt ::
  "'h PTC_ModuleAdapter \<Rightarrow> 'h zc \<Rightarrow> ZC_SecHead \<Rightarrow> u8 list \<Rightarrow> u8 list \<Rightarrow> u16 \<Rightarrow> (u32 \<times> u8 list \<times> u16) option" where
  "SEC_Decrypt A s h pu8CiperBuf out u16PlainLen =
     (let f = sec_flag s (u8SecType h); n = ZC_HTONS (u16TotalMsg h)
      in if f = ZC_SEC_ALG_NONE then do {
           d \<leftarrow> rd pu8CiperBuf 0 (unat n);
           out \<leftarrow> wr out 0 d;
           Some (ZC_RET_OK, out, n)
         } else if f = ZC_SEC_ALG_RSA then SEC_DecryptTextByRsa A s pu8CiperBuf out n
         else if f = ZC_SEC_ALG_AES then SEC_AesDecrypt s pu8CiperBuf out n u16PlainLen
         else Some (ZC_RET_ERROR, out, u16PlainLen))"

section \<open>RSA block by block\<close>

text \<open>Blocks and their cipher texts, as a pair of routines that fit together produces and reads them.\<close>

definition rsa_block :: "(u8 list \<Rightarrow> int \<times> u8 list) \<Rightarrow> (u8 list \<Rightarrow> int \<times> int \<times> u8 list) \<Rightarrow> u8 list \<Rightarrow> u8 list \<Rightarrow> bool" where
  "rsa_block enc dec b c \<longleftrightarrow> enc b = (0, c) \<and> length c = 32 \<and> dec c = (0, int (length b), b)"

definition rsa_fits :: "(u8 list \<Rightarrow> int \<times> u8 list) \<Rightarrow> (u8 list \<Rightarrow> int \<times> int \<times> u8 list) \<Rightarrow> bool" where
  "rsa_fits enc dec \<longleftrightarrow> (\<forall>b. length b \<le> 21 \<longrightarrow> rsa_block enc dec b (snd (enc b)))"

abbreviation cipher_text :: "(u8 list \<Rightarrow> int \<times> u8 list) \<Rightarrow> u8 list list \<Rightarrow> u8 list" where
  "cipher_text enc bs \<equiv> concat (map (\<lambda>b. snd (enc b)) bs)"

lemma rsa_fits_enc:
  assumes "rsa_fits enc dec" "length b \<le> 21"
  obtains c where "enc b = (0, c)" "length c = 32" "dec c = (0, int (length b), b)"
  using assms by (cases "enc b") (auto simp: rsa_fits_def rsa_block_def)

lemma length_cipher_text [simp]:
  "rsa_fits enc dec \<Longrightarrow> \<forall>b\<in>set bs. length b \<le> 21 \<Longrightarrow> length (cipher_text enc bs) = 32 * length bs"
  by (induction bs) (auto elim: rsa_fits_enc)

lemma drop_concat_Cons:
  assumes "drop i p = concat (b # bs) @ r" "length b = n" "0 < n"
  shows "rd p i n = Some b" "drop (i + n) p = concat bs @ r"
proof -
  have p: "drop i p = b @ concat bs @ r"
    using assms(1) by simp
  then have "i + n \<le> length p"
    using assms(2,3) arg_cong [OF p, of length, unfolded length_drop length_append] by linarith
  with p assms(2) show "rd p i n = Some b"
    by (simp add: rd_def)
  show "drop (i + n) p = concat bs @ r"
    using arg_cong [OF p, of "drop n"] assms(2) by (simp add: add.commute)
qed

lemma rsa_put_ok:
  "enc b = (0, c) \<Longrightarrow> unat off + length c \<le> length out \<Longrightarrow>
    rsa_put enc b off out = Some (0, take (unat off) out @ c @ drop (unat off + length c) out)"
  by (simp add: rsa_put_def wr_Some)

lemma rsa_get_ok:
  "dec c = (0, n, b) \<Longrightarrow> unat off + length b \<le> length out \<Longrightarrow>
    rsa_get dec c off out = Some (0, n, take (unat off) out @ b @ drop (unat off + length b) out)"
  by (simp add: rsa_get_def wr_Some)

lemma rsa_encrypt_loop_blocks:
  assumes "rsa_fits enc dec"
  shows "drop rdlen p = concat bs @ r \<Longrightarrow> \<forall>b\<in>set bs. length b = 21
    \<Longrightarrow> k < 21 \<Longrightarrow> len = rdlen + 21 * length bs + k
    \<Longrightarrow> unat clen + 32 * length bs \<le> length out \<Longrightarrow> unat clen + 32 * length bs < 65536
    \<Longrightarrow> rsa_encrypt_loop enc p len ret rdlen clen out =
      Some (if bs = [] then ret else 0, rdlen + 21 * length bs, clen + word_of_nat (32 * length bs),
        take (unat clen) out @ cipher_text enc bs @ drop (unat clen + 32 * length bs) out)"
proof (induction bs arbitrary: rdlen ret clen out)
  case Nil
  then show ?case by (subst rsa_encrypt_loop.simps) simp
next
  case (Cons b bs)
  have b: "length b = 21" using Cons.prems(2) by simp
  note d = drop_concat_Cons [OF Cons.prems(1) b]
  obtain c where c: "enc b = (0, c)" "length c = 32"
    using rsa_fits_enc [OF assms, of b] b by auto
  let ?out = "take (unat clen) out @ c @ drop (unat clen + 32) out"
  have w: "rsa_put enc b clen out = Some (0, ?out)"
    using Cons.prems(5) c by (simp add: rsa_put_ok)
  have u: "unat (clen + 32) = unat clen + 32"
    using Cons.prems(6) by (subst unat_add_small) auto
  have "rsa_encrypt_loop enc p len 0 (rdlen + 21) (clen + 32) ?out =
      Some (if bs = [] then 0 else 0, rdlen + 21 + 21 * length bs, clen + 32 + word_of_nat (32 * length bs),
        take (unat (clen + 32)) ?out @ cipher_text enc bs @ drop (unat (clen + 32) + 32 * length bs) ?out)"
    using Cons.prems c(2) u d(2) by (intro Cons.IH) auto
  then show ?case
    using d(1) c w Cons.prems(4,5) by (subst rsa_encrypt_loop.simps) (simp add: u ac_simps)
qed

lemma rsa_decrypt_loop_blocks:
  assumes "rsa_fits enc dec"
  shows "drop rdlen p = cipher_text enc bs @ r \<Longrightarrow> \<forall>b\<in>set bs. length b \<le> 21
    \<Longrightarrow> len = rdlen + 32 * length bs
    \<Longrightarrow> unat plen + length (concat bs) \<le> length out \<Longrightarrow> unat plen + length (concat bs) < 65536
    \<Longrightarrow> rsa_decrypt_loop dec p len ret rdlen plen out =
      Some (if bs = [] then ret else 0, len, plen + word_of_nat (length (concat bs)),
        take (unat plen) out @ concat bs @ drop (unat plen + length (concat bs)) out)"
proof (induction bs arbitrary: rdlen ret plen out)
  case Nil
  then show ?case by (subst rsa_decrypt_loop.simps) simp
next
  case (Cons b bs)
  obtain c where c: "enc b = (0, c)" "length c = 32" "dec c = (0, int (length b), b)"
    using rsa_fits_enc [OF assms, of b] Cons.prems(2) by auto
  have "drop rdlen p = concat (c # map (\<lambda>b. snd (enc b)) bs) @ r"
    using Cons.prems(1) c(1) by simp
  note d = drop_concat_Cons [OF this c(2)]
  let ?out = "take (unat plen) out @ b @ drop (unat plen + length b) out"
  have w: "rsa_get dec c plen out = Some (0, int (length b), ?out)"
    using Cons.prems(4) c by (simp add: rsa_get_ok)
  have u: "unat (plen + word_of_nat (length b)) = unat plen + length b"
    using Cons.prems(5) by (subst unat_add_small) (auto simp: unat_of_nat_small)
  have "rsa_decrypt_loop dec p len 0 (rdlen + 32) (plen + word_of_nat (length b)) ?out =
      Some (if bs = [] then 0 else 0, len, plen + word_of_nat (length b) + word_of_nat (length (concat bs)),
        take (unat (plen + word_of_nat (length b))) ?out @ concat bs
          @ drop (unat (plen + word_of_nat (length b)) + length (concat bs)) ?out)"
    using Cons.prems u d(2) by (intro Cons.IH) auto
  then show ?case
    using d(1) c w Cons.prems(3,4) by (subst rsa_decrypt_loop.simps) (simp add: u ac_simps)
qed

lemma split_every:
  assumes "0 < n"
  shows "\<exists>bs r. p = concat bs @ r \<and> (\<forall>b\<in>set bs. length b = n) \<and> length r < n"
proof (induction "length p" arbitrary: p rule: less_induct)
  case less
  show ?case
  proof (cases "length p < n")
    case True
    then show ?thesis by (intro exI [of _ "[]"] exI [of _ p]) simp
  next
    case False
    then have "length (drop n p) < length p"
      using assms by simp
    from less [OF this] obtain bs r where
      bs: "drop n p = concat bs @ r" "\<forall>b\<in>set bs. length b = n" "length r < n"
      by blast
    have "p = concat (take n p # bs) @ r"
      using bs(1) append_take_drop_id [of n p] by simp
    moreover have "\<forall>b\<in>set (take n p # bs). length b = n"
      using bs(2) False by simp
    ultimately show ?thesis using bs(3) by blast
  qed
qed

lemma length_concat_every: "\<forall>b\<in>set bs. length b = n \<Longrightarrow> length (concat bs) = n * length bs"
  by (induction bs) auto

text \<open>The keys of the state and the two routines that use them.\<close>

definition rsa_enc_of :: "'h PTC_ModuleAdapter \<Rightarrow> 'h zc \<Rightarrow> u8 list \<Rightarrow> int \<times> u8 list" where
  "rsa_enc_of A s =
     (let k = u8CloudKey (struCloudInfo (g_struZcConfigDb s)) in rsa_pkcs1_encrypt A (take 32 k) (field 32 3 k))"

definition rsa_dec_of :: "'h PTC_ModuleAdapter \<Rightarrow> 'h zc \<Rightarrow> u8 list \<Rightarrow> int \<times> int \<times> u8 list" where
  "rsa_dec_of A s =
     (let k = u8PrivateKey (g_struRegisterInfo s)
      in rsa_pkcs1_decrypt A [field 0 32 k, field 32 16 k, field 48 16 k, field 64 16 k, field 80 16 k, field 96 16 k])"

lemma rsa_keys:
  "config_ok (g_struZcConfigDb s) \<Longrightarrow> ZC_GetStoreInfor ZC_GET_TYPE_CLOUDKEY s = Some k
    \<Longrightarrow> SEC_InitRsaContextWithPublicKey k = Some (take 32 k, field 32 3 k)"
  "register_ok (g_struRegisterInfo s) \<Longrightarrow> ZC_GetStoreInfor ZC_GET_TYPE_PRIVATEKEY s = Some k'
    \<Longrightarrow> SEC_InitRsaContextWithPrivateKey k' =
      Some [field 0 32 k', field 32 16 k', field 48 16 k', field 64 16 k', field 80 16 k', field 96 16 k']"
  by (auto simp: ZC_GetStoreInfor_def SEC_InitRsaContextWithPublicKey_def SEC_InitRsaContextWithPrivateKey_def
      config_ok_def register_ok_def rd_Some field_def)

lemma SEC_EncryptTextByRsa_ok:
  assumes fits: "rsa_fits (rsa_enc_of A s) dec" and ok: "config_ok (g_struZcConfigDb s)"
    and n: "unat n \<le> length p" "unat n < 40000" and room: "32 * (unat n div 21) + 32 \<le> length out"
  obtains bs where "concat bs = take (unat n) p" "\<forall>b\<in>set bs. length b \<le> 21" "bs \<noteq> []"
    "length bs \<le> unat n div 21 + 1"
    "SEC_EncryptTextByRsa A s out p n =
      Some (ZC_RET_OK, cipher_text (rsa_enc_of A s) bs @ drop (32 * length bs) out, word_of_nat (32 * length bs))"
proof -
  let ?enc = "rsa_enc_of A s" and ?t = "take (unat n) p"
  have keys: "SEC_InitRsaContextWithPublicKey (u8CloudKey (struCloudInfo (g_struZcConfigDb s)))
      = Some (take 32 (u8CloudKey (struCloudInfo (g_struZcConfigDb s))),
              field 32 3 (u8CloudKey (struCloudInfo (g_struZcConfigDb s))))"
    using rsa_keys(1) [OF ok] by (simp add: ZC_GetStoreInfor_def)
  have store: "ZC_GetStoreInfor ZC_GET_TYPE_CLOUDKEY s = Some (u8CloudKey (struCloudInfo (g_struZcConfigDb s)))"
    by (simp add: ZC_GetStoreInfor_def)
  show thesis
  proof (cases "unat n \<le> 21")
    case True
    then have "length ?t \<le> 21" by simp
    then obtain c where c: "?enc ?t = (0, c)" "length c = 32"
      using rsa_fits_enc [OF fits] by blast
    have "SEC_EncryptTextByRsa A s out p n = Some (ZC_RET_OK, c @ drop 32 out, 32)"
      using True n(1) c room
      by (simp add: SEC_EncryptTextByRsa_def rsa_encrypt_text_def store keys rsa_enc_of_def rd_Some rsa_put_ok Let_def)
    then show thesis
      using True c by (intro that [of "[?t]"]) auto
  next
    case False
    obtain bs r where bs: "?t = concat bs @ r" "\<forall>b\<in>set bs. length b = 21" "length r < 21"
      using split_every [of 21 ?t] by auto
    have len: "unat n = 21 * length bs + length r"
      using arg_cong [OF bs(1), of length] n(1) length_concat_every [OF bs(2)] by simp
    then have d: "unat n div 21 = length bs"
      using bs(3) by simp
    have p: "drop 0 p = concat bs @ r @ drop (unat n) p"
      using bs(1) append_take_drop_id [of "unat n" p] by simp
    let ?out = "cipher_text ?enc bs @ drop (32 * length bs) out"
    have le: "\<forall>b\<in>set bs. length b \<le> 21"
      using bs(2) by auto
    have loop: "rsa_encrypt_loop ?enc p (unat n) 0 0 0 out
        = Some (0, 21 * length bs, word_of_nat (32 * length bs), ?out)"
      using rsa_encrypt_loop_blocks [OF fits p bs(2,3), of "unat n" 0 out 0] len room d n(2) by simp
    have small: "unat (word_of_nat (32 * length bs) :: u16) = 32 * length bs"
      using len n(2) by (intro unat_of_nat_small) simp
    show thesis
    proof (cases "r = []")
      case True
      then have "SEC_EncryptTextByRsa A s out p n = Some (ZC_RET_OK, ?out, word_of_nat (32 * length bs))"
        using False len loop
        by (simp add: SEC_EncryptTextByRsa_def rsa_encrypt_text_def store keys rsa_enc_of_def Let_def)
      then show thesis
        using True bs le False d by (intro that [of bs]) auto
    next
      case rest: False
      have "length r \<le> 21" using bs(3) by simp
      then obtain c where c: "?enc r = (0, c)" "length c = 32"
        using rsa_fits_enc [OF fits] by blast
      have "rd p (21 * length bs) (unat n - 21 * length bs) = Some r"
        using n(1) len arg_cong [OF bs(1), of "drop (21 * length bs)"] length_concat_every [OF bs(2)]
        by (simp add: rd_def drop_take)
      moreover have "rsa_put ?enc r (word_of_nat (32 * length bs)) ?out =
          Some (0, cipher_text ?enc (bs @ [r]) @ drop (32 * length bs + 32) out)"
        using room d c small length_cipher_text [OF fits le] rsa_put_ok [of ?enc r c "word_of_nat (32 * length bs)" ?out]
        by (simp add: add.commute)
      ultimately have "SEC_EncryptTextByRsa A s out p n =
          Some (ZC_RET_OK, cipher_text ?enc (bs @ [r]) @ drop (32 * length bs + 32) out, word_of_nat (32 * length bs) + 32)"
        using False len loop rest c small
        by (simp add: SEC_EncryptTextByRsa_def rsa_encrypt_text_def store keys rsa_enc_of_def Let_def)
      then show thesis
        using bs le d by (intro that [of "bs @ [r]"]) (auto simp: add.commute)
    qed
  qed
qed

lemma SEC_DecryptTextByRsa_ok:
  assumes fits: "rsa_fits enc (rsa_dec_of A s)" and ok: "register_ok (g_struRegisterInfo s)"
    and bs: "bs \<noteq> []" "\<forall>b\<in>set bs. length b \<le> 21" "32 * length bs < 65536"
    and room: "length (concat bs) \<le> length out"
  shows "SEC_DecryptTextByRsa A s (cipher_text enc bs @ rest) out (word_of_nat (32 * length bs)) =
    Some (ZC_RET_OK, concat bs @ drop (length (concat bs)) out, word_of_nat (length (concat bs)))"
proof -
  let ?k = "u8PrivateKey (g_struRegisterInfo s)"
  have store: "ZC_GetStoreInfor ZC_GET_TYPE_PRIVATEKEY s = Some ?k"
    by (simp add: ZC_GetStoreInfor_def)
  note keys = rsa_keys(2) [OF ok store]
  have n: "unat (word_of_nat (32 * length bs) :: u16) = 32 * length bs"
    using bs(3) by (intro unat_of_nat_small) simp
  have small: "length (concat bs) < 65536"
  proof -
    have "length (concat bs) \<le> 21 * length bs"
      using bs(2) by (induction bs) auto
    then show ?thesis using bs(3) by simp
  qed
  show ?thesis
  proof (cases "length bs = 1")
    case True
    then obtain b where b: "bs = [b]"
      by (auto simp: length_Suc_conv)
    moreover obtain c where "enc b = (0, c)" "length c = 32" "rsa_dec_of A s c = (0, int (length b), b)"
      using rsa_fits_enc [OF fits, of b] bs(2) b by auto
    ultimately show ?thesis
      using room by (simp add: SEC_DecryptTextByRsa_def rsa_decrypt_text_def store keys rsa_dec_of_def Let_def rd_def rsa_get_ok)
  next
    case False
    with bs(1) have "32 < 32 * length bs"
      by (cases bs) auto
    moreover have "rsa_decrypt_loop (rsa_dec_of A s) (cipher_text enc bs @ rest) (32 * length bs) 0 0 0 out =
        Some (0, 32 * length bs, word_of_nat (length (concat bs)), concat bs @ drop (length (concat bs)) out)"
      using rsa_decrypt_loop_blocks [OF fits, of 0 "cipher_text enc bs @ rest" bs rest "32 * length bs" 0 out 0]
        bs room small by simp
    ultimately show ?thesis
      using n by (simp add: SEC_DecryptTextByRsa_def rsa_decrypt_text_def store keys rsa_dec_of_def Let_def del: length_concat)
  qed
qed

section \<open>Padding and AES\<close>

text \<open>The padding that \<^verbatim>\<open>SEC_PaddingCheck\<close> announces, on natural numbers.\<close>

lemma unat_mod_u16: "unat (n mod 16 :: u16) = unat n mod 16" "unat (n mod 32 :: u16) = unat n mod 32"
  by (simp_all add: unat_mod)

lemma SEC_PaddingCheck_aes:
  assumes "sec_flag s ty = ZC_SEC_ALG_AES"
  shows "fst (SEC_PaddingCheck s ty n) = ZC_RET_OK"
    "unat n + unat (snd (SEC_PaddingCheck s ty n)) = 16 * (unat n div 16) + 16"
proof -
  have "unat (16 - n mod 16 :: u16) = 16 - unat n mod 16"
    by (subst unat_sub) (auto simp: unat_mod_u16 word_le_nat_alt mod_le_divisor)
  then have "unat (snd (SEC_PaddingCheck s ty n)) = (if unat n mod 16 = 0 then 16 else 16 - unat n mod 16)"
    using assms by (simp add: SEC_PaddingCheck_def Let_def word_less_nat_alt unat_mod_u16)
  then show "unat n + unat (snd (SEC_PaddingCheck s ty n)) = 16 * (unat n div 16) + 16"
    by presburger
  show "fst (SEC_PaddingCheck s ty n) = ZC_RET_OK"
    using assms by (simp add: SEC_PaddingCheck_def Let_def)
qed

lemma sec_flag_cases:
  assumes "ty \<in> {ZC_SEC_ALG_NONE, ZC_SEC_ALG_RSA, ZC_SEC_ALG_AES}"
  obtains "sec_flag s ty = ZC_SEC_ALG_NONE" | "sec_flag s ty = ZC_SEC_ALG_RSA" | "sec_flag s ty = ZC_SEC_ALG_AES"
proof -
  have "sec_flag s ty \<in> {ZC_SEC_ALG_NONE, ZC_SEC_ALG_RSA, ZC_SEC_ALG_AES}"
    using assms by (auto simp: sec_flag_def Let_def)
  then show thesis using that by blast
qed

text \<open>AES with the session key, in the terms of the mode.\<close>

lemma SEC_Aes_roundtrip:
  assumes "u8keyRecv (con s) = PCT_KEY_RECVED" "length (u8SessionKey (con s)) = 16"
    and "length (IvSend (con s)) = 16" "IvRecv (con s) = IvSend (con s)"
    and "unat n \<le> length p" "unat n < 40000"
    and "16 * (unat n div 16) + 16 \<le> length out" "16 * (unat n div 16) + 16 \<le> length out'"
  obtains c q m where "SEC_AesEncrypt s out p n l = Some (ZC_RET_OK, c @ drop (length c) out, m)"
    "unat m = length c" "length c = 16 * (unat n div 16) + 16" "length q = length out' - unat n"
    "\<And>rest l'. SEC_AesDecrypt s (c @ rest) out' m l' = Some (ZC_RET_OK, take (unat n) p @ q, n)"
proof -
  have n: "unat (ucast n :: u32) = unat n" by simp
  have k: "length (rd_key key_object) = 60" by (simp add: key_object_def)
  obtain c q m where cm: "length c = 16 * (unat n div 16) + 16" "unat m = length c"
    "AES_CBC_Encrypt key_object p (ucast n) (u8SessionKey (con s)) 16 (IvSend (con s)) out = Some (c @ drop (length c) out, m)"
    "\<And>rest. AES_CBC_Decrypt key_object (c @ rest) m (u8SessionKey (con s)) 16 (IvSend (con s)) out' =
       Some (take (unat n) p @ q, ucast n)" "length q = length out' - unat n"
    by (rule AES_CBC_roundtrip_blocks [of 16 "u8SessionKey (con s)" key_object key_object "ucast n" p "IvSend (con s)" out out'])
      (use assms k n in simp_all)
  have m: "ucast (ucast m :: u16) = m" "unat (ucast m :: u16) = unat m"
  proof -
    have "unat m < 65536"
      using cm(1,2) assms(6) by simp
    then show "unat (ucast m :: u16) = unat m"
      by (simp add: unsigned_ucast_eq take_bit_nat_eq_self)
    then show "ucast (ucast m :: u16) = m"
      by (metis unat_ucast_up(3) word_unat_eq_iff)
  qed
  have "ucast (ucast n :: u32) = n"
    by (rule bit_word_eqI) (auto simp: bit_simps)
  then show thesis
    using assms(1,4) cm m by (intro that [of c "ucast m" q]) (simp_all add: SEC_AesEncrypt_def SEC_AesDecrypt_def)
qed

text \<open>What both directions need of the state: keys in place, the two initialisation vectors equal (both are
  the session key after the handshake) and an RSA library whose routines fit together.\<close>

definition sec_ready :: "'h PTC_ModuleAdapter \<Rightarrow> 'h zc \<Rightarrow> bool" where
  "sec_ready A s \<longleftrightarrow> config_ok (g_struZcConfigDb s) \<and> register_ok (g_struRegisterInfo s)
     \<and> rsa_fits (rsa_enc_of A s) (rsa_dec_of A s)
     \<and> u8keyRecv (con s) = PCT_KEY_RECVED \<and> length (u8SessionKey (con s)) = 16
     \<and> length (IvSend (con s)) = 16 \<and> IvRecv (con s) = IvSend (con s)"

text \<open>How long the cipher text of \<open>n\<close> bytes can get.\<close>

definition sec_room :: "u8 \<Rightarrow> nat \<Rightarrow> nat" where
  "sec_room f n = (if f = ZC_SEC_ALG_RSA then 32 * (n div 21) + 32
     else if f = ZC_SEC_ALG_AES then 16 * (n div 16) + 16 else n)"

lemma SEC_Encrypt_decryptable:
  assumes ready: "sec_ready A s" and ty: "u8SecType h \<in> {ZC_SEC_ALG_NONE, ZC_SEC_ALG_RSA, ZC_SEC_ALG_AES}"
    and n: "n = ZC_HTONS (u16TotalMsg h)" "unat n \<le> length p" "unat n < 30000"
    and room: "sec_room (sec_flag s (u8SecType h)) (unat n) \<le> length out"
      "sec_room (sec_flag s (u8SecType h)) (unat n) \<le> length out'"
  shows "\<exists>c m q. SEC_Encrypt A s h out p l = Some (ZC_RET_OK, c @ drop (length c) out, m) \<and> unat m = length c
    \<and> length c \<le> sec_room (sec_flag s (u8SecType h)) (unat n)
    \<and> (\<forall>h' rest l'. u8SecType h' = u8SecType h \<longrightarrow> ZC_HTONS (u16TotalMsg h') = m \<longrightarrow>
         SEC_Decrypt A s h' (c @ rest) out' l' = Some (ZC_RET_OK, take (unat n) p @ q, n))"
  using ty
proof (cases rule: sec_flag_cases [of _ s])
  case 1
  then show ?thesis
    using n room
    by (intro exI [of _ "take (unat n) p"] exI [of _ n] exI [of _ "drop (unat n) out'"])
      (auto simp: SEC_Encrypt_def SEC_Decrypt_def Let_def rd_Some wr_prefix sec_room_def)
next
  case 2
  from ready have fits: "rsa_fits (rsa_enc_of A s) (rsa_dec_of A s)" and cfg: "config_ok (g_struZcConfigDb s)"
    and reg: "register_ok (g_struRegisterInfo s)"
    by (auto simp: sec_ready_def)
  have lt: "unat n < 40000" and le: "32 * (unat n div 21) + 32 \<le> length out"
    using n(3) room(1) 2 by (auto simp: sec_room_def)
  obtain bs where bs: "concat bs = take (unat n) p" "\<forall>b\<in>set bs. length b \<le> 21" "bs \<noteq> []"
    "length bs \<le> unat n div 21 + 1"
    "SEC_EncryptTextByRsa A s out p n = Some (ZC_RET_OK, cipher_text (rsa_enc_of A s) bs @ drop (32 * length bs) out,
      word_of_nat (32 * length bs))"
    by (rule SEC_EncryptTextByRsa_ok [OF fits cfg n(2) lt le])
  have small: "32 * length bs < 65536"
    using bs(4) n(3) by simp
  then have m: "unat (word_of_nat (32 * length bs) :: u16) = 32 * length bs"
    by (intro unat_of_nat_small) simp
  have len: "length (concat bs) = unat n"
    using bs(1) n(2) by simp
  then have "SEC_DecryptTextByRsa A s (cipher_text (rsa_enc_of A s) bs @ rest) out' (word_of_nat (32 * length bs)) =
      Some (ZC_RET_OK, take (unat n) p @ drop (unat n) out', n)" for rest
    using SEC_DecryptTextByRsa_ok [OF fits reg bs(3,2) small, of out' rest] room(2) bs(1) 2
    by (simp add: sec_room_def)
  then show ?thesis
    using 2 bs(2,4,5) n(1) m length_cipher_text [OF fits bs(2)]
    by (intro exI [of _ "cipher_text (rsa_enc_of A s) bs"] exI [of _ "word_of_nat (32 * length bs)"]
        exI [of _ "drop (unat n) out'"]) (auto simp: SEC_Encrypt_def SEC_Decrypt_def Let_def sec_room_def)
next
  case 3
  obtain c q m where cm: "SEC_AesEncrypt s out p n l = Some (ZC_RET_OK, c @ drop (length c) out, m)" "unat m = length c"
    "\<And>rest l'. SEC_AesDecrypt s (c @ rest) out' m l' = Some (ZC_RET_OK, take (unat n) p @ q, n)"
    "length c = 16 * (unat n div 16) + 16"
    by (rule SEC_Aes_roundtrip [of s n p out out' l]) (use ready n room 3 in \<open>auto simp: sec_ready_def sec_room_def\<close>)
  then show ?thesis
    using 3 n(1) by (intro exI [of _ c] exI [of _ m] exI [of _ q])
      (auto simp: SEC_Encrypt_def SEC_Decrypt_def Let_def sec_room_def)
qed

section \<open>What a call that returns has written\<close>

text \<open>The RSA library writes a block as long as the modulus when it succeeds.\<close>

definition rsa_writes :: "'h PTC_ModuleAdapter \<Rightarrow> bool" where
  "rsa_writes A \<longleftrightarrow> (\<forall>N E b c. rsa_pkcs1_encrypt A N E b = (0, c) \<longrightarrow> length c = 32)"

abbreviation writes32 :: "(u8 list \<Rightarrow> int \<times> u8 list) \<Rightarrow> bool" where
  "writes32 enc \<equiv> \<forall>b c. enc b = (0, c) \<longrightarrow> length c = 32"

lemma rsa_put_lengths:
  assumes "rsa_put enc b off out = Some (ret, out')"
  shows "length out' = length out
    \<and> (writes32 enc \<longrightarrow> ret = 0 \<longrightarrow> length out < 65536 \<longrightarrow> unat (off + 32) \<le> length out)"
proof -
  from assms obtain c where c: "enc b = (ret, c)" "wr out (unat off) c = Some out'"
    by (auto simp: rsa_put_def bind_Some_iff split_beta Let_def prod_eq_iff)
  have "unat (off + 32) \<le> length out" if "writes32 enc" "ret = 0" "length out < 65536"
  proof -
    have "unat off + 32 \<le> length out"
      using that c by (auto simp: wr_eq_Some)
    with that(3) show ?thesis
      by (subst unat_add_small) auto
  qed
  with c show ?thesis
    by (simp add: length_wr)
qed

lemma rsa_get_length: "rsa_get dec c off out = Some (ret, n, out') \<Longrightarrow> length out' = length out"
  by (auto simp: rsa_get_def bind_Some_iff split_beta Let_def dest: length_wr)

lemma rsa_encrypt_loop_lengths:
  "rsa_encrypt_loop enc p len ret rdlen clen out = Some (ret', rdlen', clen', out')
    \<Longrightarrow> length out' = length out
      \<and> (writes32 enc \<longrightarrow> length out < 65536 \<longrightarrow> unat clen \<le> length out \<longrightarrow> unat clen' \<le> length out)"
proof (induction "len - rdlen" arbitrary: ret rdlen clen out rule: less_induct)
  case less
  show ?case
  proof (cases "rdlen + 21 \<le> len")
    case True
    then have "rsa_encrypt_loop enc p len ret rdlen clen out = do {
        b \<leftarrow> rd p rdlen 21;
        (ret, out) \<leftarrow> rsa_put enc b clen out;
        if ret \<noteq> 0 then Some (ret, rdlen, clen, out)
        else rsa_encrypt_loop enc p len ret (rdlen + (32 - 11)) (clen + 32) out}"
      by (subst rsa_encrypt_loop.simps) simp
    with less.prems obtain b r o' where put: "rsa_put enc b clen out = Some (r, o')"
      and rest: "r \<noteq> 0 \<and> (ret', rdlen', clen', out') = (r, rdlen, clen, o')
        \<or> r = 0 \<and> rsa_encrypt_loop enc p len r (rdlen + 21) (clen + 32) o' = Some (ret', rdlen', clen', out')"
      by (auto simp: bind_Some_iff split: if_splits)
    show ?thesis
      using less.hyps [of "rdlen + 21" r "clen + 32" o'] rest True rsa_put_lengths [OF put] by auto
  next
    case False
    then show ?thesis
      using less.prems by (subst (asm) rsa_encrypt_loop.simps) auto
  qed
qed

lemma rsa_decrypt_loop_length:
  "rsa_decrypt_loop dec p len ret rdlen plen out = Some (ret', rdlen', plen', out') \<Longrightarrow> length out' = length out"
proof (induction "len - rdlen" arbitrary: ret rdlen plen out rule: less_induct)
  case less
  show ?case
  proof (cases "rdlen + 32 \<le> len")
    case True
    then have "rsa_decrypt_loop dec p len ret rdlen plen out = do {
        c \<leftarrow> rd p rdlen 32;
        (ret, n, out) \<leftarrow> rsa_get dec c plen out;
        if ret \<noteq> 0 then Some (ret, rdlen, plen, out)
        else rsa_decrypt_loop dec p len ret (rdlen + 32) (plen + word_of_int n) out}"
      by (subst rsa_decrypt_loop.simps) simp
    with less.prems obtain c r n o' where put: "rsa_get dec c plen out = Some (r, n, o')"
      and rest: "r \<noteq> 0 \<and> (ret', rdlen', plen', out') = (r, rdlen, plen, o')
        \<or> r = 0 \<and> rsa_decrypt_loop dec p len r (rdlen + 32) (plen + word_of_int n) o' = Some (ret', rdlen', plen', out')"
      by (auto simp: bind_Some_iff split: if_splits)
    show ?thesis
      using less.hyps [of "rdlen + 32" r "plen + word_of_int n" o'] rest True rsa_get_length [OF put] by auto
  next
    case False
    then show ?thesis
      using less.prems by (subst (asm) rsa_decrypt_loop.simps) auto
  qed
qed

lemma rsa_encrypt_text_lengths:
  assumes "rsa_encrypt_text enc p len out = Some (ret, out', m)"
  shows "length out' = length out"
    and "writes32 enc \<Longrightarrow> ret = 0 \<Longrightarrow> length out < 65536 \<Longrightarrow> unat m \<le> length out"
  using assms unfolding rsa_encrypt_text_def
  by (auto simp: bind_Some_iff split: if_splits dest!: rsa_encrypt_loop_lengths rsa_put_lengths)

lemma rsa_decrypt_text_length: "rsa_decrypt_text dec p len out = Some (ret, out', m) \<Longrightarrow> length out' = length out"
  unfolding rsa_decrypt_text_def
  by (auto simp: bind_Some_iff split: if_splits dest!: rsa_decrypt_loop_length rsa_get_length)

lemma SEC_Encrypt_lengths:
  assumes "SEC_Encrypt A s h out p l = Some (r, out', n)"
  shows "length out' = length out"
    and "rsa_writes A \<Longrightarrow> r \<noteq> ZC_RET_ERROR \<Longrightarrow> length out < 65536 \<Longrightarrow> unat n \<le> length out"
proof -
  define f where "f = sec_flag s (u8SecType h)"
  define t where "t = ZC_HTONS (u16TotalMsg h)"
  have aes: "unat m = 16 * (unat t div 16) + 16 \<and> length ob' = length ob \<and> unat m \<le> length ob"
    if "AES_CBC_Encrypt k p (ucast t) uk 16 iv ob = Some (ob', m)" for k uk iv ob ob' m
    using AES_CBC_Encrypt_lengths [OF that] unat_16 [of t] by simp
  show "length out' = length out"
    using assms unfolding SEC_Encrypt_def Let_def f_def [symmetric] t_def [symmetric]
    by (auto simp: bind_Some_iff SEC_EncryptTextByRsa_def SEC_AesEncrypt_def split: if_splits
        dest: length_wr rsa_encrypt_text_lengths aes)
  assume *: "rsa_writes A" "r \<noteq> ZC_RET_ERROR" "length out < 65536"
  then have w: "writes32 (rsa_pkcs1_encrypt A N E)" for N E
    by (simp add: rsa_writes_def)
  have u: "unat (ucast m :: u16) \<le> unat (m :: u32)" for m
    by (simp add: unsigned_ucast_eq take_bit_nat_less_eq_self)
  show "unat n \<le> length out"
    using assms * unfolding SEC_Encrypt_def Let_def f_def [symmetric] t_def [symmetric]
    by (auto simp: bind_Some_iff SEC_EncryptTextByRsa_def SEC_AesEncrypt_def wr_eq_Some rd_eq_Some split: if_splits
        dest: rsa_encrypt_text_lengths(2) [OF _ w] aes intro: le_trans [OF u])
qed

lemma SEC_Decrypt_length:
  "SEC_Decrypt A s h c out l = Some (r, out', n) \<Longrightarrow> length out' = length out"
  unfolding SEC_Decrypt_def Let_def
  by (auto simp: bind_Some_iff SEC_DecryptTextByRsa_def SEC_AesDecrypt_def split: if_splits
      dest: length_wr rsa_decrypt_text_length AES_CBC_Decrypt_length)

section \<open>Properties\<close>

text \<open>C4: For every algorithm and every setting of the security switch, what \<^verbatim>\<open>SEC_Encrypt\<close> produces,
  \<^verbatim>\<open>SEC_Decrypt\<close> of a head with the produced length turns back into the plain text with its exact
  length: in the clear, with AES under the session key, and with RSA block by block, provided the RSA
  library's routines are inverse to each other on the keys in use.\<close>

theorem SEC_roundtrip:
  assumes "sec_ready A s" "u8SecType h \<in> {ZC_SEC_ALG_NONE, ZC_SEC_ALG_RSA, ZC_SEC_ALG_AES}"
    and "n = ZC_HTONS (u16TotalMsg h)" "unat n \<le> length p" "unat n < 30000"
    and "sec_room (sec_flag s (u8SecType h)) (unat n) \<le> length out"
    and "sec_room (sec_flag s (u8SecType h)) (unat n) \<le> length out'"
  shows "\<exists>c m q. SEC_Encrypt A s h out p l = Some (ZC_RET_OK, c @ drop (length c) out, m) \<and> unat m = length c
    \<and> SEC_Decrypt A s (h\<lparr>u16TotalMsg := ZC_HTONS m\<rparr>) (c @ rest) out' l' = Some (ZC_RET_OK, take (unat n) p @ q, n)"
  using SEC_Encrypt_decryptable [OF assms, of l] by (simp add: ZC_HTONS_involution) fastforce

lemma quiet_adapter_rsa: "rsa_fits (rsa_enc_of quiet_adapter s) (rsa_dec_of quiet_adapter s)"
proof -
  have "unat (word_of_nat (length b) :: u8) = length b \<and> uint (word_of_nat (length b) :: u8) = int (length b)"
    if "length (b :: u8 list) \<le> 21" for b
    using that by (simp add: unsigned_of_nat take_bit_nat_eq_self)
  then show ?thesis
    by (simp add: rsa_fits_def rsa_block_def rsa_enc_of_def rsa_dec_of_def quiet_adapter_def Let_def)
qed

theorem SEC_roundtrip_witness:
  "let s = con_update (u8keyRecv_update (\<lambda>_. PCT_KEY_RECVED))
         (ZC_ConfigInitPara (zc_start (\<lambda>_. 0) ()));
       h = \<lparr>u16TotalMsg = ZC_HTONS 30, u8SecType = ZC_SEC_ALG_RSA, u8Resver = 0\<rparr>
   in \<exists>c m q. SEC_Encrypt quiet_adapter s h (replicate 100 0) (replicate 30 9) 0
           = Some (ZC_RET_OK, c @ drop (length c) (replicate 100 0), m)
        \<and> SEC_Decrypt quiet_adapter s (h\<lparr>u16TotalMsg := ZC_HTONS m\<rparr>) (c @ []) (replicate 100 1) 0
           = Some (ZC_RET_OK, replicate 30 9 @ q, 30)"
proof -
  let ?s = "con_update (u8keyRecv_update (\<lambda>_. PCT_KEY_RECVED)) (ZC_ConfigInitPara (zc_start (\<lambda>_. 0) ()))"
  have "config_ok (g_struZcConfigDb ?s)"
    using config_ok_init [of "zc_start (\<lambda>_. 0) ()"] by (simp add: config_ok_def zc_start_def zero_config_def)
  then have "sec_ready quiet_adapter ?s"
    using quiet_adapter_rsa [of ?s]
    by (simp add: sec_ready_def register_ok_def ZC_ConfigInitPara_def Let_def zc_start_def zero_con_def
        config_update_def)
  moreover have "sec_flag ?s ZC_SEC_ALG_RSA = ZC_SEC_ALG_RSA"
    by (simp add: sec_flag_def ZC_ConfigInitPara_def Let_def config_update_def)
  ultimately show ?thesis
    using SEC_roundtrip [of quiet_adapter ?s "\<lparr>u16TotalMsg = ZC_HTONS 30, u8SecType = ZC_SEC_ALG_RSA, u8Resver = 0\<rparr>"
        30 "replicate 30 9" "replicate 100 0" "replicate 100 1" 0 "[]" 0]
    by (auto simp: Let_def sec_room_def)
qed

end
