(* ===== verification/Timer.thy ===== *)
theory Timer
  imports ZcState
begin

text \<open>
  The timer table of \<^verbatim>\<open>zc_timer.c\<close>.  \<^verbatim>\<open>TIMER_TimeoutAction\<close>, which calls into the protocol controller,
  is in the theory \<open>Controller\<close>.
\<close>

section \<open>The code\<close>

text \<open>An array element written with its bound.\<close>

definition wr1 :: "'b list \<Rightarrow> nat \<Rightarrow> 'b \<Rightarrow> 'b list option" where
  "wr1 b i x = (if i < length b then Some (b[i := x]) else None)"

definition TIMER_Init :: "'h zc \<Rightarrow> 'h zc" where
  "TIMER_Init s = s\<lparr>g_struTimer := map (\<lambda>t. t\<lparr>u8TimerStatus := ZC_TIMER_STATUS_IDLE\<rparr>) (g_struTimer s)\<rparr>"

text \<open>The result and what is stored through \<^verbatim>\<open>pu8TimerIndex\<close>; \<open>k\<close> turns of the loop remain.\<close>

fun TIMER_FindIdleTimer_loop :: "nat \<Rightarrow> nat \<Rightarrow> ZC_Timer list \<Rightarrow> (u32 \<times> u8 option) option" where
  "TIMER_FindIdleTimer_loop 0 i ts = Some (ZC_RET_ERROR, None)"
| "TIMER_FindIdleTimer_loop (Suc k) i ts = do {
     t \<leftarrow> rd1 ts i;
     if u8TimerStatus t = ZC_TIMER_STATUS_IDLE then Some (ZC_RET_OK, Some (word_of_nat i))
     else TIMER_FindIdleTimer_loop k (Suc i) ts
   }"

definition TIMER_FindIdleTimer :: "'h zc \<Rightarrow> (u32 \<times> u8 option) option" where
  "TIMER_FindIdleTimer s = TIMER_FindIdleTimer_loop ZC_TIMER_MAX_NUM 0 (g_struTimer s)"

definition TIMER_AllocateTimer :: "u8 \<Rightarrow> u8 \<Rightarrow> nat option \<Rightarrow> 'h zc \<Rightarrow> 'h zc option" where
  "TIMER_AllocateTimer ty i p s = do {
     ts \<leftarrow> wr1 (g_struTimer s) (unat i) \<lparr>u8TimerStatus = ZC_TIMER_STATUS_USED, u8Type = ty, pu8Timer = p\<rparr>;
     Some (s\<lparr>g_struTimer := ts\<rparr>)
   }"

definition TIMER_GetTimerStatus :: "u8 \<Rightarrow> 'h zc \<Rightarrow> u8 option" where
  "TIMER_GetTimerStatus i s = map_option u8TimerStatus (rd1 (g_struTimer s) (unat i))"

definition TIMER_StopTimer :: "'h PTC_ModuleAdapter \<Rightarrow> u8 \<Rightarrow> 'h zc \<Rightarrow> 'h zc option" where
  "TIMER_StopTimer A i s = do {
     t \<leftarrow> rd1 (g_struTimer s) (unat i);
     ts \<leftarrow> wr1 (g_struTimer s) (unat i) (t\<lparr>u8TimerStatus := ZC_TIMER_STATUS_IDLE\<rparr>);
     pfunStopTimer A i (s\<lparr>g_struTimer := ts\<rparr>)
   }"

section \<open>Lemmas\<close>

lemma wr1_eq_Some: "wr1 b i x = Some b' \<longleftrightarrow> i < length b \<and> b' = b[i := x]"
  by (auto simp: wr1_def)

lemma rd1_eq_Some: "rd1 b i = Some x \<longleftrightarrow> i < length b \<and> x = b ! i"
  by (auto simp: rd1_def)

abbreviation idle_timer :: "ZC_Timer \<Rightarrow> bool" where
  "idle_timer t \<equiv> u8TimerStatus t = ZC_TIMER_STATUS_IDLE"

lemma TIMER_FindIdleTimer_loop_find:
  assumes "i + k \<le> length ts" "i + k \<le> 256"
  shows "TIMER_FindIdleTimer_loop k i ts =
    (case find (\<lambda>j. idle_timer (ts ! j)) [i..<i + k] of
       None \<Rightarrow> Some (ZC_RET_ERROR, None)
     | Some j \<Rightarrow> Some (ZC_RET_OK, Some (word_of_nat j)))"
  using assms
proof (induction k arbitrary: i)
  case (Suc k)
  have "[i..<i + Suc k] = i # [Suc i..<Suc i + k]"
    by (simp add: upt_conv_Cons)
  with Suc show ?case by (simp add: rd1_def)
qed simp

text \<open>The least idle timer, if there is one.\<close>

lemma TIMER_FindIdleTimer_spec:
  assumes "length (g_struTimer s) = 10"
  shows "TIMER_FindIdleTimer s =
    (if \<exists>j<10. idle_timer (g_struTimer s ! j)
     then Some (ZC_RET_OK, Some (word_of_nat (LEAST j. j < 10 \<and> idle_timer (g_struTimer s ! j))))
     else Some (ZC_RET_ERROR, None))"
proof (cases "find (\<lambda>j. idle_timer (g_struTimer s ! j)) [0..<10]")
  case None
  then have "\<not> (\<exists>j<10. idle_timer (g_struTimer s ! j))"
    by (auto simp: find_None_iff)
  moreover have "TIMER_FindIdleTimer s = Some (ZC_RET_ERROR, None)"
    using TIMER_FindIdleTimer_loop_find [of 0 10 "g_struTimer s"] assms None
    by (simp add: TIMER_FindIdleTimer_def)
  ultimately show ?thesis by simp
next
  case (Some j)
  then have j: "j < 10" "idle_timer (g_struTimer s ! j)" "\<forall>k<j. \<not> idle_timer (g_struTimer s ! k)"
    by (auto simp: find_Some_iff)
  then have "(LEAST j. j < 10 \<and> idle_timer (g_struTimer s ! j)) = j"
    by (intro Least_equality) (auto simp: not_le [symmetric])
  moreover have "TIMER_FindIdleTimer s = Some (ZC_RET_OK, Some (word_of_nat j))"
    using TIMER_FindIdleTimer_loop_find [of 0 10 "g_struTimer s"] assms Some
    by (simp add: TIMER_FindIdleTimer_def)
  ultimately show ?thesis using j(1,2) by auto
qed

end
