(* ===== verification/Adapter.thy ===== *)
theory Adapter
  imports SecEngine Timer
begin

text \<open>
  The contract between the protocol core and the platform: what the functions of
  \<^verbatim>\<open>PTC_ModuleAdapter\<close> may change.  Sending, stopping a timer, writing the flash and updating the
  firmware touch only the platform's own state; \<^verbatim>\<open>pfunSetTimer\<close> takes an idle entry of the timer table;
  connecting and listening set the sockets.  The theory \<open>HfAdapter\<close> shows it of the \<^verbatim>\<open>HF_\<close> functions.
\<close>

definition same_but_platform :: "'h zc \<Rightarrow> 'h zc \<Rightarrow> bool" where
  "same_but_platform s s' \<longleftrightarrow> (\<exists>h. s' = s\<lparr>platform := h\<rparr>)"

text \<open>A timer was started in entry \<open>j\<close>, which was idle.\<close>

definition timer_started :: "u8 \<Rightarrow> nat \<Rightarrow> 'h zc \<Rightarrow> 'h zc \<Rightarrow> bool" where
  "timer_started ty j s s' \<longleftrightarrow> j < 10 \<and> j < length (g_struTimer s) \<and> idle_timer (g_struTimer s ! j)
     \<and> (\<exists>h p. s' = s\<lparr>platform := h, g_struTimer := (g_struTimer s)[j :=
          \<lparr>u8TimerStatus = ZC_TIMER_STATUS_USED, u8Type = ty, pu8Timer = p\<rparr>]\<rparr>)"

locale module_adapter =
  fixes A :: "'h PTC_ModuleAdapter"
  assumes send_tcp: "pfunSendTcpData A fd d n p s = Some s' \<Longrightarrow> same_but_platform s s'"
    and send_udp: "pfunSendUdpData A fd d n p s = Some s' \<Longrightarrow> same_but_platform s s'"
    and update: "pfunUpdate A d off m s = Some (s', r) \<Longrightarrow> same_but_platform s s'"
    and update_finish: "pfunUpdateFinish A m s = Some (s', r) \<Longrightarrow> same_but_platform s s'"
    and send_moudle: "pfunSendToMoudle A d n s = Some (s', r) \<Longrightarrow> same_but_platform s s'"
    and rest: "pfunRest A s = Some s' \<Longrightarrow> same_but_platform s s'"
    and stop_timer: "pfunStopTimer A i s = Some s' \<Longrightarrow> same_but_platform s s'"
    and write_flash: "pfunWriteFlash A d n s = Some s' \<Longrightarrow> same_but_platform s s'"
    and set_timer_cases: "pfunSetTimer A ty iv s = Some (s', r, ix) \<Longrightarrow>
      (\<exists>j. r = ZC_RET_OK \<and> ix = Some (word_of_nat j) \<and> timer_started ty j s s')
      \<or> r = ZC_RET_ERROR \<and> ix = None \<and> same_but_platform s s'"
    and connect_cloud: "pfunConnectToCloud A s = Some (s', r) \<Longrightarrow> length (RandMsg (con s)) = 32 \<Longrightarrow>
      \<exists>h sock times rand cfg. length rand = 32 \<and> s' = s\<lparr>platform := h,
        g_struProtocolController := (con s)\<lparr>struCloudConnection :=
            (struCloudConnection (con s))\<lparr>u32Socket := sock, u32ConnectionTimes := times\<rparr>,
          RandMsg := rand\<rparr>,
        g_struZcConfigDb := (g_struZcConfigDb s)\<lparr>struSwitchInfo :=
          (struSwitchInfo (g_struZcConfigDb s))\<lparr>u32ServerAddrConfig := cfg\<rparr>\<rparr>\<rparr>"
    and listen_client: "pfunListenClient A s = Some (s', r) \<Longrightarrow>
      \<exists>h sock. s' = s\<lparr>platform := h,
        g_struProtocolController := (con s)\<lparr>struClientConnection :=
          (struClientConnection (con s))\<lparr>u32Socket := sock\<rparr>\<rparr>\<rparr>"

lemma same_but_platformE:
  assumes "same_but_platform s s'"
  obtains h where "s' = s\<lparr>platform := h\<rparr>"
  using assms by (auto simp: same_but_platform_def)

lemma same_but_platform_refl [simp]: "same_but_platform s s"
  unfolding same_but_platform_def by (rule exI [of _ "platform s"]) simp

lemma same_but_platform_platform [simp]: "same_but_platform s (s\<lparr>platform := h\<rparr>)"
  by (auto simp: same_but_platform_def)

lemma same_but_platform_trans [trans]:
  "same_but_platform s s' \<Longrightarrow> same_but_platform s' s'' \<Longrightarrow> same_but_platform s s''"
  by (auto simp: same_but_platform_def)

end
