(* ===== verification/CloudLink.thy ===== *)
theory CloudLink
  imports Adapter
begin

text \<open>
  The way of a message to the cloud and from it: \<^verbatim>\<open>PCT_SendMsgToCloud\<close> encrypts into an idle send
  buffer and queues it, \<^verbatim>\<open>MSG_SendDataToCloud\<close> sends the oldest one, and \<^verbatim>\<open>MSG_RecvDataFromCloud\<close>
  reassembles, decrypts and queues what arrives.  The invariant \<open>send_inv\<close> ties the send buffers to the
  send queue.
\<close>

section \<open>The code\<close>

text \<open>The body of the loop for the idle send buffer \<open>i\<close>, which is \<open>b\<close>.\<close>

definition fill_send_buffer ::
  "'h PTC_ModuleAdapter \<Rightarrow> ZC_SecHead \<Rightarrow> u8 list \<Rightarrow> u16 \<Rightarrow> nat \<Rightarrow> MSG_Buffer \<Rightarrow> 'h zc \<Rightarrow> ('h zc \<times> u32) option" where
  "fill_send_buffer A h pu8PlainData pad i b s = do {
     (r, out, n) \<leftarrow> SEC_Encrypt A s h (drop 4 (u8MsgBuffer b)) pu8PlainData (ZC_HTONS (u16TotalMsg h) + pad);
     let b = b\<lparr>u8MsgBuffer := take 4 (u8MsgBuffer b) @ out\<rparr>;
     if r = ZC_RET_ERROR then Some (s\<lparr>g_struSendBuffer := (g_struSendBuffer s)[i := b]\<rparr>, ZC_RET_ERROR)
     else do {
       m \<leftarrow> wr (u8MsgBuffer b) 0 (put_SecHead (h\<lparr>u16TotalMsg := ZC_HTONS n\<rparr>));
       let b = b\<lparr>u8MsgBuffer := m, u32Len := ucast n + 4, u8Status := MSG_BUFFER_FULL\<rparr>;
       (q, r) \<leftarrow> MSG_PushMsg (g_struSendQueue s) (Some (SendBuffer i));
       Some (s\<lparr>g_struSendBuffer := (g_struSendBuffer s)[i := b], g_struSendQueue := q\<rparr>, ZC_RET_OK)
     }
   }"

fun PCT_SendMsgToCloud_loop ::
  "nat \<Rightarrow> nat \<Rightarrow> 'h PTC_ModuleAdapter \<Rightarrow> ZC_SecHead \<Rightarrow> u8 list \<Rightarrow> u16 \<Rightarrow> 'h zc \<Rightarrow> ('h zc \<times> u32) option" where
  "PCT_SendMsgToCloud_loop 0 i A h pu8PlainData pad s = Some (s, ZC_RET_ERROR)"
| "PCT_SendMsgToCloud_loop (Suc k) i A h pu8PlainData pad s = do {
     b \<leftarrow> rd1 (g_struSendBuffer s) i;
     if u8Status b = MSG_BUFFER_IDLE then fill_send_buffer A h pu8PlainData pad i b s
     else PCT_SendMsgToCloud_loop k (Suc i) A h pu8PlainData pad s
   }"

definition PCT_SendMsgToCloud ::
  "'h PTC_ModuleAdapter \<Rightarrow> ZC_SecHead \<Rightarrow> u8 list \<Rightarrow> 'h zc \<Rightarrow> ('h zc \<times> u32) option" where
  "PCT_SendMsgToCloud A h pu8PlainData s =
     (let (r, pad) = SEC_PaddingCheck s (u8SecType h) (ZC_HTONS (u16TotalMsg h))
      in if r = ZC_RET_ERROR then Some (s, ZC_RET_ERROR)
         else if ZC_HTONS (u16TotalMsg h) + 4 + pad > 600 then Some (s, ZC_RET_ERROR)
         else PCT_SendMsgToCloud_loop MSG_BUFFER_SEND_MAX_NUM 0 A h pu8PlainData pad s)"

definition MSG_SendDataToCloud :: "'h PTC_ModuleAdapter \<Rightarrow> u32 \<Rightarrow> 'h zc \<Rightarrow> 'h zc option" where
  "MSG_SendDataToCloud A sock s = do {
     (q, m) \<leftarrow> MSG_PopMsg (g_struSendQueue s);
     let s = s\<lparr>g_struSendQueue := q\<rparr>;
     case m of
       None \<Rightarrow> Some s
     | Some r \<Rightarrow> do {
         b \<leftarrow> get_buffer r s;
         s \<leftarrow> pfunSendTcpData A sock (u8MsgBuffer b) (ucast (u32Len b)) \<lparr>u8NeedPoll = 0, pu8AddrPara = None\<rparr> s;
         release r s
       }
   }"

text \<open>The finished frame is decrypted and copied back.  \<^verbatim>\<open>u16PlainLen\<close> is indeterminate until
  \<^verbatim>\<open>SEC_Decrypt\<close> stores into it, which it does not when it fails.\<close>

definition accept_frame :: "'h PTC_ModuleAdapter \<Rightarrow> MSG_Buffer \<Rightarrow> 'h zc \<Rightarrow> 'h zc option" where
  "accept_frame A b s = do {
     let (x, s) = indet 2 s;
     (r, build, n) \<leftarrow> SEC_Decrypt A s (get_SecHead (u8MsgBuffer b)) (drop 4 (u8MsgBuffer b)) (g_u8MsgBuildBuffer s) (le16 x);
     d \<leftarrow> rd build 0 (unat n);
     m \<leftarrow> wr (u8MsgBuffer b) 0 d;
     let s = s\<lparr>g_u8MsgBuildBuffer := build, g_struRecvBuffer := b\<lparr>u8MsgBuffer := m, u32Len := ucast n\<rparr>\<rparr>;
     if r = ZC_RET_OK then do {
       (q, r) \<leftarrow> MSG_PushMsg (g_struRecvQueue s) (Some RecvBuffer);
       Some (s\<lparr>g_struRecvQueue := q\<rparr>)
     } else Some s
   }"

definition MSG_RecvDataFromCloud :: "'h PTC_ModuleAdapter \<Rightarrow> u8 list \<Rightarrow> u32 \<Rightarrow> 'h zc \<Rightarrow> 'h zc option" where
  "MSG_RecvDataFromCloud A pu8Data u32DataLen s = do {
     (b, r) \<leftarrow> MSG_RecvData (g_struRecvBuffer s) pu8Data u32DataLen;
     let s = s\<lparr>g_struRecvBuffer := b\<rparr>;
     if r = ZC_RET_OK \<and> u8Status b = MSG_BUFFER_FULL then accept_frame A b s else Some s
   }"

section \<open>The send buffers and the send queue\<close>

text \<open>
  A send buffer is idle or full; the full ones are exactly those the queue holds, each once; and a full
  buffer holds one frame, as long as its head says.
\<close>

definition frame_ok :: "MSG_Buffer \<Rightarrow> bool" where
  "frame_ok b \<longleftrightarrow> frame_len (u8MsgBuffer b) = unat (u32Len b) \<and> unat (u32Len b) \<le> 600"

definition send_ok :: "MSG_Buffer list \<Rightarrow> buffer_ref MSG_Queue \<Rightarrow> bool" where
  "send_ok bs q \<longleftrightarrow> length bs = 3
     \<and> (\<forall>i<3. length (u8MsgBuffer (bs ! i)) = 600
          \<and> (u8Status (bs ! i) = MSG_BUFFER_IDLE \<or> u8Status (bs ! i) = MSG_BUFFER_FULL \<and> frame_ok (bs ! i)))
     \<and> ring_inv q \<and> distinct (ring_contents q)
     \<and> set (ring_contents q) = {Some (SendBuffer i) | i. i < 3 \<and> u8Status (bs ! i) = MSG_BUFFER_FULL}"

abbreviation send_inv :: "'h zc \<Rightarrow> bool" where
  "send_inv s \<equiv> send_ok (g_struSendBuffer s) (g_struSendQueue s)"

lemma send_inv_bufferD:
  assumes "send_inv s" "i < 3"
  shows "length (u8MsgBuffer (g_struSendBuffer s ! i)) = 600" "length (g_struSendBuffer s) = 3"
    "ring_inv (g_struSendQueue s)"
  using assms by (auto simp: send_ok_def)

text \<open>An idle buffer leaves room in the queue.\<close>

lemma send_inv_room:
  assumes inv: "send_inv s" and i: "i < 3" "u8Status (g_struSendBuffer s ! i) = MSG_BUFFER_IDLE"
  shows "length (ring_contents (g_struSendQueue s)) < 3"
    "Some (SendBuffer i) \<notin> set (ring_contents (g_struSendQueue s))"
proof -
  let ?all = "(\<lambda>j. Some (SendBuffer j)) ` {..<3}"
  show notin: "Some (SendBuffer i) \<notin> set (ring_contents (g_struSendQueue s))"
    using assms by (auto simp: send_ok_def)
  have "set (ring_contents (g_struSendQueue s)) \<subseteq> ?all - {Some (SendBuffer i)}"
    using inv notin by (auto simp: send_ok_def)
  then have "card (set (ring_contents (g_struSendQueue s))) \<le> card (?all - {Some (SendBuffer i)})"
    by (intro card_mono) auto
  also have "\<dots> < card ?all"
    using i(1) by (intro card_Diff1_less) auto
  also have "\<dots> \<le> 3"
    using card_image_le [of "{..<3}" "\<lambda>j. Some (SendBuffer j)"] by simp
  finally have "card (set (ring_contents (g_struSendQueue s))) < 3" .
  moreover have "distinct (ring_contents (g_struSendQueue s))"
    using inv by (simp add: send_ok_def)
  ultimately show "length (ring_contents (g_struSendQueue s)) < 3"
    using distinct_card by metis
qed

text \<open>Changing a buffer that stays idle, and filling one.\<close>

lemma send_inv_idle_buffer:
  assumes "send_inv s" "u8Status (g_struSendBuffer s ! i) = MSG_BUFFER_IDLE" "u8Status b = MSG_BUFFER_IDLE"
    "length (u8MsgBuffer b) = 600" "i < 3"
  shows "send_inv (s\<lparr>g_struSendBuffer := (g_struSendBuffer s)[i := b]\<rparr>)"
proof -
  have "\<And>j. u8Status ((g_struSendBuffer s)[i := b] ! j) = MSG_BUFFER_FULL
      \<longleftrightarrow> u8Status (g_struSendBuffer s ! j) = MSG_BUFFER_FULL"
    using assms by (auto simp: nth_list_update send_ok_def)
  with assms show ?thesis
    by (auto simp: send_ok_def nth_list_update)
qed

lemma send_inv_full_buffer:
  assumes inv: "send_inv s" and i: "u8Status (g_struSendBuffer s ! i) = MSG_BUFFER_IDLE" "i < 3"
    and b: "u8Status b = MSG_BUFFER_FULL" "length (u8MsgBuffer b) = 600" "frame_ok b"
    and push: "MSG_PushMsg (g_struSendQueue s) (Some (SendBuffer i)) = Some (q, r)"
  shows "r = ZC_RET_OK" "ring_contents q = ring_contents (g_struSendQueue s) @ [Some (SendBuffer i)]"
    "send_inv (s\<lparr>g_struSendBuffer := (g_struSendBuffer s)[i := b], g_struSendQueue := q\<rparr>)"
proof -
  note room = send_inv_room [OF inv i(2,1)]
  have ring: "ring_inv (g_struSendQueue s)"
    using inv by (simp add: send_ok_def)
  show r: "r = ZC_RET_OK" and q: "ring_contents q = ring_contents (g_struSendQueue s) @ [Some (SendBuffer i)]"
    using msgq.push_cases [OF ring push] room(1) by auto
  have "ring_inv q"
    using msgq.push_cases [OF ring push] room(1) by auto
  moreover have "{Some (SendBuffer j) | j. j < 3 \<and> u8Status ((g_struSendBuffer s)[i := b] ! j) = MSG_BUFFER_FULL}
      = insert (Some (SendBuffer i)) {Some (SendBuffer j) | j. j < 3 \<and> u8Status (g_struSendBuffer s ! j) = MSG_BUFFER_FULL}"
    using inv i b by (auto simp: send_ok_def nth_list_update)
  ultimately show "send_inv (s\<lparr>g_struSendBuffer := (g_struSendBuffer s)[i := b], g_struSendQueue := q\<rparr>)"
    using inv i b q room(2) by (auto simp: send_ok_def nth_list_update)
qed

text \<open>What waits to be sent: the frames of the queued buffers, oldest first.\<close>

definition frame_of :: "MSG_Buffer list \<Rightarrow> buffer_ref option \<Rightarrow> u8 list" where
  "frame_of bs r = (case r of Some (SendBuffer i) \<Rightarrow> take (unat (u32Len (bs ! i))) (u8MsgBuffer (bs ! i)) | _ \<Rightarrow> [])"

definition outbox :: "'h zc \<Rightarrow> u8 list list" where
  "outbox s = map (frame_of (g_struSendBuffer s)) (ring_contents (g_struSendQueue s))"

lemma frame_of_update:
  "r \<noteq> Some (SendBuffer i) \<Longrightarrow> frame_of (bs[i := b]) r = frame_of bs r"
  unfolding frame_of_def by (cases r; cases "the r") (simp_all add: nth_list_update_neq [OF not_sym])

lemma map_frame_of_update:
  "Some (SendBuffer i) \<notin> set rs \<Longrightarrow> map (frame_of (bs[i := b])) rs = map (frame_of bs) rs"
  by (auto intro!: frame_of_update)

text \<open>Only the send buffers and their queue change.\<close>

abbreviation send_changed :: "'h zc \<Rightarrow> 'h zc \<Rightarrow> bool" where
  "send_changed s s' \<equiv> s' = s\<lparr>g_struSendBuffer := g_struSendBuffer s', g_struSendQueue := g_struSendQueue s'\<rparr>"

text \<open>One frame was appended, or none on an error.\<close>

abbreviation sent :: "'h zc \<Rightarrow> 'h zc \<Rightarrow> u32 \<Rightarrow> bool" where
  "sent s s' r \<equiv> r = ZC_RET_ERROR \<and> outbox s' = outbox s
     \<or> r = ZC_RET_OK \<and> (\<exists>f. outbox s' = outbox s @ [f] \<and> frame_len f = length f \<and> length f \<le> 600)"

lemma fill_send_buffer_inv:
  assumes run: "fill_send_buffer A h p pad i (g_struSendBuffer s ! i) s = Some (s', r)"
    and inv: "send_inv s" "rsa_writes A" and i: "i < 3" "u8Status (g_struSendBuffer s ! i) = MSG_BUFFER_IDLE"
  shows "send_inv s' \<and> send_changed s s' \<and> sent s s' r"
proof -
  let ?b = "g_struSendBuffer s ! i"
  note len = send_inv_bufferD [OF inv(1) i(1)]
  obtain ret out n where enc: "SEC_Encrypt A s h (drop 4 (u8MsgBuffer ?b)) p (ZC_HTONS (u16TotalMsg h) + pad) = Some (ret, out, n)"
    using run by (auto simp: fill_send_buffer_def bind_Some_iff)
  let ?b1 = "?b\<lparr>u8MsgBuffer := take 4 (u8MsgBuffer ?b) @ out\<rparr>"
  have out: "length out = 596"
    using SEC_Encrypt_lengths(1) [OF enc] len by simp
  show ?thesis
  proof (cases "ret = ZC_RET_ERROR")
    case True
    then have "s' = s\<lparr>g_struSendBuffer := (g_struSendBuffer s)[i := ?b1]\<rparr>" "r = ZC_RET_ERROR"
      using run enc by (simp_all add: fill_send_buffer_def)
    moreover have "outbox (s\<lparr>g_struSendBuffer := (g_struSendBuffer s)[i := ?b1]\<rparr>) = outbox s"
      using send_inv_room(2) [OF inv(1) i] by (simp add: outbox_def map_frame_of_update)
    ultimately show ?thesis
      using send_inv_idle_buffer [OF inv(1) i(2) _ _ i(1), of ?b1] i(2) len out
      by simp
  next
    case False
    let ?m = "put_SecHead (h\<lparr>u16TotalMsg := ZC_HTONS n\<rparr>) @ out"
    let ?b2 = "?b\<lparr>u8MsgBuffer := ?m, u32Len := ucast n + 4, u8Status := MSG_BUFFER_FULL\<rparr>"
    have "wr (u8MsgBuffer ?b1) 0 (put_SecHead (h\<lparr>u16TotalMsg := ZC_HTONS n\<rparr>)) = Some ?m"
      using len by (simp add: wr_append)
    with False run enc obtain q r' where push: "MSG_PushMsg (g_struSendQueue s) (Some (SendBuffer i)) = Some (q, r')"
      and s': "s' = s\<lparr>g_struSendBuffer := (g_struSendBuffer s)[i := ?b2], g_struSendQueue := q\<rparr>"
      and r: "r = ZC_RET_OK"
      by (auto simp: fill_send_buffer_def bind_Some_iff)
    have n: "unat n \<le> 596"
      using SEC_Encrypt_lengths(2) [OF enc inv(2) False] len by simp
    then have n4: "unat (ucast n + 4 :: u32) = unat n + 4"
      by (subst unat_add_small) auto
    then have ok: "frame_ok ?b2"
      using n by (simp add: frame_ok_def frame_len_def put_SecHead_def)
    note full = send_inv_full_buffer [OF inv(1) i(2,1) _ _ ok push]
    have "outbox s' = outbox s @ [take (unat n + 4) ?m]"
      using full(2) send_inv_room(2) [OF inv(1) i] len out i(1) n4
      by (simp add: s' outbox_def map_frame_of_update frame_of_def)
    moreover have "frame_len (take (unat n + 4) ?m) = unat n + 4"
      by (simp add: frame_len_def put_SecHead_def)
    ultimately show ?thesis
      using full(3) out s' r n by auto
  qed
qed

lemma PCT_SendMsgToCloud_loop_inv:
  assumes "PCT_SendMsgToCloud_loop k i A h p pad s = Some (s', r)" "send_inv s" "rsa_writes A" "i + k \<le> 3"
  shows "send_inv s' \<and> send_changed s s' \<and> sent s s' r"
  using assms
proof (induction k arbitrary: i)
  case 0
  then show ?case by simp
next
  case (Suc k)
  have "rd1 (g_struSendBuffer s) i = Some (g_struSendBuffer s ! i)"
    using Suc.prems by (simp add: rd1_def send_ok_def)
  with Suc show ?case
    using fill_send_buffer_inv [of A h p pad i s s' r] by (auto split: if_splits)
qed

lemma PCT_SendMsgToCloud_inv [pres]:
  assumes "PCT_SendMsgToCloud A h p s = Some (s', r)" "send_inv s" "rsa_writes A"
  shows "send_inv s' \<and> send_changed s s' \<and> sent s s' r"
  using assms PCT_SendMsgToCloud_loop_inv [of 3 0 A h p _ s s' r]
  by (auto simp: PCT_SendMsgToCloud_def Let_def split: prod.splits if_splits)

text \<open>Sending the oldest frame: its buffer becomes idle again.\<close>

lemma send_inv_release:
  assumes inv: "send_inv s" and q: "ring_contents (g_struSendQueue s) = Some (SendBuffer i) # ring_contents q" "ring_inv q"
  shows "i < 3" "u8Status (g_struSendBuffer s ! i) = MSG_BUFFER_FULL"
    "send_inv (s\<lparr>g_struSendBuffer := (g_struSendBuffer s)[i := idle (g_struSendBuffer s ! i)], g_struSendQueue := q\<rparr>)"
proof -
  have set: "set (ring_contents (g_struSendQueue s)) =
      {Some (SendBuffer i) | i. i < 3 \<and> u8Status (g_struSendBuffer s ! i) = MSG_BUFFER_FULL}"
    and dist: "distinct (ring_contents (g_struSendQueue s))"
    using inv by (simp_all add: send_ok_def)
  have "Some (SendBuffer i) \<in> set (ring_contents (g_struSendQueue s))"
    using q by simp
  then show i: "i < 3" and full: "u8Status (g_struSendBuffer s ! i) = MSG_BUFFER_FULL"
    unfolding set by auto
  have rest: "set (ring_contents q) = set (ring_contents (g_struSendQueue s)) - {Some (SendBuffer i)}"
    using q dist by simp
  have "{Some (SendBuffer j) | j. j < 3 \<and>
        u8Status ((g_struSendBuffer s)[i := idle (g_struSendBuffer s ! i)] ! j) = MSG_BUFFER_FULL} = set (ring_contents q)"
    unfolding rest set using inv i by (auto simp: send_ok_def nth_list_update idle_def)
  then show "send_inv (s\<lparr>g_struSendBuffer := (g_struSendBuffer s)[i := idle (g_struSendBuffer s ! i)], g_struSendQueue := q\<rparr>)"
    using inv i q dist by (auto simp: send_ok_def nth_list_update idle_def)
qed

lemma send_inv_contents:
  "send_inv s \<Longrightarrow> x \<in> set (ring_contents (g_struSendQueue s)) \<Longrightarrow> \<exists>i<3. x = Some (SendBuffer i)"
  by (auto simp: send_ok_def)

context module_adapter begin

lemma MSG_SendDataToCloud_cases:
  assumes run: "MSG_SendDataToCloud A sock s = Some s'" and inv: "send_inv s"
  obtains "ring_contents (g_struSendQueue s) = []" "s' = s"
  | i q h where "i < 3" "ring_contents (g_struSendQueue s) = Some (SendBuffer i) # ring_contents q" "ring_inv q"
      "pfunSendTcpData A sock (u8MsgBuffer (g_struSendBuffer s ! i)) (ucast (u32Len (g_struSendBuffer s ! i)))
         \<lparr>u8NeedPoll = 0, pu8AddrPara = None\<rparr> (s\<lparr>g_struSendQueue := q\<rparr>) = Some (s\<lparr>g_struSendQueue := q, platform := h\<rparr>)"
      "s' = s\<lparr>g_struSendQueue := q, platform := h,
         g_struSendBuffer := (g_struSendBuffer s)[i := idle (g_struSendBuffer s ! i)]\<rparr>"
      "send_inv s'"
proof -
  have ring: "ring_inv (g_struSendQueue s)" "length (g_struSendBuffer s) = 3"
    using inv by (simp_all add: send_ok_def)
  obtain q m where pop: "MSG_PopMsg (g_struSendQueue s) = Some (q, m)"
    using run by (auto simp: MSG_SendDataToCloud_def bind_Some_iff)
  from ring(1) pop show thesis
  proof (cases rule: msgq.pop_cases)
    case 1
    then show thesis
      using run pop by (intro that(1)) (simp_all add: MSG_SendDataToCloud_def)
  next
    case 2
    then obtain i where i: "i < 3" "m = Some (SendBuffer i)"
      using send_inv_contents [OF inv, of m] by auto
    have q: "ring_contents (g_struSendQueue s) = Some (SendBuffer i) # ring_contents q"
      using 2 i by simp
    have get: "get_buffer (SendBuffer i) (s\<lparr>g_struSendQueue := q\<rparr>) = Some (g_struSendBuffer s ! i)"
      using i ring(2) by (simp add: get_buffer_def rd1_def)
    then obtain s1 where send: "pfunSendTcpData A sock (u8MsgBuffer (g_struSendBuffer s ! i))
        (ucast (u32Len (g_struSendBuffer s ! i))) \<lparr>u8NeedPoll = 0, pu8AddrPara = None\<rparr>
        (s\<lparr>g_struSendQueue := q\<rparr>) = Some s1" and rel: "release (SendBuffer i) s1 = Some s'"
      using run pop i by (auto simp: MSG_SendDataToCloud_def bind_Some_iff)
    from send_tcp [OF send] obtain h where s1: "s1 = s\<lparr>g_struSendQueue := q, platform := h\<rparr>"
      by (auto elim!: same_but_platformE)
    then have s': "s' = s\<lparr>g_struSendQueue := q, platform := h,
         g_struSendBuffer := (g_struSendBuffer s)[i := idle (g_struSendBuffer s ! i)]\<rparr>"
      using rel i ring(2) by (simp add: release_def get_buffer_def set_buffer_def rd1_def)
    have "send_inv s'"
      using send_inv_release(3) [OF inv q 2(2)] by (simp add: s' send_ok_def)
    with i(1) q 2(2) send s1 s' show thesis
      by (intro that(2)) auto
  qed
qed

lemma MSG_SendDataToCloud_inv: "MSG_SendDataToCloud A sock s = Some s' \<Longrightarrow> send_inv s \<Longrightarrow> send_inv s'"
  by (erule MSG_SendDataToCloud_cases) auto

end

section \<open>The receive buffer and the receive queue\<close>

text \<open>The queue holds at most the receive buffer, and then the buffer is full.\<close>

definition recv_fields_ok :: "MSG_Buffer \<Rightarrow> u8 list \<Rightarrow> buffer_ref MSG_Queue \<Rightarrow> bool" where
  "recv_fields_ok b build q \<longleftrightarrow> recv_inv b \<and> length build = 600 \<and> ring_inv q
     \<and> (ring_contents q = [] \<or> ring_contents q = [Some RecvBuffer] \<and> u8Status b = MSG_BUFFER_FULL)"

abbreviation recv_ok :: "'h zc \<Rightarrow> bool" where
  "recv_ok s \<equiv> recv_fields_ok (g_struRecvBuffer s) (g_u8MsgBuildBuffer s) (g_struRecvQueue s)"

lemma recv_ok_not_full:
  "recv_ok s \<Longrightarrow> u8Status (g_struRecvBuffer s) \<noteq> MSG_BUFFER_FULL \<Longrightarrow> ring_contents (g_struRecvQueue s) = []"
  by (auto simp: recv_fields_ok_def)

abbreviation recv_changed :: "'h zc \<Rightarrow> 'h zc \<Rightarrow> bool" where
  "recv_changed s s' \<equiv> s' = s\<lparr>g_struRecvBuffer := g_struRecvBuffer s', g_u8MsgBuildBuffer := g_u8MsgBuildBuffer s',
     g_struRecvQueue := g_struRecvQueue s', stack := stack s'\<rparr>"

lemma accept_frame_ok:
  assumes run: "accept_frame A b s = Some s'" and b: "recv_inv b" "u8Status b = MSG_BUFFER_FULL" "g_struRecvBuffer s = b"
    and s: "length (g_u8MsgBuildBuffer s) = 600" "ring_inv (g_struRecvQueue s)" "ring_contents (g_struRecvQueue s) = []"
  shows "recv_ok s' \<and> recv_changed s s'"
proof -
  obtain x s1 where ind: "indet 2 s = (x, s1)"
    by fastforce
  then obtain st where s1: "s1 = s\<lparr>stack := st\<rparr>"
    by (auto simp: indet_def)
  obtain r build n d m where dec: "SEC_Decrypt A s1 (get_SecHead (u8MsgBuffer b)) (drop 4 (u8MsgBuffer b))
        (g_u8MsgBuildBuffer s1) (le16 x) = Some (r, build, n)"
      "rd build 0 (unat n) = Some d" "wr (u8MsgBuffer b) 0 d = Some m"
    and rest: "(if r = ZC_RET_OK then do {
       (q, r) \<leftarrow> MSG_PushMsg (g_struRecvQueue s1) (Some RecvBuffer);
       Some (s1\<lparr>g_u8MsgBuildBuffer := build, g_struRecvBuffer := b\<lparr>u8MsgBuffer := m, u32Len := ucast n\<rparr>, g_struRecvQueue := q\<rparr>)
     } else Some (s1\<lparr>g_u8MsgBuildBuffer := build, g_struRecvBuffer := b\<lparr>u8MsgBuffer := m, u32Len := ucast n\<rparr>\<rparr>)) = Some s'"
    using run unfolding accept_frame_def ind by (auto simp: bind_Some_iff Let_def cong: if_cong)
  have build: "length build = 600"
    using SEC_Decrypt_length [OF dec(1)] s(1) by (simp add: s1)
  have b': "recv_inv (b\<lparr>u8MsgBuffer := m, u32Len := ucast n\<rparr>)"
    using b dec(2) length_wr [OF dec(3)] build by (auto simp: recv_inv_def rd_eq_Some)
  obtain q r' where push: "MSG_PushMsg (g_struRecvQueue s) (Some RecvBuffer) = Some (q, r')" "ring_inv q"
      "ring_contents q = [Some RecvBuffer]"
    using ring_push(2) [OF s(2), of "Some RecvBuffer"] s(3) by auto
  show ?thesis
  proof (cases "r = ZC_RET_OK")
    case True
    with rest push have s': "s' = s1\<lparr>g_u8MsgBuildBuffer := build,
        g_struRecvBuffer := b\<lparr>u8MsgBuffer := m, u32Len := ucast n\<rparr>, g_struRecvQueue := q\<rparr>"
      by (simp add: s1)
    then show ?thesis
      using b' b(2) push build by (auto simp: recv_fields_ok_def s1)
  next
    case False
    with rest have s': "s' = s1\<lparr>g_u8MsgBuildBuffer := build,
        g_struRecvBuffer := b\<lparr>u8MsgBuffer := m, u32Len := ucast n\<rparr>\<rparr>"
      by simp
    then show ?thesis
      using b' build s by (auto simp: recv_fields_ok_def s1)
  qed
qed

lemma MSG_RecvDataFromCloud_ok:
  assumes run: "MSG_RecvDataFromCloud A d n s = Some s'" and ok: "recv_ok s"
    and n: "unat n \<le> length d" "unat n + 600 < 2 ^ 32"
  shows "recv_ok s' \<and> recv_changed s s'"
proof -
  let ?b = "g_struRecvBuffer s"
  have inv: "recv_inv ?b" "length (g_u8MsgBuildBuffer s) = 600" "ring_inv (g_struRecvQueue s)"
    using ok by (simp_all add: recv_fields_ok_def)
  obtain b r where b: "MSG_RecvData ?b d n = Some (b, r)" "recv_inv b"
    using MSG_RecvData_total [OF inv(1) n] by blast
  show ?thesis
  proof (cases "u8Status ?b = MSG_BUFFER_FULL")
    case True
    then have "s' = s\<lparr>g_struRecvBuffer := ?b\<rparr>"
      using run b MSG_RecvData_full [OF True, of d n] by (auto simp: MSG_RecvDataFromCloud_def)
    then show ?thesis
      using ok by simp
  next
    case False
    note empty = recv_ok_not_full [OF ok False]
    show ?thesis
    proof (cases "r = ZC_RET_OK \<and> u8Status b = MSG_BUFFER_FULL")
      case False
      then have "s' = s\<lparr>g_struRecvBuffer := b\<rparr>"
        using run b by (auto simp: MSG_RecvDataFromCloud_def)
      then show ?thesis
        using b inv empty by (simp add: recv_fields_ok_def)
    next
      case True
      then have "accept_frame A b (s\<lparr>g_struRecvBuffer := b\<rparr>) = Some s'"
        using run b by (simp add: MSG_RecvDataFromCloud_def)
      from accept_frame_ok [OF this b(2)] True inv empty show ?thesis by auto
    qed
  qed
qed

section \<open>A message from one end to the other\<close>

lemma SEC_PaddingCheck_fits:
  assumes "sec_room (sec_flag s ty) (unat n) \<le> 596" "ty \<in> {ZC_SEC_ALG_NONE, ZC_SEC_ALG_RSA, ZC_SEC_ALG_AES}"
  shows "\<exists>pad. SEC_PaddingCheck s ty n = (ZC_RET_OK, pad) \<and> \<not> n + 4 + pad > 600"
proof -
  have fits: "\<not> n + 4 + pad > 600" if "unat n + unat pad \<le> 596" for pad :: u16
  proof -
    have "unat (n + 4 + pad) = unat n + 4 + unat pad"
      using that by (simp add: unat_add_small)
    with that show ?thesis by (simp add: word_less_nat_alt)
  qed
  from assms(2) show ?thesis
  proof (cases rule: sec_flag_cases [of _ s])
    case 1
    with assms(1) fits [of 0] show ?thesis by (simp add: SEC_PaddingCheck_def sec_room_def)
  next
    case 2
    have "unat (32 - n mod 32 :: u16) = 32 - unat n mod 32"
      by (subst unat_sub) (auto simp: unat_mod_u16 word_le_nat_alt mod_le_divisor)
    then have pad: "unat (snd (SEC_PaddingCheck s ty n)) = (if unat n mod 32 = 0 then 0 else 32 - unat n mod 32)"
      using 2 by (simp add: SEC_PaddingCheck_def Let_def word_less_nat_alt unat_mod_u16)
    have "32 * (unat n div 21) + 32 \<le> 596"
      using assms(1) 2 by (simp add: sec_room_def)
    moreover have "unat n div 32 \<le> unat n div 21"
      by (rule div_le_mono2) simp_all
    moreover have "unat n + (if unat n mod 32 = 0 then 0 else 32 - unat n mod 32) \<le> 32 * (unat n div 32) + 32"
      by presburger
    ultimately have "unat n + unat (snd (SEC_PaddingCheck s ty n)) \<le> 596"
      using pad by linarith
    with fits 2 show ?thesis by (auto simp: SEC_PaddingCheck_def Let_def)
  next
    case 3
    have "unat n + unat (snd (SEC_PaddingCheck s ty n)) \<le> 596"
      using SEC_PaddingCheck_aes(2) [OF 3, of n] assms(1) 3 by (simp add: sec_room_def)
    with fits [of "snd (SEC_PaddingCheck s ty n)"] SEC_PaddingCheck_aes(1) [OF 3, of n] show ?thesis
      by (intro exI [of _ "snd (SEC_PaddingCheck s ty n)"]) (simp add: prod_eq_iff)
  qed
qed

text \<open>Both ends look only at the keys and the configuration.\<close>

definition same_keys :: "'h zc \<Rightarrow> 'h zc \<Rightarrow> bool" where
  "same_keys s t \<longleftrightarrow> g_struZcConfigDb s = g_struZcConfigDb t \<and> g_struRegisterInfo s = g_struRegisterInfo t
     \<and> con s = con t"

lemma SEC_Decrypt_cong:
  "same_keys s t \<Longrightarrow> SEC_Decrypt A s h c out l = SEC_Decrypt A t h c out l"
proof -
  assume *: "same_keys s t"
  then have "sec_flag s = sec_flag t" "SEC_DecryptTextByRsa A s = SEC_DecryptTextByRsa A t"
      "SEC_AesDecrypt s = SEC_AesDecrypt t"
    by (simp_all add: fun_eq_iff same_keys_def sec_flag_def SEC_DecryptTextByRsa_def SEC_AesDecrypt_def
        ZC_GetStoreInfor_def)
  then show ?thesis by (simp only: SEC_Decrypt_def)
qed

text \<open>The loop finds the first idle buffer.\<close>

lemma PCT_SendMsgToCloud_loop_idle:
  assumes "length (g_struSendBuffer s) = 3" "i + k = 3" "\<exists>j. i \<le> j \<and> j < 3 \<and> u8Status (g_struSendBuffer s ! j) = MSG_BUFFER_IDLE"
  shows "\<exists>j<3. u8Status (g_struSendBuffer s ! j) = MSG_BUFFER_IDLE
    \<and> PCT_SendMsgToCloud_loop k i A h p pad s = fill_send_buffer A h p pad j (g_struSendBuffer s ! j) s"
  using assms
proof (induction k arbitrary: i)
  case (Suc k)
  show ?case
  proof (cases "u8Status (g_struSendBuffer s ! i) = MSG_BUFFER_IDLE")
    case True
    with Suc.prems show ?thesis by (intro exI [of _ i]) (simp add: rd1_def)
  next
    case False
    with Suc.prems(3) have "\<exists>j. Suc i \<le> j \<and> j < 3 \<and> u8Status (g_struSendBuffer s ! j) = MSG_BUFFER_IDLE"
      using Suc_leI le_neq_implies_less by blast
    with Suc.IH [of "Suc i"] Suc.prems False show ?thesis by (simp add: rd1_def)
  qed
qed auto

text \<open>What goes out, and that it can be read at the other end.\<close>

lemma PCT_SendMsgToCloud_frame:
  assumes inv: "send_inv s" "\<exists>i<3. u8Status (g_struSendBuffer s ! i) = MSG_BUFFER_IDLE" and ready: "sec_ready A s"
    and ty: "u8SecType h \<in> {ZC_SEC_ALG_NONE, ZC_SEC_ALG_RSA, ZC_SEC_ALG_AES}"
    and n: "n = ZC_HTONS (u16TotalMsg h)" "unat n \<le> length p" "sec_room (sec_flag s (u8SecType h)) (unat n) \<le> 596"
    and out': "length out' = 600"
  shows "\<exists>s' c m q. PCT_SendMsgToCloud A h p s = Some (s', ZC_RET_OK) \<and> send_inv s'
    \<and> outbox s' = outbox s @ [put_SecHead (h\<lparr>u16TotalMsg := ZC_HTONS m\<rparr>) @ c] \<and> unat m = length c \<and> length c \<le> 596
    \<and> (\<forall>h' rest l'. u8SecType h' = u8SecType h \<longrightarrow> ZC_HTONS (u16TotalMsg h') = m \<longrightarrow>
         SEC_Decrypt A s h' (c @ rest) out' l' = Some (ZC_RET_OK, take (unat n) p @ q, n))"
proof -
  have small: "unat n < 30000"
  proof -
    have "unat n \<le> 32 * (unat n div 21) + 32" "unat n \<le> 16 * (unat n div 16) + 16"
      using div_mult_mod_eq [of "unat n" 21] div_mult_mod_eq [of "unat n" 16] mod_less_divisor [of 21 "unat n"]
        mod_less_divisor [of 16 "unat n"] by linarith+
    then have "unat n \<le> sec_room (sec_flag s (u8SecType h)) (unat n)"
      by (simp add: sec_room_def)
    with n(3) show ?thesis by simp
  qed
  obtain pad where pad: "SEC_PaddingCheck s (u8SecType h) n = (ZC_RET_OK, pad)" "\<not> n + 4 + pad > 600"
    using SEC_PaddingCheck_fits [OF n(3) ty] by blast
  obtain j where j: "j < 3" "u8Status (g_struSendBuffer s ! j) = MSG_BUFFER_IDLE"
      "PCT_SendMsgToCloud A h p s = fill_send_buffer A h p pad j (g_struSendBuffer s ! j) s"
    using PCT_SendMsgToCloud_loop_idle [of s 0 3 A h p pad] inv pad n(1)
    by (auto simp: PCT_SendMsgToCloud_def send_ok_def)
  let ?b = "g_struSendBuffer s ! j"
  have len: "length (u8MsgBuffer ?b) = 600" "length (g_struSendBuffer s) = 3"
    using send_inv_bufferD [OF inv(1) j(1)] by simp_all
  obtain c m q where enc: "SEC_Encrypt A s h (drop 4 (u8MsgBuffer ?b)) p (n + pad) =
        Some (ZC_RET_OK, c @ drop (length c) (drop 4 (u8MsgBuffer ?b)), m)"
      and m: "unat m = length c" "length c \<le> sec_room (sec_flag s (u8SecType h)) (unat n)"
      and dec: "\<forall>h' rest l'. u8SecType h' = u8SecType h \<longrightarrow> ZC_HTONS (u16TotalMsg h') = m \<longrightarrow>
         SEC_Decrypt A s h' (c @ rest) out' l' = Some (ZC_RET_OK, take (unat n) p @ q, n)"
    using SEC_Encrypt_decryptable [OF ready ty n(1,2) small, of "drop 4 (u8MsgBuffer ?b)" out' "n + pad"] len n(3) out'
    by auto
  let ?m = "put_SecHead (h\<lparr>u16TotalMsg := ZC_HTONS m\<rparr>) @ c @ drop (length c) (drop 4 (u8MsgBuffer ?b))"
  let ?b2 = "?b\<lparr>u8MsgBuffer := ?m, u32Len := ucast m + 4, u8Status := MSG_BUFFER_FULL\<rparr>"
  have m4: "unat (ucast m + 4 :: u32) = length c + 4"
    using m n(3) by (subst unat_add_small) auto
  have ok: "frame_ok ?b2" "length (u8MsgBuffer ?b2) = 600"
    using m m4 n(3) len by (simp_all add: frame_ok_def frame_len_def put_SecHead_def)
  have ring: "ring_inv (g_struSendQueue s)"
    using inv(1) by (simp add: send_ok_def)
  obtain qu where push: "MSG_PushMsg (g_struSendQueue s) (Some (SendBuffer j)) = Some (qu, ZC_RET_OK)"
    using ring_push(2) [OF ring send_inv_room(1) [OF inv(1) j(1,2)]] by blast
  have "u8Status ?b2 = MSG_BUFFER_FULL" by simp
  note full = send_inv_full_buffer [OF inv(1) j(2,1) this ok(2,1) push]
  have "wr (take 4 (u8MsgBuffer ?b) @ c @ drop (length c) (drop 4 (u8MsgBuffer ?b))) 0
      (put_SecHead (h\<lparr>u16TotalMsg := ZC_HTONS m\<rparr>)) = Some ?m"
    using len by (subst wr_append) simp_all
  then have run: "PCT_SendMsgToCloud A h p s =
      Some (s\<lparr>g_struSendBuffer := (g_struSendBuffer s)[j := ?b2], g_struSendQueue := qu\<rparr>, ZC_RET_OK)"
    using enc push n(1) by (simp add: j(3) fill_send_buffer_def)
  have "outbox (s\<lparr>g_struSendBuffer := (g_struSendBuffer s)[j := ?b2], g_struSendQueue := qu\<rparr>) =
      outbox s @ [put_SecHead (h\<lparr>u16TotalMsg := ZC_HTONS m\<rparr>) @ c]"
    using full(2) send_inv_room(2) [OF inv(1) j(1,2)] len j(1) m4
    by (simp add: outbox_def map_frame_of_update frame_of_def)
  then show ?thesis
    using run full(3) ok(2) m dec n(3)
    by (intro exI [of _ "s\<lparr>g_struSendBuffer := (g_struSendBuffer s)[j := ?b2], g_struSendQueue := qu\<rparr>"]
        exI [of _ c] exI [of _ m] exI [of _ q]) auto
qed

text \<open>A stream from the cloud, one call of \<^verbatim>\<open>MSG_RecvDataFromCloud\<close> for each chunk.\<close>

fun cloud_stream :: "'h PTC_ModuleAdapter \<Rightarrow> u8 list list \<Rightarrow> 'h zc \<Rightarrow> 'h zc option" where
  "cloud_stream A [] s = Some s"
| "cloud_stream A (d # ds) s = MSG_RecvDataFromCloud A d (word_of_nat (length d)) s \<bind> cloud_stream A ds"

lemma MSG_RecvDataFromCloud_full:
  "u8Status (g_struRecvBuffer s) = MSG_BUFFER_FULL \<Longrightarrow> MSG_RecvDataFromCloud A d n s = Some s"
  by (simp add: MSG_RecvDataFromCloud_def MSG_RecvData_full)

lemma cloud_stream_full:
  "u8Status (g_struRecvBuffer s) = MSG_BUFFER_FULL \<Longrightarrow> cloud_stream A ds s = Some s"
  by (induction ds) (simp_all add: MSG_RecvDataFromCloud_full)

lemma cloud_stream_completes:
  assumes "recv_inv (g_struRecvBuffer t)" "u8Status (g_struRecvBuffer t) \<noteq> MSG_BUFFER_FULL"
    and "frame_len f = length f" "length f \<le> 600"
    and "recv_acc (g_struRecvBuffer t) @ concat ds = f" "length (recv_acc (g_struRecvBuffer t)) < length f"
  shows "\<exists>b ds1. recv_inv b \<and> u8Status b = MSG_BUFFER_FULL \<and> recv_acc b = f
    \<and> cloud_stream A ds t = accept_frame A b (t\<lparr>g_struRecvBuffer := b\<rparr>) \<bind> cloud_stream A ds1"
  using assms
proof (induction ds arbitrary: t)
  case (Cons d ds)
  let ?b = "g_struRecvBuffer t"
  have small: "length d \<le> 600"
    using Cons.prems(4,5) by auto
  then have n: "unat (word_of_nat (length d) :: u32) = length d"
    by (simp add: unat_of_nat_small)
  obtain b' r where run: "MSG_RecvData ?b d (word_of_nat (length d)) = Some (b', r)" "recv_inv b'"
    and st: "(u8Status b', recv_acc b', r) = recv_step (recv_acc ?b) d"
    using MSG_RecvData_refines [of ?b "word_of_nat (length d)" d] Cons.prems(1,2) small n by auto
  have split: "f = (recv_acc ?b @ d) @ concat ds"
    using Cons.prems(5) by simp
  have pre: "2 \<le> length (recv_acc ?b @ d) \<Longrightarrow> frame_len (recv_acc ?b @ d) = length f"
    using prefix_frame_len [OF split] Cons.prems(3) by simp
  have F4: "4 \<le> length f"
    using Cons.prems(3) by (simp add: frame_len_def)
  show ?case
  proof (cases "length (recv_acc ?b @ d) < length f")
    case True
    then have b': "u8Status b' \<noteq> MSG_BUFFER_FULL" "recv_acc b' = recv_acc ?b @ d"
      using st pre Cons.prems(4) F4 by (auto simp: recv_step_def Let_def split: if_splits)
    then have "MSG_RecvDataFromCloud A d (word_of_nat (length d)) t = Some (t\<lparr>g_struRecvBuffer := b'\<rparr>)"
      using run by (simp add: MSG_RecvDataFromCloud_def)
    moreover have "\<exists>b ds1. recv_inv b \<and> u8Status b = MSG_BUFFER_FULL \<and> recv_acc b = f
        \<and> cloud_stream A ds (t\<lparr>g_struRecvBuffer := b'\<rparr>)
          = accept_frame A b (t\<lparr>g_struRecvBuffer := b'\<rparr>\<lparr>g_struRecvBuffer := b\<rparr>) \<bind> cloud_stream A ds1"
      by (rule Cons.IH) (use run b' True Cons.prems split in simp_all)
    ultimately show ?thesis by simp
  next
    case False
    then have "recv_acc ?b @ d = f" "concat ds = []"
      using split by (auto dest: arg_cong [where f=length])
    then have b': "u8Status b' = MSG_BUFFER_FULL" "recv_acc b' = f" "r = ZC_RET_OK"
      using st Cons.prems(3,4) F4 by (auto simp: recv_step_def Let_def)
    with run show ?thesis
      by (intro exI [of _ b'] exI [of _ ds]) (simp add: MSG_RecvDataFromCloud_def)
  qed
qed simp

lemma cloud_stream_frame:
  assumes "recv_inv (g_struRecvBuffer t)" "u8Status (g_struRecvBuffer t) \<noteq> MSG_BUFFER_FULL"
    and "frame_len f = length f" "length f \<le> 600"
    and "recv_acc (g_struRecvBuffer t) @ concat ds = f" "length (recv_acc (g_struRecvBuffer t)) < length f"
    and accept: "\<And>b. recv_inv b \<Longrightarrow> u8Status b = MSG_BUFFER_FULL \<Longrightarrow> recv_acc b = f \<Longrightarrow>
      \<exists>t'. accept_frame A b (t\<lparr>g_struRecvBuffer := b\<rparr>) = Some t' \<and> u8Status (g_struRecvBuffer t') = MSG_BUFFER_FULL \<and> P t'"
  shows "\<exists>t'. cloud_stream A ds t = Some t' \<and> P t'"
proof -
  obtain b ds1 where b: "recv_inv b" "u8Status b = MSG_BUFFER_FULL" "recv_acc b = f"
      "cloud_stream A ds t = accept_frame A b (t\<lparr>g_struRecvBuffer := b\<rparr>) \<bind> cloud_stream A ds1"
    using cloud_stream_completes [OF assms(1-6)] by blast
  with accept [OF b(1-3)] show ?thesis
    by (auto simp: cloud_stream_full)
qed

text \<open>A frame that decrypts is queued with its plain text.\<close>

lemma accept_frame_decrypts:
  assumes dec: "\<And>u l. same_keys t u \<Longrightarrow>
      SEC_Decrypt A u h (c @ drop (4 + length c) (u8MsgBuffer b)) (g_u8MsgBuildBuffer t) l = Some (ZC_RET_OK, p @ q, n)"
    and n: "unat n = length p" "length p \<le> 600" and keys: "same_keys t s" "g_u8MsgBuildBuffer s = g_u8MsgBuildBuffer t"
    and b: "recv_inv b" "u8Status b = MSG_BUFFER_FULL" "recv_acc b = put_SecHead h @ c"
    and q: "ring_inv (g_struRecvQueue s)" "ring_contents (g_struRecvQueue s) = []"
  shows "\<exists>s'. accept_frame A b s = Some s' \<and> u8Status (g_struRecvBuffer s') = MSG_BUFFER_FULL
    \<and> ring_contents (g_struRecvQueue s') = [Some RecvBuffer] \<and> u32Len (g_struRecvBuffer s') = ucast n
    \<and> take (unat n) (u8MsgBuffer (g_struRecvBuffer s')) = p"
proof -
  have len: "unat (u32Len b) \<le> 600" "length (u8MsgBuffer b) = 600" "take (unat (u32Len b)) (u8MsgBuffer b) = put_SecHead h @ c"
    using b by (auto simp: recv_inv_def recv_acc_def)
  from len have L: "unat (u32Len b) = 4 + length c"
    by (auto dest!: arg_cong [where f=length])
  then have m: "u8MsgBuffer b = put_SecHead h @ c @ drop (4 + length c) (u8MsgBuffer b)"
    using len(3) append_take_drop_id [of "4 + length c" "u8MsgBuffer b"] by (metis append.assoc)
  then have hd: "get_SecHead (u8MsgBuffer b) = h" "drop 4 (u8MsgBuffer b) = c @ drop (4 + length c) (u8MsgBuffer b)"
    by (metis get_put_SecHead, metis append_eq_conv_conj length_put_SecHead)
  obtain x st where ind: "indet 2 s = (x, s\<lparr>stack := st\<rparr>)"
    by (auto simp: indet_def)
  have "same_keys t (s\<lparr>stack := st\<rparr>)"
    using keys by (simp add: same_keys_def)
  note d = dec [OF this]
  have w: "wr (u8MsgBuffer b) 0 p = Some (p @ drop (length p) (u8MsgBuffer b))"
    using n len by (simp add: wr_prefix)
  obtain q' where push: "MSG_PushMsg (g_struRecvQueue s) (Some RecvBuffer) = Some (q', ZC_RET_OK)"
      "ring_contents q' = [Some RecvBuffer]"
    using ring_push(2) [OF q(1), of "Some RecvBuffer"] q(2) by auto
  show ?thesis
    unfolding accept_frame_def ind using hd d n keys(2) w push b(2) by simp
qed

section \<open>Properties\<close>

text \<open>C1: A message gets through the link: with the keys in place and room for its cipher text, and while
  one send buffer is idle, \<^verbatim>\<open>PCT_SendMsgToCloud\<close> succeeds and appends one frame to what waits to be sent;
  and a receiver with the same keys, given that frame in chunks of any size through
  \<^verbatim>\<open>MSG_RecvDataFromCloud\<close>, queues exactly the plain text with its length.\<close>

theorem cloud_link_roundtrip:
  assumes "send_inv s" "\<exists>i<3. u8Status (g_struSendBuffer s ! i) = MSG_BUFFER_IDLE" "sec_ready A s"
    and "u8SecType h \<in> {ZC_SEC_ALG_NONE, ZC_SEC_ALG_RSA, ZC_SEC_ALG_AES}"
    and "unat (ZC_HTONS (u16TotalMsg h)) = length p" "sec_room (sec_flag s (u8SecType h)) (length p) \<le> 596"
    and "recv_ok t" "u8Status (g_struRecvBuffer t) = MSG_BUFFER_IDLE" "same_keys s t"
  shows "\<exists>s' f. PCT_SendMsgToCloud A h p s = Some (s', ZC_RET_OK) \<and> send_inv s' \<and> outbox s' = outbox s @ [f]
    \<and> (\<forall>ds. concat ds = f \<longrightarrow> (\<exists>t'. cloud_stream A ds t = Some t'
         \<and> ring_contents (g_struRecvQueue t') = [Some RecvBuffer]
         \<and> u32Len (g_struRecvBuffer t') = ucast (ZC_HTONS (u16TotalMsg h))
         \<and> take (length p) (u8MsgBuffer (g_struRecvBuffer t')) = p))"
proof -
  let ?n = "ZC_HTONS (u16TotalMsg h)"
  have len: "length (g_u8MsgBuildBuffer t) = 600"
    using assms(7) by (simp add: recv_fields_ok_def)
  obtain s' c m q where s': "PCT_SendMsgToCloud A h p s = Some (s', ZC_RET_OK)" "send_inv s'"
      "outbox s' = outbox s @ [put_SecHead (h\<lparr>u16TotalMsg := ZC_HTONS m\<rparr>) @ c]" "unat m = length c" "length c \<le> 596"
    and dec: "\<And>h' rest l'. u8SecType h' = u8SecType h \<Longrightarrow> ZC_HTONS (u16TotalMsg h') = m \<Longrightarrow>
         SEC_Decrypt A s h' (c @ rest) (g_u8MsgBuildBuffer t) l' = Some (ZC_RET_OK, p @ q, ?n)"
    using PCT_SendMsgToCloud_frame [OF assms(1,2,3,4) refl _ _ len, of p] assms(5,6) by auto
  let ?f = "put_SecHead (h\<lparr>u16TotalMsg := ZC_HTONS m\<rparr>) @ c"
  have fl: "frame_len ?f = length ?f"
    using s'(4) by (simp add: frame_len_def put_SecHead_def)
  have q: "ring_inv (g_struRecvQueue t)" "ring_contents (g_struRecvQueue t) = []" "recv_inv (g_struRecvBuffer t)"
    using assms(7,8) by (auto simp: recv_fields_ok_def)
  have p: "length p \<le> 600"
    using assms(6) by (auto simp: sec_room_def split: if_splits)
  have "\<exists>t'. cloud_stream A ds t = Some t' \<and> ring_contents (g_struRecvQueue t') = [Some RecvBuffer]
      \<and> u32Len (g_struRecvBuffer t') = ucast ?n \<and> take (length p) (u8MsgBuffer (g_struRecvBuffer t')) = p"
    if ds: "concat ds = ?f" for ds
  proof (rule cloud_stream_frame [OF q(3) _ fl])
    fix b assume b: "recv_inv b" "u8Status b = MSG_BUFFER_FULL" "recv_acc b = ?f"
    have "SEC_Decrypt A u (h\<lparr>u16TotalMsg := ZC_HTONS m\<rparr>) (c @ rest) (g_u8MsgBuildBuffer t) l = Some (ZC_RET_OK, p @ q, ?n)"
      if "same_keys t u" for u l rest
    proof -
      have "same_keys s u"
        using that assms(9) by (simp add: same_keys_def)
      with dec show ?thesis by (simp add: SEC_Decrypt_cong [symmetric])
    qed
    from accept_frame_decrypts [OF this assms(5) p _ _ b, where s = "t\<lparr>g_struRecvBuffer := b\<rparr>"] q assms(5)
    show "\<exists>t'. accept_frame A b (t\<lparr>g_struRecvBuffer := b\<rparr>) = Some t' \<and> u8Status (g_struRecvBuffer t') = MSG_BUFFER_FULL
      \<and> ring_contents (g_struRecvQueue t') = [Some RecvBuffer]
      \<and> u32Len (g_struRecvBuffer t') = ucast ?n \<and> take (length p) (u8MsgBuffer (g_struRecvBuffer t')) = p"
      by (simp add: same_keys_def)
  qed (use assms(8) s'(5) ds in \<open>simp_all add: recv_acc_def\<close>)
  with s' show ?thesis by blast
qed

text \<open>A state in which the module can talk to the cloud, for concrete runs.\<close>

definition zc_ready :: "(nat \<Rightarrow> u8) \<Rightarrow> 'h \<Rightarrow> 'h zc" where
  "zc_ready st h = con_update (u8keyRecv_update (\<lambda>_. PCT_KEY_RECVED)) (MSG_Init (ZC_ConfigInitPara (zc_start st h)))"

lemma zc_ready_ok:
  "send_inv (zc_ready st h)" "recv_ok (zc_ready st h)" "same_keys (zc_ready st h) (zc_ready st h)"
  "u8Status (g_struRecvBuffer (zc_ready st h)) = MSG_BUFFER_IDLE"
  "\<exists>i<3. u8Status (g_struSendBuffer (zc_ready st h) ! i) = MSG_BUFFER_IDLE"
  "outbox (zc_ready st h) = []" "sec_flag (zc_ready st h) ty = ty"
proof -
  have q: "ring_inv (MSG_InitQueue zero_queue :: buffer_ref MSG_Queue)"
      "ring_contents (MSG_InitQueue zero_queue :: buffer_ref MSG_Queue) = []"
    using ring_start [of zero_queue] by (simp_all add: ring_storage_def zero_queue_def)
  then show "send_inv (zc_ready st h)" "outbox (zc_ready st h) = []"
    by (auto simp: zc_ready_def MSG_Init_def ZC_ConfigInitPara_def Let_def config_update_def zc_start_def
        send_ok_def outbox_def idle_def zero_buffer_def)
  show "recv_ok (zc_ready st h)" "same_keys (zc_ready st h) (zc_ready st h)"
    "u8Status (g_struRecvBuffer (zc_ready st h)) = MSG_BUFFER_IDLE"
    "\<exists>i<3. u8Status (g_struSendBuffer (zc_ready st h) ! i) = MSG_BUFFER_IDLE" "sec_flag (zc_ready st h) ty = ty"
    using q by (auto simp: zc_ready_def MSG_Init_def ZC_ConfigInitPara_def Let_def config_update_def zc_start_def
        recv_fields_ok_def recv_inv_def idle_def zero_buffer_def same_keys_def sec_flag_def intro: exI [of _ 0])
qed

lemma zc_ready_sec: "sec_ready quiet_adapter (zc_ready st h)"
proof -
  have "config_ok (g_struZcConfigDb (ZC_ConfigInitPara (zc_start st h)))"
    using config_ok_init [of "zc_start st h"] by (simp add: config_ok_def zc_start_def zero_config_def)
  then show ?thesis
    using quiet_adapter_rsa [of "zc_ready st h"]
    by (simp add: zc_ready_def sec_ready_def register_ok_def MSG_Init_def ZC_ConfigInitPara_def Let_def zc_start_def
        zero_con_def config_update_def)
qed

theorem cloud_link_roundtrip_witness:
  "let s = zc_ready (\<lambda>_. 0) (); h = \<lparr>u16TotalMsg = ZC_HTONS 30, u8SecType = ZC_SEC_ALG_AES, u8Resver = 0\<rparr>
   in \<exists>s' f. PCT_SendMsgToCloud quiet_adapter h (replicate 30 9) s = Some (s', ZC_RET_OK) \<and> outbox s' = [f]
        \<and> (\<exists>t'. cloud_stream quiet_adapter [take 3 f, drop 3 f] s = Some t'
             \<and> take 30 (u8MsgBuffer (g_struRecvBuffer t')) = replicate 30 9)"
proof -
  note st = zc_ready_ok [where st = "\<lambda>_. 0" and h = "()"]
  have "concat [take 3 f, drop 3 f] = f" for f :: "u8 list"
    by simp
  moreover obtain s' f where s': "PCT_SendMsgToCloud quiet_adapter \<lparr>u16TotalMsg = ZC_HTONS 30, u8SecType = ZC_SEC_ALG_AES, u8Resver = 0\<rparr>
        (replicate 30 9) (zc_ready (\<lambda>_. 0) ()) = Some (s', ZC_RET_OK)" "outbox s' = [f]"
      and all: "\<forall>ds. concat ds = f \<longrightarrow> (\<exists>t'. cloud_stream quiet_adapter ds (zc_ready (\<lambda>_. 0) ()) = Some t'
         \<and> take 30 (u8MsgBuffer (g_struRecvBuffer t')) = replicate 30 9)"
    using cloud_link_roundtrip [OF st(1,5) zc_ready_sec _ _ _ st(2,4,3),
        of "\<lparr>u16TotalMsg = ZC_HTONS 30, u8SecType = ZC_SEC_ALG_AES, u8Resver = 0\<rparr>" "replicate 30 9"] st(6,7)
    by (fastforce simp: sec_room_def simp del: cloud_stream.simps)
  ultimately have "\<exists>t'. cloud_stream quiet_adapter [take 3 f, drop 3 f] (zc_ready (\<lambda>_. 0) ()) = Some t'
         \<and> take 30 (u8MsgBuffer (g_struRecvBuffer t')) = replicate 30 9"
    by blast
  with s' show ?thesis unfolding Let_def by blast
qed

text \<open>What \<^verbatim>\<open>SEC_Decrypt\<close> refuses, with the security switch on: AES text while there is no session key, and a
  kind of encryption it does not know.  It stores no length then.\<close>

definition undecryptable :: "'h zc \<Rightarrow> u8 \<Rightarrow> bool" where
  "undecryptable s ty \<longleftrightarrow> u32SecSwitch (struSwitchInfo (g_struZcConfigDb s)) \<noteq> 0
     \<and> (ty = ZC_SEC_ALG_AES \<and> u8keyRecv (con s) \<noteq> PCT_KEY_RECVED
        \<or> ty \<notin> {ZC_SEC_ALG_NONE, ZC_SEC_ALG_RSA, ZC_SEC_ALG_AES})"

lemma SEC_Decrypt_refuses:
  "undecryptable s (u8SecType h) \<Longrightarrow> SEC_Decrypt A s h c out l = Some (ZC_RET_ERROR, out, l)"
  by (auto simp: undecryptable_def SEC_Decrypt_def sec_flag_def SEC_AesDecrypt_def Let_def)

text \<open>\<^verbatim>\<open>u16PlainLen\<close>, as it is found on the stack.\<close>

abbreviation left_on_stack :: "'h zc \<Rightarrow> nat" where
  "left_on_stack s \<equiv> unat (le16 (fst (indet 2 s)))"

lemma accept_frame_refused:
  assumes "undecryptable s (u8SecType (get_SecHead (u8MsgBuffer b)))" "recv_inv b" "length (g_u8MsgBuildBuffer s) = 600"
  shows "if left_on_stack s \<le> 600
     then \<exists>s'. accept_frame A b s = Some s' \<and> u8Status (g_struRecvBuffer s') = u8Status b \<and> g_struRecvQueue s' = g_struRecvQueue s
     else accept_frame A b s = None"
proof -
  obtain x st where ind: "indet 2 s = (x, s\<lparr>stack := st\<rparr>)"
    by (auto simp: indet_def)
  have dec: "SEC_Decrypt A (s\<lparr>stack := st\<rparr>) (get_SecHead (u8MsgBuffer b)) c out l = Some (ZC_RET_ERROR, out, l)" for c out l
    using assms(1) by (intro SEC_Decrypt_refuses) (simp add: undecryptable_def)
  have "length (u8MsgBuffer b) = 600"
    using assms(2) by (simp add: recv_inv_def)
  then show ?thesis
    using assms(3) by (auto simp: accept_frame_def ind dec rd_def wr_def Let_def)
qed

text \<open>C19: A frame that does not decrypt blocks the receiver.  Take a module whose security switch is on (not 0: the
  default is 1, \<^verbatim>\<open>HF_Init\<close> sets it to 0, where everything counts as plain text, and a configuration message
  sets it again), and a frame that fits the buffer and is AES text before there is a session key or of an unknown
  kind.  However the frame is cut into pieces, the last one makes \<^verbatim>\<open>MSG_RecvDataFromCloud\<close> copy as many bytes as
  the indeterminate \<^verbatim>\<open>u16PlainLen\<close> says: more than 600 is undefined behaviour (it reads and writes past both
  buffers); otherwise the call returns, with the receive buffer FULL and nothing queued, and from then on
  \<^verbatim>\<open>MSG_RecvDataFromCloud\<close> ignores whatever arrives, in any number of pieces, until \<^verbatim>\<open>MSG_Init\<close>.\<close>

theorem undecryptable_frame_blocks:
  assumes "recv_ok s" "u8Status (g_struRecvBuffer s) = MSG_BUFFER_IDLE" "undecryptable s (u8SecType h)"
    and "unat (ZC_HTONS (u16TotalMsg h)) = length c" "length c \<le> 596" "concat ds = put_SecHead h @ c"
  shows "if left_on_stack s \<le> 600
     then \<exists>s'. cloud_stream A ds s = Some s' \<and> u8Status (g_struRecvBuffer s') = MSG_BUFFER_FULL
       \<and> ring_contents (g_struRecvQueue s') = [] \<and> (\<forall>ds'. cloud_stream A ds' s' = Some s')
     else cloud_stream A ds s = None"
proof -
  let ?f = "put_SecHead h @ c"
  have s: "recv_inv (g_struRecvBuffer s)" "length (g_u8MsgBuildBuffer s) = 600" "ring_contents (g_struRecvQueue s) = []"
      "recv_acc (g_struRecvBuffer s) = []"
    using assms(1,2) by (auto simp: recv_fields_ok_def recv_acc_def)
  have idle: "u8Status (g_struRecvBuffer s) \<noteq> MSG_BUFFER_FULL"
    using assms(2) by simp
  have f: "frame_len ?f = length ?f" "length ?f \<le> 600" "recv_acc (g_struRecvBuffer s) @ concat ds = ?f"
      "length (recv_acc (g_struRecvBuffer s)) < length ?f"
    using assms(4-6) s(4) by (simp_all add: frame_len_def put_SecHead_def)
  obtain b ds1 where b: "recv_inv b" "u8Status b = MSG_BUFFER_FULL" "recv_acc b = ?f"
      "cloud_stream A ds s = accept_frame A b (s\<lparr>g_struRecvBuffer := b\<rparr>) \<bind> cloud_stream A ds1"
    using cloud_stream_completes [OF s(1) idle f, of A] by (elim exE conjE) (rule that)
  have "u8MsgBuffer b = ?f @ drop (unat (u32Len b)) (u8MsgBuffer b)"
    using b(2,3) by (metis append_take_drop_id one_neq_zero recv_acc_def)
  then have "get_SecHead (u8MsgBuffer b) = h"
    by (metis append.assoc get_put_SecHead)
  then have "undecryptable (s\<lparr>g_struRecvBuffer := b\<rparr>) (u8SecType (get_SecHead (u8MsgBuffer b)))"
    using assms(3) by (simp add: undecryptable_def)
  from accept_frame_refused [OF this b(1), of A] b(2,4) s(2,3) show ?thesis
    by (auto simp: indet_def cloud_stream_full split: if_splits)
qed

text \<open>A state without a session key, and a frame of AES text in two pieces.\<close>

definition zc_unkeyed :: "unit zc" where
  "zc_unkeyed = MSG_Init (ZC_ConfigInitPara (zc_start (\<lambda>_. 0) ()))"

lemma unkeyed_ok:
  "recv_ok zc_unkeyed" "u8Status (g_struRecvBuffer zc_unkeyed) = MSG_BUFFER_IDLE"
  "undecryptable zc_unkeyed ZC_SEC_ALG_AES" "left_on_stack zc_unkeyed = 0"
proof -
  have q: "ring_inv (MSG_InitQueue zero_queue :: buffer_ref MSG_Queue)"
      "ring_contents (MSG_InitQueue zero_queue :: buffer_ref MSG_Queue) = []"
    using ring_start [of zero_queue] by (simp_all add: ring_storage_def zero_queue_def)
  then show "recv_ok zc_unkeyed" "u8Status (g_struRecvBuffer zc_unkeyed) = MSG_BUFFER_IDLE"
      "undecryptable zc_unkeyed ZC_SEC_ALG_AES" "left_on_stack zc_unkeyed = 0"
    by (auto simp: zc_unkeyed_def MSG_Init_def ZC_ConfigInitPara_def Let_def config_update_def zc_start_def
        recv_fields_ok_def recv_inv_def idle_def zero_buffer_def zero_con_def undecryptable_def indet_def le16_def)
qed

theorem undecryptable_frame_blocks_witness:
  "let h = \<lparr>u16TotalMsg = ZC_HTONS 16, u8SecType = ZC_SEC_ALG_AES, u8Resver = 0\<rparr>
   in \<exists>s'. cloud_stream quiet_adapter [take 3 (put_SecHead h), drop 3 (put_SecHead h) @ replicate 16 7] zc_unkeyed = Some s'
     \<and> u8Status (g_struRecvBuffer s') = MSG_BUFFER_FULL \<and> ring_contents (g_struRecvQueue s') = []
     \<and> cloud_stream quiet_adapter [[1, 2, 3], [4]] s' = Some s'"
proof -
  let ?h = "\<lparr>u16TotalMsg = ZC_HTONS 16, u8SecType = ZC_SEC_ALG_AES, u8Resver = 0\<rparr>"
  have "undecryptable zc_unkeyed (u8SecType ?h)" "unat (ZC_HTONS (u16TotalMsg ?h)) = length (replicate 16 (7 :: u8))"
      "length (replicate 16 (7 :: u8)) \<le> 596"
    using unkeyed_ok(3) by (simp_all add: ZC_HTONS_involution)
  moreover have "concat [take 3 (put_SecHead ?h), drop 3 (put_SecHead ?h) @ r] = put_SecHead ?h @ r" for r
    by (simp add: put_SecHead_def)
  ultimately show ?thesis
    using undecryptable_frame_blocks [OF unkeyed_ok(1,2), of ?h "replicate 16 7"
        "[take 3 (put_SecHead ?h), drop 3 (put_SecHead ?h) @ replicate 16 7]" quiet_adapter]
    unfolding unkeyed_ok(4) Let_def by (auto simp del: cloud_stream.simps)
qed

end
