(* ===== verification/Client.thy ===== *)
theory Client
  imports CloudLink
begin

text \<open>
  The clients of the local network, \<^verbatim>\<open>zc_client_manager.c\<close>: the table of four slots, which one client
  at a time may talk, and the way of a client's message to the module.  In the table
  \<^verbatim>\<open>ZC_CLIENT_VAILD_FLAG\<close> marks a free slot.
\<close>

section \<open>The code\<close>

definition client_update :: "(ZC_ClientInfo \<Rightarrow> ZC_ClientInfo) \<Rightarrow> 'h zc \<Rightarrow> 'h zc" where
  "client_update f s = s\<lparr>g_struClientInfo := f (g_struClientInfo s)\<rparr>"

definition ZC_SetClientBusy :: "u32 \<Rightarrow> 'h zc \<Rightarrow> 'h zc" where
  "ZC_SetClientBusy fd = client_update (\<lambda>c. c\<lparr>u8ClientStates := ZC_CLIENT_STATUS_BUSY, u32ClientBusyId := ucast fd\<rparr>)"

definition ZC_SetClientFree :: "'h zc \<Rightarrow> 'h zc" where
  "ZC_SetClientFree = client_update (\<lambda>c. c\<lparr>u8ClientStates := ZC_CLIENT_STATUS_IDLE\<rparr>)"

fun ZC_ClientDisconnect_loop :: "nat \<Rightarrow> nat \<Rightarrow> u32 \<Rightarrow> 'h zc \<Rightarrow> 'h zc option" where
  "ZC_ClientDisconnect_loop 0 i u32ClientId s = Some s"
| "ZC_ClientDisconnect_loop (Suc k) i u32ClientId s = do {
     fd \<leftarrow> rd1 (u32ClientFd (g_struClientInfo s)) i;
     s \<leftarrow> (if u32ClientId = fd then do {
         fl \<leftarrow> wr1 (u32ClientVaildFlag (g_struClientInfo s)) i ZC_CLIENT_VAILD_FLAG;
         let s = client_update (\<lambda>c. c\<lparr>u32ClientVaildFlag := fl\<rparr>) s;
         Some (if u8ClientStates (g_struClientInfo s) = ZC_CLIENT_STATUS_BUSY
                  \<and> u32ClientId = ucast (u32ClientBusyId (g_struClientInfo s))
               then ZC_SetClientFree s else s)
       } else Some s);
     ZC_ClientDisconnect_loop k (Suc i) u32ClientId s
   }"

definition ZC_ClientDisconnect :: "u32 \<Rightarrow> 'h zc \<Rightarrow> 'h zc option" where
  "ZC_ClientDisconnect = ZC_ClientDisconnect_loop ZC_MAX_CLIENT_NUM 0"

fun ZC_ClientConnect_loop :: "nat \<Rightarrow> nat \<Rightarrow> u32 \<Rightarrow> 'h zc \<Rightarrow> ('h zc \<times> u32) option" where
  "ZC_ClientConnect_loop 0 i u32ClientId s = Some (s, ZC_RET_ERROR)"
| "ZC_ClientConnect_loop (Suc k) i u32ClientId s = do {
     fl \<leftarrow> rd1 (u32ClientVaildFlag (g_struClientInfo s)) i;
     if fl = ZC_CLIENT_VAILD_FLAG then do {
       fds \<leftarrow> wr1 (u32ClientFd (g_struClientInfo s)) i u32ClientId;
       fls \<leftarrow> wr1 (u32ClientVaildFlag (g_struClientInfo s)) i ZC_CLIENT_INVAILD_FLAG;
       Some (client_update (\<lambda>c. c\<lparr>u32ClientFd := fds, u32ClientVaildFlag := fls\<rparr>) s, ZC_RET_OK)
     } else ZC_ClientConnect_loop k (Suc i) u32ClientId s
   }"

definition ZC_ClientConnect :: "u32 \<Rightarrow> 'h zc \<Rightarrow> ('h zc \<times> u32) option" where
  "ZC_ClientConnect = ZC_ClientConnect_loop ZC_MAX_CLIENT_NUM 0"

definition ZC_ClientInit :: "'h zc \<Rightarrow> 'h zc" where
  "ZC_ClientInit = client_update (\<lambda>c. c\<lparr>u8ClientStates := ZC_CLIENT_STATUS_INIT,
     u32ClientVaildFlag := map (\<lambda>_. ZC_CLIENT_VAILD_FLAG) (u32ClientVaildFlag c)\<rparr>)"

definition ZC_CheckClientIdle :: "u32 \<Rightarrow> 'h zc \<Rightarrow> u32" where
  "ZC_CheckClientIdle fd s =
     (if u8ClientStates (g_struClientInfo s) = ZC_CLIENT_STATUS_IDLE then ZC_RET_OK
      else if fd = ucast (u32ClientBusyId (g_struClientInfo s)) then ZC_RET_OK
      else ZC_RET_ERROR)"

definition ZC_StartClientListen :: "'h PTC_ModuleAdapter \<Rightarrow> 'h zc \<Rightarrow> 'h zc option" where
  "ZC_StartClientListen A s =
     (if u8ClientStates (g_struClientInfo s) = ZC_CLIENT_STATUS_WAKEUP then do {
        (s, r) \<leftarrow> pfunListenClient A s;
        if r \<noteq> ZC_RET_OK then Some s
        else Some (client_update (\<lambda>c. c\<lparr>u8ClientStates := ZC_CLIENT_STATUS_IDLE\<rparr>) s)
      } else Some s)"

definition ZC_ClientWakeUp :: "'h zc \<Rightarrow> 'h zc" where
  "ZC_ClientWakeUp = client_update (\<lambda>c. c\<lparr>u8ClientStates := ZC_CLIENT_STATUS_WAKEUP\<rparr>)"

definition ZC_ClientSleep :: "'h zc \<Rightarrow> 'h zc" where
  "ZC_ClientSleep = ZC_ClientInit"

text \<open>The answer to a client that has to wait: an error message under the token key, encrypted in place.
  The byte \<^verbatim>\<open>u8Resver\<close> of the head keeps what the buffer holds.\<close>

definition refuse_client :: "'h PTC_ModuleAdapter \<Rightarrow> u32 \<Rightarrow> 'h zc \<Rightarrow> 'h zc option" where
  "refuse_client A fd s = do {
     key \<leftarrow> ZC_GetStoreInfor ZC_GET_TYPE_TOKENKEY s;
     (m, n) \<leftarrow> EVENT_BuildMsg ZC_CODE_ERR 0 (drop 4 (g_u8MsgBuildBuffer s)) [] 0;
     iv \<leftarrow> rd key 0 ZC_HS_SESSION_KEY_LEN;
     (c, len) \<leftarrow> AES_CBC_Encrypt key_object m (ucast n) key 16 iv m;
     let h = (get_SecHead (g_u8MsgBuildBuffer s))\<lparr>u8SecType := ZC_SEC_ALG_AES, u16TotalMsg := ZC_HTONS (ucast len)\<rparr>;
     let build = put_SecHead h @ c;
     pfunSendTcpData A fd build (ucast (len + 4)) \<lparr>u8NeedPoll = 0, pu8AddrPara = None\<rparr>
       (s\<lparr>g_u8MsgBuildBuffer := build\<rparr>)
   }"

text \<open>The \<^verbatim>\<open>do\<close> block: the message in the client buffer is decrypted, gets the session option and goes to
  the module.  Each \<^verbatim>\<open>break\<close> returns the state at that point.\<close>

definition insert_session :: "u32 \<Rightarrow> u8 list \<Rightarrow> u8 list \<Rightarrow> (u8 list \<times> u16) option" where
  "insert_session fd build buf = do {
     let h = get_MessageHead build;
     buf \<leftarrow> wr buf 0 (take 8 build);
     buf \<leftarrow> wr buf 8 (put_MessageOptHead \<lparr>OptCode = ZC_HTONS ZC_OPT_SSESSION, OptLen = ZC_HTONS 4\<rparr>);
     buf \<leftarrow> wr buf 12 (bytes32 (ZC_HTONL fd));
     d \<leftarrow> rd build 8 (unat (ucast (ZC_HTONS (Payloadlen h)) - 8 :: u32));
     buf \<leftarrow> wr buf 16 d;
     let n = 16 + (ZC_HTONS (Payloadlen h) - 8);
     d \<leftarrow> rd buf 8 (unat (n - 8));
     buf \<leftarrow> wr buf 6 (crc_bytes (crc16_ccitt d));
     Some (buf, n)
   }"

text \<open>From the decrypted message on.\<close>

definition forward_plain :: "'h PTC_ModuleAdapter \<Rightarrow> u32 \<Rightarrow> u8 list \<Rightarrow> 'h zc \<Rightarrow> 'h zc option" where
  "forward_plain A fd build s = do {
     let b = g_struClientBuffer s;
     let h = get_MessageHead build;
     r \<leftarrow> PCT_CheckCrc (TotalMsgCrc h) (drop 8 build) (ZC_HTONS (Payloadlen h));
     if r = ZC_RET_ERROR then Some (s\<lparr>g_u8MsgBuildBuffer := build\<rparr>)
     else do {
       let h = h\<lparr>Payloadlen := ZC_HTONS (ZC_HTONS (Payloadlen h) + 8)\<rparr>;
       build \<leftarrow> wr build 0 (put_MessageHead h);
       if ZC_HTONS (Payloadlen h) > MSG_BULID_BUFFER_MAXLEN then Some (s\<lparr>g_u8MsgBuildBuffer := build\<rparr>)
       else do {
         let h = h\<lparr>OptNum := OptNum h + 1\<rparr>;
         build \<leftarrow> wr build 0 (put_MessageHead h);
         (m, n) \<leftarrow> insert_session fd build (u8MsgBuffer b);
         (s, r) \<leftarrow> pfunSendToMoudle A m n
           (s\<lparr>g_u8MsgBuildBuffer := build, g_struClientBuffer := b\<lparr>u8MsgBuffer := m, u32Len := ucast n\<rparr>\<rparr>);
         Some s
       }
     }
   }"

definition forward_client :: "'h PTC_ModuleAdapter \<Rightarrow> u32 \<Rightarrow> 'h zc \<Rightarrow> 'h zc option" where
  "forward_client A fd s = do {
     key \<leftarrow> ZC_GetStoreInfor ZC_GET_TYPE_TOKENKEY s;
     let buf = u8MsgBuffer (g_struClientBuffer s);
     let total = ZC_HTONS (u16TotalMsg (get_SecHead buf));
     if total \<ge> MSG_BULID_BUFFER_MAXLEN then Some s
     else do {
       iv \<leftarrow> rd key 0 ZC_HS_SESSION_KEY_LEN;
       (build, len) \<leftarrow> AES_CBC_Decrypt key_object (drop 4 buf) (ucast total) key 16 iv (g_u8MsgBuildBuffer s);
       forward_plain A fd build s
     }
   }"

definition ZC_RecvDataFromClient :: "'h PTC_ModuleAdapter \<Rightarrow> u32 \<Rightarrow> u8 list \<Rightarrow> u32 \<Rightarrow> 'h zc \<Rightarrow> 'h zc option" where
  "ZC_RecvDataFromClient A ClientId pu8Data u32DataLen s =
     (if ZC_CheckClientIdle ClientId s = ZC_RET_ERROR then refuse_client A ClientId s
      else do {
        let s = ZC_SetClientBusy ClientId s;
        (b, r) \<leftarrow> MSG_RecvData (g_struClientBuffer s) pu8Data u32DataLen;
        let s = s\<lparr>g_struClientBuffer := b\<rparr>;
        if u8Status b = MSG_BUFFER_FULL \<and> r = ZC_RET_OK then do {
          s \<leftarrow> forward_client A ClientId s;
          Some (ZC_SetClientFree (s\<lparr>g_struClientBuffer := idle (g_struClientBuffer s)\<rparr>))
        } else Some s
      })"

end
