(* ===== verification/Controller.thy ===== *)
theory Controller
  imports Client
begin

text \<open>
  The protocol controller, \<^verbatim>\<open>zc_protocol_controller.c\<close>, with \<^verbatim>\<open>TIMER_TimeoutAction\<close> of
  \<^verbatim>\<open>zc_timer.c\<close>: the handshake with the cloud, the events that come from it, the messages to the module
  with their retransmission, the firmware update, and the one-step machine \<^verbatim>\<open>PCT_Run\<close>.  The argument
  \<^verbatim>\<open>pstruContoller\<close> is always the global controller.
\<close>

section \<open>Messages without a state of their own\<close>

text \<open>A security head on the stack: \<^verbatim>\<open>u8Resver\<close> is never assigned.\<close>

definition sec_head :: "u8 \<Rightarrow> u16 \<Rightarrow> 'h zc \<Rightarrow> ZC_SecHead \<times> 'h zc" where
  "sec_head ty len s =
     (let (x, s) = indet 1 s in (\<lparr>u16TotalMsg = ZC_HTONS len, u8SecType = ty, u8Resver = x ! 0\<rparr>, s))"

definition PCT_SendNotifyMsg :: "'h PTC_ModuleAdapter \<Rightarrow> u8 \<Rightarrow> 'h zc \<Rightarrow> 'h zc option" where
  "PCT_SendNotifyMsg A u8NotifyCode s = do {
     (m, n) \<leftarrow> EVENT_BuildMsg u8NotifyCode 0 (g_u8MsgBuildBuffer s) [] 0;
     (s, r) \<leftarrow> pfunSendToMoudle A m n (s\<lparr>g_u8MsgBuildBuffer := m\<rparr>);
     Some s
   }"

definition PCT_SendHeartMsg :: "'h PTC_ModuleAdapter \<Rightarrow> 'h zc \<Rightarrow> 'h zc option" where
  "PCT_SendHeartMsg A s = do {
     (m, n) \<leftarrow> EVENT_BuildHeartMsg (replicate 8 0);
     let (h, s) = sec_head ZC_SEC_ALG_AES n s;
     (s, r) \<leftarrow> PCT_SendMsgToCloud A h m s;
     set_timer A PCT_TIMER_SENDHEART PCT_TIMER_INTERVAL_HEART u8HeartTimer_update s
   }"

definition PCT_SendEmptyMsg :: "'h PTC_ModuleAdapter \<Rightarrow> u8 \<Rightarrow> u8 \<Rightarrow> 'h zc \<Rightarrow> 'h zc option" where
  "PCT_SendEmptyMsg A msgid sectype s = do {
     (m, n) \<leftarrow> EVENT_BuildEmptyMsg msgid (replicate 8 0);
     let (h, s) = sec_head sectype n s;
     (s, r) \<leftarrow> PCT_SendMsgToCloud A h m s;
     Some s
   }"

text \<open>A message built in \<^verbatim>\<open>g_u8MsgBuildBuffer\<close> and sent to the cloud; three functions do it.\<close>

definition build_and_send ::
  "'h PTC_ModuleAdapter \<Rightarrow> u8 \<Rightarrow> u8 \<Rightarrow> u8 list \<Rightarrow> u16 \<Rightarrow> u8 \<Rightarrow> 'h zc \<Rightarrow> ('h zc \<times> u32) option" where
  "build_and_send A code msgid payload len sectype s = do {
     (m, n) \<leftarrow> EVENT_BuildMsg code msgid (g_u8MsgBuildBuffer s) payload len;
     let (h, s) = sec_head sectype n (s\<lparr>g_u8MsgBuildBuffer := m\<rparr>);
     PCT_SendMsgToCloud A h m s
   }"

definition PCT_SendErrorMsg :: "'h PTC_ModuleAdapter \<Rightarrow> u8 \<Rightarrow> u8 list \<Rightarrow> u16 \<Rightarrow> 'h zc \<Rightarrow> 'h zc option" where
  "PCT_SendErrorMsg A msgid pu8Error u16ErrorLen s = do {
     (s, r) \<leftarrow> build_and_send A ZC_CODE_ERR msgid pu8Error u16ErrorLen ZC_SEC_ALG_AES s;
     Some s
   }"

definition PCT_SendAckToCloud :: "'h PTC_ModuleAdapter \<Rightarrow> u8 \<Rightarrow> 'h zc \<Rightarrow> 'h zc option" where
  "PCT_SendAckToCloud A msgid s = do {
     (s, r) \<leftarrow> build_and_send A ZC_CODE_ACK msgid [] 0 ZC_SEC_ALG_AES s;
     Some s
   }"

section \<open>Connecting\<close>

definition PCT_Init :: "'h zc \<Rightarrow> 'h zc" where
  "PCT_Init s =
     (let s = con_update (\<lambda>c. c\<lparr>
            struCloudConnection := (struCloudConnection c)\<lparr>u32Socket := PCT_INVAILD_SOCKET, u16Port := ZC_CLOUD_PORT,
              u8IpType := ZC_IPTYPE_IPV4, u8ConnectionType := ZC_CONNECT_TYPE_TCP\<rparr>,
            struClientConnection := (struClientConnection c)\<lparr>u32Socket := PCT_INVAILD_SOCKET, u16Port := ZC_SERVER_PORT,
              u8IpType := ZC_IPTYPE_IPV4, u8ConnectionType := ZC_CONNECT_TYPE_TCP\<rparr>\<rparr>) s;
          s = TIMER_Init (MSG_Init (ZC_ConfigInitPara s));
          s = con_update (\<lambda>c. c\<lparr>u8keyRecv := PCT_KEY_UNRECVED, u8ReconnectTimer := PCT_TIMER_INVAILD,
            u8SendMoudleTimer := PCT_TIMER_INVAILD, u8HeartTimer := PCT_TIMER_INVAILD,
            u8RegisterTimer := PCT_TIMER_INVAILD, u8MainState := PCT_STATE_INIT\<rparr>) s
      in ZC_ClientInit s)"

definition PCT_DisConnectCloud :: "'h PTC_ModuleAdapter \<Rightarrow> 'h zc \<Rightarrow> 'h zc option" where
  "PCT_DisConnectCloud A s =
     (let s = con_update (\<lambda>c. c\<lparr>u8MainState := PCT_STATE_DISCONNECT_CLOUD, u8keyRecv := PCT_KEY_UNRECVED\<rparr>) s
      in PCT_SendNotifyMsg A ZC_CODE_CLOUD_DISCONNECTED (MSG_Init s))"

text \<open>The payload of the first handshake message: nonce, device and domain.\<close>

definition PCT_SendCloudAccessMsg1 :: "'h PTC_ModuleAdapter \<Rightarrow> 'h zc \<Rightarrow> 'h zc option" where
  "PCT_SendCloudAccessMsg1 A s = do {
     s \<leftarrow> (if u8ReconnectTimer (con s) \<noteq> PCT_TIMER_INVAILD then do {
         s \<leftarrow> TIMER_StopTimer A (u8ReconnectTimer (con s)) s;
         Some (con_update (u8ReconnectTimer_update (\<lambda>_. PCT_TIMER_INVAILD)) s)
       } else Some s);
     device \<leftarrow> ZC_GetStoreInfor ZC_GET_TYPE_DEVICEID s;
     rand \<leftarrow> rd (RandMsg (con s)) 0 ZC_HS_MSG_LEN;
     device_id \<leftarrow> rd device 0 ZC_HS_DEVICE_ID_LEN;
     domain \<leftarrow> rd device ZC_HS_DEVICE_ID_LEN ZC_DOMAIN_LEN;
     (s, r) \<leftarrow> build_and_send A ZC_CODE_HANDSHAKE_1 1 (rand @ device_id @ domain) 56 ZC_SEC_ALG_RSA s;
     if r = ZC_RET_ERROR then PCT_DisConnectCloud A s
     else set_timer A PCT_TIMER_REACCESS (PCT_TIMER_INTERVAL_RECONNECT * 120) u8AccessTimer_update
       (con_update (u8MainState_update (\<lambda>_. PCT_STATE_WAIT_ACCESSRSP)) s)
   }"

text \<open>The third: nonce, version of the device, version and type of the module, and three indeterminate
  bytes of padding.\<close>

definition PCT_SendCloudAccessMsg3 :: "'h PTC_ModuleAdapter \<Rightarrow> 'h zc \<Rightarrow> 'h zc option" where
  "PCT_SendCloudAccessMsg3 A s = do {
     version \<leftarrow> ZC_GetStoreInfor ZC_GET_TYPE_VESION s;
     rand \<leftarrow> rd (RandMsg (con s)) 0 ZC_HS_MSG_LEN;
     eq_version \<leftarrow> rd version 0 ZC_EQVERSION_LEN;
     let v = ZC_MODULE_VERSION A;
     let (pad, s) = indet 3 s;
     let s = con_update (u8keyRecv_update (\<lambda>_. PCT_KEY_RECVED)) s;
     (s, r) \<leftarrow> build_and_send A ZC_CODE_HANDSHAKE_3 1
       (rand @ eq_version @ [ucast (drop_bit 24 v), ucast (drop_bit 16 v), ucast (drop_bit 8 v), ucast v]
        @ [ZC_MODULE_TYPE A] @ pad) 44 ZC_SEC_ALG_AES s;
     set_timer A PCT_TIMER_REACCESS (PCT_TIMER_INTERVAL_RECONNECT * 10) u8AccessTimer_update
       (con_update (u8MainState_update (\<lambda>_. PCT_STATE_WAIT_MSG4)) s)
   }"

definition PCT_ConnectCloud :: "'h PTC_ModuleAdapter \<Rightarrow> 'h zc \<Rightarrow> 'h zc option" where
  "PCT_ConnectCloud A s =
     (if u8ReconnectTimer (con s) \<noteq> PCT_TIMER_INVAILD then Some s
      else do {
        (s, r) \<leftarrow> pfunConnectToCloud A s;
        if r \<noteq> ZC_RET_OK then Some s
        else Some (con_update (\<lambda>c. c\<lparr>u8MainState := PCT_STATE_WAIT_ACCESS, u8keyRecv := PCT_KEY_UNRECVED\<rparr>) s)
      })"

text \<open>The loop over the timer table, in \<^verbatim>\<open>PCT_ReconnectCloud\<close> and in \<^verbatim>\<open>PCT_Sleep\<close>.\<close>

fun stop_used_timers :: "nat \<Rightarrow> nat \<Rightarrow> 'h PTC_ModuleAdapter \<Rightarrow> 'h zc \<Rightarrow> 'h zc option" where
  "stop_used_timers 0 i A s = Some s"
| "stop_used_timers (Suc k) i A s = do {
     t \<leftarrow> rd1 (g_struTimer s) i;
     s \<leftarrow> (if u8TimerStatus t = ZC_TIMER_STATUS_USED then TIMER_StopTimer A (word_of_nat i) s else Some s);
     stop_used_timers k (Suc i) A s
   }"

definition PCT_ReconnectCloud :: "'h PTC_ModuleAdapter \<Rightarrow> u32 \<Rightarrow> 'h zc \<Rightarrow> 'h zc option" where
  "PCT_ReconnectCloud A u32ReConnectTimer s =
     (if u8ReconnectTimer (con s) \<noteq> PCT_TIMER_INVAILD then Some s
      else do {
        let s = con_update (u8keyRecv_update (\<lambda>_. PCT_KEY_UNRECVED)) (MSG_Init s);
        s \<leftarrow> stop_used_timers ZC_TIMER_MAX_NUM 0 A s;
        let s = con_update (\<lambda>c. c\<lparr>u8ReconnectTimer := PCT_TIMER_INVAILD, u8SendMoudleTimer := PCT_TIMER_INVAILD,
          u8HeartTimer := PCT_TIMER_INVAILD, u8MainState := PCT_STATE_INIT\<rparr>) (TIMER_Init s);
        s \<leftarrow> set_timer A PCT_TIMER_RECONNECT u32ReConnectTimer u8ReconnectTimer_update s;
        Some (con_update (\<lambda>c. c\<lparr>struCloudConnection := (struCloudConnection c)\<lparr>u32Socket := PCT_INVAILD_SOCKET\<rparr>,
          u8keyRecv := PCT_KEY_UNRECVED, u8MainState := PCT_STATE_INIT\<rparr>) s)
      })"

section \<open>The handshake\<close>

definition handle_msg2 :: "'h PTC_ModuleAdapter \<Rightarrow> ZC_MessageHead \<Rightarrow> u8 list \<Rightarrow> 'h zc \<Rightarrow> 'h zc option" where
  "handle_msg2 A h msg2 s =
     (if MsgCode h = ZC_CODE_HANDSHAKE_2 \<or> MsgCode h = ZC_CODE_ACCESS_POINT_RSP then do {
        r \<leftarrow> PCT_CheckCrc (TotalMsgCrc h) msg2 (ZC_HTONS (Payloadlen h));
        if r = ZC_RET_ERROR then PCT_DisConnectCloud A s
        else do {
          s \<leftarrow> TIMER_StopTimer A (u8AccessTimer (con s)) s;
          rand \<leftarrow> rd msg2 0 ZC_HS_MSG_LEN;
          if rand = RandMsg (con s) then
            if MsgCode h = ZC_CODE_HANDSHAKE_2 then do {
              key \<leftarrow> rd msg2 32 ZC_HS_SESSION_KEY_LEN;
              PCT_SendCloudAccessMsg3 A (con_update (\<lambda>c. c\<lparr>u8SessionKey := key, IvRecv := key, IvSend := key\<rparr>) s)
            } else do {
              addr \<leftarrow> rd32 msg2 32;
              port \<leftarrow> rd16 msg2 36;
              s \<leftarrow> ZC_StoreAccessInfo A (bytes32 (ZC_HTONL addr)) (bytes16 (ZC_HTONS port)) s;
              PCT_DisConnectCloud A s
            }
          else PCT_DisConnectCloud A s
        }
      } else Some s)"

definition PCT_RecvAccessMsg2 :: "'h PTC_ModuleAdapter \<Rightarrow> 'h zc \<Rightarrow> 'h zc option" where
  "PCT_RecvAccessMsg2 A s = do {
     (q, m) \<leftarrow> MSG_PopMsg (g_struRecvQueue s);
     let s = s\<lparr>g_struRecvQueue := q\<rparr>;
     case m of
       None \<Rightarrow> Some s
     | Some r \<Rightarrow> do {
         b \<leftarrow> get_buffer r s;
         s \<leftarrow> handle_msg2 A (get_MessageHead (u8MsgBuffer b)) (drop 8 (u8MsgBuffer b)) s;
         release r s
       }
   }"

definition handle_msg4 :: "'h PTC_ModuleAdapter \<Rightarrow> ZC_MessageHead \<Rightarrow> u8 list \<Rightarrow> 'h zc \<Rightarrow> 'h zc option" where
  "handle_msg4 A h msg4 s =
     (if MsgCode h = ZC_CODE_HANDSHAKE_4 then do {
        r \<leftarrow> PCT_CheckCrc (TotalMsgCrc h) msg4 (ZC_HTONS (Payloadlen h));
        if r = ZC_RET_ERROR then PCT_DisConnectCloud A s
        else do {
          s \<leftarrow> TIMER_StopTimer A (u8AccessTimer (con s)) s;
          rand \<leftarrow> rd msg4 0 ZC_HS_MSG_LEN;
          if rand = RandMsg (con s) then
            PCT_SendNotifyMsg A ZC_CODE_CLOUD_CONNECTED (con_update (u8MainState_update (\<lambda>_. PCT_STATE_CONNECT_CLOUD)) s)
          else PCT_DisConnectCloud A s
        }
      } else Some s)"

text \<open>The heart timer is restarted, here and in \<^verbatim>\<open>PCT_HandleMoudleMsg\<close>.\<close>

definition restart_heart :: "'h PTC_ModuleAdapter \<Rightarrow> 'h zc \<Rightarrow> 'h zc option" where
  "restart_heart A s = do {
     s \<leftarrow> (if u8HeartTimer (con s) \<noteq> PCT_TIMER_INVAILD then TIMER_StopTimer A (u8HeartTimer (con s)) s else Some s);
     set_timer A PCT_TIMER_SENDHEART PCT_TIMER_INTERVAL_HEART u8HeartTimer_update s
   }"

definition PCT_RecvAccessMsg4 :: "'h PTC_ModuleAdapter \<Rightarrow> 'h zc \<Rightarrow> 'h zc option" where
  "PCT_RecvAccessMsg4 A s = do {
     (q, m) \<leftarrow> MSG_PopMsg (g_struRecvQueue s);
     let s = s\<lparr>g_struRecvQueue := q\<rparr>;
     case m of
       None \<Rightarrow> Some s
     | Some r \<Rightarrow> do {
         b \<leftarrow> get_buffer r s;
         s \<leftarrow> handle_msg4 A (get_MessageHead (u8MsgBuffer b)) (drop 8 (u8MsgBuffer b)) s;
         s \<leftarrow> release r s;
         restart_heart A s
       }
   }"

section \<open>Messages to the module\<close>

definition PCT_SendMoudleTimeout :: "'h PTC_ModuleAdapter \<Rightarrow> 'h zc \<Rightarrow> 'h zc option" where
  "PCT_SendMoudleTimeout A s = do {
     r \<leftarrow> pu8SendMoudleBuffer (con s);
     b \<leftarrow> get_buffer r s;
     let s = con_update (\<lambda>c. c\<lparr>u8ReSendMoudleNum := u8ReSendMoudleNum c + 1\<rparr>) s;
     if u8ReSendMoudleNum (con s) > PCT_SENDMOUDLE_NUM then do {
       s \<leftarrow> release r s;
       let s = con_update (\<lambda>c. c\<lparr>u8SendMoudleTimer := PCT_TIMER_INVAILD, u8ReSendMoudleNum := 0\<rparr>) s;
       PCT_SendErrorMsg A (MsgId (get_MessageHead (u8MsgBuffer b))) [] 0 s
     } else do {
       (s, r) \<leftarrow> pfunSendToMoudle A (u8MsgBuffer b) (ucast (u32Len b)) s;
       set_timer A PCT_TIMER_SENDMOUDLE PCT_TIMER_INTERVAL_SENDMOUDLE u8SendMoudleTimer_update s
     }
   }"

definition PCT_HandleMoudleEvent :: "'h PTC_ModuleAdapter \<Rightarrow> u8 list \<Rightarrow> u16 \<Rightarrow> 'h zc \<Rightarrow> 'h zc option" where
  "PCT_HandleMoudleEvent A pu8Data u16DataLen s = do {
     s \<leftarrow> (if u8SendMoudleTimer (con s) \<noteq> PCT_TIMER_INVAILD then do {
         s \<leftarrow> TIMER_StopTimer A (u8SendMoudleTimer (con s)) s;
         r \<leftarrow> pu8SendMoudleBuffer (con s);
         s \<leftarrow> release r s;
         Some (con_update (\<lambda>c. c\<lparr>u8SendMoudleTimer := PCT_TIMER_INVAILD, u8ReSendMoudleNum := 0\<rparr>) s)
       } else Some s);
     let (h, s) = sec_head ZC_SEC_ALG_AES u16DataLen s;
     (s, r) \<leftarrow> PCT_SendMsgToCloud A h pu8Data s;
     Some s
   }"

definition PCT_HandleMoudleMsg :: "'h PTC_ModuleAdapter \<Rightarrow> MSG_Buffer \<Rightarrow> 'h zc \<Rightarrow> 'h zc option" where
  "PCT_HandleMoudleMsg A b s = do {
     s \<leftarrow> set_timer A PCT_TIMER_SENDMOUDLE PCT_TIMER_INTERVAL_SENDMOUDLE u8SendMoudleTimer_update s;
     d \<leftarrow> rd (u8MsgBuffer b) 0 (unat (u32Len b));
     m \<leftarrow> wr (u8MsgBuffer (g_struRetxBuffer s)) 0 d;
     let s = s\<lparr>g_struRetxBuffer := (g_struRetxBuffer s)\<lparr>u8MsgBuffer := m, u32Len := u32Len b, u8Status := MSG_BUFFER_FULL\<rparr>\<rparr>;
     let s = con_update (\<lambda>c. c\<lparr>pu8SendMoudleBuffer := Some RetxBuffer, u8ReSendMoudleNum := 0\<rparr>) s;
     (s, r) \<leftarrow> pfunSendToMoudle A (u8MsgBuffer b) (ucast (u32Len b)) s;
     restart_heart A s
   }"

section \<open>The firmware update\<close>

definition ota_update :: "(PTC_OtaInfo \<Rightarrow> PTC_OtaInfo) \<Rightarrow> 'h zc \<Rightarrow> 'h zc" where
  "ota_update f = con_update (\<lambda>c. c\<lparr>struOtaInfo := f (struOtaInfo c)\<rparr>)"

text \<open>\<^verbatim>\<open>ZC_OtaFileBeginReq\<close>: type, version, checksum, total length.\<close>

definition ota_file_begin :: "u8 list \<Rightarrow> 'h zc \<Rightarrow> 'h zc option" where
  "ota_file_begin ota s = do {
     total \<leftarrow> rd32 ota 4;
     crc \<leftarrow> rd ota 2 2;
     Some (ota_update (\<lambda>i. i\<lparr>u32RecvOffset := 0, u32TotalLen := ZC_HTONL total, u8Crc := crc\<rparr>) s)
   }"

text \<open>The check of the parameters of a chunk.\<close>

definition ota_chunk_ok :: "u32 \<Rightarrow> u32 \<Rightarrow> 'h zc \<Rightarrow> bool" where
  "ota_chunk_ok off len s \<longleftrightarrow> \<not> (off \<noteq> u32RecvOffset (struOtaInfo (con s))
     \<or> off + len > u32TotalLen (struOtaInfo (con s)) \<or> len > ZC_OTA_MAX_CHUNK_LEN)"

definition PCT_ModuleOtaFileBeginMsg :: "'h PTC_ModuleAdapter \<Rightarrow> u8 list \<Rightarrow> 'h zc \<Rightarrow> 'h zc option" where
  "PCT_ModuleOtaFileBeginMsg A ota s = do {
     s \<leftarrow> ota_file_begin ota s;
     PCT_SendNotifyMsg A ZC_CODE_ACK s
   }"

definition PCT_ModuleOtaFileChunkMsg :: "'h PTC_ModuleAdapter \<Rightarrow> ZC_MessageHead \<Rightarrow> u8 list \<Rightarrow> 'h zc \<Rightarrow> 'h zc option" where
  "PCT_ModuleOtaFileChunkMsg A h ota s = do {
     let len = ucast (ZC_HTONS (Payloadlen h)) - 4;
     x \<leftarrow> rd32 ota 0;
     let off = ZC_HTONL x;
     if \<not> ota_chunk_ok off len s then PCT_SendNotifyMsg A ZC_CODE_ERR s
     else do {
       r \<leftarrow> PCT_CheckCrc (TotalMsgCrc h) ota (ZC_HTONS (Payloadlen h));
       if r = ZC_RET_ERROR then PCT_SendNotifyMsg A ZC_CODE_ERR s
       else do {
         (s, r) \<leftarrow> pfunUpdate A (drop 4 ota) off len s;
         if r = ZC_RET_ERROR then PCT_SendNotifyMsg A ZC_CODE_ERR s
         else PCT_SendNotifyMsg A ZC_CODE_ACK (ota_update (\<lambda>i. i\<lparr>u32RecvOffset := u32RecvOffset i + len\<rparr>) s)
       }
     }
   }"

definition PCT_ModuleOtaFileEndMsg :: "'h PTC_ModuleAdapter \<Rightarrow> 'h zc \<Rightarrow> 'h zc option" where
  "PCT_ModuleOtaFileEndMsg A s = do {
     (s, r) \<leftarrow> pfunUpdateFinish A (u32TotalLen (struOtaInfo (con s))) s;
     PCT_SendNotifyMsg A (if r = ZC_RET_ERROR then ZC_CODE_ERR else ZC_CODE_ACK) s
   }"

definition PCT_HandleOtaBeginMsg :: "'h PTC_ModuleAdapter \<Rightarrow> u8 list \<Rightarrow> 'h zc \<Rightarrow> 'h zc option" where
  "PCT_HandleOtaBeginMsg A msg s = do {
     s \<leftarrow> PCT_SendAckToCloud A (MsgId (get_MessageHead msg)) s;
     PCT_SendNotifyMsg A ZC_CODE_ZOTA_BEGIN s
   }"

definition PCT_HandleOtaFileBeginMsg :: "'h PTC_ModuleAdapter \<Rightarrow> u8 list \<Rightarrow> 'h zc \<Rightarrow> 'h zc option" where
  "PCT_HandleOtaFileBeginMsg A msg s = do {
     s \<leftarrow> ota_file_begin (drop 8 msg) s;
     PCT_SendAckToCloud A (MsgId (get_MessageHead msg)) s
   }"

definition PCT_HandleOtaFileChunkMsg :: "'h PTC_ModuleAdapter \<Rightarrow> u8 list \<Rightarrow> 'h zc \<Rightarrow> 'h zc option" where
  "PCT_HandleOtaFileChunkMsg A msg s = do {
     let h = get_MessageHead msg;
     let len = ucast (ZC_HTONS (Payloadlen h)) - 4;
     x \<leftarrow> rd32 msg 8;
     let off = ZC_HTONL x;
     if \<not> ota_chunk_ok off len s then PCT_SendErrorMsg A (MsgId h) [] 0 s
     else do {
       (s, r) \<leftarrow> pfunUpdate A (drop 12 msg) off len s;
       if r = ZC_RET_ERROR then PCT_SendErrorMsg A (MsgId h) [] 0 s
       else PCT_SendAckToCloud A (MsgId h) (ota_update (\<lambda>i. i\<lparr>u32RecvOffset := u32RecvOffset i + len\<rparr>) s)
     }
   }"

definition PCT_HandleOtaFileEndMsg :: "'h PTC_ModuleAdapter \<Rightarrow> u8 list \<Rightarrow> 'h zc \<Rightarrow> 'h zc option" where
  "PCT_HandleOtaFileEndMsg A msg s = PCT_SendAckToCloud A (MsgId (get_MessageHead msg)) s"

definition PCT_HandleOtaEndMsg :: "'h PTC_ModuleAdapter \<Rightarrow> u8 list \<Rightarrow> 'h zc \<Rightarrow> 'h zc option" where
  "PCT_HandleOtaEndMsg A msg s = do {
     (s, r) \<leftarrow> pfunUpdateFinish A (u32TotalLen (struOtaInfo (con s))) s;
     if r = ZC_RET_ERROR then PCT_SendErrorMsg A (MsgId (get_MessageHead msg)) [] 0 s
     else do {
       s \<leftarrow> PCT_SendAckToCloud A (MsgId (get_MessageHead msg)) s;
       PCT_SendNotifyMsg A ZC_CODE_ZOTA_END s
     }
   }"

section \<open>Events from the cloud\<close>

definition PCT_SetTokenKey :: "'h PTC_ModuleAdapter \<Rightarrow> u8 list \<Rightarrow> 'h zc \<Rightarrow> 'h zc option" where
  "PCT_SetTokenKey A msg s = do {
     s \<leftarrow> ZC_StoreTokenKey A (drop 8 msg) s;
     s \<leftarrow> PCT_SendEmptyMsg A (MsgId (get_MessageHead msg)) ZC_SEC_ALG_AES s;
     PCT_SendAckToCloud A (MsgId (get_MessageHead msg)) s
   }"

definition PCT_ResetNetWork :: "'h PTC_ModuleAdapter \<Rightarrow> u8 list \<Rightarrow> 'h zc \<Rightarrow> 'h zc option" where
  "PCT_ResetNetWork A msg s = do {
     s \<leftarrow> PCT_DisConnectCloud A (ZC_ConfigInitPara s);
     s \<leftarrow> PCT_SendEmptyMsg A (MsgId (get_MessageHead msg)) ZC_SEC_ALG_AES s;
     PCT_SendAckToCloud A (MsgId (get_MessageHead msg)) s
   }"

text \<open>The \<^verbatim>\<open>switch\<close> of \<^verbatim>\<open>PCT_HandleEvent\<close>.\<close>

definition dispatch_event :: "'h PTC_ModuleAdapter \<Rightarrow> MSG_Buffer \<Rightarrow> 'h zc \<Rightarrow> 'h zc option" where
  "dispatch_event A b s =
     (let msg = u8MsgBuffer b; code = MsgCode (get_MessageHead msg)
      in if code = ZC_CODE_ZOTA_BEGIN then PCT_HandleOtaBeginMsg A msg s
         else if code = ZC_CODE_ZOTA_FILE_BEGIN then PCT_HandleOtaFileBeginMsg A msg s
         else if code = ZC_CODE_ZOTA_FILE_CHUNK then PCT_HandleOtaFileChunkMsg A msg s
         else if code = ZC_CODE_ZOTA_FILE_END then PCT_HandleOtaFileEndMsg A msg s
         else if code = ZC_CODE_ZOTA_END then PCT_HandleOtaEndMsg A msg s
         else if code \<in> {ZC_CODE_OTA_BEGIN, ZC_CODE_OTA_FILE_BEGIN, ZC_CODE_OTA_FILE_CHUNK, ZC_CODE_OTA_FILE_END,
           ZC_CODE_OTA_END} then PCT_HandleMoudleMsg A b s
         else if code = ZC_CODE_TOKEN_SET then PCT_SetTokenKey A msg s
         else if code = ZC_CODE_RESET_NETWORK then PCT_ResetNetWork A msg s
         else do {
           s \<leftarrow> PCT_HandleMoudleMsg A b s;
           PCT_SendEmptyMsg A (MsgId (get_MessageHead msg)) ZC_SEC_ALG_AES s
         })"

definition PCT_HandleEvent :: "'h PTC_ModuleAdapter \<Rightarrow> 'h zc \<Rightarrow> 'h zc option" where
  "PCT_HandleEvent A s =
     (if u8SendMoudleTimer (con s) \<noteq> PCT_TIMER_INVAILD then Some s
      else do {
        (q, m) \<leftarrow> MSG_PopMsg (g_struRecvQueue s);
        let s = s\<lparr>g_struRecvQueue := q\<rparr>;
        case m of
          None \<Rightarrow> Some s
        | Some r \<Rightarrow> do {
            b \<leftarrow> get_buffer r s;
            let h = get_MessageHead (u8MsgBuffer b);
            c \<leftarrow> PCT_CheckCrc (TotalMsgCrc h) (drop 8 (u8MsgBuffer b)) (ZC_HTONS (Payloadlen h));
            s \<leftarrow> (if c = ZC_RET_ERROR then do {
                s \<leftarrow> PCT_SendEmptyMsg A (MsgId h) ZC_SEC_ALG_AES s;
                PCT_SendErrorMsg A (MsgId h) [] 0 s
              } else dispatch_event A b s);
            release r s
          }
      })"

section \<open>Running, waking up, sleeping, timers\<close>

definition PCT_Run :: "'h PTC_ModuleAdapter \<Rightarrow> 'h zc \<Rightarrow> 'h zc option" where
  "PCT_Run A s =
     (let st = u8MainState (con s)
      in if st = PCT_STATE_ACCESS_NET then PCT_ConnectCloud A s
         else if st = PCT_STATE_WAIT_ACCESS then PCT_SendCloudAccessMsg1 A s
         else if st = PCT_STATE_WAIT_ACCESSRSP then PCT_RecvAccessMsg2 A s
         else if st = PCT_STATE_WAIT_MSG4 then PCT_RecvAccessMsg4 A s
         else if st = PCT_STATE_CONNECT_CLOUD then PCT_HandleEvent A s
         else Some s)"

definition PCT_WakeUp :: "'h PTC_ModuleAdapter \<Rightarrow> 'h zc \<Rightarrow> 'h zc option" where
  "PCT_WakeUp A s =
     (if u8MainState (con s) = PCT_STATE_INIT then do {
        s \<leftarrow> set_timer A PCT_TIMER_REGISTER PCT_TIMER_INTERVAL_REGISTER u8RegisterTimer_update s;
        let s = con_update (u16SendBcNum_update (\<lambda>_. 0)) s;
        s \<leftarrow> PCT_SendNotifyMsg A ZC_CODE_WIFI_CONNECTED s;
        Some (ZC_ClientWakeUp s)
      } else Some s)"

definition PCT_Sleep :: "'h PTC_ModuleAdapter \<Rightarrow> 'h zc \<Rightarrow> 'h zc option" where
  "PCT_Sleep A s = do {
     let s = con_update (u8keyRecv_update (\<lambda>_. PCT_KEY_UNRECVED)) (MSG_Init s);
     s \<leftarrow> stop_used_timers ZC_TIMER_MAX_NUM 0 A s;
     let s = con_update (\<lambda>c. c\<lparr>u8ReconnectTimer := PCT_TIMER_INVAILD, u8SendMoudleTimer := PCT_TIMER_INVAILD,
       u8HeartTimer := PCT_TIMER_INVAILD, u8MainState := PCT_STATE_INIT, u8RegisterTimer := PCT_TIMER_INVAILD\<rparr>)
       (TIMER_Init s);
     s \<leftarrow> PCT_SendNotifyMsg A ZC_CODE_WIFI_DISCONNECTED s;
     Some (ZC_ClientSleep s)
   }"

definition TIMER_TimeoutAction :: "'h PTC_ModuleAdapter \<Rightarrow> u8 \<Rightarrow> 'h zc \<Rightarrow> 'h zc option" where
  "TIMER_TimeoutAction A u8TimerIndex s = do {
     t \<leftarrow> rd1 (g_struTimer s) (unat u8TimerIndex);
     let ty = u8Type t;
     if ty = PCT_TIMER_RECONNECT then
       Some (con_update (\<lambda>c. c\<lparr>u8ReconnectTimer := PCT_TIMER_INVAILD, u8MainState := PCT_STATE_ACCESS_NET\<rparr>) s)
     else if ty = PCT_TIMER_REACCESS then PCT_DisConnectCloud A s
     else if ty = PCT_TIMER_SENDMOUDLE then PCT_SendMoudleTimeout A s
     else if ty = PCT_TIMER_SENDHEART then PCT_SendHeartMsg A s
     else if ty = PCT_TIMER_REGISTER then do {
       s \<leftarrow> set_timer A PCT_TIMER_REGISTER PCT_TIMER_INTERVAL_REGISTER u8RegisterTimer_update s;
       PCT_SendNotifyMsg A ZC_CODE_WIFI_CONNECTED s
     }
     else Some s
   }"

end
