(* ===== verification/Invariant.thy ===== *)
theory Invariant
  imports Controller
begin

text \<open>
  The invariant of the protocol core, and that every operation of the theories \<open>Client\<close> and \<open>Controller\<close> keeps
  it on any platform that meets the contract \<open>module_adapter\<close>.
\<close>

section \<open>The invariant\<close>

text \<open>The client buffer and the table of clients; the UART buffer; the retransmission buffer.\<close>

definition client_ok :: "MSG_Buffer \<Rightarrow> ZC_ClientInfo \<Rightarrow> bool" where
  "client_ok b c \<longleftrightarrow> recv_inv b \<and> length (u32ClientVaildFlag c) = 4 \<and> length (u32ClientFd c) = 4"

definition uart_ok :: "ZC_UartBuffer \<Rightarrow> bool" where
  "uart_ok u \<longleftrightarrow> length (u8UartBuffer u) = 1000 \<and> unat (u32RecvLen u) \<le> 1000
     \<and> (u32Status u = 0 \<or> u32Status u = 1 \<or> u32Status u = 2 \<and> unat (u32RecvLen u) < 12
        \<or> u32Status u = 3 \<and> 12 \<le> unat (u32RecvLen u) \<and> take 4 (u8UartBuffer u) = [2, 3, 4, 5]
          \<and> unat (u32RecvLen u) < frame_len (drop 8 (u8UartBuffer u)) + 8 \<and> frame_len (drop 8 (u8UartBuffer u)) + 8 \<le> 1000)"

definition retx_ok :: "MSG_Buffer \<Rightarrow> bool" where
  "retx_ok b \<longleftrightarrow> length (u8MsgBuffer b) = 600 \<and> unat (u32Len b) \<le> 600"

text \<open>Everything but the controller.\<close>

definition zc_rest :: "'h zc \<Rightarrow> bool" where
  "zc_rest s \<longleftrightarrow> send_inv s \<and> recv_ok s \<and> client_ok (g_struClientBuffer s) (g_struClientInfo s)
     \<and> uart_ok (g_struUartBuffer s) \<and> retx_ok (g_struRetxBuffer s) \<and> length (g_struTimer s) = 10
     \<and> config_ok (g_struZcConfigDb s) \<and> register_ok (g_struRegisterInfo s) \<and> length (g_u8DevMsgBuildBuffer s) = 600"

text \<open>
  The controller: the keys have their lengths and the initialisation vectors are the session key; a timer
  index is an index of the timer table or invalid; the session key is in place whenever the fourth
  handshake message is awaited or the cloud is connected; retransmissions, broadcasts and the offset of
  a firmware update stay in their bounds.
\<close>

definition timer_index_ok :: "u8 \<Rightarrow> bool" where
  "timer_index_ok i \<longleftrightarrow> i = PCT_TIMER_INVAILD \<or> unat i < 10"

definition con_ok :: "PTC_ProtocolCon \<Rightarrow> bool" where
  "con_ok c \<longleftrightarrow> length (u8SessionKey c) = 16 \<and> IvSend c = u8SessionKey c \<and> IvRecv c = u8SessionKey c
     \<and> length (RandMsg c) = 32
     \<and> timer_index_ok (u8ReconnectTimer c) \<and> timer_index_ok (u8HeartTimer c) \<and> timer_index_ok (u8SendMoudleTimer c)
     \<and> timer_index_ok (u8RegisterTimer c) \<and> unat (u8AccessTimer c) < 10
     \<and> pu8SendMoudleBuffer c \<in> {None, Some RetxBuffer}
     \<and> (u8MainState c \<in> {PCT_STATE_WAIT_MSG4, PCT_STATE_CONNECT_CLOUD} \<longrightarrow> u8keyRecv c = PCT_KEY_RECVED)
     \<and> u8MainState c \<le> PCT_STATE_DISCONNECT_CLOUD \<and> u8ReSendMoudleNum c \<le> PCT_SENDMOUDLE_NUM
     \<and> u16SendBcNum c \<le> PCT_SEND_BC_MAX_NUM \<and> u32RecvOffset (struOtaInfo c) \<le> u32TotalLen (struOtaInfo c)"

definition zc_inv :: "'h zc \<Rightarrow> bool" where
  "zc_inv s \<longleftrightarrow> zc_rest s \<and> con_ok (con s)"

lemma timer_index_ok_simps [simp]:
  "timer_index_ok PCT_TIMER_INVAILD" "unat i < 10 \<Longrightarrow> timer_index_ok i"
  by (simp_all add: timer_index_ok_def)

text \<open>Assignments to the controller.\<close>

lemma con_ok_timers [simp]:
  assumes "con_ok c"
  shows "timer_index_ok v \<Longrightarrow> con_ok (c\<lparr>u8ReconnectTimer := v\<rparr>)" "timer_index_ok v \<Longrightarrow> con_ok (c\<lparr>u8HeartTimer := v\<rparr>)"
    "timer_index_ok v \<Longrightarrow> con_ok (c\<lparr>u8SendMoudleTimer := v\<rparr>)" "timer_index_ok v \<Longrightarrow> con_ok (c\<lparr>u8RegisterTimer := v\<rparr>)"
    "unat v < 10 \<Longrightarrow> con_ok (c\<lparr>u8AccessTimer := v\<rparr>)"
  using assms by (simp_all add: con_ok_def)

lemma con_ok_updates [simp]:
  assumes "con_ok c"
  shows "con_ok (c\<lparr>struCloudConnection := x\<rparr>)" "con_ok (c\<lparr>struClientConnection := x\<rparr>)"
    "length r = 32 \<Longrightarrow> con_ok (c\<lparr>RandMsg := r\<rparr>)" "n \<le> PCT_SENDMOUDLE_NUM \<Longrightarrow> con_ok (c\<lparr>u8ReSendMoudleNum := n\<rparr>)"
    "con_ok (c\<lparr>pu8SendMoudleBuffer := Some RetxBuffer\<rparr>)" "k \<le> PCT_SEND_BC_MAX_NUM \<Longrightarrow> con_ok (c\<lparr>u16SendBcNum := k\<rparr>)"
    "u32RecvOffset i \<le> u32TotalLen i \<Longrightarrow> con_ok (c\<lparr>struOtaInfo := i\<rparr>)"
    "length key = 16 \<Longrightarrow> con_ok (c\<lparr>u8SessionKey := key, IvRecv := key, IvSend := key\<rparr>)"
  using assms by (simp_all add: con_ok_def)

lemma con_ok_state [simp]:
  assumes "con_ok c"
  shows "m \<in> {0, 1, 2, 3, 4, 7} \<or> m \<in> {5, 6} \<and> u8keyRecv c = PCT_KEY_RECVED \<Longrightarrow> con_ok (c\<lparr>u8MainState := m\<rparr>)"
    "k = PCT_KEY_RECVED \<or> u8MainState c \<notin> {5, 6} \<Longrightarrow> con_ok (c\<lparr>u8keyRecv := k\<rparr>)"
    "m \<in> {0, 1, 2, 3, 4, 7} \<Longrightarrow> con_ok (c\<lparr>u8MainState := m, u8keyRecv := k\<rparr>)"
    "m \<in> {0, 1, 2, 3, 4, 7} \<Longrightarrow> con_ok (c\<lparr>u8keyRecv := k, u8MainState := m\<rparr>)"
  using assms by (auto simp: con_ok_def)

lemma con_okD:
  assumes "con_ok c"
  shows "length (u8SessionKey c) = 16" "IvSend c = u8SessionKey c" "IvRecv c = u8SessionKey c" "length (RandMsg c) = 32"
    "unat (u8AccessTimer c) < 10" "u8ReSendMoudleNum c \<le> PCT_SENDMOUDLE_NUM" "u16SendBcNum c \<le> PCT_SEND_BC_MAX_NUM"
    "u32RecvOffset (struOtaInfo c) \<le> u32TotalLen (struOtaInfo c)" "pu8SendMoudleBuffer c \<in> {None, Some RetxBuffer}"
    "u8MainState c \<in> {PCT_STATE_WAIT_MSG4, PCT_STATE_CONNECT_CLOUD} \<Longrightarrow> u8keyRecv c = PCT_KEY_RECVED"
  using assms unfolding con_ok_def by blast+

text \<open>The receive queue is empty: the receive buffer may be given back.\<close>

definition recv_q :: "'h zc \<Rightarrow> buffer_ref option list" where
  "recv_q s = ring_contents (g_struRecvQueue s)"

abbreviation recv_empty :: "'h zc \<Rightarrow> bool" where
  "recv_empty s \<equiv> recv_q s = []"

lemma zc_rest_updates [simp]:
  "zc_rest (con_update f s) = zc_rest s" "zc_rest (s\<lparr>stack := st\<rparr>) = zc_rest s" "zc_rest (s\<lparr>platform := h\<rparr>) = zc_rest s"
  "recv_q (con_update f s) = recv_q s" "recv_q (s\<lparr>stack := x\<rparr>) = recv_q s"
  by (simp_all add: zc_rest_def recv_q_def)

abbreviation rest_keeps :: "'h zc \<Rightarrow> 'h zc \<Rightarrow> bool" where
  "rest_keeps s s' \<equiv> zc_rest s' \<and> con s' = con s \<and> recv_q s' = recv_q s"

lemma same_but_platform_rest:
  "same_but_platform s s' \<Longrightarrow> zc_rest s' = zc_rest s \<and> con s' = con s \<and> recv_q s' = recv_q s"
  by (auto elim!: same_but_platformE simp: recv_q_def)

lemma zc_rest_build [simp]: "length m = 600 \<Longrightarrow> zc_rest s \<Longrightarrow> zc_rest (s\<lparr>g_u8MsgBuildBuffer := m\<rparr>)"
  by (simp add: zc_rest_def recv_fields_ok_def)

lemma zc_rest_lengths:
  "zc_rest s \<Longrightarrow> length (g_u8MsgBuildBuffer s) = 600" "zc_rest s \<Longrightarrow> length (g_struTimer s) = 10"
  by (simp_all add: zc_rest_def recv_fields_ok_def)

lemma length_EVENT_BuildMsg: "EVENT_BuildMsg code i buf p n = Some (m, len) \<Longrightarrow> length m = length buf"
  by (auto simp: EVENT_BuildMsg_def bind_Some_iff dest!: length_wr)

lemma MSG_Init_rest [simp]:
  assumes "zc_rest s" shows "zc_rest (MSG_Init s)" "recv_empty (MSG_Init s)" "con (MSG_Init s) = con s"
proof -
  have q: "ring_inv (MSG_InitQueue q)" "ring_contents (MSG_InitQueue q) = []" if "ring_inv q" for q :: "buffer_ref MSG_Queue"
    using that ring_start [of q] by (simp_all add: ring_storage_def ring_inv_def)
  have nth: "i < 3 \<Longrightarrow> map idle (g_struSendBuffer s) ! i = idle (g_struSendBuffer s ! i)" for i
    using assms by (simp add: zc_rest_def send_ok_def)
  from assms q nth show "zc_rest (MSG_Init s)" "recv_empty (MSG_Init s)" "con (MSG_Init s) = con s"
    by (auto simp: zc_rest_def MSG_Init_def send_ok_def recv_fields_ok_def client_ok_def recv_inv_def idle_def recv_q_def)
qed

lemma TIMER_Init_rest [simp]:
  "zc_rest s \<Longrightarrow> zc_rest (TIMER_Init s)" "con (TIMER_Init s) = con s" "recv_q (TIMER_Init s) = recv_q s"
  by (simp_all add: zc_rest_def TIMER_Init_def recv_q_def)

lemma config_update_rest [simp]:
  "zc_rest s \<Longrightarrow> config_ok (g_struZcConfigDb (config_update f g s)) \<Longrightarrow> zc_rest (config_update f g s)"
  "con (config_update f g s) = con s" "recv_q (config_update f g s) = recv_q s"
  by (simp_all add: zc_rest_def config_update_def recv_q_def)

lemma ZC_ConfigInitPara_rest [simp]:
  "zc_rest s \<Longrightarrow> zc_rest (ZC_ConfigInitPara s)" "con (ZC_ConfigInitPara s) = con s"
    "recv_q (ZC_ConfigInitPara s) = recv_q s"
  using config_ok_init [of s] by (simp_all add: zc_rest_def ZC_ConfigInitPara_def Let_def config_update_def recv_q_def)

text \<open>Giving the receive buffer or the retransmission buffer back.\<close>

lemma release_Recv:
  assumes "release RecvBuffer s = Some s'" "zc_rest s" "recv_empty s"
  shows "zc_rest s' \<and> con s' = con s"
proof -
  have "s' = s\<lparr>g_struRecvBuffer := idle (g_struRecvBuffer s)\<rparr>"
    using assms(1) by (simp add: release_def get_buffer_def set_buffer_def)
  moreover have "recv_fields_ok (idle (g_struRecvBuffer s)) (g_u8MsgBuildBuffer s) (g_struRecvQueue s)"
    using assms(2,3) by (simp add: zc_rest_def recv_fields_ok_def recv_q_def recv_inv_def idle_def)
  ultimately show ?thesis
    using assms(2) by (simp add: zc_rest_def)
qed

lemma release_Retx:
  assumes "release RetxBuffer s = Some s'" "zc_rest s"
  shows "rest_keeps s s'"
  using assms by (auto simp: release_def get_buffer_def set_buffer_def zc_rest_def retx_ok_def idle_def recv_q_def)

text \<open>Popping the receive queue.\<close>

lemma pop_recv:
  assumes "MSG_PopMsg (g_struRecvQueue s) = Some (q, m)" "zc_rest s"
  shows "zc_rest (s\<lparr>g_struRecvQueue := q\<rparr>) \<and> recv_empty (s\<lparr>g_struRecvQueue := q\<rparr>) \<and> m \<in> {None, Some RecvBuffer}"
proof -
  have "ring_inv (g_struRecvQueue s)"
    using assms(2) by (simp add: zc_rest_def recv_fields_ok_def)
  from this assms(1) show ?thesis
    by (cases rule: msgq.pop_cases) (use assms(2) in \<open>auto simp: zc_rest_def recv_fields_ok_def recv_q_def\<close>)
qed

section \<open>The operations keep it\<close>

lemma zc_rest_timers [simp]:
  "zc_rest s \<Longrightarrow> length ts = 10 \<Longrightarrow> zc_rest (s\<lparr>g_struTimer := ts\<rparr>)" "recv_q (s\<lparr>g_struTimer := ts\<rparr>) = recv_q s"
  "recv_q (s\<lparr>g_u8MsgBuildBuffer := m\<rparr>) = recv_q s"
  by (simp_all add: zc_rest_def recv_q_def)

lemma sec_head_simps [simp]:
  "zc_rest (snd (sec_head ty n s)) = zc_rest s" "con (snd (sec_head ty n s)) = con s"
  "recv_q (snd (sec_head ty n s)) = recv_q s"
  "u8SecType (fst (sec_head ty n s)) = ty" "u16TotalMsg (fst (sec_head ty n s)) = ZC_HTONS n"
  by (simp_all add: sec_head_def indet_def)

lemma PCT_SendMsgToCloud_rest:
  assumes "PCT_SendMsgToCloud A h p s = Some (s', r)" "zc_rest s" "rsa_writes A"
  shows "rest_keeps s s'"
proof -
  have s': "send_inv s'" "s' = s\<lparr>g_struSendBuffer := g_struSendBuffer s', g_struSendQueue := g_struSendQueue s'\<rparr>"
    using PCT_SendMsgToCloud_inv [OF assms(1) _ assms(3)] assms(2) by (auto simp: zc_rest_def)
  from s'(1) show ?thesis
    using assms(2) by (subst (asm) s'(2); subst (1 2 3) s'(2)) (simp add: zc_rest_def recv_q_def)
qed

lemma build_and_send_rest:
  assumes "build_and_send A code i p n ty s = Some (s', r)" "zc_rest s" "rsa_writes A"
  shows "rest_keeps s s'"
proof -
  obtain m len where m: "EVENT_BuildMsg code i (g_u8MsgBuildBuffer s) p n = Some (m, len)"
      "PCT_SendMsgToCloud A (fst (sec_head ty len (s\<lparr>g_u8MsgBuildBuffer := m\<rparr>))) m
         (snd (sec_head ty len (s\<lparr>g_u8MsgBuildBuffer := m\<rparr>))) = Some (s', r)"
    using assms(1) by (auto simp: build_and_send_def bind_Some_iff split_beta)
  have "length m = 600"
    using length_EVENT_BuildMsg [OF m(1)] zc_rest_lengths(1) [OF assms(2)] by simp
  with PCT_SendMsgToCloud_rest [OF m(2) _ assms(3)] assms(2) show ?thesis
    by simp
qed

lemma PCT_SendErrorMsg_rest:
  "PCT_SendErrorMsg A i p n s = Some s' \<Longrightarrow> zc_rest s \<Longrightarrow> rsa_writes A \<Longrightarrow> rest_keeps s s'"
  by (auto simp: PCT_SendErrorMsg_def bind_Some_iff dest: build_and_send_rest)

lemma PCT_SendAckToCloud_rest:
  "PCT_SendAckToCloud A i s = Some s' \<Longrightarrow> zc_rest s \<Longrightarrow> rsa_writes A \<Longrightarrow> rest_keeps s s'"
  by (auto simp: PCT_SendAckToCloud_def bind_Some_iff dest: build_and_send_rest)

lemma PCT_SendEmptyMsg_rest:
  "PCT_SendEmptyMsg A i ty s = Some s' \<Longrightarrow> zc_rest s \<Longrightarrow> rsa_writes A \<Longrightarrow> rest_keeps s s'"
  by (auto simp: PCT_SendEmptyMsg_def bind_Some_iff split_beta dest!: PCT_SendMsgToCloud_rest)

lemma ota_file_begin_rest:
  "ota_file_begin ota s = Some s' \<Longrightarrow> \<exists>t c. s' = ota_update (\<lambda>i. i\<lparr>u32RecvOffset := 0, u32TotalLen := t, u8Crc := c\<rparr>) s"
  by (auto simp: ota_file_begin_def bind_Some_iff)

context module_adapter begin

lemma PCT_SendNotifyMsg_rest:
  assumes "PCT_SendNotifyMsg A code s = Some s'" "zc_rest s"
  shows "rest_keeps s s'"
proof -
  obtain m n r where m: "EVENT_BuildMsg code 0 (g_u8MsgBuildBuffer s) [] 0 = Some (m, n)"
      "pfunSendToMoudle A m n (s\<lparr>g_u8MsgBuildBuffer := m\<rparr>) = Some (s', r)"
    using assms(1) by (auto simp: PCT_SendNotifyMsg_def bind_Some_iff)
  have "zc_rest (s\<lparr>g_u8MsgBuildBuffer := m\<rparr>)"
    using length_EVENT_BuildMsg [OF m(1)] zc_rest_lengths(1) [OF assms(2)] assms(2) by simp
  with same_but_platform_rest [OF send_moudle [OF m(2)]] show ?thesis by simp
qed

lemma TIMER_StopTimer_rest:
  assumes "TIMER_StopTimer A i s = Some s'" "zc_rest s"
  shows "rest_keeps s s'"
proof -
  obtain x where run: "pfunStopTimer A i (s\<lparr>g_struTimer := (g_struTimer s)[unat i := x]\<rparr>) = Some s'"
    using assms(1) by (auto simp: TIMER_StopTimer_def bind_Some_iff wr1_eq_Some)
  from same_but_platform_rest [OF stop_timer [OF run]] assms(2) show ?thesis
    by (simp add: zc_rest_lengths)
qed

lemma set_timer_rest:
  assumes "set_timer A ty iv f s = Some s'" "zc_rest s"
  shows "zc_rest s' \<and> recv_q s' = recv_q s \<and> (con s' = con s \<or> (\<exists>v. unat v < 10 \<and> con s' = f (\<lambda>_. v) (con s)))"
proof -
  obtain s1 r ix where run: "pfunSetTimer A ty iv s = Some (s1, r, ix)" "s' = store_index f ix s1"
    using assms(1) by (auto simp: set_timer_def bind_Some_iff)
  from set_timer_cases [OF run(1)] show ?thesis
  proof (elim disjE exE conjE)
    fix j assume j: "ix = Some (word_of_nat j)" "timer_started ty j s s1"
    then have "unat (word_of_nat j :: u8) = j" "j < 10"
      by (auto simp: timer_started_def unat_of_nat_small)
    with j run(2) assms(2) show ?thesis
      by (auto simp: timer_started_def store_index_def zc_rest_def recv_q_def intro!: exI [of _ "word_of_nat j"])
  next
    assume "ix = None" "same_but_platform s s1"
    with run(2) assms(2) same_but_platform_rest show ?thesis by (auto simp: store_index_def)
  qed
qed

lemma PCT_DisConnectCloud_rest:
  assumes "PCT_DisConnectCloud A s = Some s'" "zc_rest s"
  shows "zc_rest s' \<and> recv_empty s'
    \<and> con s' = (con s)\<lparr>u8MainState := PCT_STATE_DISCONNECT_CLOUD, u8keyRecv := PCT_KEY_UNRECVED\<rparr>"
  using assms by (auto simp: PCT_DisConnectCloud_def Let_def dest!: PCT_SendNotifyMsg_rest)

lemma write_config_rest:
  "write_config A s = Some s' \<Longrightarrow> same_but_platform s s'"
  by (auto simp: write_config_def Let_def dest: write_flash)

lemma ZC_StoreAccessInfo_rest:
  assumes "ZC_StoreAccessInfo A ip port s = Some s'" "zc_rest s"
  shows "rest_keeps s s'"
proof -
  obtain a p where w: "write_config A (config_update (\<lambda>w. w\<lparr>u32ServerAddrConfig := 1, u32ServerIp := a, u16ServerPort := p\<rparr>) (\<lambda>w. w)
       (connection_update (\<lambda>c. c\<lparr>u32ConnectionMagicFlag := ZC_MAGIC_FLAG\<rparr>) s)) = Some s'"
    using assms(1) by (auto simp: ZC_StoreAccessInfo_def bind_Some_iff)
  from same_but_platform_rest [OF write_config_rest [OF w]] assms(2) show ?thesis
    by (simp add: config_update_def connection_update_def zc_rest_def config_ok_def recv_q_def)
qed

lemma ZC_StoreTokenKey_rest:
  assumes "ZC_StoreTokenKey A d s = Some s'" "zc_rest s"
  shows "rest_keeps s s'"
proof -
  obtain k where k: "length k = 16" "write_config A (config_update (\<lambda>w. w) (\<lambda>w. w\<lparr>u8TokenKey := k\<rparr>) s) = Some s'"
    using assms(1) by (auto simp: ZC_StoreTokenKey_def bind_Some_iff dest: length_rd)
  from same_but_platform_rest [OF write_config_rest [OF k(2)]] assms(2) k(1) show ?thesis
    by (simp add: config_update_def zc_rest_def config_ok_def recv_q_def)
qed

text \<open>The composed operations: the invariant, and where the main state can go.\<close>

abbreviation st :: "'h zc \<Rightarrow> u8" where
  "st s \<equiv> u8MainState (con s)"

lemma PCT_SendHeartMsg_inv:
  assumes "PCT_SendHeartMsg A s = Some s'" "zc_inv s" "rsa_writes A"
  shows "zc_inv s' \<and> st s' = st s"
  using assms
  by (auto simp: PCT_SendHeartMsg_def bind_Some_iff split_beta zc_inv_def
      dest!: PCT_SendMsgToCloud_rest set_timer_rest)

lemma PCT_SendCloudAccessMsg1_inv:
  assumes "PCT_SendCloudAccessMsg1 A s = Some s'" "zc_inv s" "rsa_writes A"
  shows "zc_inv s' \<and> (st s' = PCT_STATE_WAIT_ACCESSRSP \<or> st s' = PCT_STATE_DISCONNECT_CLOUD)"
proof -
  have inv: "zc_rest s" "con_ok (con s)"
    using assms(2) by (simp_all add: zc_inv_def)
  obtain s1 p s2 r where s1: "(if u8ReconnectTimer (con s) \<noteq> PCT_TIMER_INVAILD then do {
         s \<leftarrow> TIMER_StopTimer A (u8ReconnectTimer (con s)) s;
         Some (con_update (u8ReconnectTimer_update (\<lambda>_. PCT_TIMER_INVAILD)) s)
       } else Some s) = Some s1"
    and s2: "build_and_send A ZC_CODE_HANDSHAKE_1 1 p 56 ZC_SEC_ALG_RSA s1 = Some (s2, r)"
    and s': "(if r = ZC_RET_ERROR then PCT_DisConnectCloud A s2
     else set_timer A PCT_TIMER_REACCESS (PCT_TIMER_INTERVAL_RECONNECT * 120) u8AccessTimer_update
       (con_update (u8MainState_update (\<lambda>_. PCT_STATE_WAIT_ACCESSRSP)) s2)) = Some s'"
    using assms(1) unfolding PCT_SendCloudAccessMsg1_def
    by (elim bindE, simp only: split_paired_all prod.case)
  have "zc_rest s1 \<and> con_ok (con s1)"
    using s1 inv by (auto simp: bind_Some_iff split: if_splits dest!: TIMER_StopTimer_rest)
  with build_and_send_rest [OF s2 _ assms(3)] have s2': "zc_rest s2" "con_ok (con s2)"
    by auto
  show ?thesis
  proof (cases "r = ZC_RET_ERROR")
    case True
    with PCT_DisConnectCloud_rest [of s2 s'] s' s2' show ?thesis
      by (simp add: zc_inv_def)
  next
    case False
    with set_timer_rest [OF s' [simplified False if_False]] s2' show ?thesis
      by (auto simp: zc_inv_def)
  qed
qed

lemma PCT_SendCloudAccessMsg3_inv:
  assumes "PCT_SendCloudAccessMsg3 A s = Some s'" "zc_rest s" "con_ok (con s)" "rsa_writes A"
  shows "zc_inv s' \<and> recv_q s' = recv_q s \<and> st s' = PCT_STATE_WAIT_MSG4 \<and> u8keyRecv (con s') = PCT_KEY_RECVED"
proof -
  obtain p s2 r where s2: "build_and_send A ZC_CODE_HANDSHAKE_3 1 p 44 ZC_SEC_ALG_AES
        (con_update (u8keyRecv_update (\<lambda>_. PCT_KEY_RECVED)) (s\<lparr>stack := (\<lambda>i. stack s (i + 3))\<rparr>)) = Some (s2, r)"
    and s': "set_timer A PCT_TIMER_REACCESS (PCT_TIMER_INTERVAL_RECONNECT * 10) u8AccessTimer_update
       (con_update (u8MainState_update (\<lambda>_. PCT_STATE_WAIT_MSG4)) s2) = Some s'"
    using assms(1) unfolding PCT_SendCloudAccessMsg3_def Let_def indet_def prod.case
    by (elim bindE, simp only: split_paired_all prod.case)
  have s2': "zc_rest s2" "recv_q s2 = recv_q s" "con s2 = (con s)\<lparr>u8keyRecv := PCT_KEY_RECVED\<rparr>"
    using build_and_send_rest [OF s2 _ assms(4)] assms(2) by auto
  with set_timer_rest [OF s'] assms(3) show ?thesis
    by (auto simp: zc_inv_def)
qed

lemma connect_cloud_rest:
  assumes "pfunConnectToCloud A s = Some (s', r)" "zc_inv s"
  shows "zc_inv s' \<and> st s' = st s"
proof -
  have "length (RandMsg (con s)) = 32"
    using assms(2) by (simp add: zc_inv_def con_ok_def)
  from connect_cloud [OF assms(1) this] assms(2) show ?thesis
    by (elim exE conjE) (simp add: zc_inv_def zc_rest_def config_ok_def)
qed

lemma PCT_ConnectCloud_inv:
  assumes "PCT_ConnectCloud A s = Some s'" "zc_inv s"
  shows "zc_inv s' \<and> (st s' = st s \<or> st s' = PCT_STATE_WAIT_ACCESS)"
  using assms
  by (auto simp: PCT_ConnectCloud_def bind_Some_iff split: if_splits dest!: connect_cloud_rest)
    (simp_all add: zc_inv_def)

lemma stop_used_timers_rest:
  "stop_used_timers k i A s = Some s' \<Longrightarrow> zc_rest s \<Longrightarrow> rest_keeps s s'"
proof (induction k arbitrary: i s)
  case (Suc k)
  from Suc.prems obtain s1 where "rest_keeps s s1" "stop_used_timers k (Suc i) A s1 = Some s'"
    by (auto simp: bind_Some_iff split: if_splits dest: TIMER_StopTimer_rest)
  with Suc.IH [of "Suc i" s1] Suc.prems(2) show ?case by simp
qed simp

lemma PCT_ReconnectCloud_inv:
  assumes "PCT_ReconnectCloud A n s = Some s'" "zc_inv s"
  shows "zc_inv s' \<and> (st s' = st s \<or> st s' = PCT_STATE_INIT \<and> u8keyRecv (con s') = PCT_KEY_UNRECVED)"
  using assms
  by (auto simp: PCT_ReconnectCloud_def bind_Some_iff zc_inv_def split: if_splits
      dest!: stop_used_timers_rest set_timer_rest)

text \<open>Receiving: the popped message is the receive buffer, and it is given back.\<close>

lemma disconnect_inv:
  assumes "PCT_DisConnectCloud A s = Some s'" "zc_rest s" "con_ok (con s)"
  shows "zc_inv s' \<and> recv_empty s' \<and> st s' = PCT_STATE_DISCONNECT_CLOUD"
  using PCT_DisConnectCloud_rest [OF assms(1,2)] assms(3) by (simp add: zc_inv_def)

lemma handle_msg2_inv:
  assumes run: "handle_msg2 A h d s = Some s'" and inv: "zc_inv s" "recv_empty s" "rsa_writes A"
  shows "zc_inv s' \<and> recv_empty s' \<and> (st s' = st s \<or> st s' = PCT_STATE_WAIT_MSG4 \<or> st s' = PCT_STATE_DISCONNECT_CLOUD)"
proof (cases "MsgCode h = ZC_CODE_HANDSHAKE_2 \<or> MsgCode h = ZC_CODE_ACCESS_POINT_RSP")
  case False
  then show ?thesis using run inv by (simp add: handle_msg2_def)
next
  case True
  have inv': "zc_rest s" "con_ok (con s)"
    using inv(1) by (simp_all add: zc_inv_def)
  obtain r where r: "(if r = ZC_RET_ERROR then PCT_DisConnectCloud A s
        else do {
          s \<leftarrow> TIMER_StopTimer A (u8AccessTimer (con s)) s;
          rand \<leftarrow> rd d 0 ZC_HS_MSG_LEN;
          if rand = RandMsg (con s) then
            if MsgCode h = ZC_CODE_HANDSHAKE_2 then do {
              key \<leftarrow> rd d 32 ZC_HS_SESSION_KEY_LEN;
              PCT_SendCloudAccessMsg3 A (con_update (\<lambda>c. c\<lparr>u8SessionKey := key, IvRecv := key, IvSend := key\<rparr>) s)
            } else do {
              addr \<leftarrow> rd32 d 32;
              port \<leftarrow> rd16 d 36;
              s \<leftarrow> ZC_StoreAccessInfo A (bytes32 (ZC_HTONL addr)) (bytes16 (ZC_HTONS port)) s;
              PCT_DisConnectCloud A s
            }
          else PCT_DisConnectCloud A s
        }) = Some s'"
    using run True by (simp only: handle_msg2_def if_True) (elim bindE, blast)
  show ?thesis
  proof (cases "r = ZC_RET_ERROR")
    case True
    with r disconnect_inv inv' show ?thesis by simp
  next
    case False
    from r obtain s1 rand where s1: "TIMER_StopTimer A (u8AccessTimer (con s)) s = Some s1"
      and rest: "(if rand = RandMsg (con s1) then
            if MsgCode h = ZC_CODE_HANDSHAKE_2 then do {
              key \<leftarrow> rd d 32 ZC_HS_SESSION_KEY_LEN;
              PCT_SendCloudAccessMsg3 A (con_update (\<lambda>c. c\<lparr>u8SessionKey := key, IvRecv := key, IvSend := key\<rparr>) s1)
            } else do {
              addr \<leftarrow> rd32 d 32;
              port \<leftarrow> rd16 d 36;
              s \<leftarrow> ZC_StoreAccessInfo A (bytes32 (ZC_HTONL addr)) (bytes16 (ZC_HTONS port)) s1;
              PCT_DisConnectCloud A s
            }
          else PCT_DisConnectCloud A s1) = Some s'"
      by (simp only: False if_False) (elim bindE, blast)
    have s1': "zc_rest s1" "con_ok (con s1)" "recv_empty s1"
      using TIMER_StopTimer_rest [OF s1 inv'(1)] inv' inv(2) by simp_all
    consider "rand \<noteq> RandMsg (con s1)" | "rand = RandMsg (con s1)" "MsgCode h = ZC_CODE_HANDSHAKE_2"
      | "rand = RandMsg (con s1)" "MsgCode h \<noteq> ZC_CODE_HANDSHAKE_2" by blast
    then show ?thesis
    proof cases
      case 1
      with rest disconnect_inv s1' show ?thesis by simp
    next
      case 2
      with rest obtain key where key: "rd d 32 ZC_HS_SESSION_KEY_LEN = Some key"
        "PCT_SendCloudAccessMsg3 A (con_update (\<lambda>c. c\<lparr>u8SessionKey := key, IvRecv := key, IvSend := key\<rparr>) s1) = Some s'"
        by (simp only: simp_thms if_True) (elim bindE, blast)
      with PCT_SendCloudAccessMsg3_inv [OF key(2)] length_rd [OF key(1)] s1' inv(3) show ?thesis by simp
    next
      case 3
      with rest obtain a p s2 where "ZC_StoreAccessInfo A a p s1 = Some s2" "PCT_DisConnectCloud A s2 = Some s'"
        by (simp only: simp_thms if_True if_False) (elim bindE, blast)
      with ZC_StoreAccessInfo_rest s1' disconnect_inv show ?thesis by metis
    qed
  qed
qed

lemma PCT_RecvAccessMsg2_inv:
  assumes "PCT_RecvAccessMsg2 A s = Some s'" "zc_inv s" "rsa_writes A"
  shows "zc_inv s' \<and> (st s' = st s \<or> st s' = PCT_STATE_WAIT_MSG4 \<or> st s' = PCT_STATE_DISCONNECT_CLOUD)"
proof -
  obtain q m where pop: "MSG_PopMsg (g_struRecvQueue s) = Some (q, m)"
    using assms(1) by (auto simp: PCT_RecvAccessMsg2_def bind_Some_iff)
  let ?s = "s\<lparr>g_struRecvQueue := q\<rparr>"
  have s0: "zc_inv ?s" "recv_empty ?s" "m \<in> {None, Some RecvBuffer}"
    using pop_recv [OF pop] assms(2) by (auto simp: zc_inv_def)
  show ?thesis
  proof (cases m)
    case None
    then show ?thesis using assms(1) pop s0 by (auto simp: PCT_RecvAccessMsg2_def)
  next
    case (Some r)
    then obtain h d s1 where run: "handle_msg2 A h d ?s = Some s1" "release RecvBuffer s1 = Some s'"
      using assms(1) pop s0(3) by (auto simp: PCT_RecvAccessMsg2_def bind_Some_iff Let_def)
    from handle_msg2_inv [OF run(1) s0(1,2) assms(3)] release_Recv [OF run(2)] show ?thesis
      by (auto simp: zc_inv_def)
  qed
qed

lemma handle_msg4_inv:
  assumes run: "handle_msg4 A h d s = Some s'" and inv: "zc_inv s" "recv_empty s" "st s = PCT_STATE_WAIT_MSG4"
  shows "zc_inv s' \<and> recv_empty s' \<and> (st s' = st s \<or> st s' = PCT_STATE_DISCONNECT_CLOUD
    \<or> st s' = PCT_STATE_CONNECT_CLOUD \<and> take 32 d = RandMsg (con s) \<and> MsgCode h = ZC_CODE_HANDSHAKE_4
      \<and> PCT_CheckCrc (TotalMsgCrc h) d (ZC_HTONS (Payloadlen h)) \<noteq> Some ZC_RET_ERROR)"
proof (cases "MsgCode h = ZC_CODE_HANDSHAKE_4")
  case False
  then show ?thesis using run inv by (simp add: handle_msg4_def)
next
  case True
  have inv': "zc_rest s" "con_ok (con s)"
    using inv(1) by (simp_all add: zc_inv_def)
  obtain r where crc: "PCT_CheckCrc (TotalMsgCrc h) d (ZC_HTONS (Payloadlen h)) = Some r"
    and r: "(if r = ZC_RET_ERROR then PCT_DisConnectCloud A s
        else do {
          s \<leftarrow> TIMER_StopTimer A (u8AccessTimer (con s)) s;
          rand \<leftarrow> rd d 0 ZC_HS_MSG_LEN;
          if rand = RandMsg (con s) then
            PCT_SendNotifyMsg A ZC_CODE_CLOUD_CONNECTED (con_update (u8MainState_update (\<lambda>_. PCT_STATE_CONNECT_CLOUD)) s)
          else PCT_DisConnectCloud A s
        }) = Some s'"
    using run True by (simp only: handle_msg4_def simp_thms if_True) (elim bindE, blast)
  show ?thesis
  proof (cases "r = ZC_RET_ERROR")
    case True
    with r disconnect_inv inv' show ?thesis by simp
  next
    case False
    from r obtain s1 rand where s1: "TIMER_StopTimer A (u8AccessTimer (con s)) s = Some s1" "rd d 0 ZC_HS_MSG_LEN = Some rand"
      and rest: "(if rand = RandMsg (con s1) then
            PCT_SendNotifyMsg A ZC_CODE_CLOUD_CONNECTED (con_update (u8MainState_update (\<lambda>_. PCT_STATE_CONNECT_CLOUD)) s1)
          else PCT_DisConnectCloud A s1) = Some s'"
      by (simp only: False if_False) (elim bindE, blast)
    have s1': "zc_rest s1" "con s1 = con s" "recv_empty s1"
      using TIMER_StopTimer_rest [OF s1(1) inv'(1)] inv(2) by simp_all
    have key: "u8keyRecv (con s) = PCT_KEY_RECVED"
      using con_okD(10) [OF inv'(2)] inv(3) by simp
    show ?thesis
    proof (cases "rand = RandMsg (con s1)")
      case True
      with rest have n: "PCT_SendNotifyMsg A ZC_CODE_CLOUD_CONNECTED
          (con_update (u8MainState_update (\<lambda>_. PCT_STATE_CONNECT_CLOUD)) s1) = Some s'" by simp
      have "take 32 d = RandMsg (con s)"
        using s1(2) True s1'(2) by (simp add: rd_eq_Some)
      with PCT_SendNotifyMsg_rest [OF n] s1' key inv'(2) crc False \<open>MsgCode h = _\<close> show ?thesis
        by (simp add: zc_inv_def)
    next
      case False
      with rest disconnect_inv s1' inv'(2) show ?thesis by simp
    qed
  qed
qed

lemma restart_heart_inv:
  assumes "restart_heart A s = Some s'" "zc_inv s"
  shows "zc_inv s' \<and> recv_q s' = recv_q s \<and> st s' = st s \<and> u8SendMoudleTimer (con s') = u8SendMoudleTimer (con s)"
  using assms
  by (auto simp: restart_heart_def bind_Some_iff zc_inv_def split: if_splits dest!: TIMER_StopTimer_rest set_timer_rest)

lemma PCT_RecvAccessMsg4_inv:
  assumes "PCT_RecvAccessMsg4 A s = Some s'" "zc_inv s" "st s = PCT_STATE_WAIT_MSG4"
  shows "zc_inv s' \<and> (st s' = st s \<or> st s' = PCT_STATE_DISCONNECT_CLOUD \<or> st s' = PCT_STATE_CONNECT_CLOUD)"
proof -
  obtain q m where pop: "MSG_PopMsg (g_struRecvQueue s) = Some (q, m)"
    using assms(1) by (auto simp: PCT_RecvAccessMsg4_def bind_Some_iff)
  let ?s = "s\<lparr>g_struRecvQueue := q\<rparr>"
  have s0: "zc_inv ?s" "recv_empty ?s" "m \<in> {None, Some RecvBuffer}"
    using pop_recv [OF pop] assms(2) by (auto simp: zc_inv_def)
  show ?thesis
  proof (cases m)
    case None
    then show ?thesis using assms(1) pop s0 by (auto simp: PCT_RecvAccessMsg4_def)
  next
    case (Some r)
    then obtain h d s1 s2 where run: "handle_msg4 A h d ?s = Some s1" "release RecvBuffer s1 = Some s2" "restart_heart A s2 = Some s'"
      using assms(1) pop s0(3) by (auto simp: PCT_RecvAccessMsg4_def bind_Some_iff Let_def)
    note 1 = handle_msg4_inv [OF run(1) s0(1,2)]
    have 2: "zc_inv s2" "st s2 = st s1"
      using 1 release_Recv [OF run(2)] assms(3) by (auto simp: zc_inv_def)
    from 1 2 restart_heart_inv [OF run(3) 2(1)] assms(3) show ?thesis by auto
  qed
qed

text \<open>Messages to the module.\<close>

abbreviation stays :: "'h zc \<Rightarrow> 'h zc \<Rightarrow> bool" where
  "stays s s' \<equiv> zc_inv s' \<and> recv_q s' = recv_q s \<and> st s' = st s"

lemma simple_sends:
  assumes "zc_inv s" "rsa_writes A"
  shows "PCT_SendErrorMsg A i p n s = Some s' \<Longrightarrow> stays s s'" "PCT_SendAckToCloud A i s = Some s' \<Longrightarrow> stays s s'"
    "PCT_SendEmptyMsg A i ty s = Some s' \<Longrightarrow> stays s s'" "PCT_SendNotifyMsg A code s = Some s' \<Longrightarrow> stays s s'"
  using assms by (auto simp: zc_inv_def dest!: PCT_SendErrorMsg_rest PCT_SendAckToCloud_rest PCT_SendEmptyMsg_rest
      PCT_SendNotifyMsg_rest)

lemma send_moudle_inv:
  "pfunSendToMoudle A d n s = Some (s', r) \<Longrightarrow> zc_inv s \<Longrightarrow> zc_inv s' \<and> recv_q s' = recv_q s \<and> con s' = con s"
  using same_but_platform_rest [OF send_moudle] by (auto simp: zc_inv_def)

lemma PCT_SendMoudleTimeout_inv:
  assumes "PCT_SendMoudleTimeout A s = Some s'" "zc_inv s" "rsa_writes A"
  shows "stays s s'"
proof -
  have inv: "zc_rest s" "con_ok (con s)"
    using assms(2) by (simp_all add: zc_inv_def)
  let ?s = "con_update (\<lambda>c. c\<lparr>u8ReSendMoudleNum := u8ReSendMoudleNum c + 1\<rparr>) s"
  obtain r b where rb: "pu8SendMoudleBuffer (con s) = Some r" "get_buffer r s = Some b"
    and rest: "(if u8ReSendMoudleNum (con ?s) > PCT_SENDMOUDLE_NUM then do {
       s \<leftarrow> release r ?s;
       let s = con_update (\<lambda>c. c\<lparr>u8SendMoudleTimer := PCT_TIMER_INVAILD, u8ReSendMoudleNum := 0\<rparr>) s;
       PCT_SendErrorMsg A (MsgId (get_MessageHead (u8MsgBuffer b))) [] 0 s
     } else do {
       (s, r) \<leftarrow> pfunSendToMoudle A (u8MsgBuffer b) (ucast (u32Len b)) ?s;
       set_timer A PCT_TIMER_SENDMOUDLE PCT_TIMER_INTERVAL_SENDMOUDLE u8SendMoudleTimer_update s
     }) = Some s'"
    using assms(1) unfolding PCT_SendMoudleTimeout_def Let_def by (elim bindE, blast)
  have r: "r = RetxBuffer"
    using con_okD(9) [OF inv(2)] rb(1) by simp
  show ?thesis
  proof (cases "u8ReSendMoudleNum (con ?s) > PCT_SENDMOUDLE_NUM")
    case True
    from rest obtain s1 where s1: "release RetxBuffer ?s = Some s1"
      and s': "PCT_SendErrorMsg A (MsgId (get_MessageHead (u8MsgBuffer b))) [] 0
         (con_update (\<lambda>c. c\<lparr>u8SendMoudleTimer := PCT_TIMER_INVAILD, u8ReSendMoudleNum := 0\<rparr>) s1) = Some s'"
      by (simp only: True if_True r Let_def) (elim bindE, blast)
    have "zc_rest s1" "con s1 = (con s)\<lparr>u8ReSendMoudleNum := u8ReSendMoudleNum (con s) + 1\<rparr>" "recv_q s1 = recv_q s"
      using release_Retx [OF s1] inv by simp_all
    with PCT_SendErrorMsg_rest [OF s' _ assms(3)] inv(2) show ?thesis
      by (simp add: zc_inv_def)
  next
    case False
    from rest obtain s1 r where s1: "pfunSendToMoudle A (u8MsgBuffer b) (ucast (u32Len b)) ?s = Some (s1, r)"
        and s': "set_timer A PCT_TIMER_SENDMOUDLE PCT_TIMER_INTERVAL_SENDMOUDLE u8SendMoudleTimer_update s1 = Some s'"
      by (simp only: False if_False) (elim bindE, simp only: split_paired_all prod.case)
    have "zc_inv ?s"
      using inv False by (simp add: zc_inv_def)
    with send_moudle_inv [OF s1] set_timer_rest [OF s'] show ?thesis
      by (auto simp: zc_inv_def)
  qed
qed

lemma PCT_HandleMoudleEvent_inv:
  assumes "PCT_HandleMoudleEvent A d n s = Some s'" "zc_inv s" "rsa_writes A"
  shows "stays s s'"
proof -
  have inv: "zc_rest s" "con_ok (con s)"
    using assms(2) by (simp_all add: zc_inv_def)
  obtain s1 r where s1: "(if u8SendMoudleTimer (con s) \<noteq> PCT_TIMER_INVAILD then do {
         s \<leftarrow> TIMER_StopTimer A (u8SendMoudleTimer (con s)) s;
         r \<leftarrow> pu8SendMoudleBuffer (con s);
         s \<leftarrow> release r s;
         Some (con_update (\<lambda>c. c\<lparr>u8SendMoudleTimer := PCT_TIMER_INVAILD, u8ReSendMoudleNum := 0\<rparr>) s)
       } else Some s) = Some s1"
    and s': "PCT_SendMsgToCloud A (fst (sec_head ZC_SEC_ALG_AES n s1)) d (snd (sec_head ZC_SEC_ALG_AES n s1)) = Some (s', r)"
    using assms(1) unfolding PCT_HandleMoudleEvent_def split_beta
    by (elim bindE) (auto simp: Let_def prod_eq_iff bind_Some_iff)
  have "zc_rest s1 \<and> recv_q s1 = recv_q s \<and> con_ok (con s1) \<and> st s1 = st s"
  proof (cases "u8SendMoudleTimer (con s) \<noteq> PCT_TIMER_INVAILD")
    case True
    from s1 obtain s2 r s3 where s2: "TIMER_StopTimer A (u8SendMoudleTimer (con s)) s = Some s2"
      "pu8SendMoudleBuffer (con s2) = Some r" "release r s2 = Some s3"
      "s1 = con_update (\<lambda>c. c\<lparr>u8SendMoudleTimer := PCT_TIMER_INVAILD, u8ReSendMoudleNum := 0\<rparr>) s3"
      by (simp only: True if_True simp_thms) (elim bindE, auto)
    have s2': "zc_rest s2" "con s2 = con s" "recv_q s2 = recv_q s"
      using TIMER_StopTimer_rest [OF s2(1)] inv by simp_all
    moreover have "r = RetxBuffer"
      using con_okD(9) [OF inv(2)] s2(2) s2'(2) by simp
    ultimately have "zc_rest s3" "con s3 = con s" "recv_q s3 = recv_q s"
      using release_Retx [of s2 s3] s2(3) by simp_all
    with s2(4) inv(2) show ?thesis by simp
  next
    case False
    with s1 inv show ?thesis by simp
  qed
  with PCT_SendMsgToCloud_rest [OF s' _ assms(3)] show ?thesis
    by (auto simp: zc_inv_def)
qed

lemma PCT_HandleMoudleMsg_inv:
  assumes "PCT_HandleMoudleMsg A b s = Some s'" "zc_inv s"
  shows "stays s s'"
proof -
  obtain s1 d m r s2 where s1: "set_timer A PCT_TIMER_SENDMOUDLE PCT_TIMER_INTERVAL_SENDMOUDLE u8SendMoudleTimer_update s = Some s1"
    and d: "rd (u8MsgBuffer b) 0 (unat (u32Len b)) = Some d" "wr (u8MsgBuffer (g_struRetxBuffer s1)) 0 d = Some m"
    and s2: "pfunSendToMoudle A (u8MsgBuffer b) (ucast (u32Len b))
        (con_update (\<lambda>c. c\<lparr>pu8SendMoudleBuffer := Some RetxBuffer, u8ReSendMoudleNum := 0\<rparr>)
           (s1\<lparr>g_struRetxBuffer := (g_struRetxBuffer s1)\<lparr>u8MsgBuffer := m, u32Len := u32Len b, u8Status := MSG_BUFFER_FULL\<rparr>\<rparr>))
        = Some (s2, r)"
    and s': "restart_heart A s2 = Some s'"
    using assms(1) unfolding PCT_HandleMoudleMsg_def Let_def
    by (elim bindE, simp only: split_paired_all prod.case)
  have s1': "zc_rest s1" "con_ok (con s1)" "recv_q s1 = recv_q s" "st s1 = st s"
    using set_timer_rest [OF s1] assms(2) by (auto simp: zc_inv_def)
  have "length m = 600" "unat (u32Len b) \<le> 600"
    using length_rd [OF d(1)] length_wr [OF d(2)] s1'(1) d(2) by (auto simp: zc_rest_def retx_ok_def wr_eq_Some)
  then have "zc_rest (s1\<lparr>g_struRetxBuffer := (g_struRetxBuffer s1)\<lparr>u8MsgBuffer := m, u32Len := u32Len b, u8Status := MSG_BUFFER_FULL\<rparr>\<rparr>)"
    using s1'(1) by (simp add: zc_rest_def retx_ok_def)
  with send_moudle_inv [OF s2] s1' have "zc_inv s2 \<and> recv_q s2 = recv_q s \<and> st s2 = st s"
    by (simp add: zc_inv_def recv_q_def)
  with restart_heart_inv [OF s'] show ?thesis by simp
qed

text \<open>The firmware update: the offset never passes the announced length.\<close>

lemma ota_chunk_inv:
  "zc_inv s \<Longrightarrow> ota_chunk_ok off len s
    \<Longrightarrow> zc_rest u \<Longrightarrow> con u = con s \<Longrightarrow> zc_inv (ota_update (\<lambda>i. i\<lparr>u32RecvOffset := u32RecvOffset i + len\<rparr>) u)"
  by (simp add: zc_inv_def ota_chunk_ok_def ota_update_def not_less)

lemma ota_update_simps [simp]: "recv_q (ota_update f s) = recv_q s" "st (ota_update f s) = st s"
  by (simp_all add: ota_update_def)

lemma ota_file_begin_inv: "ota_file_begin ota s = Some s' \<Longrightarrow> zc_inv s \<Longrightarrow> stays s s'"
  by (auto dest!: ota_file_begin_rest simp: zc_inv_def ota_update_def)

lemma platform_stays: "same_but_platform s s' \<Longrightarrow> zc_inv s \<Longrightarrow> stays s s'"
  using same_but_platform_rest [of s s'] by (simp add: zc_inv_def)

lemma ota_replies:
  assumes "zc_inv s" "rsa_writes A"
  shows "PCT_HandleOtaBeginMsg A msg s = Some s' \<Longrightarrow> stays s s'"
    "PCT_HandleOtaFileBeginMsg A msg s = Some s' \<Longrightarrow> stays s s'"
    "PCT_HandleOtaFileEndMsg A msg s = Some s' \<Longrightarrow> stays s s'"
    "PCT_HandleOtaEndMsg A msg s = Some s' \<Longrightarrow> stays s s'"
    "PCT_ModuleOtaFileBeginMsg A ota s = Some s' \<Longrightarrow> stays s s'"
    "PCT_ModuleOtaFileEndMsg A s = Some s' \<Longrightarrow> stays s s'"
proof -
  note sends = simple_sends [OF _ assms(2)]
  show "PCT_HandleOtaBeginMsg A msg s = Some s' \<Longrightarrow> stays s s'"
    using assms(1) unfolding PCT_HandleOtaBeginMsg_def by (elim bindE) (metis sends(2) sends(4))
  show "PCT_HandleOtaFileBeginMsg A msg s = Some s' \<Longrightarrow> stays s s'"
    using assms(1) unfolding PCT_HandleOtaFileBeginMsg_def by (elim bindE) (metis sends(2) ota_file_begin_inv)
  show "PCT_HandleOtaFileEndMsg A msg s = Some s' \<Longrightarrow> stays s s'"
    using assms(1) unfolding PCT_HandleOtaFileEndMsg_def by (metis sends(2))
  show "PCT_ModuleOtaFileBeginMsg A ota s = Some s' \<Longrightarrow> stays s s'"
    using assms(1) unfolding PCT_ModuleOtaFileBeginMsg_def by (elim bindE) (metis sends(4) ota_file_begin_inv)
  show "PCT_ModuleOtaFileEndMsg A s = Some s' \<Longrightarrow> stays s s'"
    using assms(1) unfolding PCT_ModuleOtaFileEndMsg_def
    by (elim bindE, simp only: split_paired_all prod.case) (metis sends(4) platform_stays update_finish)
  show "PCT_HandleOtaEndMsg A msg s = Some s' \<Longrightarrow> stays s s'"
  proof -
    assume "PCT_HandleOtaEndMsg A msg s = Some s'"
    then obtain s1 r where s1: "pfunUpdateFinish A (u32TotalLen (struOtaInfo (con s))) s = Some (s1, r)"
      and s': "(if r = ZC_RET_ERROR then PCT_SendErrorMsg A (MsgId (get_MessageHead msg)) [] 0 s1
         else do {
           s \<leftarrow> PCT_SendAckToCloud A (MsgId (get_MessageHead msg)) s1;
           PCT_SendNotifyMsg A ZC_CODE_ZOTA_END s
         }) = Some s'"
      unfolding PCT_HandleOtaEndMsg_def by (elim bindE, simp only: split_paired_all prod.case)
    note stay1 = platform_stays [OF update_finish [OF s1] assms(1)]
    show "stays s s'"
    proof (cases "r = ZC_RET_ERROR")
      case True
      with s' stay1 sends(1) [of s1] show ?thesis by simp
    next
      case False
      with s' obtain s2 where s2: "PCT_SendAckToCloud A (MsgId (get_MessageHead msg)) s1 = Some s2"
          "PCT_SendNotifyMsg A ZC_CODE_ZOTA_END s2 = Some s'"
        by (simp only: if_False) (elim bindE, blast)
      have "stays s s2"
        using sends(2) [OF _ s2(1)] stay1 by simp
      with sends(4) [OF _ s2(2)] show ?thesis by simp
    qed
  qed
qed

lemma PCT_HandleOtaFileChunkMsg_inv:
  assumes "PCT_HandleOtaFileChunkMsg A msg s = Some s'" "zc_inv s" "rsa_writes A"
  shows "stays s s'"
proof -
  note sends = simple_sends [OF _ assms(3)]
  let ?h = "get_MessageHead msg"
  let ?len = "ucast (ZC_HTONS (Payloadlen ?h)) - 4" and ?i = "MsgId ?h"
  obtain off where run: "(if \<not> ota_chunk_ok off ?len s then PCT_SendErrorMsg A ?i [] 0 s
     else do {
       (s, r) \<leftarrow> pfunUpdate A (drop 12 msg) off ?len s;
       if r = ZC_RET_ERROR then PCT_SendErrorMsg A ?i [] 0 s
       else PCT_SendAckToCloud A ?i (ota_update (\<lambda>i. i\<lparr>u32RecvOffset := u32RecvOffset i + ?len\<rparr>) s)
     }) = Some s'"
    using assms(1) unfolding PCT_HandleOtaFileChunkMsg_def Let_def by (elim bindE) (rule that)
  show ?thesis
  proof (cases "ota_chunk_ok off ?len s")
    case False
    with run sends(1) [OF assms(2)] show ?thesis by simp
  next
    case True
    from run obtain s1 r where s1: "pfunUpdate A (drop 12 msg) off ?len s = Some (s1, r)"
      and s': "(if r = ZC_RET_ERROR then PCT_SendErrorMsg A ?i [] 0 s1
       else PCT_SendAckToCloud A ?i (ota_update (\<lambda>i. i\<lparr>u32RecvOffset := u32RecvOffset i + ?len\<rparr>) s1)) = Some s'"
      by (simp only: True simp_thms if_False) (elim bindE, simp only: split_paired_all prod.case)
    have s1': "zc_rest s1" "con s1 = con s" "recv_q s1 = recv_q s"
      using same_but_platform_rest [OF update [OF s1]] assms(2) by (simp_all add: zc_inv_def)
    then have "zc_inv (ota_update (\<lambda>i. i\<lparr>u32RecvOffset := u32RecvOffset i + ?len\<rparr>) s1)" "zc_inv s1"
      using ota_chunk_inv [OF assms(2) True s1'(1)] assms(2) by (simp_all add: zc_inv_def)
    with s' s1' sends(1) [of s1] sends(2) [of "ota_update (\<lambda>i. i\<lparr>u32RecvOffset := u32RecvOffset i + ?len\<rparr>) s1"]
    show ?thesis by (cases "r = ZC_RET_ERROR") simp_all
  qed
qed

lemma PCT_ModuleOtaFileChunkMsg_inv:
  assumes "PCT_ModuleOtaFileChunkMsg A h ota s = Some s'" "zc_inv s" "rsa_writes A"
  shows "stays s s'"
proof -
  note sends = simple_sends [OF _ assms(3)]
  let ?len = "ucast (ZC_HTONS (Payloadlen h)) - 4"
  obtain off where run: "(if \<not> ota_chunk_ok off ?len s then PCT_SendNotifyMsg A ZC_CODE_ERR s
     else do {
       r \<leftarrow> PCT_CheckCrc (TotalMsgCrc h) ota (ZC_HTONS (Payloadlen h));
       if r = ZC_RET_ERROR then PCT_SendNotifyMsg A ZC_CODE_ERR s
       else do {
         (s, r) \<leftarrow> pfunUpdate A (drop 4 ota) off ?len s;
         if r = ZC_RET_ERROR then PCT_SendNotifyMsg A ZC_CODE_ERR s
         else PCT_SendNotifyMsg A ZC_CODE_ACK (ota_update (\<lambda>i. i\<lparr>u32RecvOffset := u32RecvOffset i + ?len\<rparr>) s)
       }
     }) = Some s'"
    using assms(1) unfolding PCT_ModuleOtaFileChunkMsg_def Let_def by (elim bindE) (rule that)
  show ?thesis
  proof (cases "ota_chunk_ok off ?len s")
    case False
    with run sends(4) [OF assms(2)] show ?thesis by simp
  next
    case True
    from run obtain c where s0: "(if c = ZC_RET_ERROR then PCT_SendNotifyMsg A ZC_CODE_ERR s
       else do {
         (s, r) \<leftarrow> pfunUpdate A (drop 4 ota) off ?len s;
         if r = ZC_RET_ERROR then PCT_SendNotifyMsg A ZC_CODE_ERR s
         else PCT_SendNotifyMsg A ZC_CODE_ACK (ota_update (\<lambda>i. i\<lparr>u32RecvOffset := u32RecvOffset i + ?len\<rparr>) s)
       }) = Some s'"
      by (simp only: True simp_thms if_False) (elim bindE, blast)
    show ?thesis
    proof (cases "c = ZC_RET_ERROR")
      case True
      with s0 sends(4) [OF assms(2)] show ?thesis by simp
    next
      case False
      from s0 obtain s1 r where s1: "pfunUpdate A (drop 4 ota) off ?len s = Some (s1, r)"
        and s': "(if r = ZC_RET_ERROR then PCT_SendNotifyMsg A ZC_CODE_ERR s1
          else PCT_SendNotifyMsg A ZC_CODE_ACK (ota_update (\<lambda>i. i\<lparr>u32RecvOffset := u32RecvOffset i + ?len\<rparr>) s1)) = Some s'"
        by (simp only: False if_False) (elim bindE, simp only: split_paired_all prod.case)
      have s1': "zc_rest s1" "con s1 = con s" "recv_q s1 = recv_q s"
        using same_but_platform_rest [OF update [OF s1]] assms(2) by (simp_all add: zc_inv_def)
      then have "zc_inv (ota_update (\<lambda>i. i\<lparr>u32RecvOffset := u32RecvOffset i + ?len\<rparr>) s1)" "zc_inv s1"
        using ota_chunk_inv [OF assms(2) True s1'(1)] assms(2) by (simp_all add: zc_inv_def)
      with s' s1' sends(4) [of s1] sends(4) [of "ota_update (\<lambda>i. i\<lparr>u32RecvOffset := u32RecvOffset i + ?len\<rparr>) s1"]
      show ?thesis by (cases "r = ZC_RET_ERROR") simp_all
    qed
  qed
qed

end

end
