(* ===== verification/Machine.thy ===== *)
theory Machine
  imports Invariant
begin

text \<open>
  The protocol controller as a state machine: what one \<^verbatim>\<open>PCT_Run\<close>, a timer, waking up and sleeping do to
  the main state, with the invariant of the theory \<open>Invariant\<close>.
\<close>

section \<open>Events\<close>

context module_adapter begin

lemma PCT_SetTokenKey_inv:
  assumes "PCT_SetTokenKey A msg s = Some s'" "zc_inv s" "rsa_writes A"
  shows "stays s s'"
proof -
  note sends = simple_sends [OF _ assms(3)]
  obtain s1 s2 i where s1: "ZC_StoreTokenKey A (drop 8 msg) s = Some s1" "PCT_SendEmptyMsg A i ZC_SEC_ALG_AES s1 = Some s2"
      "PCT_SendAckToCloud A i s2 = Some s'"
    using assms(1) unfolding PCT_SetTokenKey_def by (elim bindE) (rule that)
  have 1: "stays s s1"
    using ZC_StoreTokenKey_rest [OF s1(1)] assms(2) by (simp add: zc_inv_def)
  then have 2: "stays s s2"
    using sends(3) [OF _ s1(2)] by simp
  then show ?thesis
    using sends(2) [OF _ s1(3)] by simp
qed

lemma PCT_ResetNetWork_inv:
  assumes "PCT_ResetNetWork A msg s = Some s'" "zc_inv s" "rsa_writes A"
  shows "zc_inv s' \<and> recv_empty s' \<and> st s' = PCT_STATE_DISCONNECT_CLOUD"
proof -
  note sends = simple_sends [OF _ assms(3)]
  obtain s1 s2 i where s1: "PCT_DisConnectCloud A (ZC_ConfigInitPara s) = Some s1" "PCT_SendEmptyMsg A i ZC_SEC_ALG_AES s1 = Some s2"
      "PCT_SendAckToCloud A i s2 = Some s'"
    using assms(1) unfolding PCT_ResetNetWork_def by (elim bindE) (rule that)
  have 1: "zc_inv s1 \<and> recv_empty s1 \<and> st s1 = PCT_STATE_DISCONNECT_CLOUD"
    using disconnect_inv [OF s1(1)] assms(2) by (simp add: zc_inv_def)
  then have 2: "zc_inv s2 \<and> recv_empty s2 \<and> st s2 = PCT_STATE_DISCONNECT_CLOUD"
    using sends(3) [OF _ s1(2)] by simp
  then show ?thesis
    using sends(2) [OF _ s1(3)] by simp
qed

lemma dispatch_event_inv:
  assumes "dispatch_event A b s = Some s'" "zc_inv s" "rsa_writes A" "recv_empty s"
  shows "zc_inv s' \<and> recv_empty s' \<and> (st s' = st s \<or> st s' = PCT_STATE_DISCONNECT_CLOUD)"
proof -
  have default: "stays s s'"
    if "do { s \<leftarrow> PCT_HandleMoudleMsg A b s; PCT_SendEmptyMsg A i ZC_SEC_ALG_AES s } = Some s'" for i
  proof -
    from that obtain s1 where s1: "PCT_HandleMoudleMsg A b s = Some s1" "PCT_SendEmptyMsg A i ZC_SEC_ALG_AES s1 = Some s'"
      by (elim bindE)
    have "stays s s1"
      by (rule PCT_HandleMoudleMsg_inv [OF s1(1) assms(2)])
    with simple_sends(3) [OF _ assms(3) s1(2)] show ?thesis by simp
  qed
  have "stays s s' \<or> zc_inv s' \<and> recv_empty s' \<and> st s' = PCT_STATE_DISCONNECT_CLOUD"
    using assms(1) ota_replies(1-4) [OF assms(2,3), of "u8MsgBuffer b" s'] PCT_HandleOtaFileChunkMsg_inv [OF _ assms(2,3), of "u8MsgBuffer b" s']
      PCT_HandleMoudleMsg_inv [OF _ assms(2), of b s'] PCT_SetTokenKey_inv [OF _ assms(2,3), of "u8MsgBuffer b" s']
      PCT_ResetNetWork_inv [OF _ assms(2,3), of "u8MsgBuffer b" s'] default
    unfolding dispatch_event_def Let_def by (simp only: split: if_split_asm) blast+
  with assms(4) show ?thesis by auto
qed

lemma PCT_HandleEvent_inv:
  assumes "PCT_HandleEvent A s = Some s'" "zc_inv s" "rsa_writes A"
  shows "zc_inv s' \<and> (st s' = st s \<or> st s' = PCT_STATE_DISCONNECT_CLOUD)"
proof (cases "u8SendMoudleTimer (con s) \<noteq> PCT_TIMER_INVAILD")
  case True
  with assms show ?thesis by (simp add: PCT_HandleEvent_def)
next
  case False
  then obtain q m where pop: "MSG_PopMsg (g_struRecvQueue s) = Some (q, m)"
    using assms(1) by (auto simp: PCT_HandleEvent_def bind_Some_iff)
  let ?s = "s\<lparr>g_struRecvQueue := q\<rparr>"
  have s0: "zc_inv ?s" "recv_empty ?s" "m \<in> {None, Some RecvBuffer}"
    using pop_recv [OF pop] assms(2) by (auto simp: zc_inv_def)
  show ?thesis
  proof (cases m)
    case None
    then show ?thesis using assms(1) pop s0 False by (auto simp: PCT_HandleEvent_def)
  next
    case (Some r)
    then obtain b i c s1 where run: "(if c = ZC_RET_ERROR then do {
                s \<leftarrow> PCT_SendEmptyMsg A i ZC_SEC_ALG_AES ?s;
                PCT_SendErrorMsg A i [] 0 s
              } else dispatch_event A b ?s) = Some s1" "release RecvBuffer s1 = Some s'"
      using assms(1) pop s0(3) False by (auto simp: PCT_HandleEvent_def Let_def elim!: bindE)
    have "zc_inv s1 \<and> recv_empty s1 \<and> (st s1 = st s \<or> st s1 = PCT_STATE_DISCONNECT_CLOUD)"
    proof (cases "c = ZC_RET_ERROR")
      case True
      with run(1) obtain s2 where s2: "PCT_SendEmptyMsg A i ZC_SEC_ALG_AES ?s = Some s2" "PCT_SendErrorMsg A i [] 0 s2 = Some s1"
        by (simp only: simp_thms if_True) (elim bindE)
      have "stays ?s s2"
        using simple_sends(3) [OF s0(1) assms(3) s2(1)] .
      with simple_sends(1) [OF _ assms(3) s2(2)] s0(2) show ?thesis by simp
    next
      case False
      with run(1) dispatch_event_inv [OF _ s0(1) assms(3) s0(2)] show ?thesis by simp
    qed
    with release_Recv [OF run(2)] show ?thesis by (auto simp: zc_inv_def)
  qed
qed

section \<open>The machine\<close>

text \<open>The edges of one \<^verbatim>\<open>PCT_Run\<close>.\<close>

lemma PCT_Run_inv:
  assumes "PCT_Run A s = Some s'" "zc_inv s" "rsa_writes A"
  shows "zc_inv s' \<and> (st s' = st s
    \<or> st s = PCT_STATE_ACCESS_NET \<and> st s' = PCT_STATE_WAIT_ACCESS
    \<or> st s = PCT_STATE_WAIT_ACCESS \<and> st s' = PCT_STATE_WAIT_ACCESSRSP
    \<or> st s = PCT_STATE_WAIT_ACCESSRSP \<and> st s' = PCT_STATE_WAIT_MSG4
    \<or> st s = PCT_STATE_WAIT_MSG4 \<and> st s' = PCT_STATE_CONNECT_CLOUD
    \<or> st s \<in> {PCT_STATE_WAIT_ACCESS, PCT_STATE_WAIT_ACCESSRSP, PCT_STATE_WAIT_MSG4, PCT_STATE_CONNECT_CLOUD}
      \<and> st s' = PCT_STATE_DISCONNECT_CLOUD)"
proof -
  consider "st s = 2" "PCT_ConnectCloud A s = Some s'" | "st s = 3" "PCT_SendCloudAccessMsg1 A s = Some s'"
    | "st s = 4" "PCT_RecvAccessMsg2 A s = Some s'" | "st s = 5" "PCT_RecvAccessMsg4 A s = Some s'"
    | "st s = 6" "PCT_HandleEvent A s = Some s'" | "s' = s"
    using assms(1) unfolding PCT_Run_def Let_def by (simp only: split: if_split_asm) auto
  then show ?thesis
  proof cases
    case 1 with PCT_ConnectCloud_inv [OF 1(2) assms(2)] show ?thesis by auto
  next
    case 2 with PCT_SendCloudAccessMsg1_inv [OF 2(2) assms(2,3)] show ?thesis by auto
  next
    case 3 with PCT_RecvAccessMsg2_inv [OF 3(2) assms(2,3)] show ?thesis by auto
  next
    case 4 with PCT_RecvAccessMsg4_inv [OF 4(2) assms(2) 4(1)] show ?thesis by auto
  next
    case 5 with PCT_HandleEvent_inv [OF 5(2) assms(2,3)] show ?thesis by auto
  qed (use assms(2) in simp)
qed

lemma PCT_WakeUp_inv:
  assumes "PCT_WakeUp A s = Some s'" "zc_inv s"
  shows "zc_inv s' \<and> st s' = st s"
proof (cases "st s = PCT_STATE_INIT")
  case True
  with assms(1) obtain s1 s2 where s1: "set_timer A PCT_TIMER_REGISTER PCT_TIMER_INTERVAL_REGISTER u8RegisterTimer_update s = Some s1"
      and s2: "PCT_SendNotifyMsg A ZC_CODE_WIFI_CONNECTED (con_update (u16SendBcNum_update (\<lambda>_. 0)) s1) = Some s2"
      and s': "s' = ZC_ClientWakeUp s2"
    unfolding PCT_WakeUp_def Let_def by (auto elim!: bindE)
  have "zc_rest s1" "con_ok (con s1)" "st s1 = st s"
    using set_timer_rest [OF s1] assms(2) by (auto simp: zc_inv_def)
  with PCT_SendNotifyMsg_rest [OF s2] have "zc_inv s2" "st s2 = st s"
    by (simp_all add: zc_inv_def)
  then show ?thesis
    by (simp add: s' ZC_ClientWakeUp_def client_update_def zc_inv_def zc_rest_def client_ok_def)
next
  case False
  with assms show ?thesis by (simp add: PCT_WakeUp_def)
qed

lemma ZC_ClientInit_rest [simp]:
  "zc_rest s \<Longrightarrow> zc_rest (ZC_ClientInit s)" "con (ZC_ClientInit s) = con s"
  by (simp_all add: ZC_ClientInit_def client_update_def zc_rest_def client_ok_def)

lemma PCT_Sleep_inv:
  assumes "PCT_Sleep A s = Some s'" "zc_inv s"
  shows "zc_inv s' \<and> st s' = PCT_STATE_INIT \<and> u8keyRecv (con s') = PCT_KEY_UNRECVED"
proof -
  let ?s = "con_update (u8keyRecv_update (\<lambda>_. PCT_KEY_UNRECVED)) (MSG_Init s)"
  let ?u = "\<lambda>s1. con_update (\<lambda>c. c\<lparr>u8ReconnectTimer := PCT_TIMER_INVAILD, u8SendMoudleTimer := PCT_TIMER_INVAILD,
       u8HeartTimer := PCT_TIMER_INVAILD, u8MainState := PCT_STATE_INIT, u8RegisterTimer := PCT_TIMER_INVAILD\<rparr>) (TIMER_Init s1)"
  obtain s1 s2 where s1: "stop_used_timers ZC_TIMER_MAX_NUM 0 A ?s = Some s1"
      and s2: "PCT_SendNotifyMsg A ZC_CODE_WIFI_DISCONNECTED (?u s1) = Some s2" and s': "s' = ZC_ClientInit s2"
    using assms(1) unfolding PCT_Sleep_def Let_def ZC_ClientSleep_def by (auto elim!: bindE)
  have s1': "zc_rest s1" "con s1 = (con s)\<lparr>u8keyRecv := PCT_KEY_UNRECVED\<rparr>"
    using stop_used_timers_rest [OF s1] assms(2) by (simp_all add: zc_inv_def)
  then have "zc_rest s2" "con s2 = (con s)\<lparr>u8keyRecv := PCT_KEY_UNRECVED, u8ReconnectTimer := PCT_TIMER_INVAILD,
      u8SendMoudleTimer := PCT_TIMER_INVAILD, u8HeartTimer := PCT_TIMER_INVAILD, u8MainState := PCT_STATE_INIT,
      u8RegisterTimer := PCT_TIMER_INVAILD\<rparr>"
    using PCT_SendNotifyMsg_rest [OF s2] by simp_all
  with assms(2) show ?thesis by (simp add: s' zc_inv_def con_ok_def)
qed

lemma TIMER_TimeoutAction_inv:
  assumes "TIMER_TimeoutAction A i s = Some s'" "zc_inv s" "rsa_writes A"
  shows "zc_inv s' \<and> (st s' = st s \<or> st s' = PCT_STATE_ACCESS_NET \<or> st s' = PCT_STATE_DISCONNECT_CLOUD)"
proof -
  let ?s1 = "con_update (\<lambda>c. c\<lparr>u8ReconnectTimer := PCT_TIMER_INVAILD, u8MainState := PCT_STATE_ACCESS_NET\<rparr>) s"
  let ?reg = "do { s \<leftarrow> set_timer A PCT_TIMER_REGISTER PCT_TIMER_INTERVAL_REGISTER u8RegisterTimer_update s;
        PCT_SendNotifyMsg A ZC_CODE_WIFI_CONNECTED s }"
  obtain ty where run: "(if ty = PCT_TIMER_RECONNECT then Some ?s1
     else if ty = PCT_TIMER_REACCESS then PCT_DisConnectCloud A s
     else if ty = PCT_TIMER_SENDMOUDLE then PCT_SendMoudleTimeout A s
     else if ty = PCT_TIMER_SENDHEART then PCT_SendHeartMsg A s
     else if ty = PCT_TIMER_REGISTER then ?reg else Some s) = Some s'"
    using assms(1) unfolding TIMER_TimeoutAction_def Let_def by (elim bindE) (rule that)
  consider "ty = 0" | "ty = 1" | "ty = 2" | "ty = 3" | "ty = 4" | "ty \<notin> {0, 1, 2, 3, 4}" by blast
  then show ?thesis
  proof cases
    case 1
    with run have "s' = ?s1" by simp
    with assms(2) show ?thesis by (simp add: zc_inv_def)
  next
    case 2
    with run have "PCT_DisConnectCloud A s = Some s'" by simp
    from disconnect_inv [OF this] assms(2) show ?thesis by (simp add: zc_inv_def)
  next
    case 3
    with run have "PCT_SendMoudleTimeout A s = Some s'" by simp
    from PCT_SendMoudleTimeout_inv [OF this assms(2,3)] show ?thesis by simp
  next
    case 4
    with run have "PCT_SendHeartMsg A s = Some s'" by simp
    from PCT_SendHeartMsg_inv [OF this assms(2,3)] show ?thesis by simp
  next
    case 5
    with run have "?reg = Some s'" by simp
    then obtain s1 where s1: "set_timer A PCT_TIMER_REGISTER PCT_TIMER_INTERVAL_REGISTER u8RegisterTimer_update s = Some s1"
        "PCT_SendNotifyMsg A ZC_CODE_WIFI_CONNECTED s1 = Some s'"
      by (elim bindE)
    then have "zc_inv s1" "st s1 = st s"
      using set_timer_rest [OF s1(1)] assms(2) by (auto simp: zc_inv_def)
    with simple_sends(4) [OF _ assms(3) s1(2)] show ?thesis by simp
  next
    case 6
    with run have "s' = s" by simp
    with assms(2) show ?thesis by simp
  qed
qed

end

text \<open>\<^verbatim>\<open>PCT_Init\<close> establishes the invariant from zeroed memory.\<close>

lemma PCT_Init_inv: "zc_inv (PCT_Init (zc_start st h))"
proof -
  have q: "ring_inv (MSG_InitQueue zero_queue :: buffer_ref MSG_Queue)"
      "ring_contents (MSG_InitQueue zero_queue :: buffer_ref MSG_Queue) = []"
    using ring_start [of zero_queue] by (simp_all add: ring_storage_def zero_queue_def)
  have "config_ok (g_struZcConfigDb (ZC_ConfigInitPara (zc_start st h)))"
    using config_ok_init [of "zc_start st h"] by (simp add: config_ok_def zc_start_def zero_config_def)
  then show ?thesis
    using q by (auto simp: PCT_Init_def Let_def zc_inv_def con_ok_def zc_rest_def zc_start_def zero_con_def
      ZC_ClientInit_def client_update_def TIMER_Init_def MSG_Init_def ZC_ConfigInitPara_def config_update_def
      send_ok_def recv_fields_ok_def recv_inv_def client_ok_def uart_ok_def retx_ok_def register_ok_def idle_def
      zero_buffer_def config_ok_def)
qed


end
