(* ===== verification/Moudle.thy ===== *)
theory Moudle
  imports Machine
begin

text \<open>
  The messages of the module's own processor, \<^verbatim>\<open>zc_moudle_manager.c\<close>: packets are assembled from the UART,
  checked and dispatched, and those that carry a session option go to the client they answer.
\<close>

section \<open>The code\<close>

text \<open>Where the message a caller passes to \<^verbatim>\<open>ZC_RecvDataFromMoudle\<close> lies: in the build buffer or in the buffer
  of \<^verbatim>\<open>ac_hal.c\<close> (through \<^verbatim>\<open>AC_SendMessage\<close>), or behind the magic bytes of the UART buffer.\<close>

datatype msg_src = SrcBuild | SrcDev | SrcUart

definition src_bytes :: "msg_src \<Rightarrow> 'h zc \<Rightarrow> u8 list" where
  "src_bytes src s = (case src of
     SrcBuild \<Rightarrow> g_u8MsgBuildBuffer s
   | SrcDev \<Rightarrow> g_u8DevMsgBuildBuffer s
   | SrcUart \<Rightarrow> drop ZC_MAGIC_LEN (u8UartBuffer (g_struUartBuffer s)))"

definition src_write :: "msg_src \<Rightarrow> u8 list \<Rightarrow> 'h zc \<Rightarrow> 'h zc option" where
  "src_write src d s = (case src of
     SrcBuild \<Rightarrow> do { b \<leftarrow> wr (g_u8MsgBuildBuffer s) 0 d; Some (s\<lparr>g_u8MsgBuildBuffer := b\<rparr>) }
   | SrcDev \<Rightarrow> do { b \<leftarrow> wr (g_u8DevMsgBuildBuffer s) 0 d; Some (s\<lparr>g_u8DevMsgBuildBuffer := b\<rparr>) }
   | SrcUart \<Rightarrow> do {
       b \<leftarrow> wr (u8UartBuffer (g_struUartBuffer s)) ZC_MAGIC_LEN d;
       Some (s\<lparr>g_struUartBuffer := (g_struUartBuffer s)\<lparr>u8UartBuffer := b\<rparr>\<rparr>)
     })"

fun find_client :: "nat \<Rightarrow> nat \<Rightarrow> u32 \<Rightarrow> 'h zc \<Rightarrow> bool option" where
  "find_client 0 i fd s = Some False"
| "find_client (Suc k) i fd s = do {
     fl \<leftarrow> rd1 (u32ClientVaildFlag (g_struClientInfo s)) i;
     x \<leftarrow> rd1 (u32ClientFd (g_struClientInfo s)) i;
     if fl = ZC_CLIENT_INVAILD_FLAG \<and> fd = x then Some True else find_client k (Suc i) fd s
   }"

text \<open>
  The answer without its security head: the options and the payload behind the place of the message head,
  the checksum, and the head, which is also changed where the message lies.  The checksum is taken from
  \<^verbatim>\<open>g_u8MsgBuildBuffer + sizeof(ZC_MessageHead)\<close>, as in the code.
\<close>

definition session_plain ::
  "ZC_MessageHead \<Rightarrow> ZC_OptList \<Rightarrow> u8 list \<Rightarrow> u8 list \<Rightarrow> (ZC_MessageHead \<times> u8 list \<times> u16) option" where
  "session_plain h optlist payload build = do {
     (opt, num, optlen) \<leftarrow> EVENT_BuildOption
       (Some \<lparr>pstruTransportInfo = pstruTransportInfo optlist, pstruSsession = None\<rparr>) (drop 12 build);
     let build = take 12 build @ opt;
     let real = ZC_HTONS (Payloadlen h) - 8;
     d \<leftarrow> rd payload 0 (unat (ucast real - ucast optlen :: u32));
     build \<leftarrow> wr build (12 + unat optlen) d;
     c \<leftarrow> rd build 8 (unat real);
     let h = h\<lparr>OptNum := num, Payloadlen := ZC_HTONS real, TotalMsgCrc := crc_bytes (crc16_ccitt c)\<rparr>;
     build \<leftarrow> wr build 4 (put_MessageHead h);
     Some (h, build, real)
   }"

text \<open>The answer is encrypted in place under the token key and sent.\<close>

definition answer_client ::
  "'h PTC_ModuleAdapter \<Rightarrow> msg_src \<Rightarrow> u32 \<Rightarrow> ZC_OptList \<Rightarrow> u8 list \<Rightarrow> 'h zc \<Rightarrow> ('h zc \<times> u32) option" where
  "answer_client A src u32ClientId optlist payload s = do {
     (h, build, real) \<leftarrow> session_plain (get_MessageHead (src_bytes src s)) optlist payload (g_u8MsgBuildBuffer s);
     s \<leftarrow> src_write src (put_MessageHead h) s;
     key \<leftarrow> ZC_GetStoreInfor ZC_GET_TYPE_TOKENKEY s;
     iv \<leftarrow> rd key 0 ZC_HS_SESSION_KEY_LEN;
     (c, len) \<leftarrow> AES_CBC_Encrypt key_object (drop 4 build) (ucast real + 8) key 16 iv (drop 4 build);
     let (x, s) = indet 1 s;
     let build = put_SecHead \<lparr>u16TotalMsg = ZC_HTONS (ucast len), u8SecType = ZC_SEC_ALG_AES, u8Resver = x ! 0\<rparr> @ c;
     let n = (ucast (len + 4) :: u8);
     s \<leftarrow> pfunSendTcpData A u32ClientId build (ucast n) \<lparr>u8NeedPoll = 1, pu8AddrPara = None\<rparr>
       (s\<lparr>g_u8MsgBuildBuffer := build, g_u8ClientSendLen := n\<rparr>);
     Some (s\<lparr>g_u8ClientSendLen := 0\<rparr>, ZC_RET_OK)
   }"

text \<open>A message in the build buffer overlaps its own answer (\<^verbatim>\<open>memcpy\<close> of the head to four bytes behind
  it), which is undefined.\<close>

definition ZC_DealSessionOpt ::
  "'h PTC_ModuleAdapter \<Rightarrow> msg_src \<Rightarrow> ZC_OptList \<Rightarrow> u8 list \<Rightarrow> 'h zc \<Rightarrow> ('h zc \<times> u32) option" where
  "ZC_DealSessionOpt A src optlist payload s = do {
     ses \<leftarrow> pstruSsession optlist;
     x \<leftarrow> rd32 ses 0;
     found \<leftarrow> find_client ZC_MAX_CLIENT_NUM 0 (ZC_HTONL x) s;
     if \<not> found then Some (s, ZC_RET_OK)
     else if src = SrcBuild then None
     else answer_client A src (ZC_HTONL x) optlist payload s
   }"

definition dispatch_moudle ::
  "'h PTC_ModuleAdapter \<Rightarrow> u8 list \<Rightarrow> u16 \<Rightarrow> u8 list \<Rightarrow> 'h zc \<Rightarrow> 'h zc option" where
  "dispatch_moudle A pu8Data u16DataLen pu8Payload s =
     (let h = get_MessageHead pu8Data; code = MsgCode h; m = u8MainState (con s)
      in if code = ZC_CODE_REGSITER then
           if m \<ge> PCT_STATE_ACCESS_NET \<and> m < PCT_STATE_DISCONNECT_CLOUD then PCT_SendNotifyMsg A ZC_CODE_CLOUD_CONNECTED s
           else if m = PCT_STATE_DISCONNECT_CLOUD then PCT_SendNotifyMsg A ZC_CODE_CLOUD_DISCONNECTED s
           else do {
             s \<leftarrow> ZC_StoreRegisterInfo pu8Payload s;
             let s = con_update (u8MainState_update (\<lambda>_. PCT_STATE_ACCESS_NET)) s;
             if u8RegisterTimer (con s) \<noteq> PCT_TIMER_INVAILD then do {
               s \<leftarrow> TIMER_StopTimer A (u8RegisterTimer (con s)) s;
               Some (con_update (u8RegisterTimer_update (\<lambda>_. PCT_TIMER_INVAILD)) s)
             } else Some s
           }
         else if code = ZC_CODE_EQ_BEGIN then do {
           s \<leftarrow> PCT_SendNotifyMsg A ZC_CODE_EQ_DONE s;
           if u8MainState (con s) \<ge> PCT_STATE_ACCESS_NET then PCT_SendNotifyMsg A ZC_CODE_WIFI_CONNECTED s else Some s
         }
         else if code = ZC_CODE_ZOTA_FILE_BEGIN then PCT_ModuleOtaFileBeginMsg A pu8Payload s
         else if code = ZC_CODE_ZOTA_FILE_CHUNK then PCT_ModuleOtaFileChunkMsg A h pu8Payload s
         else if code = ZC_CODE_ZOTA_FILE_END then do {
           s \<leftarrow> PCT_ModuleOtaFileEndMsg A s;
           PCT_SendNotifyMsg A ZC_CODE_ZOTA_END s
         }
         else if code = ZC_CODE_REST then pfunRest A s
         else if code = ZC_CODE_CONFIG then ZC_ConfigPara A pu8Payload s
         else if m = PCT_STATE_CONNECT_CLOUD then PCT_HandleMoudleEvent A pu8Data u16DataLen s
         else PCT_SendNotifyMsg A ZC_CODE_CLOUD_DISCONNECTED s)"

definition ZC_RecvDataFromMoudle :: "'h PTC_ModuleAdapter \<Rightarrow> msg_src \<Rightarrow> u16 \<Rightarrow> 'h zc \<Rightarrow> ('h zc \<times> u32) option" where
  "ZC_RecvDataFromMoudle A src u16DataLen s =
     (if u16DataLen = 0 then Some (s, ZC_RET_ERROR)
      else do {
        let pu8Data = src_bytes src s;
        let h = get_MessageHead pu8Data;
        r \<leftarrow> PCT_CheckCrc (TotalMsgCrc h) (drop 8 pu8Data) (ZC_HTONS (Payloadlen h));
        if r = ZC_RET_ERROR then Some (s, ZC_RET_ERROR)
        else do {
          (optlist, optlen) \<leftarrow> EVENT_ParseOption pu8Data \<lparr>pstruTransportInfo = None, pstruSsession = None\<rparr>;
          let pu8Payload = drop (unat optlen + 8) pu8Data;
          if pstruSsession optlist \<noteq> None then do {
            (s, r) \<leftarrow> ZC_DealSessionOpt A src optlist pu8Payload s;
            Some (s, ZC_RET_OK)
          } else do {
            s \<leftarrow> dispatch_moudle A pu8Data u16DataLen pu8Payload s;
            Some (s, ZC_RET_OK)
          }
        }
      })"

section \<open>The UART\<close>

definition u8MagicHead :: "u8 list" where
  "u8MagicHead = [2, 3, 4, 5]"

text \<open>The length of the packet whose bytes, with the magic, are \<open>b\<close>.\<close>

definition uart_len :: "u8 list \<Rightarrow> u32" where
  "uart_len b = ucast (ZC_HTONS (le16 (drop 8 b))) + 8 + 4"

definition uart_copy :: "ZC_UartBuffer \<Rightarrow> u8 list \<Rightarrow> u32 \<Rightarrow> ZC_UartBuffer option" where
  "uart_copy u pu8Data n = do {
     d \<leftarrow> rd pu8Data 0 (unat n);
     b \<leftarrow> wr (u8UartBuffer u) (unat (u32RecvLen u)) d;
     Some (u\<lparr>u8UartBuffer := b\<rparr>)
   }"

abbreviation uart_reset :: "ZC_UartBuffer \<Rightarrow> ZC_UartBuffer" where
  "uart_reset u \<equiv> u\<lparr>u32Status := 0, u32RecvLen := 0\<rparr>"

text \<open>The buffer, the result and \<^verbatim>\<open>*pu32LeftLen\<close>.  In the two branches that complete a packet from pieces the
  code computes the rest after it has set \<^verbatim>\<open>u32RecvLen\<close> to the length of the packet.\<close>

definition ZC_AssemblePkt :: "ZC_UartBuffer \<Rightarrow> u8 list \<Rightarrow> u32 \<Rightarrow> (ZC_UartBuffer \<times> u32 \<times> u32) option" where
  "ZC_AssemblePkt u pu8Data u32DataLen =
     (if u32Status u = 1 then Some (u, ZC_RET_ERROR, 0)
      else if u32Status u = 0 then
        (if u32DataLen < 12 then do {
           u \<leftarrow> uart_copy (u\<lparr>u32RecvLen := 0\<rparr>) pu8Data u32DataLen;
           Some (u\<lparr>u32Status := 2, u32RecvLen := u32DataLen\<rparr>, ZC_RET_OK, 0)
         } else do {
           magic \<leftarrow> rd pu8Data 0 4;
           if magic \<noteq> u8MagicHead then Some (uart_reset u, ZC_RET_ERROR, 0)
           else do {
             head \<leftarrow> rd pu8Data 0 12;
             let n = uart_len head;
             if n > ZC_MAX_UARTBUF_LEN then Some (uart_reset u, ZC_RET_ERROR, 0)
             else if n \<le> u32DataLen then do {
               u \<leftarrow> uart_copy (u\<lparr>u32RecvLen := 0\<rparr>) pu8Data n;
               Some (u\<lparr>u32Status := 1, u32RecvLen := n\<rparr>, ZC_RET_OK, u32DataLen - n)
             } else do {
               u \<leftarrow> uart_copy (u\<lparr>u32RecvLen := 0\<rparr>) pu8Data u32DataLen;
               Some (u\<lparr>u32Status := 3, u32RecvLen := u32DataLen\<rparr>, ZC_RET_OK, 0)
             }
           }
         })
      else if u32Status u = 3 then
        (let n = uart_len (u8UartBuffer u)
         in if n \<le> u32DataLen + u32RecvLen u then do {
              u \<leftarrow> uart_copy u pu8Data (n - u32RecvLen u);
              let u = u\<lparr>u32Status := 1, u32RecvLen := n\<rparr>;
              Some (u, ZC_RET_OK, u32DataLen + u32RecvLen u - n)
            } else do {
              u \<leftarrow> uart_copy u pu8Data u32DataLen;
              Some (u\<lparr>u32RecvLen := u32RecvLen u + u32DataLen, u32Status := 3\<rparr>, ZC_RET_OK, 0)
            })
      else if u32Status u = 2 then
        (if u32RecvLen u + u32DataLen < 12 then do {
           u \<leftarrow> uart_copy u pu8Data u32DataLen;
           Some (u\<lparr>u32RecvLen := u32RecvLen u + u32DataLen, u32Status := 2\<rparr>, ZC_RET_OK, 0)
         } else do {
           u \<leftarrow> uart_copy u pu8Data (12 - u32RecvLen u);
           if take 4 (u8UartBuffer u) \<noteq> u8MagicHead then Some (uart_reset u, ZC_RET_ERROR, 0)
           else
             (let n = uart_len (u8UartBuffer u)
              in if n > ZC_MAX_UARTBUF_LEN then Some (uart_reset u, ZC_RET_ERROR, 0)
                 else if n \<le> u32DataLen + u32RecvLen u then do {
                   u \<leftarrow> uart_copy u pu8Data (n - u32RecvLen u);
                   let u = u\<lparr>u32Status := 1, u32RecvLen := n\<rparr>;
                   Some (u, ZC_RET_OK, u32DataLen + u32RecvLen u - n)
                 } else do {
                   u \<leftarrow> uart_copy u pu8Data u32DataLen;
                   Some (u\<lparr>u32Status := 3, u32RecvLen := u32RecvLen u + u32DataLen\<rparr>, ZC_RET_OK, 0)
                 })
         })
      else Some (u, ZC_RET_ERROR, 0))"

text \<open>The recursion of \<^verbatim>\<open>ZC_Moudlefunc\<close> ends: what a packet from pieces leaves behind is at most what was
  given, and then the buffer is idle.\<close>

lemma uart_len_word: "unat (uart_len b) = frame_len (drop 8 b) + 8"
  using unat_16 [of "ZC_HTONS (le16 (drop 8 b))"] by (simp add: uart_len_def frame_len_def unat_add_small)

lemma ZC_AssemblePkt_left:
  assumes "ZC_AssemblePkt u d n = Some (u', r, left)" "r \<noteq> ZC_RET_ERROR" "left > 0"
  shows "u32Status u' = 1 \<and> unat left \<le> unat n \<and> (u32Status u = 0 \<longrightarrow> unat left < unat n)"
proof -
  have less: "unat (n - uart_len b) < unat n" if "uart_len b \<le> n" for b
  proof -
    have "12 \<le> unat (uart_len b)"
      by (simp add: uart_len_word frame_len_def)
    with that show ?thesis by (simp add: unat_sub word_le_nat_alt)
  qed
  from assms show ?thesis
    unfolding ZC_AssemblePkt_def Let_def
    by (simp only: split: if_split_asm) (auto elim!: bindE split: if_split_asm simp: less less [THEN less_imp_le])
qed

function ZC_Moudlefunc :: "'h PTC_ModuleAdapter \<Rightarrow> u8 list \<Rightarrow> u32 \<Rightarrow> 'h zc \<Rightarrow> 'h zc option" where
  "ZC_Moudlefunc A pu8Data u32DataLen s =
     (if u32DataLen = 0 then Some s
      else do {
        (u, r, left) \<leftarrow> ZC_AssemblePkt (g_struUartBuffer s) pu8Data u32DataLen;
        let s = s\<lparr>g_struUartBuffer := u\<rparr>;
        if r = ZC_RET_ERROR then Some s
        else if u32Status u = 1 then do {
          (s, r) \<leftarrow> ZC_RecvDataFromMoudle A SrcUart (ucast (u32RecvLen u - 4)) s;
          let s = s\<lparr>g_struUartBuffer := uart_reset (g_struUartBuffer s)\<rparr>;
          if left > 0 then ZC_Moudlefunc A (drop (unat (u32DataLen - left)) pu8Data) left s else Some s
        } else Some s
      })"
  by auto
termination
  by (relation "measure (\<lambda>(A, d, n, s). 2 * unat n + (if u32Status (g_struUartBuffer s) = 0 then 0 else 1))")
    (auto dest!: ZC_AssemblePkt_left)

declare ZC_Moudlefunc.simps [simp del]

end
