(* ===== verification/UartPacket.thy ===== *)
theory UartPacket
  imports Moudle
begin

text \<open>
  \<^verbatim>\<open>ZC_AssemblePkt\<close> refines the accumulation of the byte stream of the UART into packets, except for what it
  reports as left over: the abstract step \<open>uart_step\<close> says which bytes count as left over in the code.
\<close>

section \<open>The accumulation of a packet\<close>

definition packet_len :: "u8 list \<Rightarrow> nat" where
  "packet_len s = frame_len (drop 8 s) + 8"

definition uart_acc :: "ZC_UartBuffer \<Rightarrow> u8 list" where
  "uart_acc u = (if u32Status u = 0 then [] else take (unat (u32RecvLen u)) (u8UartBuffer u))"

text \<open>Status, bytes kept, result and bytes left over; a packet completed from pieces leaves the whole last
  piece.\<close>

definition uart_step :: "bool \<Rightarrow> u8 list \<Rightarrow> u8 list \<Rightarrow> u32 \<times> u8 list \<times> u32 \<times> nat" where
  "uart_step fresh acc d =
     (let s = acc @ d in
      if length s < 12 then (2, s, ZC_RET_OK, 0)
      else if take 4 s \<noteq> u8MagicHead then (0, [], ZC_RET_ERROR, 0)
      else if 1000 < packet_len s then (0, [], ZC_RET_ERROR, 0)
      else if packet_len s \<le> length s then
        (1, take (packet_len s) s, ZC_RET_OK, if fresh then length s - packet_len s else length d)
      else (3, s, ZC_RET_OK, 0))"

lemma packet_len_append [simp]: "10 \<le> length a \<Longrightarrow> packet_len (a @ b) = packet_len a"
  by (simp add: packet_len_def)

lemma packet_len_take [simp]: "10 \<le> n \<Longrightarrow> packet_len (take n a) = packet_len a"
  by (simp add: packet_len_def drop_take)

lemma same_head:
  assumes "take 12 a = take 12 b"
  shows "packet_len a = packet_len b" "take 4 a = take 4 b"
proof -
  have "packet_len a = packet_len (take 12 a)" "packet_len b = packet_len (take 12 b)"
      "take 4 a = take 4 (take 12 a)" "take 4 b = take 4 (take 12 b)"
    by (simp_all add: min_def)
  with assms show "packet_len a = packet_len b" "take 4 a = take 4 b" by metis+
qed

lemma packet_len_word: "unat (uart_len b) = packet_len b"
  by (simp add: uart_len_word packet_len_def)

lemma packet_len_12: "12 \<le> packet_len b"
  by (simp add: packet_len_def frame_len_def)

lemma uart_copy_Some:
  assumes "unat n \<le> length d" "unat (u32RecvLen u) + unat n \<le> length (u8UartBuffer u)"
  shows "uart_copy u d n = Some (u\<lparr>u8UartBuffer := take (unat (u32RecvLen u)) (u8UartBuffer u)
      @ take (unat n) d @ drop (unat (u32RecvLen u) + unat n) (u8UartBuffer u)\<rparr>)"
  using assms by (simp add: uart_copy_def rd_Some wr_Some)

lemma uart_ok_eq: "uart_ok u \<longleftrightarrow> length (u8UartBuffer u) = 1000 \<and> unat (u32RecvLen u) \<le> 1000
     \<and> (u32Status u = 0 \<or> u32Status u = 1 \<or> u32Status u = 2 \<and> unat (u32RecvLen u) < 12
        \<or> u32Status u = 3 \<and> 12 \<le> unat (u32RecvLen u) \<and> take 4 (u8UartBuffer u) = u8MagicHead
          \<and> unat (u32RecvLen u) < packet_len (u8UartBuffer u) \<and> packet_len (u8UartBuffer u) \<le> 1000)"
  by (auto simp: uart_ok_def packet_len_def u8MagicHead_def)

lemmas uart_simps = ZC_AssemblePkt_def uart_step_def Let_def uart_ok_eq uart_acc_def uart_copy_Some
  word_less_nat_alt word_le_nat_alt packet_len_word rd_Some

lemma uart_idle:
  assumes "length (u8UartBuffer u) = 1000" "u32Status u = 0" "unat n \<le> length d" "unat (u32RecvLen u) \<le> 1000"
  shows "\<exists>u' r left. ZC_AssemblePkt u d n = Some (u', r, left) \<and> uart_ok u'
    \<and> (u32Status u', uart_acc u', r, unat left) = uart_step True [] (take (unat n) d)"
proof -
  let ?N = "unat n" and ?D = "take (unat n) d"
  have D: "length ?D = ?N" using assms(3) by simp
  have sub: "packet_len d \<le> ?N \<Longrightarrow> unat (n - uart_len (take 12 d)) = ?N - packet_len d"
    by (subst unat_sub) (simp_all add: word_le_nat_alt packet_len_word)
  have four: "12 \<le> ?N \<Longrightarrow> take 4 ?D = take 4 d"
    by (simp add: min_def)
  consider "?N < 12" | "12 \<le> ?N" "take 4 d \<noteq> u8MagicHead" | "12 \<le> ?N" "take 4 d = u8MagicHead" "1000 < packet_len d"
    | "12 \<le> ?N" "take 4 d = u8MagicHead" "packet_len d \<le> 1000" "packet_len d \<le> ?N"
    | "12 \<le> ?N" "take 4 d = u8MagicHead" "packet_len d \<le> 1000" "?N < packet_len d"
    by linarith
  then show ?thesis
    by cases (use assms D sub four in \<open>auto simp: uart_simps min_def\<close>)
qed

lemma uart_head:
  assumes "uart_ok u" "u32Status u = 3" "unat n \<le> length d" "unat n + 1000 < 2 ^ 32"
  shows "\<exists>u' r left. ZC_AssemblePkt u d n = Some (u', r, left) \<and> uart_ok u'
    \<and> (u32Status u', uart_acc u', r, unat left) = uart_step False (uart_acc u) (take (unat n) d)"
proof -
  let ?N = "unat n" and ?L = "unat (u32RecvLen u)" and ?B = "u8UartBuffer u"
  let ?F = "packet_len ?B"
  have i: "length ?B = 1000" "12 \<le> ?L" "?L < ?F" "?F \<le> 1000" "take 4 ?B = u8MagicHead"
    using assms by (auto simp: uart_ok_eq)
  have sum: "unat (n + u32RecvLen u) = ?N + ?L" "unat (u32RecvLen u + n) = ?L + ?N"
    using assms(4) i by (simp_all add: unat_add_small)
  have sub: "unat (uart_len ?B - u32RecvLen u) = ?F - ?L"
    using i by (subst unat_sub) (simp_all add: word_le_nat_alt packet_len_word)
  have copy: "uart_copy u d (uart_len ?B - u32RecvLen u) = Some (u\<lparr>u8UartBuffer := take ?L ?B
      @ take (?F - ?L) d @ drop ?F ?B\<rparr>)" if "?F \<le> ?N + ?L"
    using that i assms(3) by (subst uart_copy_Some) (simp_all add: sub)
  have four: "take 4 (take ?L ?B @ rest) = u8MagicHead" for rest
    using i by (simp add: min_def)
  have pl: "packet_len (take ?L ?B @ rest) = ?F" for rest
    using i by simp
  show ?thesis
    using i assms(2,3) four pl by (cases "?F \<le> ?N + ?L") (auto simp: uart_simps sum copy)
qed

lemma uart_nohead:
  assumes "uart_ok u" "u32Status u = 2" "unat n \<le> length d" "unat n + 1000 < 2 ^ 32"
  shows "\<exists>u' r left. ZC_AssemblePkt u d n = Some (u', r, left) \<and> uart_ok u'
    \<and> (u32Status u', uart_acc u', r, unat left) = uart_step False (uart_acc u) (take (unat n) d)"
proof -
  let ?N = "unat n" and ?L = "unat (u32RecvLen u)" and ?B = "u8UartBuffer u"
  have i: "length ?B = 1000" "?L < 12"
    using assms by (auto simp: uart_ok_eq)
  have sum: "unat (n + u32RecvLen u) = ?N + ?L" "unat (u32RecvLen u + n) = ?L + ?N"
    using assms(4) i by (simp_all add: unat_add_small)
  show ?thesis
  proof (cases "?L + ?N < 12")
    case True
    then show ?thesis using i assms(2,3) by (auto simp: uart_simps sum)
  next
    case False
    define acc where "acc = take ?L ?B"
    define S where "S = acc @ take ?N d"
    define B1 where "B1 = acc @ take (12 - ?L) d @ drop 12 ?B"
    have acc: "length acc = ?L" "uart_acc u = acc"
      using i assms(2) by (simp_all add: acc_def uart_acc_def)
    have lens: "length S = ?L + ?N" "length B1 = 1000" "take ?L B1 = acc"
      using i False assms(3) acc by (simp_all add: S_def B1_def)
    have "unat (12 - u32RecvLen u) = 12 - ?L"
      using i by (subst unat_sub) (simp_all add: word_le_nat_alt)
    then have copy1: "uart_copy u d (12 - u32RecvLen u) = Some (u\<lparr>u8UartBuffer := B1\<rparr>)"
      using i False assms(3) by (subst uart_copy_Some) (simp_all add: B1_def acc_def)
    have "take 12 B1 = take 12 S"
      using i False assms(3) acc by (auto simp: B1_def S_def take_append min_def)
    note same = same_head [OF this]
    have M: "unat (uart_len B1) = packet_len S"
      by (simp only: packet_len_word same)
    have F12: "12 \<le> packet_len S"
      by (rule packet_len_12)
    then have "u32RecvLen u \<le> uart_len B1"
      using i unfolding word_le_nat_alt M by simp
    then have sub: "unat (uart_len B1 - u32RecvLen u) = packet_len S - ?L"
      by (simp only: unat_sub M)
    have copy2: "uart_copy (u\<lparr>u8UartBuffer := B1\<rparr>) d k
        = Some (u\<lparr>u8UartBuffer := acc @ take (unat k) d @ drop (?L + unat k) B1\<rparr>)"
      if "unat k \<le> ?N" "?L + unat k \<le> 1000" for k
      using that assms(3) lens by (subst uart_copy_Some) simp_all
    have run: "ZC_AssemblePkt u d n =
       (if take 4 S \<noteq> u8MagicHead then Some (uart_reset (u\<lparr>u8UartBuffer := B1\<rparr>), ZC_RET_ERROR, 0)
        else if 1000 < packet_len S then Some (uart_reset (u\<lparr>u8UartBuffer := B1\<rparr>), ZC_RET_ERROR, 0)
        else if packet_len S \<le> ?N + ?L then do {
             u \<leftarrow> uart_copy (u\<lparr>u8UartBuffer := B1\<rparr>) d (uart_len B1 - u32RecvLen u);
             Some (u\<lparr>u32Status := 1, u32RecvLen := uart_len B1\<rparr>, ZC_RET_OK, n)
           } else do {
             v \<leftarrow> uart_copy (u\<lparr>u8UartBuffer := B1\<rparr>) d n;
             Some (v\<lparr>u32Status := 3, u32RecvLen := u32RecvLen v + n\<rparr>, ZC_RET_OK, 0)
           })"
      using False assms(2) same(2)
      by (simp add: ZC_AssemblePkt_def Let_def copy1 word_less_nat_alt word_le_nat_alt sum M)
    note final = uart_step_def Let_def uart_ok_eq acc(2) S_def [symmetric] lens
    consider "take 4 S \<noteq> u8MagicHead" | "take 4 S = u8MagicHead" "1000 < packet_len S"
      | "take 4 S = u8MagicHead" "packet_len S \<le> 1000" "packet_len S \<le> ?N + ?L"
      | "take 4 S = u8MagicHead" "packet_len S \<le> 1000" "?N + ?L < packet_len S"
      by linarith
    then show ?thesis
    proof cases
      case 1
      with run False show ?thesis by (simp add: final) (simp add: uart_acc_def)
    next
      case 2
      with run False show ?thesis by (simp add: final) (simp add: uart_acc_def)
    next
      case 3
      have "take k (acc @ take (k - ?L) d @ rest) = take k S" if "?L \<le> k" "k \<le> ?N + ?L" for k rest
        using that acc(1) assms(3) by (simp add: S_def min_absorb2 min_absorb1)
      then have "take (packet_len S) (acc @ take (packet_len S - ?L) d @ rest) = take (packet_len S) S" for rest
        using 3 i F12 by simp
      with 3 run False i F12 assms(3) acc(1) show ?thesis
        by (simp add: copy2 sub final M) (simp add: uart_acc_def M)
    next
      case 4
      have "take 4 (S @ rest) = take 4 S" "packet_len (S @ rest) = packet_len S" "take (?L + ?N) (S @ rest) = S" for rest
        using lens(1) False by simp_all
      then have "take 4 (acc @ take ?N d @ rest) = take 4 S" "packet_len (acc @ take ?N d @ rest) = packet_len S"
          "take (?L + ?N) (acc @ take ?N d @ rest) = S" for rest
        by (simp_all add: S_def)
      with 4 run False i assms(3) acc(1) show ?thesis
        by (simp add: copy2 final sum) (simp add: uart_acc_def sum S_def)
    qed
  qed
qed

lemma ZC_AssemblePkt_refines:
  assumes "uart_ok u" "u32Status u \<noteq> 1" "unat n \<le> length d" "unat n + 1000 < 2 ^ 32"
  shows "\<exists>u' r left. ZC_AssemblePkt u d n = Some (u', r, left) \<and> uart_ok u'
    \<and> (u32Status u', uart_acc u', r, unat left) = uart_step (u32Status u = 0) (uart_acc u) (take (unat n) d)"
proof -
  from assms consider "u32Status u = 0" | "u32Status u = 2" | "u32Status u = 3"
    by (auto simp: uart_ok_eq)
  then show ?thesis
  proof cases
    case 1
    with assms have "length (u8UartBuffer u) = 1000" "unat (u32RecvLen u) \<le> 1000" "uart_acc u = []"
      by (auto simp: uart_ok_eq uart_acc_def)
    with uart_idle [of u n d] assms(3) 1 show ?thesis by simp
  next
    case 2 with uart_nohead [OF assms(1) 2 assms(3,4)] show ?thesis by simp
  next
    case 3 with uart_head [OF assms(1) 3 assms(3,4)] show ?thesis by simp
  qed
qed

lemma ZC_AssemblePkt_total:
  assumes "uart_ok u" "unat n \<le> length d" "unat n + 1000 < 2 ^ 32"
  shows "\<exists>u' r left. ZC_AssemblePkt u d n = Some (u', r, left) \<and> uart_ok u' \<and> unat left \<le> unat n"
proof (cases "u32Status u = 1")
  case True
  with assms(1) show ?thesis by (simp add: ZC_AssemblePkt_def)
next
  case False
  have "u32Status u = 0 \<Longrightarrow> uart_acc u = []"
    by (simp add: uart_acc_def)
  with ZC_AssemblePkt_refines [OF assms(1) False assms(2,3)] assms(2) show ?thesis
    by (auto simp: uart_step_def Let_def split: if_split_asm)
qed

section \<open>A packet in pieces\<close>

text \<open>The pieces of one packet, one call for each: the buffer, and what the last call reports as left over.\<close>

fun uart_feed :: "ZC_UartBuffer \<Rightarrow> u8 list list \<Rightarrow> (ZC_UartBuffer \<times> nat) option" where
  "uart_feed u [] = Some (u, 0)"
| "uart_feed u (d # ds) = do {
     (u, r, left) \<leftarrow> ZC_AssemblePkt u d (word_of_nat (length d));
     if r = ZC_RET_ERROR then None
     else if ds = [] then Some (u, unat left)
     else uart_feed u ds
   }"

lemma uart_step_prefix:
  assumes "take 4 p = u8MagicHead" "packet_len p = length p" "length p \<le> 1000" "acc @ d @ rest = p" "12 \<le> length p"
  shows "uart_step fresh acc d =
    (if rest = [] then (1, p, ZC_RET_OK, if fresh then 0 else length d)
     else (if length (acc @ d) < 12 then 2 else 3, acc @ d, ZC_RET_OK, 0))"
proof -
  have "take 12 (acc @ d) = take 12 p" if "12 \<le> length (acc @ d)"
    using that assms(4) by auto
  from same_head [OF this] have "packet_len (acc @ d) = length p" "take 4 (acc @ d) = u8MagicHead"
    if "12 \<le> length (acc @ d)"
    using that assms(1,2) by simp_all
  moreover have "length p = length (acc @ d) + length rest"
    using assms(4) by auto
  ultimately show ?thesis
    using assms by (auto simp: uart_step_def Let_def)
qed

lemma uart_feed_packet:
  assumes "uart_ok u" "u32Status u \<noteq> 1" "uart_acc u @ concat ds = p" "\<forall>d\<in>set ds. d \<noteq> []" "ds \<noteq> []"
    and p: "take 4 p = u8MagicHead" "packet_len p = length p" "length p \<le> 1000" "12 \<le> length p"
  shows "\<exists>u' left. uart_feed u ds = Some (u', left) \<and> uart_ok u' \<and> u32Status u' = 1 \<and> uart_acc u' = p
    \<and> left = (if u32Status u = 0 \<and> length ds = 1 then 0 else length (last ds))"
  using assms(1-5)
proof (induction ds arbitrary: u)
  case (Cons d ds)
  have split: "uart_acc u @ d @ concat ds = p"
    using Cons.prems(3) by simp
  then have len: "length d \<le> 1000"
    using p(3) by auto
  then have n: "unat (word_of_nat (length d) :: u32) = length d"
    by (simp add: unat_of_nat_small)
  obtain u' r left where run: "ZC_AssemblePkt u d (word_of_nat (length d)) = Some (u', r, left)" "uart_ok u'"
      "(u32Status u', uart_acc u', r, unat left) = uart_step (u32Status u = 0) (uart_acc u) d"
    using ZC_AssemblePkt_refines [OF Cons.prems(1,2), of "word_of_nat (length d)" d] len n by auto
  note step = run(3) [unfolded uart_step_prefix [OF p(1,2,3) split p(4)]]
  show ?case
  proof (cases ds)
    case Nil
    with step run(1,2) show ?thesis by auto
  next
    case (Cons d' ds')
    then have "concat ds \<noteq> []" "u32Status u' = 2 \<or> u32Status u' = 3" "r \<noteq> ZC_RET_ERROR" "uart_acc u' @ concat ds = p"
      using step Cons.prems(4) split by (auto split: if_splits)
    with Cons.IH [OF run(2)] run(1) Cons Cons.prems(4) show ?thesis by auto
  qed
qed simp

section \<open>Properties\<close>

text \<open>C10: \<^verbatim>\<open>ZC_AssemblePkt\<close> on an idle buffer collects a packet of at most 1000 bytes however it is cut into
  nonempty pieces: the buffer ends full with exactly its bytes and no access leaves the buffer or the piece.
  A packet that comes in one piece leaves nothing over; but of a packet in several pieces the whole last
  piece is reported as left over, although it was consumed.\<close>

theorem uart_packet_in_pieces:
  assumes "uart_ok u" "u32Status u = 0" "concat ds = p" "\<forall>d\<in>set ds. d \<noteq> []"
    and "take 4 p = u8MagicHead" "12 \<le> length p" "packet_len p = length p" "length p \<le> 1000"
  shows "\<exists>u' left. uart_feed u ds = Some (u', left) \<and> uart_ok u' \<and> u32Status u' = 1
    \<and> take (unat (u32RecvLen u')) (u8UartBuffer u') = p
    \<and> left = (if length ds = 1 then 0 else length (last ds))"
proof -
  have "ds \<noteq> []" "uart_acc u = []"
    using assms(2,3,6) by (auto simp: uart_acc_def)
  with uart_feed_packet [OF assms(1) _ _ assms(4) _ assms(5,7,8,6)] assms(2,3)
  show ?thesis by (fastforce simp: uart_acc_def)
qed

theorem uart_packet_in_pieces_witness:
  "\<exists>u' left. uart_feed \<lparr>u32Status = 0, u32RecvLen = 0, u8UartBuffer = replicate 1000 0\<rparr>
       [[2, 3, 4], [5, 1, 7, 40, 0, 0, 3], [0, 0, 9, 9, 9]] = Some (u', left)
     \<and> u32Status u' = 1 \<and> left = 5"
proof -
  let ?p = "[2, 3, 4, 5, 1, 7, 40, 0, 0, 3, 0, 0, 9, 9, 9] :: u8 list"
  have p: "take 4 ?p = u8MagicHead" "12 \<le> length ?p" "packet_len ?p = length ?p" "length ?p \<le> 1000"
    by (simp_all add: u8MagicHead_def packet_len_def frame_len_def le16_def ZC_HTONS_def)
  show ?thesis
    using uart_packet_in_pieces [OF _ _ _ _ p, of "\<lparr>u32Status = 0, u32RecvLen = 0, u8UartBuffer = replicate 1000 0\<rparr>"
        "[[2, 3, 4], [5, 1, 7, 40, 0, 0, 3], [0, 0, 9, 9, 9]]"]
    by (auto simp: uart_ok_def simp del: uart_feed.simps)
qed

text \<open>C20: Whatever bytes arrive and whatever state the buffer is in, \<^verbatim>\<open>ZC_AssemblePkt\<close> touches no byte
  outside its buffer and the data it was given, keeps the invariant of the buffer and reports at most what
  it was given as left over.\<close>

theorem ZC_AssemblePkt_in_bounds:
  assumes "uart_ok u" "unat n \<le> length d" "unat n + 1000 < 2 ^ 32"
  shows "\<exists>u' r left. ZC_AssemblePkt u d n = Some (u', r, left) \<and> uart_ok u' \<and> unat left \<le> unat n"
  by (rule ZC_AssemblePkt_total [OF assms])

theorem ZC_AssemblePkt_in_bounds_witness:
  "\<exists>u' r left. ZC_AssemblePkt \<lparr>u32Status = 2, u32RecvLen = 11, u8UartBuffer = replicate 1000 0\<rparr> [1, 2, 3] 3
     = Some (u', r, left) \<and> uart_ok u'"
  using ZC_AssemblePkt_in_bounds [of "\<lparr>u32Status = 2, u32RecvLen = 11, u8UartBuffer = replicate 1000 0\<rparr>" 3 "[1, 2, 3]"]
  by (auto simp: uart_ok_def)

end
