(* ===== verification/Entry.thy ===== *)
theory Entry
  imports UartPacket
begin

text \<open>
  The entry points beside the controller: connections and data of local clients, messages of the module,
  chunks from the UART and from the cloud, frames to the cloud.  They keep the invariant of the theory
  \<open>Invariant\<close>, and only a registration moves the main state.
\<close>

section \<open>Taking runs apart\<close>

text \<open>Steps that return several values.\<close>

lemma bind2E:
  assumes "m \<bind> (\<lambda>(x, y). f x y) = Some z"
  obtains x y where "m = Some (x, y)" "f x y = Some z"
  using assms by (auto elim: bindE)

lemma bind3E:
  assumes "m \<bind> (\<lambda>(x, y, w). f x y w) = Some z"
  obtains x y w where "m = Some (x, y, w)" "f x y w = Some z"
  using assms by (auto elim: bindE)

section \<open>Lengths\<close>

lemma EVENT_BuildOption_length:
  "EVENT_BuildOption l b = Some (b', k, n) \<Longrightarrow> length b' = length b"
  by (cases l) (auto simp: EVENT_BuildOption_def bind_Some_iff split: option.splits dest!: length_wr)

lemma session_plain_lengths:
  assumes "session_plain h l p b = Some (h', b', real)" "12 \<le> length b"
  shows "length b' = length b" "length (TotalMsgCrc h') = 2"
proof -
  obtain opt k m d b1 c where opt: "EVENT_BuildOption (Some \<lparr>pstruTransportInfo = pstruTransportInfo l, pstruSsession = None\<rparr>)
        (drop 12 b) = Some (opt, k, m)"
    and b1: "wr (take 12 b @ opt) (12 + unat m) d = Some b1"
    and h': "h' = h\<lparr>OptNum := k, Payloadlen := ZC_HTONS (ZC_HTONS (Payloadlen h) - 8), TotalMsgCrc := crc_bytes (crc16_ccitt c)\<rparr>"
    and b': "wr b1 4 (put_MessageHead h') = Some b'"
    using assms(1) unfolding session_plain_def Let_def
    by (elim bindE, simp only: split_paired_all prod.case) (elim bindE, auto)
  show "length b' = length b"
    using EVENT_BuildOption_length [OF opt] length_wr [OF b1] length_wr [OF b'] assms(2) by simp
  show "length (TotalMsgCrc h') = 2" by (simp add: h')
qed

lemma uart_message_ok:
  assumes "uart_ok u" "u32Status u = 1" "length b = 1000"
  shows "uart_ok (u\<lparr>u8UartBuffer := b\<rparr>)"
  using assms by (simp add: uart_ok_eq)

section \<open>Clients\<close>

text \<open>The operations on the table of clients change nothing else.\<close>

definition only_clients :: "'h zc \<Rightarrow> 'h zc \<Rightarrow> bool" where
  "only_clients s s' \<longleftrightarrow> (\<exists>c. s' = s\<lparr>g_struClientInfo := c\<rparr>
     \<and> length (u32ClientVaildFlag c) = length (u32ClientVaildFlag (g_struClientInfo s))
     \<and> length (u32ClientFd c) = length (u32ClientFd (g_struClientInfo s)))"

lemma only_clients_inv:
  "only_clients s s' \<Longrightarrow> zc_inv s \<Longrightarrow> zc_inv s' \<and> con s' = con s \<and> recv_q s' = recv_q s"
  by (auto simp: only_clients_def zc_inv_def zc_rest_def client_ok_def recv_q_def)

lemma only_clients_refl [simp]: "only_clients s s"
  unfolding only_clients_def by (rule exI [of _ "g_struClientInfo s"]) simp

lemma only_clients_trans [trans]: "only_clients s t \<Longrightarrow> only_clients t u \<Longrightarrow> only_clients s u"
  by (auto simp: only_clients_def)

lemma only_clients_update:
  "length (u32ClientVaildFlag (f (g_struClientInfo s))) = length (u32ClientVaildFlag (g_struClientInfo s))
   \<Longrightarrow> length (u32ClientFd (f (g_struClientInfo s))) = length (u32ClientFd (g_struClientInfo s))
   \<Longrightarrow> only_clients s (client_update f s)"
  unfolding only_clients_def client_update_def by (rule exI [of _ "f (g_struClientInfo s)"]) simp

lemma only_clients_states:
  "only_clients s (ZC_SetClientBusy fd s)" "only_clients s (ZC_SetClientFree s)" "only_clients s (ZC_ClientInit s)"
  "only_clients s (ZC_ClientWakeUp s)"
  by (simp_all add: ZC_SetClientBusy_def ZC_SetClientFree_def ZC_ClientInit_def ZC_ClientWakeUp_def only_clients_update)

lemma ZC_ClientDisconnect_loop_only:
  "ZC_ClientDisconnect_loop k i fd s = Some s' \<Longrightarrow> only_clients s s'"
proof (induction k arbitrary: i s)
  case (Suc k)
  obtain x s1 where x: "rd1 (u32ClientFd (g_struClientInfo s)) i = Some x"
    and s1: "(if fd = x then do {
         fl \<leftarrow> wr1 (u32ClientVaildFlag (g_struClientInfo s)) i ZC_CLIENT_VAILD_FLAG;
         let s = client_update (\<lambda>c. c\<lparr>u32ClientVaildFlag := fl\<rparr>) s;
         Some (if u8ClientStates (g_struClientInfo s) = ZC_CLIENT_STATUS_BUSY
                  \<and> fd = ucast (u32ClientBusyId (g_struClientInfo s))
               then ZC_SetClientFree s else s)
       } else Some s) = Some s1" and rest: "ZC_ClientDisconnect_loop k (Suc i) fd s1 = Some s'"
    using Suc.prems unfolding ZC_ClientDisconnect_loop.simps by (elim bindE) (rule that)
  have "only_clients s s1"
  proof (cases "fd = x")
    case True
    let ?s = "\<lambda>fl. client_update (\<lambda>c. c\<lparr>u32ClientVaildFlag := fl\<rparr>) s"
    obtain fl where fl: "wr1 (u32ClientVaildFlag (g_struClientInfo s)) i ZC_CLIENT_VAILD_FLAG = Some fl"
        "s1 = ?s fl \<or> s1 = ZC_SetClientFree (?s fl)"
      using s1 True by (auto simp: Let_def bind_Some_iff split: if_splits)
    then have "only_clients s (?s fl)"
      by (intro only_clients_update) (auto simp: wr1_eq_Some)
    with fl(2) only_clients_states(2) only_clients_trans show ?thesis by blast
  next
    case False
    with s1 show ?thesis by simp
  qed
  then show ?case using Suc.IH [OF rest] by (rule only_clients_trans)
qed simp

lemma ZC_ClientConnect_loop_only:
  "ZC_ClientConnect_loop k i fd s = Some (s', r) \<Longrightarrow> only_clients s s'"
  by (induction k arbitrary: i)
    (auto simp: bind_Some_iff wr1_eq_Some intro!: only_clients_update split: if_splits)

lemma ZC_ClientDisconnect_inv:
  "ZC_ClientDisconnect fd s = Some s' \<Longrightarrow> zc_inv s \<Longrightarrow> zc_inv s' \<and> con s' = con s"
  unfolding ZC_ClientDisconnect_def using only_clients_inv [OF ZC_ClientDisconnect_loop_only] by blast

lemma ZC_ClientConnect_inv:
  "ZC_ClientConnect fd s = Some (s', r) \<Longrightarrow> zc_inv s \<Longrightarrow> zc_inv s' \<and> con s' = con s"
  unfolding ZC_ClientConnect_def using only_clients_inv [OF ZC_ClientConnect_loop_only] by blast

context module_adapter begin

lemma ZC_StartClientListen_inv:
  assumes "ZC_StartClientListen A s = Some s'" "zc_inv s"
  shows "zc_inv s' \<and> st s' = st s"
proof (cases "u8ClientStates (g_struClientInfo s) = ZC_CLIENT_STATUS_WAKEUP")
  case True
  then obtain s1 r where run: "pfunListenClient A s = Some (s1, r)"
      "s' = s1 \<or> s' = client_update (\<lambda>c. c\<lparr>u8ClientStates := ZC_CLIENT_STATUS_IDLE\<rparr>) s1"
    using assms(1) by (auto simp: ZC_StartClientListen_def bind_Some_iff split: if_splits)
  have "zc_inv s1 \<and> st s1 = st s"
    using listen_client [OF run(1)] assms(2) by (elim exE) (simp add: zc_inv_def zc_rest_def)
  moreover have "only_clients s1 s'"
    using run(2) by (auto intro: only_clients_update)
  ultimately show ?thesis using only_clients_inv by fastforce
next
  case False
  with assms show ?thesis by (simp add: ZC_StartClientListen_def)
qed

lemma refuse_client_inv:
  assumes "refuse_client A fd s = Some s'" "zc_inv s"
  shows "zc_inv s' \<and> st s' = st s"
proof -
  have len: "length (g_u8MsgBuildBuffer s) = 600"
    using assms(2) by (simp add: zc_inv_def zc_rest_lengths)
  obtain key m n iv c l h where m: "EVENT_BuildMsg ZC_CODE_ERR 0 (drop 4 (g_u8MsgBuildBuffer s)) [] 0 = Some (m, n)"
    and c: "AES_CBC_Encrypt key_object m (ucast n) key 16 iv m = Some (c, l)"
    and s': "pfunSendTcpData A fd (put_SecHead h @ c) (ucast (l + 4)) \<lparr>u8NeedPoll = 0, pu8AddrPara = None\<rparr>
       (s\<lparr>g_u8MsgBuildBuffer := put_SecHead h @ c\<rparr>) = Some s'"
    using assms(1) unfolding refuse_client_def Let_def by (elim bind2E bindE) (rule that)
  have "length c = 596"
    using AES_CBC_Encrypt_lengths(1) [OF c] length_EVENT_BuildMsg [OF m] len unat_16 [of n] by simp
  with same_but_platform_rest [OF send_tcp [OF s']] assms(2) show ?thesis
    by (simp add: zc_inv_def)
qed

lemma insert_session_length:
  assumes "insert_session fd build b = Some (m, n)"
  shows "length m = length b"
  using assms unfolding insert_session_def Let_def
  by (elim bindE) (auto dest!: length_wr)

text \<open>Forwarding changes the build buffer, the client buffer and the platform.\<close>

definition forwards :: "'h zc \<Rightarrow> 'h zc \<Rightarrow> bool" where
  "forwards s s' \<longleftrightarrow> (\<exists>m b p. s' = s\<lparr>g_u8MsgBuildBuffer := m, g_struClientBuffer := b, platform := p\<rparr>
     \<and> length m = 600 \<and> length (u8MsgBuffer b) = 600)"

lemma forwards_build [simp]:
  "length m = 600 \<Longrightarrow> length (u8MsgBuffer (g_struClientBuffer s)) = 600 \<Longrightarrow> forwards s (s\<lparr>g_u8MsgBuildBuffer := m\<rparr>)"
  by (auto simp: forwards_def intro!: exI [of _ m] exI [of _ "g_struClientBuffer s"] exI [of _ "platform s"])

lemma forward_plain_forwards:
  assumes run: "forward_plain A fd build s = Some s'" and len: "length build = 600" "length (u8MsgBuffer (g_struClientBuffer s)) = 600"
  shows "forwards s s'"
proof -
  let ?b = "g_struClientBuffer s" and ?h = "get_MessageHead build"
  let ?h1 = "?h\<lparr>Payloadlen := ZC_HTONS (ZC_HTONS (Payloadlen ?h) + 8)\<rparr>"
  obtain r where r: "(if r = ZC_RET_ERROR then Some (s\<lparr>g_u8MsgBuildBuffer := build\<rparr>)
     else do {
       build \<leftarrow> wr build 0 (put_MessageHead ?h1);
       if ZC_HTONS (Payloadlen ?h1) > MSG_BULID_BUFFER_MAXLEN then Some (s\<lparr>g_u8MsgBuildBuffer := build\<rparr>)
       else do {
         build \<leftarrow> wr build 0 (put_MessageHead (?h1\<lparr>OptNum := OptNum ?h1 + 1\<rparr>));
         (m, n) \<leftarrow> insert_session fd build (u8MsgBuffer ?b);
         (s, r) \<leftarrow> pfunSendToMoudle A m n
           (s\<lparr>g_u8MsgBuildBuffer := build, g_struClientBuffer := ?b\<lparr>u8MsgBuffer := m, u32Len := ucast n\<rparr>\<rparr>);
         Some s
       }
     }) = Some s'"
    using run unfolding forward_plain_def Let_def by (elim bindE) (rule that)
  show ?thesis
  proof (cases "r = ZC_RET_ERROR")
    case True
    with r len show ?thesis by auto
  next
    case False
    from r obtain b1 where b1: "wr build 0 (put_MessageHead ?h1) = Some b1"
      and r1: "(if ZC_HTONS (Payloadlen ?h1) > MSG_BULID_BUFFER_MAXLEN then Some (s\<lparr>g_u8MsgBuildBuffer := b1\<rparr>)
       else do {
         build \<leftarrow> wr b1 0 (put_MessageHead (?h1\<lparr>OptNum := OptNum ?h1 + 1\<rparr>));
         (m, n) \<leftarrow> insert_session fd build (u8MsgBuffer ?b);
         (s, r) \<leftarrow> pfunSendToMoudle A m n
           (s\<lparr>g_u8MsgBuildBuffer := build, g_struClientBuffer := ?b\<lparr>u8MsgBuffer := m, u32Len := ucast n\<rparr>\<rparr>);
         Some s
       }) = Some s'"
      by (simp only: False if_False) (elim bindE, blast)
    have "length b1 = 600"
      using length_wr [OF b1] len by simp
    show ?thesis
    proof (cases "ZC_HTONS (Payloadlen ?h1) > MSG_BULID_BUFFER_MAXLEN")
      case True
      with r1 have "s' = s\<lparr>g_u8MsgBuildBuffer := b1\<rparr>" by (simp only: if_True simp_thms) simp
      with \<open>length b1 = 600\<close> len show ?thesis by simp
    next
      case False
      from r1 obtain b2 m n u r2 where b2: "wr b1 0 (put_MessageHead (?h1\<lparr>OptNum := OptNum ?h1 + 1\<rparr>)) = Some b2"
        and m: "insert_session fd b2 (u8MsgBuffer ?b) = Some (m, n)"
        and s': "pfunSendToMoudle A m n
           (s\<lparr>g_u8MsgBuildBuffer := b2, g_struClientBuffer := ?b\<lparr>u8MsgBuffer := m, u32Len := ucast n\<rparr>\<rparr>) = Some (u, r2)" "Some u = Some s'"
        by (simp only: False if_False) (elim bind2E bindE, rule that)
      have "length b2 = 600" "length m = 600"
        using length_wr [OF b2] \<open>length b1 = 600\<close> insert_session_length [OF m] len by simp_all
      moreover obtain p where "u = s\<lparr>g_u8MsgBuildBuffer := b2, g_struClientBuffer := ?b\<lparr>u8MsgBuffer := m, u32Len := ucast n\<rparr>\<rparr>
          \<lparr>platform := p\<rparr>"
        using send_moudle [OF s'(1)] by (rule same_but_platformE)
      ultimately show ?thesis
        using s'(2) by (auto simp: forwards_def intro!: exI [of _ b2] exI [of _ p])
    qed
  qed
qed

lemma forward_client_inv:
  assumes "forward_client A fd s = Some s'" "zc_inv s" "s'' = s'\<lparr>g_struClientBuffer := idle (g_struClientBuffer s')\<rparr>"
  shows "zc_inv s'' \<and> con s'' = con s"
proof -
  let ?b = "g_struClientBuffer s"
  define total where "total = ZC_HTONS (u16TotalMsg (get_SecHead (u8MsgBuffer ?b)))"
  have len: "length (g_u8MsgBuildBuffer s) = 600" "length (u8MsgBuffer ?b) = 600"
    using assms(2) by (simp_all add: zc_inv_def zc_rest_def recv_fields_ok_def client_ok_def recv_inv_def)
  from assms(1) [unfolded forward_client_def Let_def, folded total_def] obtain key where run: "(if total \<ge> MSG_BULID_BUFFER_MAXLEN then Some s
     else do {
       iv \<leftarrow> rd key 0 ZC_HS_SESSION_KEY_LEN;
       (build, len) \<leftarrow> AES_CBC_Decrypt key_object (drop 4 (u8MsgBuffer ?b)) (ucast total) key 16 iv (g_u8MsgBuildBuffer s);
       forward_plain A fd build s
     }) = Some s'"
    by (rule bindE)
  have "forwards s s'"
  proof (cases "total \<ge> MSG_BULID_BUFFER_MAXLEN")
    case True
    with run len forwards_build [of "g_u8MsgBuildBuffer s" s] show ?thesis by simp
  next
    case False
    from run have "(do {
       iv \<leftarrow> rd key 0 ZC_HS_SESSION_KEY_LEN;
       (build, len) \<leftarrow> AES_CBC_Decrypt key_object (drop 4 (u8MsgBuffer ?b)) (ucast total) key 16 iv (g_u8MsgBuildBuffer s);
       forward_plain A fd build s
     }) = Some s'"
      by (rule subst [OF if_not_P [OF False]])
    then obtain iv where "AES_CBC_Decrypt key_object (drop 4 (u8MsgBuffer ?b)) (ucast total) key 16 iv (g_u8MsgBuildBuffer s)
        \<bind> (\<lambda>(build, len). forward_plain A fd build s) = Some s'"
      by (rule bindE)
    then obtain build n where dec: "AES_CBC_Decrypt key_object (drop 4 (u8MsgBuffer ?b)) (ucast total) key 16 iv
        (g_u8MsgBuildBuffer s) = Some (build, n)" and fwd: "forward_plain A fd build s = Some s'"
      by (rule bind2E)
    from forward_plain_forwards [OF fwd _ len(2)] AES_CBC_Decrypt_length [OF dec] len(1) show ?thesis by simp
  qed
  then obtain m b p where "s' = s\<lparr>g_u8MsgBuildBuffer := m, g_struClientBuffer := b, platform := p\<rparr>"
      "length m = 600" "length (u8MsgBuffer b) = 600"
    unfolding forwards_def by blast
  moreover from this have "client_ok (idle b) (g_struClientInfo s)" "recv_ok (s\<lparr>g_u8MsgBuildBuffer := m\<rparr>)"
    using assms(2) by (simp_all add: zc_inv_def zc_rest_def client_ok_def recv_inv_def idle_def recv_fields_ok_def)
  ultimately show ?thesis
    using assms(2,3) by (simp add: zc_inv_def zc_rest_def)
qed

lemma ZC_RecvDataFromClient_inv:
  assumes "ZC_RecvDataFromClient A fd d n s = Some s'" "zc_inv s" "unat n \<le> length d" "unat n + 600 < 2 ^ 32"
  shows "zc_inv s' \<and> st s' = st s"
proof (cases "ZC_CheckClientIdle fd s = ZC_RET_ERROR")
  case True
  with assms(1) have "refuse_client A fd s = Some s'"
    by (simp add: ZC_RecvDataFromClient_def)
  from refuse_client_inv [OF this assms(2)] show ?thesis .
next
  case False
  let ?s = "ZC_SetClientBusy fd s"
  have s0: "zc_inv ?s" "con ?s = con s"
    using only_clients_inv [OF only_clients_states(1) assms(2)] by simp_all
  then have "recv_inv (g_struClientBuffer ?s)"
    by (simp add: zc_inv_def zc_rest_def client_ok_def)
  from MSG_RecvData_total [OF this assms(3,4)] obtain b r
    where b: "MSG_RecvData (g_struClientBuffer ?s) d n = Some (b, r)" "recv_inv b" by blast
  let ?s1 = "?s\<lparr>g_struClientBuffer := b\<rparr>"
  have s1: "zc_inv ?s1"
    using s0 b(2) by (simp add: zc_inv_def zc_rest_def client_ok_def)
  show ?thesis
  proof (cases "u8Status b = MSG_BUFFER_FULL \<and> r = ZC_RET_OK")
    case full: True
    with assms(1) b(1) False obtain s2 where s2: "forward_client A fd ?s1 = Some s2"
        "s' = ZC_SetClientFree (s2\<lparr>g_struClientBuffer := idle (g_struClientBuffer s2)\<rparr>)"
      by (auto simp: ZC_RecvDataFromClient_def Let_def bind_Some_iff)
    let ?s2 = "s2\<lparr>g_struClientBuffer := idle (g_struClientBuffer s2)\<rparr>"
    have "zc_inv ?s2 \<and> con ?s2 = con s"
      using forward_client_inv [OF s2(1) s1 refl] s0(2) by simp
    then have "zc_inv (ZC_SetClientFree ?s2) \<and> con (ZC_SetClientFree ?s2) = con s"
      using only_clients_inv [OF only_clients_states(2) [of ?s2]] by simp
    then show ?thesis unfolding s2(2) by simp
  next
    case nofull: False
    with assms(1) b(1) False s1 s0(2) show ?thesis
      by (auto simp: ZC_RecvDataFromClient_def Let_def)
  qed
qed

end

end
