(* ===== verification/Broadcast.thy ===== *)
theory Broadcast
  imports Entry
begin

text \<open>
  The datagrams of \<^verbatim>\<open>zc_bc.c\<close>: the announcements of the module while it is connected to the cloud, with
  \<^verbatim>\<open>EVENT_BuildBcMsg\<close> of \<^verbatim>\<open>zc_cloud_event.c\<close>, and the answer to a query of a client.
\<close>

section \<open>The code\<close>

text \<open>The fields \<^verbatim>\<open>u8Domain\<close>, \<^verbatim>\<open>DeviceId\<close>, \<^verbatim>\<open>RandMsg\<close> of \<^verbatim>\<open>ZC_BroadCastInfo\<close>.\<close>

definition EVENT_BuildBcMsg :: "'h zc \<Rightarrow> ('h zc \<times> u16) option" where
  "EVENT_BuildBcMsg s = do {
     device \<leftarrow> ZC_GetStoreInfor ZC_GET_TYPE_DEVICEID s;
     rand \<leftarrow> rd (RandMsg (con s)) 0 ZC_HS_MSG_LEN;
     id \<leftarrow> rd device 0 ZC_HS_DEVICE_ID_LEN;
     domain \<leftarrow> rd device ZC_HS_DEVICE_ID_LEN ZC_DOMAIN_LEN;
     m \<leftarrow> wr (g_u8MsgBuildBuffer s) 8 (domain @ id @ rand);
     crc \<leftarrow> rd m 8 56;
     m \<leftarrow> wr m 0 (put_MessageHead \<lparr>Version = ZC_VERSION, MsgId = 0, MsgCode = ZC_CODE_BC_INFO, OptNum = 0,
       Payloadlen = ZC_HTONS 56, TotalMsgCrc = crc_bytes (crc16_ccitt crc)\<rparr>);
     Some (s\<lparr>g_u8MsgBuildBuffer := m\<rparr>, 8 + 56)
   }"

definition ZC_SendBc :: "'h PTC_ModuleAdapter \<Rightarrow> 'h zc \<Rightarrow> 'h zc option" where
  "ZC_SendBc A s =
     (if u8MainState (con s) \<noteq> PCT_STATE_CONNECT_CLOUD then Some (s\<lparr>sleepcount := 0\<rparr>)
      else do {
        let s = s\<lparr>sleepcount := sleepcount s + 1\<rparr>;
        if sleepcount s > g_u32BcSleepCount s then do {
          (s, n) \<leftarrow> EVENT_BuildBcMsg s;
          s \<leftarrow> (if u16SendBcNum (con s) < PCT_SEND_BC_MAX_NUM then do {
              s \<leftarrow> pfunSendUdpData A (g_Bcfd s) (g_u8MsgBuildBuffer s) n
                \<lparr>u8NeedPoll = 0, pu8AddrPara = g_pu8RemoteAddr s\<rparr> s;
              Some (con_update (\<lambda>c. c\<lparr>u16SendBcNum := u16SendBcNum c + 1\<rparr>) s)
            } else Some s);
          Some (s\<lparr>sleepcount := 0\<rparr>)
        } else Some s
      })"

text \<open>The comparison of the domains, byte by byte.\<close>

fun same_domain :: "nat \<Rightarrow> nat \<Rightarrow> u8 list \<Rightarrow> u8 list \<Rightarrow> bool option" where
  "same_domain 0 i q d = Some True"
| "same_domain (Suc k) i q d = do {
     x \<leftarrow> rd1 q i;
     y \<leftarrow> rd1 d i;
     if x \<noteq> y then Some False else same_domain k (Suc i) q d
   }"

definition ip_bytes :: "u32 \<Rightarrow> u8 list" where
  "ip_bytes ip = [ucast (drop_bit 24 ip AND 0xff), ucast (drop_bit 16 ip AND 0xff), ucast (drop_bit 8 ip AND 0xff),
     ucast (ip AND 0xff)]"

definition ZC_SendClientQueryReq :: "'h PTC_ModuleAdapter \<Rightarrow> u8 list \<Rightarrow> u16 \<Rightarrow> 'h zc \<Rightarrow> 'h zc option" where
  "ZC_SendClientQueryReq A pu8Data u16RecvLen s =
     (if u8MainState (con s) < PCT_STATE_ACCESS_NET then Some s
      else if u16RecvLen \<noteq> 8 + 8 then Some s
      else do {
        b \<leftarrow> rd pu8Data 0 8;
        if MsgCode (get_MessageHead b) \<noteq> ZC_CODE_CLIENT_QUERY_REQ then Some s
        else do {
          device \<leftarrow> ZC_GetStoreInfor ZC_GET_TYPE_DEVICEID s;
          same \<leftarrow> same_domain 6 0 (drop 8 pu8Data) (drop ZC_HS_DEVICE_ID_LEN device);
          if \<not> same then Some s
          else do {
            id \<leftarrow> rd device 0 ZC_HS_DEVICE_ID_LEN;
            (m, n) \<leftarrow> EVENT_BuildMsg ZC_CODE_CLIENT_QUERY_RSP 0 (g_u8MsgBuildBuffer s) (ip_bytes (g_u32GloablIp s) @ id) 20;
            let s = s\<lparr>g_u8MsgBuildBuffer := m\<rparr>;
            pfunSendUdpData A (g_Bcfd s) m n \<lparr>u8NeedPoll = 0, pu8AddrPara = g_pu8RemoteAddr s\<rparr> s
          }
        }
      })"

section \<open>The announcement\<close>

text \<open>What \<^verbatim>\<open>EVENT_BuildBcMsg\<close> leaves in the build buffer.\<close>

definition bc_message :: "'h zc \<Rightarrow> u8 list" where
  "bc_message s = message ZC_CODE_BC_INFO 0
     (drop 16 (u8DeviciId (g_struRegisterInfo s)) @ take 16 (u8DeviciId (g_struRegisterInfo s)) @ RandMsg (con s))"

lemma length_bc_message:
  "length (u8DeviciId (g_struRegisterInfo s)) = 24 \<Longrightarrow> length (RandMsg (con s)) = 32 \<Longrightarrow> length (bc_message s) = 64"
  by (simp add: bc_message_def)

lemma EVENT_BuildBcMsg_message:
  assumes "length (u8DeviciId (g_struRegisterInfo s)) = 24" "length (RandMsg (con s)) = 32"
    "length (g_u8MsgBuildBuffer s) = 600"
  shows "EVENT_BuildBcMsg s = Some (s\<lparr>g_u8MsgBuildBuffer := bc_message s @ drop 64 (g_u8MsgBuildBuffer s)\<rparr>, 64)"
proof -
  define p where "p = drop 16 (u8DeviciId (g_struRegisterInfo s)) @ take 16 (u8DeviciId (g_struRegisterInfo s)) @ RandMsg (con s)"
  have p: "length p = 56"
    using assms by (simp add: p_def)
  have device: "take 8 (drop 16 (u8DeviciId (g_struRegisterInfo s))) = drop 16 (u8DeviciId (g_struRegisterInfo s))"
    "take 32 (RandMsg (con s)) = RandMsg (con s)"
    using assms by simp_all
  have head: "length (put_MessageHead (message_head ZC_CODE_BC_INFO 0 p)) = 8"
    by (simp add: put_MessageHead_def message_head_def)
  have msg: "message_head ZC_CODE_BC_INFO 0 p = \<lparr>Version = ZC_VERSION, MsgId = 0, MsgCode = ZC_CODE_BC_INFO, OptNum = 0,
       Payloadlen = ZC_HTONS 56, TotalMsgCrc = crc_bytes (crc16_ccitt p)\<rparr>"
    using p by (simp add: message_head_def)
  define old where "old = g_u8MsgBuildBuffer s"
  have old: "length old = 600" using assms by (simp add: old_def)
  have steps: "wr old 8 p = Some (take 8 old @ p @ drop 64 old)" "rd (take 8 old @ p @ drop 64 old) 8 56 = Some p"
    "wr (take 8 old @ p @ drop 64 old) 0 (put_MessageHead (message_head ZC_CODE_BC_INFO 0 p))
       = Some (put_MessageHead (message_head ZC_CODE_BC_INFO 0 p) @ p @ drop 64 old)"
    using old p head by (simp_all add: wr_Some rd_Some)
  have "EVENT_BuildBcMsg s = (do {
     m \<leftarrow> wr old 8 p;
     crc \<leftarrow> rd m 8 56;
     m \<leftarrow> wr m 0 (put_MessageHead \<lparr>Version = ZC_VERSION, MsgId = 0, MsgCode = ZC_CODE_BC_INFO, OptNum = 0,
       Payloadlen = ZC_HTONS 56, TotalMsgCrc = crc_bytes (crc16_ccitt crc)\<rparr>);
     Some (s\<lparr>g_u8MsgBuildBuffer := m\<rparr>, 8 + 56)
   })"
    using assms by (simp add: EVENT_BuildBcMsg_def ZC_GetStoreInfor_def rd_Some device p_def old_def)
  then show ?thesis
    using steps by (simp add: msg [symmetric] bc_message_def message_def p_def [symmetric] old_def [symmetric])
qed

context module_adapter begin

lemma ZC_SendBc_cases:
  assumes "ZC_SendBc A s = Some s'" "zc_inv s"
  shows "zc_inv s' \<and> st s' = st s"
proof (cases "st s = PCT_STATE_CONNECT_CLOUD \<and> sleepcount s + 1 > g_u32BcSleepCount s")
  case False
  have "zc_inv (s\<lparr>sleepcount := n\<rparr>)" for n
    using assms(2) by (simp add: zc_inv_def zc_rest_def recv_fields_ok_def)
  with False assms show ?thesis
    by (auto simp: ZC_SendBc_def Let_def split: if_split_asm)
next
  case True
  have lens: "length (u8DeviciId (g_struRegisterInfo s)) = 24" "length (RandMsg (con s)) = 32" "length (g_u8MsgBuildBuffer s) = 600"
    using assms(2) zc_rest_lengths [of s] by (simp_all add: zc_inv_def zc_rest_def register_ok_def con_ok_def)
  define m where "m = bc_message s @ drop 64 (g_u8MsgBuildBuffer s)"
  have m: "length m = 600"
    using lens by (simp add: m_def length_bc_message)
  define s1 where "s1 = s\<lparr>sleepcount := sleepcount s + 1, g_u8MsgBuildBuffer := m\<rparr>"
  have b: "EVENT_BuildBcMsg (s\<lparr>sleepcount := sleepcount s + 1\<rparr>) = Some (s1, 64)"
    using EVENT_BuildBcMsg_message [of "s\<lparr>sleepcount := sleepcount s + 1\<rparr>"] lens
    by (simp add: s1_def m_def bc_message_def)
  have s1: "zc_inv s1" "st s1 = st s"
    using assms(2) m by (simp_all add: s1_def zc_inv_def zc_rest_def recv_fields_ok_def)
  have sleep: "zc_inv x \<Longrightarrow> zc_inv (x\<lparr>sleepcount := 0\<rparr>)" for x :: "'a zc"
    by (simp add: zc_inv_def zc_rest_def recv_fields_ok_def)
  show ?thesis
  proof (cases "u16SendBcNum (con s1) < PCT_SEND_BC_MAX_NUM")
    case False
    with assms(1) True b have "s' = s1\<lparr>sleepcount := 0\<rparr>"
      by (simp add: ZC_SendBc_def Let_def)
    with s1 sleep show ?thesis by simp
  next
    case less: True
    from assms(1) True b less obtain s2 where s2: "pfunSendUdpData A (g_Bcfd s1) (g_u8MsgBuildBuffer s1) 64
          \<lparr>u8NeedPoll = 0, pu8AddrPara = g_pu8RemoteAddr s1\<rparr> s1 = Some s2"
        "s' = (con_update (\<lambda>c. c\<lparr>u16SendBcNum := u16SendBcNum c + 1\<rparr>) s2)\<lparr>sleepcount := 0\<rparr>"
      by (auto simp: ZC_SendBc_def Let_def elim!: bindE)
    from same_but_platform_rest [OF send_udp [OF s2(1)]] s1 have "zc_rest s2" "con s2 = con s1" "con_ok (con s1)"
      by (simp_all add: zc_inv_def)
    moreover have "u16SendBcNum (con s1) + 1 \<le> PCT_SEND_BC_MAX_NUM"
      using less by (simp add: word_less_nat_alt word_le_nat_alt unat_add_small)
    ultimately show ?thesis
      using s1(2) by (simp add: s2(2) zc_inv_def con_ok_def zc_rest_def recv_fields_ok_def)
  qed
qed

lemma ZC_SendClientQueryReq_inv:
  assumes "ZC_SendClientQueryReq A d n s = Some s'" "zc_inv s"
  shows "zc_inv s' \<and> con s' = con s"
proof -
  have "s' = s \<or> (\<exists>m k p. length m = 600 \<and> pfunSendUdpData A (g_Bcfd s) m k p (s\<lparr>g_u8MsgBuildBuffer := m\<rparr>) = Some s')"
    using assms zc_rest_lengths(1) [of s]
    by (auto simp: ZC_SendClientQueryReq_def Let_def zc_inv_def split: if_split_asm
        elim!: bindE dest!: length_EVENT_BuildMsg)
  then show ?thesis
  proof (elim disjE exE conjE)
    fix m k p assume m: "length m = 600" "pfunSendUdpData A (g_Bcfd s) m k p (s\<lparr>g_u8MsgBuildBuffer := m\<rparr>) = Some s'"
    from same_but_platform_rest [OF send_udp [OF m(2)]] m(1) assms(2) show ?thesis
      by (simp add: zc_inv_def)
  qed (use assms(2) in simp)
qed

end

end
