(* ===== verification/Flash.thy ===== *)
theory Flash
  imports Prelude
begin

unbundle bit_operations_syntax

text \<open>
  The flash memory: the driver of the GD25Q80 chip, \<^verbatim>\<open>Src/Drivers/flash/wm_fls_gd25qxx.c\<close>, over the SPI bus,
  and the layer above it, \<^verbatim>\<open>wm_fls.c\<close>.  The bus and the chip behind it are a record of transactions, an
  argument of the driver; \<open>'c\<close> is the state of the chip.  Semaphores and debug output are not modelled.
\<close>

section \<open>Constants\<close>

abbreviation (input) TLS_FLS_STATUS_OK :: u32 where "TLS_FLS_STATUS_OK \<equiv> 0"
abbreviation (input) TLS_FLS_STATUS_EINVAL :: u32 where "TLS_FLS_STATUS_EINVAL \<equiv> 1"
abbreviation (input) TLS_FLS_STATUS_EBUSY :: u32 where "TLS_FLS_STATUS_EBUSY \<equiv> 2"
abbreviation (input) TLS_FLS_STATUS_EPERM :: u32 where "TLS_FLS_STATUS_EPERM \<equiv> 3"
abbreviation (input) TLS_FLS_STATUS_ENOSUPPORT :: u32 where "TLS_FLS_STATUS_ENOSUPPORT \<equiv> 4"
abbreviation (input) TLS_FLS_STATUS_EEXIST :: u32 where "TLS_FLS_STATUS_EEXIST \<equiv> 5"
abbreviation (input) TLS_FLS_STATUS_ENOMEM :: u32 where "TLS_FLS_STATUS_ENOMEM \<equiv> 6"
abbreviation (input) TLS_FLS_STATUS_EIO :: u32 where "TLS_FLS_STATUS_EIO \<equiv> 10"
abbreviation (input) TLS_FLS_STATUS_ENODRV :: u32 where "TLS_FLS_STATUS_ENODRV \<equiv> 11"
abbreviation (input) TLS_FLS_FLAG_FAST_READ :: u8 where "TLS_FLS_FLAG_FAST_READ \<equiv> 2"

abbreviation (input) FLASH_PID :: u32 where "FLASH_PID \<equiv> 0x13C8"
abbreviation (input) TOTAL_SIZE :: u32 where "TOTAL_SIZE \<equiv> 0x100000"
abbreviation (input) PAGE_SIZE :: u32 where "PAGE_SIZE \<equiv> 256"
abbreviation (input) SECTOR_SIZE :: u32 where "SECTOR_SIZE \<equiv> 4096"

section \<open>The bus\<close>

text \<open>One transaction between \<^verbatim>\<open>fls_cs_low\<close> and \<^verbatim>\<open>fls_cs_high\<close>: \<^verbatim>\<open>tls_spi_write\<close>,
  \<^verbatim>\<open>tls_spi_write_then_read\<close> and \<^verbatim>\<open>tls_spi_write32_then_writen\<close>; 0 is success.\<close>

record 'c spi_bus =
  tls_spi_write :: "u8 list \<Rightarrow> 'c \<Rightarrow> u32 \<times> 'c"
  tls_spi_write_then_read :: "u8 list \<Rightarrow> u32 \<Rightarrow> 'c \<Rightarrow> u32 \<times> u8 list \<times> 'c"
  tls_spi_write32_then_writen :: "u8 list \<Rightarrow> u8 list \<Rightarrow> 'c \<Rightarrow> u32 \<times> 'c"

section \<open>The structures of \<^verbatim>\<open>wm_flash.h\<close>\<close>

record 'c tls_fls_drv =
  drv_id :: u32
  total_size :: u32
  page_size :: u32
  program_size :: u32
  sector_size :: u32
  drv_flags :: u8
  drv_read :: "u32 \<Rightarrow> u32 \<Rightarrow> 'c \<Rightarrow> (u32 \<times> u8 list \<times> 'c) option"
  drv_fast_read :: "u32 \<Rightarrow> u32 \<Rightarrow> 'c \<Rightarrow> (u32 \<times> u8 list \<times> 'c) option"
  drv_page_write :: "u32 \<Rightarrow> u8 list \<Rightarrow> 'c \<Rightarrow> (u32 \<times> 'c) option"
  drv_erase :: "u32 \<Rightarrow> 'c \<Rightarrow> (u32 \<times> 'c) option"
  drv_chip_erase :: "'c \<Rightarrow> (u32 \<times> 'c) option"
  drv_probe :: "'c \<Rightarrow> (u32 \<times> 'c) option"

text \<open>A driver that reads returns what it leaves in the buffer.\<close>

record 'c tls_fls =
  fls_drvs :: "'c tls_fls_drv list"
  current_drv :: "'c tls_fls_drv option"

record 'c flash =
  spi_fls :: "'c tls_fls option"
  chip :: 'c
  gsflscache :: "u8 list option"
  gsSecOffset :: u32
  gsSector :: u32

section \<open>The driver of the chip\<close>

definition swap32 :: "u32 \<Rightarrow> u32" where
  "swap32 v = push_bit 24 (v AND 0xff) OR push_bit 8 (v AND 0xff00) OR drop_bit 8 (v AND 0xff0000) OR drop_bit 24 v"

text \<open>The four bytes of \<^verbatim>\<open>cmd\<close> for a command with an address.\<close>

definition gd25_cmd :: "u32 \<Rightarrow> u32 \<Rightarrow> u8 list" where
  "gd25_cmd c addr = bytes32 (c OR (swap32 addr AND 0xffffff00))"

definition gd25qxx_write_enable :: "'c spi_bus \<Rightarrow> 'c \<Rightarrow> u32 \<times> 'c" where
  "gd25qxx_write_enable bus c =
     (let (err, c) = tls_spi_write bus [0x06] c
      in if err \<noteq> 0 then (TLS_FLS_STATUS_EIO, c) else (TLS_FLS_STATUS_OK, c))"

partial_function (option) gd25qxx_wait_write_enable :: "'c spi_bus \<Rightarrow> 'c \<Rightarrow> (u32 \<times> 'c) option" where
  "gd25qxx_wait_write_enable bus c = do {
     let (err, d, c) = tls_spi_write_then_read bus [0x05] 1 c;
     if err \<noteq> 0 then Some (TLS_FLS_STATUS_EIO, c)
     else do {
       sr \<leftarrow> rd1 d 0;
       if sr AND 2 \<noteq> 0 then Some (TLS_FLS_STATUS_OK, c)
       else gd25qxx_wait_write_enable bus c
     }
   }"

partial_function (option) gd25qxx_wait_flash_ready :: "'c spi_bus \<Rightarrow> 'c \<Rightarrow> (u32 \<times> 'c) option" where
  "gd25qxx_wait_flash_ready bus c = do {
     let (err, d, c) = tls_spi_write_then_read bus [0x05] 1 c;
     if err \<noteq> 0 then Some (TLS_FLS_STATUS_EIO, c)
     else do {
       sr \<leftarrow> rd1 d 0;
       if sr AND 1 = 0 then Some (TLS_FLS_STATUS_OK, c)
       else gd25qxx_wait_flash_ready bus c
     }
   }"

declare gd25qxx_wait_write_enable.simps [code]
declare gd25qxx_wait_flash_ready.simps [code]

definition gd25qxx_read :: "'c spi_bus \<Rightarrow> u32 \<Rightarrow> u32 \<Rightarrow> 'c \<Rightarrow> (u32 \<times> u8 list \<times> 'c) option" where
  "gd25qxx_read bus addr len c = do {
     let (err, d, c) = tls_spi_write_then_read bus (gd25_cmd 0x03 addr) len c;
     Some (if err \<noteq> 0 then TLS_FLS_STATUS_EIO else TLS_FLS_STATUS_OK, d, c)
   }"

definition gd25qxx_fast_read :: "u32 \<Rightarrow> u32 \<Rightarrow> 'c \<Rightarrow> (u32 \<times> u8 list \<times> 'c) option" where
  "gd25qxx_fast_read addr len c = Some (TLS_FLS_STATUS_ENOSUPPORT, [], c)"

text \<open>The common start of programming and erasing: \<^verbatim>\<open>gd25qxx_write_enable\<close> and the wait for it; the common
  end: the wait for the chip.\<close>

definition gd25_modify :: "'c spi_bus \<Rightarrow> ('c \<Rightarrow> u32 \<times> 'c) \<Rightarrow> 'c \<Rightarrow> (u32 \<times> 'c) option" where
  "gd25_modify bus send c = do {
     let (err, c) = gd25qxx_write_enable bus c;
     if err \<noteq> 0 then Some (TLS_FLS_STATUS_EIO, c)
     else do {
       (err, c) \<leftarrow> gd25qxx_wait_write_enable bus c;
       if err \<noteq> 0 then Some (TLS_FLS_STATUS_EIO, c)
       else do {
         let (err, c) = send c;
         if err \<noteq> 0 then Some (TLS_FLS_STATUS_EIO, c)
         else do {
           (err, c) \<leftarrow> gd25qxx_wait_flash_ready bus c;
           Some (if err \<noteq> 0 then TLS_FLS_STATUS_EIO else TLS_FLS_STATUS_OK, c)
         }
       }
     }
   }"

text \<open>\<^verbatim>\<open>gd25qxx_drv\<close> points to \<^verbatim>\<open>gd25qxx_fls\<close> once the driver was probed, so its sizes are those of
  the header.\<close>

definition gd25qxx_page_write :: "'c spi_bus \<Rightarrow> u32 \<Rightarrow> u8 list \<Rightarrow> 'c \<Rightarrow> (u32 \<times> 'c) option" where
  "gd25qxx_page_write bus page buf c = do {
     d \<leftarrow> rd buf 0 (unat PAGE_SIZE);
     gd25_modify bus (tls_spi_write32_then_writen bus (gd25_cmd 0x02 (page * PAGE_SIZE)) d) c
   }"

definition gd25qxx_erase :: "'c spi_bus \<Rightarrow> u32 \<Rightarrow> 'c \<Rightarrow> (u32 \<times> 'c) option" where
  "gd25qxx_erase bus sector = gd25_modify bus (tls_spi_write bus (gd25_cmd 0x20 (sector * SECTOR_SIZE)))"

definition gd25qxx_chip_erase :: "'c spi_bus \<Rightarrow> 'c \<Rightarrow> (u32 \<times> 'c) option" where
  "gd25qxx_chip_erase bus = gd25_modify bus (tls_spi_write bus [0xc7])"

text \<open>The identifier: two bytes read into a zeroed word.\<close>

definition gd25qxx_read_id :: "'c spi_bus \<Rightarrow> 'c \<Rightarrow> (u32 \<times> u32 \<times> 'c) option" where
  "gd25qxx_read_id bus c = do {
     let (err, d, c) = tls_spi_write_then_read bus (bytes32 0x90) 2 c;
     x \<leftarrow> rd d 0 2;
     Some (if err \<noteq> 0 then TLS_FLS_STATUS_EIO else TLS_FLS_STATUS_OK, ucast (le16 x), c)
   }"

definition gd25qxx_probe :: "'c spi_bus \<Rightarrow> 'c \<Rightarrow> (u32 \<times> 'c) option" where
  "gd25qxx_probe bus c = do {
     (err, i, c) \<leftarrow> gd25qxx_read_id bus c;
     Some (if err \<noteq> 0 then TLS_FLS_STATUS_EIO
           else if i = FLASH_PID then TLS_FLS_STATUS_OK else TLS_FLS_STATUS_ENODRV, c)
   }"

definition gd25qxx_fls :: "'c spi_bus \<Rightarrow> 'c tls_fls_drv" where
  "gd25qxx_fls bus = \<lparr>drv_id = FLASH_PID, total_size = TOTAL_SIZE, page_size = PAGE_SIZE, program_size = PAGE_SIZE,
     sector_size = SECTOR_SIZE, drv_flags = 0, drv_read = gd25qxx_read bus, drv_fast_read = gd25qxx_fast_read,
     drv_page_write = gd25qxx_page_write bus, drv_erase = gd25qxx_erase bus, drv_chip_erase = gd25qxx_chip_erase bus,
     drv_probe = gd25qxx_probe bus\<rparr>"

section \<open>The layer above\<close>

text \<open>The checks every operation starts with: the error or the driver.\<close>

definition fls_drv :: "'c flash \<Rightarrow> u32 + 'c tls_fls_drv" where
  "fls_drv s = (case spi_fls s of None \<Rightarrow> Inl TLS_FLS_STATUS_EPERM
     | Some f \<Rightarrow> (case current_drv f of None \<Rightarrow> Inl TLS_FLS_STATUS_ENODRV | Some d \<Rightarrow> Inr d))"

definition tls_fls_read :: "u32 \<Rightarrow> u8 list \<Rightarrow> u32 \<Rightarrow> 'c flash \<Rightarrow> (u32 \<times> u8 list \<times> 'c flash) option" where
  "tls_fls_read addr buf len s =
     (case fls_drv s of Inl e \<Rightarrow> Some (e, buf, s)
      | Inr drv \<Rightarrow>
          if addr \<ge> total_size drv \<or> len = 0 then Some (TLS_FLS_STATUS_EINVAL, buf, s)
          else do {
            let read_bytes = (if addr + len > total_size drv then total_size drv - addr else len);
            (err, d, c) \<leftarrow> drv_read drv addr read_bytes (chip s);
            buf \<leftarrow> wr buf 0 d;
            Some (err, buf, s\<lparr>chip := c\<rparr>)
          })"

definition tls_fls_fast_read :: "u32 \<Rightarrow> u8 list \<Rightarrow> u32 \<Rightarrow> 'c flash \<Rightarrow> (u32 \<times> u8 list \<times> 'c flash) option" where
  "tls_fls_fast_read addr buf len s =
     (case fls_drv s of Inl e \<Rightarrow> Some (e, buf, s)
      | Inr drv \<Rightarrow>
          if addr \<ge> total_size drv \<or> len = 0 then Some (TLS_FLS_STATUS_EINVAL, buf, s)
          else if drv_flags drv AND TLS_FLS_FLAG_FAST_READ \<noteq> TLS_FLS_FLAG_FAST_READ
          then Some (TLS_FLS_STATUS_ENOSUPPORT, buf, s)
          else do {
            let read_bytes = (if addr + len > total_size drv then total_size drv - addr else len);
            (err, d, c) \<leftarrow> drv_fast_read drv addr read_bytes (chip s);
            buf \<leftarrow> wr buf 0 d;
            Some (err, buf, s\<lparr>chip := c\<rparr>)
          })"

fun page_write_loop :: "nat \<Rightarrow> u32 \<Rightarrow> 'c tls_fls_drv \<Rightarrow> u32 \<Rightarrow> u8 list \<Rightarrow> 'c \<Rightarrow> (u32 \<times> 'c) option" where
  "page_write_loop 0 i drv page buf c = Some (TLS_FLS_STATUS_OK, c)"
| "page_write_loop (Suc k) i drv page buf c = do {
     (err, c) \<leftarrow> drv_page_write drv (page + i) (drop (unat (i * page_size drv)) buf) c;
     if err \<noteq> TLS_FLS_STATUS_OK then Some (err, c)
     else page_write_loop k (i + 1) drv page buf c
   }"

definition tls_fls_page_write :: "u32 \<Rightarrow> u8 list \<Rightarrow> u32 \<Rightarrow> 'c flash \<Rightarrow> (u32 \<times> 'c flash) option" where
  "tls_fls_page_write page buf page_cnt s =
     (case fls_drv s of Inl e \<Rightarrow> Some (e, s)
      | Inr drv \<Rightarrow>
          let pages = total_size drv div page_size drv
          in if page \<ge> pages \<or> page_cnt = 0 then Some (TLS_FLS_STATUS_EINVAL, s)
             else do {
               let write_pages = (if page + page_cnt > pages then pages - page else page_cnt);
               (err, c) \<leftarrow> page_write_loop (unat write_pages) 0 drv page buf (chip s);
               Some (err, s\<lparr>chip := c\<rparr>)
             })"

text \<open>
  The loop over the sectors: \<open>k\<close> turns remain; \<open>buf\<close> is the rest of the data.  The sector is read into the
  cache, which it fills, changed, erased and written back.
\<close>

fun write_sectors ::
  "nat \<Rightarrow> u32 \<Rightarrow> 'c tls_fls_drv \<Rightarrow> u32 \<Rightarrow> u32 \<Rightarrow> u32 \<Rightarrow> u8 list \<Rightarrow> u32 \<Rightarrow> u8 list \<Rightarrow> 'c flash \<Rightarrow> (u32 \<times> 'c flash) option" where
  "write_sectors 0 i drv addr sector_addr sector_num buf write_bytes cache s = Some (TLS_FLS_STATUS_OK, s)"
| "write_sectors (Suc k) i drv addr sector_addr sector_num buf write_bytes cache s = do {
     let size = sector_size drv;
     (err, d, c) \<leftarrow> drv_read drv ((sector_addr + i) * size) size (chip s);
     cache \<leftarrow> wr cache 0 d;
     let s = s\<lparr>chip := c\<rparr>;
     if err \<noteq> TLS_FLS_STATUS_OK then Some (err, s)
     else do {
       let (off, n) =
         (if i = 0 \<and> i \<noteq> sector_num - 1 then (addr mod size, size - addr mod size)
          else if i = sector_num - 1 then (addr mod size, write_bytes)
          else (0, size));
       d \<leftarrow> rd buf 0 (unat n);
       cache \<leftarrow> wr cache (unat off) d;
       (err, c) \<leftarrow> drv_erase drv (sector_addr + i) (chip s);
       let s = s\<lparr>chip := c\<rparr>;
       if err \<noteq> TLS_FLS_STATUS_OK then Some (err, s)
       else do {
         (err, s) \<leftarrow> tls_fls_page_write ((sector_addr + i) * (size div page_size drv)) cache (size div page_size drv) s;
         if err \<noteq> TLS_FLS_STATUS_OK then Some (err, s)
         else write_sectors k (i + 1) drv addr sector_addr sector_num (drop (unat n) buf) (write_bytes - n) cache s
       }
     }
   }"

text \<open>The argument \<open>alloc\<close>: the allocation of the cache succeeds, with what the memory holds.\<close>

definition tls_fls_write :: "u8 list option \<Rightarrow> u32 \<Rightarrow> u8 list \<Rightarrow> u32 \<Rightarrow> 'c flash \<Rightarrow> (u32 \<times> 'c flash) option" where
  "tls_fls_write alloc addr buf len s =
     (case fls_drv s of Inl e \<Rightarrow> Some (e, s)
      | Inr drv \<Rightarrow>
          if addr \<ge> total_size drv \<or> len = 0 then Some (TLS_FLS_STATUS_EINVAL, s)
          else
            (let write_bytes = (if addr + len > total_size drv then total_size drv - addr else len);
                 sector_addr = addr div sector_size drv;
                 sector_num = (addr + write_bytes - 1) div sector_size drv - sector_addr + 1
             in case alloc of
                  None \<Rightarrow> Some (TLS_FLS_STATUS_ENOMEM, s)
                | Some cache \<Rightarrow>
                    write_sectors (unat sector_num) 0 drv addr sector_addr sector_num buf write_bytes cache s))"

section \<open>Writing through the cache\<close>

text \<open>\<^verbatim>\<open>tls_fls_flush_sector\<close> ignores the results of the driver.\<close>

definition tls_fls_flush_sector :: "'c flash \<Rightarrow> 'c flash option" where
  "tls_fls_flush_sector s = do {
     f \<leftarrow> spi_fls s;
     drv \<leftarrow> current_drv f;
     (err, c) \<leftarrow> drv_erase drv (gsSector s) (chip s);
     let pagepersector = sector_size drv div page_size drv;
     cache \<leftarrow> gsflscache s;
     (err, s) \<leftarrow> tls_fls_page_write (gsSector s * pagepersector) cache pagepersector (s\<lparr>chip := c\<rparr>);
     Some (s\<lparr>gsSecOffset := 0\<rparr>)
   }"

definition tls_fls_fast_write_init :: "u8 list option \<Rightarrow> 'c flash \<Rightarrow> u32 \<times> 'c flash" where
  "tls_fls_fast_write_init alloc s =
     (case fls_drv s of Inl e \<Rightarrow> (TLS_FLS_STATUS_EPERM, s)
      | Inr drv \<Rightarrow>
          if gsflscache s \<noteq> None then (- 1, s)
          else (case alloc of None \<Rightarrow> (- 1, s) | Some cache \<Rightarrow> (0, s\<lparr>gsflscache := Some cache\<rparr>)))"

definition tls_fls_fast_write_destroy :: "'c flash \<Rightarrow> 'c flash option" where
  "tls_fls_fast_write_destroy s =
     (if gsflscache s \<noteq> None then do {
        s \<leftarrow> tls_fls_flush_sector s;
        Some (s\<lparr>gsflscache := None\<rparr>)
      } else Some s)"

text \<open>The loop of \<^verbatim>\<open>tls_fls_fast_write\<close>; it ends because each turn takes bytes of a sector.\<close>

partial_function (option) fast_write_loop ::
  "'c tls_fls_drv \<Rightarrow> u32 \<Rightarrow> u32 \<Rightarrow> u8 list \<Rightarrow> u32 \<Rightarrow> 'c flash \<Rightarrow> 'c flash option" where
  "fast_write_loop drv offset maxlen buf nbytes s =
     (if nbytes > 0 then do {
        let len = (if nbytes > maxlen then maxlen else nbytes);
        d \<leftarrow> rd buf 0 (unat len);
        cache \<leftarrow> gsflscache s;
        cache \<leftarrow> wr cache (unat offset) d;
        let s = s\<lparr>gsflscache := Some cache, gsSecOffset := gsSecOffset s + len\<rparr>;
        s \<leftarrow> (if gsSecOffset s \<ge> sector_size drv then do {
            s \<leftarrow> tls_fls_flush_sector s;
            Some (s\<lparr>gsSector := gsSector s + 1\<rparr>)
          } else Some s);
        fast_write_loop drv 0 (sector_size drv) (drop (unat len) buf) (nbytes - len) s
      } else Some s)"

declare fast_write_loop.simps [code]

definition tls_fls_fast_write :: "u32 \<Rightarrow> u8 list \<Rightarrow> u32 \<Rightarrow> 'c flash \<Rightarrow> (u32 \<times> 'c flash) option" where
  "tls_fls_fast_write addr buf nbytes s =
     (case fls_drv s of Inl e \<Rightarrow> Some (TLS_FLS_STATUS_EPERM, s)
      | Inr drv \<Rightarrow>
          if addr \<ge> total_size drv \<or> nbytes = 0 then Some (TLS_FLS_STATUS_EINVAL, s)
          else do {
            let sector = addr div sector_size drv;
            let offset = addr mod sector_size drv;
            s \<leftarrow> (if sector \<noteq> gsSector s \<and> gsSecOffset s \<noteq> 0 then tls_fls_flush_sector s else Some s);
            s \<leftarrow> fast_write_loop drv offset (sector_size drv - offset) buf nbytes (s\<lparr>gsSector := sector\<rparr>);
            Some (0, s)
          })"

section \<open>Erasing, parameters, drivers\<close>

definition tls_fls_erase :: "u32 \<Rightarrow> 'c flash \<Rightarrow> (u32 \<times> 'c flash) option" where
  "tls_fls_erase sector s =
     (case fls_drv s of Inl e \<Rightarrow> Some (e, s)
      | Inr drv \<Rightarrow>
          if sector \<ge> total_size drv div sector_size drv then Some (TLS_FLS_STATUS_EINVAL, s)
          else do {
            (err, c) \<leftarrow> drv_erase drv sector (chip s);
            Some (err, s\<lparr>chip := c\<rparr>)
          })"

definition tls_fls_chip_erase :: "'c flash \<Rightarrow> (u32 \<times> 'c flash) option" where
  "tls_fls_chip_erase s =
     (case fls_drv s of Inl e \<Rightarrow> Some (e, s)
      | Inr drv \<Rightarrow> do {
          (err, c) \<leftarrow> drv_chip_erase drv (chip s);
          Some (err, s\<lparr>chip := c\<rparr>)
        })"

text \<open>The result and what is stored through \<^verbatim>\<open>param\<close>.\<close>

definition tls_fls_get_param :: "u8 \<Rightarrow> 'c flash \<Rightarrow> u32 \<times> u32 option" where
  "tls_fls_get_param ty s =
     (case fls_drv s of Inl e \<Rightarrow> (e, None)
      | Inr drv \<Rightarrow>
          if ty = 0 then (TLS_FLS_STATUS_OK, Some (drv_id drv))
          else if ty = 1 then (TLS_FLS_STATUS_OK, Some (total_size drv))
          else if ty = 2 then (TLS_FLS_STATUS_OK, Some (page_size drv))
          else if ty = 3 then (TLS_FLS_STATUS_OK, Some (program_size drv))
          else if ty = 4 then (TLS_FLS_STATUS_OK, Some (sector_size drv))
          else (TLS_FLS_STATUS_EINVAL, None))"

definition tls_fls_drv_register :: "'c tls_fls_drv \<Rightarrow> 'c flash \<Rightarrow> (u32 \<times> 'c flash) option" where
  "tls_fls_drv_register drv s = do {
     f \<leftarrow> spi_fls s;
     if \<exists>d\<in>set (fls_drvs f). drv_id d = drv_id drv then Some (TLS_FLS_STATUS_EEXIST, s)
     else Some (TLS_FLS_STATUS_OK, s\<lparr>spi_fls := Some (f\<lparr>fls_drvs := fls_drvs f @ [drv]\<rparr>)\<rparr>)
   }"

text \<open>The loop of \<^verbatim>\<open>tls_fls_probe\<close>: the first driver with the identifier that probes well.\<close>

fun probe_loop :: "'c tls_fls_drv list \<Rightarrow> u32 \<Rightarrow> 'c \<Rightarrow> ('c tls_fls_drv option \<times> 'c) option" where
  "probe_loop [] i c = Some (None, c)"
| "probe_loop (drv # drvs) i c =
     (if drv_id drv = i then do {
        (err, c) \<leftarrow> drv_probe drv c;
        if err \<noteq> TLS_FLS_STATUS_OK then probe_loop drvs i c else Some (Some drv, c)
      } else probe_loop drvs i c)"

definition tls_fls_probe :: "'c spi_bus \<Rightarrow> 'c flash \<Rightarrow> (u32 \<times> 'c flash) option" where
  "tls_fls_probe bus s =
     (case spi_fls s of None \<Rightarrow> Some (TLS_FLS_STATUS_EPERM, s)
      | Some f \<Rightarrow>
          if current_drv f \<noteq> None then Some (TLS_FLS_STATUS_EBUSY, s)
          else do {
            (err, i, c) \<leftarrow> gd25qxx_read_id bus (chip s);
            if err \<noteq> TLS_FLS_STATUS_OK then Some (err, s\<lparr>chip := c\<rparr>)
            else do {
              (d, c) \<leftarrow> probe_loop (fls_drvs f) i c;
              Some (if d = None then TLS_FLS_STATUS_ENODRV else TLS_FLS_STATUS_OK,
                s\<lparr>chip := c, spi_fls := Some (f\<lparr>current_drv := d\<rparr>)\<rparr>)
            }
          })"

text \<open>The two arguments: whether the memory and the semaphore could be created.\<close>

definition tls_fls_init :: "bool \<Rightarrow> bool \<Rightarrow> 'c flash \<Rightarrow> u32 \<times> 'c flash" where
  "tls_fls_init alloc sem s =
     (if spi_fls s \<noteq> None then (TLS_FLS_STATUS_EBUSY, s)
      else if \<not> alloc \<or> \<not> sem then (TLS_FLS_STATUS_ENOMEM, s)
      else (TLS_FLS_STATUS_OK, s\<lparr>spi_fls := Some \<lparr>fls_drvs = [], current_drv = None\<rparr>\<rparr>))"

definition tls_fls_gd25qxx_drv_install :: "'c spi_bus \<Rightarrow> 'c flash \<Rightarrow> (u32 \<times> 'c flash) option" where
  "tls_fls_gd25qxx_drv_install bus s = do {
     (err, s) \<leftarrow> tls_fls_drv_register (gd25qxx_fls bus) s;
     tls_fls_probe bus s
   }"

end
