(* ===== verification/FlashCorrect.thy ===== *)
theory FlashCorrect
  imports Flash
begin

text \<open>
  What the flash layer promises on a chip that behaves as a NOR flash: a sector erase sets its bytes, a page
  program clears bits, a write needs to be enabled and keeps the chip busy for a while.  The chip is hardware:
  its documented behaviour is the predicate \<open>nor_chip\<close>, a hypothesis of the properties, and a chip that meets
  it is given for their witnesses.
\<close>

section \<open>Replacing a part of the memory\<close>

definition overlay :: "nat \<Rightarrow> 'b list \<Rightarrow> 'b list \<Rightarrow> 'b list" where
  "overlay off d m = take off m @ d @ drop (off + length d) m"

lemma length_overlay [simp]: "off + length d \<le> length m \<Longrightarrow> length (overlay off d m) = length m"
  by (simp add: overlay_def)

lemma wr_overlay: "off + length d \<le> length m \<Longrightarrow> wr m off d = Some (overlay off d m)"
  by (simp add: overlay_def wr_Some)

lemma overlay_read: "off + length d \<le> length m \<Longrightarrow> take (length d) (drop off (overlay off d m)) = d"
  by (simp add: overlay_def)

lemma overlay_same: "off + length d \<le> length m \<Longrightarrow> length d' = length d \<Longrightarrow> overlay off d (overlay off d' m) = overlay off d m"
  by (simp add: overlay_def)

lemma overlay_append:
  "off + length d1 + length d2 \<le> length m \<Longrightarrow> overlay (off + length d1) d2 (overlay off d1 m) = overlay off (d1 @ d2) m"
  by (simp add: overlay_def ac_simps)

lemma overlay_Nil [simp]: "overlay off [] m = m"
  by (simp add: overlay_def)

text \<open>Changing a window of the memory.\<close>

lemma overlay_window:
  assumes "base + n \<le> length m" "off + length d \<le> n"
  shows "overlay base (overlay off d (take n (drop base m))) m = overlay (base + off) d m"
proof -
  have "take off (take n (drop base m)) = drop base (take (base + off) m)"
    using assms by (simp add: take_drop min_def add.commute)
  moreover have "drop (off + length d) (take n (drop base m)) @ drop (base + n) m = drop (base + off + length d) m"
  proof -
    have "drop (base + n) m = drop (n - (off + length d)) (drop (base + off + length d) m)"
      using assms by (simp add: add.commute)
    moreover have "drop (off + length d) (take n (drop base m)) = take (n - (off + length d)) (drop (base + off + length d) m)"
      using assms by (simp add: drop_take ac_simps)
    ultimately show ?thesis
      by (simp only: append_take_drop_id)
  qed
  moreover have "take base m @ drop base (take (base + off) m) = take (base + off) m"
    using append_take_drop_id [of base "take (base + off) m"] by (simp add: min_def)
  moreover have "overlay base (overlay off d (take n (drop base m))) m
      = take base m @ take off (take n (drop base m)) @ d @ drop (off + length d) (take n (drop base m)) @ drop (base + n) m"
    using assms by (simp add: overlay_def [of base] length_overlay) (simp add: overlay_def)
  ultimately show ?thesis
    by (simp only: overlay_def append_assoc [symmetric])
qed

lemma overlay_elsewhere:
  "off + length d \<le> length m \<Longrightarrow> off + length d \<le> i \<Longrightarrow> drop i (overlay off d m) = drop i m"
  by (simp add: overlay_def)

section \<open>The chip\<close>

definition addr24 :: "u32 \<Rightarrow> u8 list" where
  "addr24 a = [ucast (drop_bit 16 a), ucast (drop_bit 8 a), ucast a]"

definition nor_chip :: "'c spi_bus \<Rightarrow> ('c \<Rightarrow> u8 list) \<Rightarrow> ('c \<Rightarrow> bool) \<Rightarrow> ('c \<Rightarrow> nat) \<Rightarrow> bool" where
  "nor_chip bus mem wel busy \<longleftrightarrow>
     (\<forall>c. length (mem c) = 0x100000)
   \<and> (\<forall>c a n. busy c = 0 \<longrightarrow> unat a + unat n \<le> 0x100000 \<longrightarrow>
        (\<exists>c'. tls_spi_write_then_read bus (0x03 # addr24 a) n c = (0, take (unat n) (drop (unat a) (mem c)), c')
          \<and> mem c' = mem c \<and> busy c' = 0))
   \<and> (\<forall>c. busy c = 0 \<longrightarrow> (\<exists>c'. tls_spi_write bus [0x06] c = (0, c') \<and> mem c' = mem c \<and> wel c' \<and> busy c' = 0))
   \<and> (\<forall>c. \<exists>sr c'. tls_spi_write_then_read bus [0x05] 1 c = (0, [sr], c') \<and> mem c' = mem c \<and> wel c' = wel c
        \<and> busy c' = busy c - 1 \<and> (sr AND 2 \<noteq> 0 \<longleftrightarrow> wel c) \<and> (sr AND 1 = 0 \<longleftrightarrow> busy c = 0))
   \<and> (\<forall>c a d. busy c = 0 \<longrightarrow> wel c \<longrightarrow> unat a mod 256 = 0 \<longrightarrow> unat a < 0x100000 \<longrightarrow> length d = 256 \<longrightarrow>
        (\<exists>c'. tls_spi_write32_then_writen bus (0x02 # addr24 a) d c = (0, c')
          \<and> mem c' = overlay (unat a) (map2 (AND) (take 256 (drop (unat a) (mem c))) d) (mem c)))
   \<and> (\<forall>c a. busy c = 0 \<longrightarrow> wel c \<longrightarrow> unat a mod 4096 = 0 \<longrightarrow> unat a < 0x100000 \<longrightarrow>
        (\<exists>c'. tls_spi_write bus (0x20 # addr24 a) c = (0, c')
          \<and> mem c' = overlay (unat a) (replicate 4096 0xFF) (mem c)))"

lemma nor_chipD:
  assumes "nor_chip bus mem wel busy"
  shows nor_chip_size: "length (mem c) = 0x100000"
    and nor_chip_read: "busy c = 0 \<Longrightarrow> unat a + unat n \<le> 0x100000 \<Longrightarrow>
        \<exists>c'. tls_spi_write_then_read bus (0x03 # addr24 a) n c = (0, take (unat n) (drop (unat a) (mem c)), c')
          \<and> mem c' = mem c \<and> busy c' = 0"
    and nor_chip_enable: "busy c = 0 \<Longrightarrow> \<exists>c'. tls_spi_write bus [0x06] c = (0, c') \<and> mem c' = mem c \<and> wel c' \<and> busy c' = 0"
    and nor_chip_status: "\<exists>sr c'. tls_spi_write_then_read bus [0x05] 1 c = (0, [sr], c') \<and> mem c' = mem c \<and> wel c' = wel c
        \<and> busy c' = busy c - 1 \<and> (sr AND 2 \<noteq> 0 \<longleftrightarrow> wel c) \<and> (sr AND 1 = 0 \<longleftrightarrow> busy c = 0)"
    and nor_chip_program: "busy c = 0 \<Longrightarrow> wel c \<Longrightarrow> unat a mod 256 = 0 \<Longrightarrow> unat a < 0x100000 \<Longrightarrow> length d = 256 \<Longrightarrow>
        \<exists>c'. tls_spi_write32_then_writen bus (0x02 # addr24 a) d c = (0, c')
          \<and> mem c' = overlay (unat a) (map2 (AND) (take 256 (drop (unat a) (mem c))) d) (mem c)"
    and nor_chip_erase: "busy c = 0 \<Longrightarrow> wel c \<Longrightarrow> unat a mod 4096 = 0 \<Longrightarrow> unat a < 0x100000 \<Longrightarrow>
        \<exists>c'. tls_spi_write bus (0x20 # addr24 a) c = (0, c') \<and> mem c' = overlay (unat a) (replicate 4096 0xFF) (mem c)"
  subgoal by (use assms in \<open>simp add: nor_chip_def\<close>)
  subgoal by (use assms in \<open>simp add: nor_chip_def\<close>)
  subgoal by (use assms in \<open>simp add: nor_chip_def\<close>)
  subgoal using assms unfolding nor_chip_def by (elim conjE) (erule spec)
  subgoal by (use assms in \<open>simp add: nor_chip_def\<close>)
  subgoal by (use assms in \<open>simp add: nor_chip_def\<close>)
  done

text \<open>What the layer above needs of a driver with the sizes of this chip.\<close>

definition flash_driver :: "'c tls_fls_drv \<Rightarrow> ('c \<Rightarrow> u8 list) \<Rightarrow> ('c \<Rightarrow> bool) \<Rightarrow> bool" where
  "flash_driver drv mem ready \<longleftrightarrow>
     total_size drv = TOTAL_SIZE \<and> page_size drv = PAGE_SIZE \<and> sector_size drv = SECTOR_SIZE
   \<and> (\<forall>c. length (mem c) = 0x100000)
   \<and> (\<forall>c a n. ready c \<longrightarrow> unat a + unat n \<le> 0x100000 \<longrightarrow>
        (\<exists>c'. drv_read drv a n c = Some (0, take (unat n) (drop (unat a) (mem c)), c') \<and> mem c' = mem c \<and> ready c'))
   \<and> (\<forall>c p d. ready c \<longrightarrow> unat p < 4096 \<longrightarrow> 256 \<le> length d \<longrightarrow>
        (\<exists>c'. drv_page_write drv p d c = Some (0, c') \<and> ready c'
          \<and> mem c' = overlay (256 * unat p) (map2 (AND) (take 256 (drop (256 * unat p) (mem c))) (take 256 d)) (mem c)))
   \<and> (\<forall>c k. ready c \<longrightarrow> unat k < 256 \<longrightarrow>
        (\<exists>c'. drv_erase drv k c = Some (0, c') \<and> ready c'
          \<and> mem c' = overlay (4096 * unat k) (replicate 4096 0xFF) (mem c)))"

lemma flash_driverD:
  assumes "flash_driver drv mem ready"
  shows flash_driver_sizes: "total_size drv = 0x100000" "page_size drv = 256" "sector_size drv = 4096" "length (mem c) = 0x100000"
    and flash_driver_read: "ready c \<Longrightarrow> unat a + unat n \<le> 0x100000 \<Longrightarrow>
      \<exists>c'. drv_read drv a n c = Some (0, take (unat n) (drop (unat a) (mem c)), c') \<and> mem c' = mem c \<and> ready c'"
    and flash_driver_write: "ready c \<Longrightarrow> unat p < 4096 \<Longrightarrow> 256 \<le> length d \<Longrightarrow>
      \<exists>c'. drv_page_write drv p d c = Some (0, c') \<and> ready c'
        \<and> mem c' = overlay (256 * unat p) (map2 (AND) (take 256 (drop (256 * unat p) (mem c))) (take 256 d)) (mem c)"
    and flash_driver_erase: "ready c \<Longrightarrow> unat k < 256 \<Longrightarrow>
      \<exists>c'. drv_erase drv k c = Some (0, c') \<and> ready c' \<and> mem c' = overlay (4096 * unat k) (replicate 4096 0xFF) (mem c)"
  using assms unfolding flash_driver_def by (elim conjE; simp)+

section \<open>The driver\<close>

lemma byte_masks:
  "(0xff :: u32) = mask 8" "(0xff00 :: u32) = push_bit 8 (mask 8)" "(0xff0000 :: u32) = push_bit 16 (mask 8)"
  "(0xffffff00 :: u32) = push_bit 8 (mask 24)"
  by (simp_all add: mask_eq_exp_minus_1 push_bit_eq_mult)

lemma gd25_cmd_bytes: "gd25_cmd (ucast (c :: u8)) a = c # addr24 a"
proof -
  let ?v = "ucast c OR (swap32 a AND 0xffffff00) :: u32"
  have v: "ucast ?v = c" "ucast (drop_bit 8 ?v) = (ucast (drop_bit 16 a) :: u8)"
    "ucast (drop_bit 16 ?v) = (ucast (drop_bit 8 a) :: u8)" "ucast (drop_bit 24 ?v) = (ucast a :: u8)"
    unfolding swap32_def byte_masks
    by (rule bit_word_eqI; auto simp: bit_simps dest: bit_imp_le_length)+
  show ?thesis unfolding gd25_cmd_def bytes32_def addr24_def v ..
qed

lemma gd25_waits:
  assumes "nor_chip bus mem wel busy"
  shows "wel c \<Longrightarrow> \<exists>c'. gd25qxx_wait_write_enable bus c = Some (0, c') \<and> mem c' = mem c \<and> wel c' \<and> busy c' = busy c - 1"
    "\<exists>c'. gd25qxx_wait_flash_ready bus c = Some (0, c') \<and> mem c' = mem c \<and> busy c' = 0"
proof -
  note status = nor_chip_status [OF assms]
  show "\<exists>c'. gd25qxx_wait_write_enable bus c = Some (0, c') \<and> mem c' = mem c \<and> wel c' \<and> busy c' = busy c - 1" if "wel c"
    using status [of c] that by (auto simp: gd25qxx_wait_write_enable.simps)
  show "\<exists>c'. gd25qxx_wait_flash_ready bus c = Some (0, c') \<and> mem c' = mem c \<and> busy c' = 0"
  proof (induction "busy c" arbitrary: c)
    case 0
    with status [of c] show ?case by (auto simp: gd25qxx_wait_flash_ready.simps [of bus c])
  next
    case (Suc n)
    obtain sr c' where s: "tls_spi_write_then_read bus [0x05] 1 c = (0, [sr], c')" "mem c' = mem c" "busy c' = busy c - 1"
        "(sr AND 1 = 0) = (busy c = 0)"
      using status [of c] by (elim exE conjE) (rule that)
    with Suc.hyps(1) [of c'] Suc.hyps(2) show ?case
      by (simp add: gd25qxx_wait_flash_ready.simps [of bus c])
  qed
qed

lemma gd25_modify_ok:
  assumes chip: "nor_chip bus mem wel busy" and ready: "busy c = 0"
    and send: "\<And>c. busy c = 0 \<Longrightarrow> wel c \<Longrightarrow> \<exists>c'. send c = (0, c') \<and> mem c' = f (mem c)"
  shows "\<exists>c'. gd25_modify bus send c = Some (0, c') \<and> mem c' = f (mem c) \<and> busy c' = 0"
proof -
  obtain c1 where c1: "tls_spi_write bus [0x06] c = (0, c1)" "mem c1 = mem c" "wel c1" "busy c1 = 0"
    using nor_chip_enable [OF chip ready] by blast
  obtain c2 where c2: "gd25qxx_wait_write_enable bus c1 = Some (0, c2)" "mem c2 = mem c1" "wel c2" "busy c2 = 0"
    using gd25_waits(1) [OF chip c1(3)] c1(4) by auto
  obtain c3 where c3: "send c2 = (0, c3)" "mem c3 = f (mem c2)"
    using send [OF c2(4,3)] by blast
  obtain c4 where "gd25qxx_wait_flash_ready bus c3 = Some (0, c4)" "mem c4 = mem c3" "busy c4 = 0"
    using gd25_waits(2) [OF chip] by blast
  with c1 c2 c3 show ?thesis
    by (simp add: gd25_modify_def gd25qxx_write_enable_def)
qed

lemma gd25_driver:
  assumes chip: "nor_chip bus mem wel busy"
  shows "flash_driver (gd25qxx_fls bus) mem (\<lambda>c. busy c = 0)"
proof -
  have cmd: "gd25_cmd 3 a = 0x03 # addr24 a" "gd25_cmd 2 a = 0x02 # addr24 a" "gd25_cmd 0x20 a = 0x20 # addr24 a" for a
    using gd25_cmd_bytes [of 3 a] gd25_cmd_bytes [of 2 a] gd25_cmd_bytes [of "0x20" a] by simp_all
  have len: "length (mem c) = 0x100000" for c
    by (rule nor_chip_size [OF chip])
  have read: "\<exists>c'. gd25qxx_read bus a n c = Some (0, take (unat n) (drop (unat a) (mem c)), c') \<and> mem c' = mem c \<and> busy c' = 0"
    if h: "busy c = 0" "unat a + unat n \<le> 0x100000" for a n c
  proof -
    obtain c' where "tls_spi_write_then_read bus (0x03 # addr24 a) n c = (0, take (unat n) (drop (unat a) (mem c)), c')"
        "mem c' = mem c" "busy c' = 0"
      using nor_chip_read [OF chip h] by blast
    then show ?thesis by (simp add: gd25qxx_read_def cmd)
  qed
  have wrote: "\<exists>c'. gd25qxx_page_write bus p d c = Some (0, c')
      \<and> mem c' = overlay (256 * unat p) (map2 (AND) (take 256 (drop (256 * unat p) (mem c))) (take 256 d)) (mem c) \<and> busy c' = 0"
    if "busy c = 0" "unat p < 4096" "256 \<le> length d" for p d c
  proof -
    have p: "unat (p * 256) = 256 * unat p"
      using that by (subst unat_mult_lem [THEN iffD1]) simp_all
    have "\<exists>c'. tls_spi_write32_then_writen bus (gd25_cmd 2 (p * 256)) (take 256 d) c = (0, c')
        \<and> mem c' = overlay (256 * unat p) (map2 (AND) (take 256 (drop (256 * unat p) (mem c))) (take 256 d)) (mem c)"
      if "busy c = 0" "wel c" for c
      using nor_chip_program [OF chip that, of "p * 256" "take 256 d"] \<open>unat p < 4096\<close> \<open>256 \<le> length d\<close>
      by (simp add: p cmd)
    from gd25_modify_ok [OF chip that(1), of _ "\<lambda>m. overlay (256 * unat p) (map2 (AND) (take 256 (drop (256 * unat p) m)) (take 256 d)) m", OF this]
    show ?thesis
      using that(3) by (simp add: gd25qxx_page_write_def rd_def conj_commute)
  qed
  have erase: "\<exists>c'. gd25qxx_erase bus k c = Some (0, c')
      \<and> mem c' = overlay (4096 * unat k) (replicate 4096 0xFF) (mem c) \<and> busy c' = 0"
    if "busy c = 0" "unat k < 256" for k c
  proof -
    have k: "unat (k * 4096) = 4096 * unat k"
      using that by (subst unat_mult_lem [THEN iffD1]) simp_all
    have "\<exists>c'. tls_spi_write bus (gd25_cmd 0x20 (k * 4096)) c = (0, c')
        \<and> mem c' = overlay (4096 * unat k) (replicate 4096 0xFF) (mem c)"
      if "busy c = 0" "wel c" for c
      using nor_chip_erase [OF chip that, of "k * 4096"] \<open>unat k < 256\<close> by (simp add: k cmd)
    from gd25_modify_ok [OF chip that(1), of _ "\<lambda>m. overlay (4096 * unat k) (replicate 4096 0xFF) m", OF this]
    show ?thesis
      by (simp add: gd25qxx_erase_def conj_commute)
  qed
  show ?thesis
    unfolding flash_driver_def
    by (simp add: gd25qxx_fls_def len) (use read wrote erase in blast)
qed

section \<open>Pages and sectors\<close>

lemma map2_and_erased: "length d = n \<Longrightarrow> map2 (AND) (replicate n 0xFF) d = (d :: u8 list)"
proof (induction n arbitrary: d)
  case (Suc n)
  moreover have mask8: "(0xFF :: u8) = mask 8"
    by (simp add: mask_eq_exp_minus_1)
  have "0xFF AND x = x" for x :: u8
    unfolding mask8
    by (rule bit_word_eqI) (auto dest: bit_imp_le_length simp: bit_simps)
  ultimately show ?case by (cases d) auto
qed simp

text \<open>Programming erased pages leaves the data there.\<close>

lemma page_write_loop_erased:
  assumes drv: "flash_driver drv mem ready"
  shows "ready c \<Longrightarrow> unat p + unat i + k \<le> 4096 \<Longrightarrow> 256 * (unat i + k) \<le> length buf
    \<Longrightarrow> take (256 * k) (drop (256 * (unat p + unat i)) (mem c)) = replicate (256 * k) 0xFF
    \<Longrightarrow> \<exists>c'. page_write_loop k i drv p buf c = Some (0, c') \<and> ready c'
        \<and> mem c' = overlay (256 * (unat p + unat i)) (take (256 * k) (drop (256 * unat i) buf)) (mem c)"
proof (induction k arbitrary: i c)
  case (Suc k)
  define o1 where "o1 = 256 * (unat p + unat i)"
  have sizes: "length (mem c) = 0x100000" "page_size drv = 256"
    using drv by (simp_all add: flash_driver_def)
  have nums: "unat (p + i) = unat p + unat i" "unat (i * 256) = 256 * unat i" "unat (i + 1) = unat i + 1"
    using Suc.prems(2) by (simp_all add: unat_plus_if' unat_mult_lem [THEN iffD1])
  have FF: "take 256 (drop o1 (mem c)) = replicate 256 0xFF"
    "take (256 * k) (drop (o1 + 256) (mem c)) = replicate (256 * k) 0xFF"
  proof -
    have E: "take (256 + 256 * k) (drop o1 (mem c)) = replicate (256 + 256 * k) 0xFF"
      using Suc.prems(4) by (simp add: o1_def)
    show "take 256 (drop o1 (mem c)) = replicate 256 0xFF"
      using arg_cong [OF E, of "take 256"] by simp
    show "take (256 * k) (drop (o1 + 256) (mem c)) = replicate (256 * k) 0xFF"
      using arg_cong [OF E, of "drop 256"] by (simp add: drop_take add.commute)
  qed
  define d1 where "d1 = take 256 (drop (256 * unat i) buf)"
  have d1: "length d1 = 256"
    using Suc.prems(3) by (simp add: d1_def)
  have rest: "take (256 * Suc k) (drop (256 * unat i) buf) = d1 @ take (256 * k) (drop (256 * (unat i + 1)) buf)"
    by (simp add: d1_def take_add add.commute)
  obtain c1 where c1: "drv_page_write drv (p + i) (drop (256 * unat i) buf) c = Some (0, c1)" "ready c1"
      "mem c1 = overlay o1 (map2 (AND) (take 256 (drop o1 (mem c))) d1) (mem c)"
  proof -
    have "unat p + unat i < 4096" "256 \<le> length (drop (256 * unat i) buf)"
      using Suc.prems(2,3) by auto
    with flash_driver_write [OF drv Suc.prems(1), of "p + i" "drop (256 * unat i) buf"] that show ?thesis
      unfolding nums d1_def o1_def by blast
  qed
  have mem1: "mem c1 = overlay o1 d1 (mem c)"
    unfolding c1(3) FF(1) using map2_and_erased [OF d1] by simp
  have "o1 + 256 \<le> length (mem c)"
    using Suc.prems(2) by (simp add: o1_def sizes)
  then have "take (256 * k) (drop (o1 + 256) (mem c1)) = replicate (256 * k) 0xFF"
    unfolding mem1 using FF(2) by (simp add: overlay_elsewhere d1)
  moreover have o2: "256 * (unat p + unat (i + 1)) = o1 + 256"
    by (simp add: o1_def nums)
  ultimately obtain c2 where c2: "page_write_loop k (i + 1) drv p buf c1 = Some (0, c2)" "ready c2"
      "mem c2 = overlay (o1 + 256) (take (256 * k) (drop (256 * unat (i + 1)) buf)) (mem c1)"
  proof -
    assume *: "take (256 * k) (drop (o1 + 256) (mem c1)) = replicate (256 * k) 0xFF"
    have "unat p + unat (i + 1) + k \<le> 4096" "256 * (unat (i + 1) + k) \<le> length buf"
      using Suc.prems(2,3) by (simp_all add: nums)
    from Suc.IH [OF c1(2) this, unfolded o2, OF *] that show ?thesis by blast
  qed
  have "mem c2 = overlay o1 (d1 @ take (256 * k) (drop (256 * (unat i + 1)) buf)) (mem c)"
    unfolding c2(3) mem1 nums(3)
    using overlay_append [of o1 d1 "take (256 * k) (drop (256 * (unat i + 1)) buf)" "mem c"] Suc.prems(2,3)
    by (simp add: d1 sizes o1_def)
  then show ?case
    using c1(1) c2(1,2) unfolding rest by (simp add: o1_def sizes nums)
qed simp

text \<open>The layer over an installed driver.\<close>

definition installed :: "'c tls_fls_drv \<Rightarrow> 'c flash \<Rightarrow> bool" where
  "installed drv s \<longleftrightarrow> fls_drv s = Inr drv"

lemma installed_chip [simp]: "installed drv (s\<lparr>chip := c\<rparr>) = installed drv s"
  by (simp add: installed_def fls_drv_def)

lemma tls_fls_page_write_sector:
  assumes drv: "flash_driver drv mem ready" and inst: "installed drv s" and ready: "ready (chip s)"
    and k: "unat k < 256" and cache: "length cache = 4096"
    and erased: "take 4096 (drop (4096 * unat k) (mem (chip s))) = replicate 4096 0xFF"
  shows "\<exists>c'. tls_fls_page_write (k * 16) cache 16 s = Some (0, s\<lparr>chip := c'\<rparr>) \<and> ready c'
      \<and> mem c' = overlay (4096 * unat k) cache (mem (chip s))"
proof -
  have page: "unat (k * 16) = 16 * unat k" "k * 16 < 4096" "\<not> k * 16 + 16 > 4096"
    using k by (simp_all add: word_less_nat_alt unat_plus_if' unat_mult_lem [THEN iffD1])
  obtain c' where "page_write_loop 16 0 drv (k * 16) cache (chip s) = Some (0, c')" "ready c'"
      "mem c' = overlay (4096 * unat k) cache (mem (chip s))"
    using page_write_loop_erased [OF drv ready, of "k * 16" 0 16 cache] k cache erased by (auto simp: page)
  moreover have "total_size drv = 0x100000" "page_size drv = 256"
    using drv by (simp_all add: flash_driver_def)
  ultimately show ?thesis
    using inst page(2,3) by (intro exI [of _ c']) (simp add: tls_fls_page_write_def installed_def linorder_not_le)
qed

declare write_sectors.simps(2) [simp del]

text \<open>One turn of the loop over the sectors rewrites one sector.\<close>

lemma write_sectors_step:
  assumes drv: "flash_driver drv mem ready" and inst: "installed drv s" and ready: "ready (chip s)"
    and k: "unat (sa + i) < 256" and cache: "length cache = 4096"
    and piece: "(if i = 0 \<and> i \<noteq> num - 1 then (addr mod 4096, 4096 - addr mod 4096)
        else if i = num - 1 then (addr mod 4096, wb) else (0, 4096)) = (off, n)"
    and fits: "unat off + unat n \<le> 4096" "unat n \<le> length buf"
  shows "\<exists>c' cache'. write_sectors (Suc t) i drv addr sa num buf wb cache s
       = write_sectors t (i + 1) drv addr sa num (drop (unat n) buf) (wb - n) cache' (s\<lparr>chip := c'\<rparr>)
    \<and> ready c' \<and> length cache' = 4096
    \<and> mem c' = overlay (4096 * unat (sa + i) + unat off) (take (unat n) buf) (mem (chip s))"
proof -
  define base where "base = 4096 * unat (sa + i)"
  have sizes: "\<And>c. length (mem c) = 0x100000" "sector_size drv = 4096" "page_size drv = 256"
    using drv by (simp_all add: flash_driver_def)
  have base: "unat ((sa + i) * 4096) = base" "base + 4096 \<le> 0x100000"
    using k unat_mult_lem [of "sa + i" 4096] by (simp_all add: base_def)
  define old where "old = take 4096 (drop base (mem (chip s)))"
  have old: "length old = 4096"
    using base by (simp add: old_def sizes)
  obtain c1 where c1: "drv_read drv ((sa + i) * 4096) 4096 (chip s) = Some (0, old, c1)" "mem c1 = mem (chip s)" "ready c1"
    using flash_driver_read [OF drv ready, of "(sa + i) * 4096" 4096] base unfolding old_def by auto
  define new where "new = overlay (unat off) (take (unat n) buf) old"
  have new: "length new = 4096" "wr old (unat off) (take (unat n) buf) = Some new"
    using fits old by (simp_all add: new_def wr_overlay)
  obtain c2 where c2: "drv_erase drv (sa + i) c1 = Some (0, c2)" "ready c2"
      "mem c2 = overlay base (replicate 4096 0xFF) (mem c1)"
    using flash_driver_erase [OF drv c1(3) k] unfolding base_def by blast
  have "take 4096 (drop base (mem c2)) = replicate 4096 0xFF"
    unfolding c2(3) using overlay_read [of base "replicate 4096 0xFF" "mem c1"] base by (simp add: sizes)
  with tls_fls_page_write_sector [OF drv, of "s\<lparr>chip := c2\<rparr>" "sa + i" new] obtain c3 where
      c3: "tls_fls_page_write ((sa + i) * 16) new 16 (s\<lparr>chip := c2\<rparr>) = Some (0, s\<lparr>chip := c3\<rparr>)" "ready c3"
      "mem c3 = overlay base new (mem c2)"
    using inst c2(2) k new(1) unfolding base_def by auto
  have "mem c3 = overlay (base + unat off) (take (unat n) buf) (mem (chip s))"
    unfolding c3(3) c2(3) c1(2) using base fits old new(1)
    by (simp add: overlay_same sizes new_def old_def overlay_window)
  moreover have "write_sectors (Suc t) i drv addr sa num buf wb cache s
       = write_sectors t (i + 1) drv addr sa num (drop (unat n) buf) (wb - n) new (s\<lparr>chip := c3\<rparr>)"
    using c1(1) c2(1) c3(1) new(2) cache old fits piece
    by (simp add: write_sectors.simps(2) sizes Let_def wr_prefix rd_def)
  ultimately show ?thesis
    using c3(2) new(1) unfolding base_def by blast
qed


text \<open>A piece that does not fit behind its offset is written past the cache.\<close>

lemma write_sectors_overflow:
  assumes drv: "flash_driver drv mem ready" and ready: "ready (chip s)"
    and k: "unat (sa + i) < 256" and cache: "length cache = 4096"
    and piece: "i \<noteq> 0" "i = num - 1" and beyond: "4096 < unat (addr mod 4096) + unat wb"
  shows "write_sectors (Suc t) i drv addr sa num buf wb cache s = None"
proof -
  note sizes = flash_driver_sizes [OF drv]
  have base: "unat ((sa + i) * 4096) + unat (4096 :: u32) \<le> 0x100000"
    using k unat_mult_lem [of "sa + i" 4096] by simp
  obtain c1 where c1: "drv_read drv ((sa + i) * 4096) 4096 (chip s)
      = Some (0, take 4096 (drop (unat ((sa + i) * 4096)) (mem (chip s))), c1)"
    using flash_driver_read [OF drv ready base] by auto
  have "length (take 4096 (drop (unat ((sa + i) * 4096)) (mem (chip s)))) = 4096"
    using base by (simp add: sizes(4))
  with c1 piece cache beyond show ?thesis
    by (simp add: write_sectors.simps(2) sizes Let_def wr_prefix rd_def wr_def [of _ "unat (addr mod 4096)"] split: bind_splits)
qed

section \<open>Writing and reading back\<close>

lemma write_sectors_aligned:
  assumes drv: "flash_driver drv mem ready" and aligned: "addr mod 4096 = 0"
  shows "installed drv s \<Longrightarrow> ready (chip s) \<Longrightarrow> unat sa + unat i + Suc k \<le> 256 \<Longrightarrow> unat num = unat i + Suc k
    \<Longrightarrow> length cache = 4096 \<Longrightarrow> 4096 * k < unat wb \<Longrightarrow> unat wb \<le> 4096 * Suc k \<Longrightarrow> unat wb \<le> length buf
    \<Longrightarrow> \<exists>c'. write_sectors (Suc k) i drv addr sa num buf wb cache s = Some (0, s\<lparr>chip := c'\<rparr>) \<and> ready c'
        \<and> mem c' = overlay (4096 * (unat sa + unat i)) (take (unat wb) buf) (mem (chip s))"
proof (induction k arbitrary: i s buf wb cache)
  case 0
  have n: "unat (num - 1) = unat num - 1"
    using 0(4) unat_sub [of 1 num] by (simp add: word_le_nat_alt)
  have nums: "unat (sa + i) = unat sa + unat i" "num - 1 = i"
    using 0(3,4) n by (auto simp: word_unat_eq_iff intro!: unat_add_small)
  have "unat (sa + i) < 256" "(if i = 0 \<and> i \<noteq> num - 1 then (addr mod 4096, 4096 - addr mod 4096)
      else if i = num - 1 then (addr mod 4096, wb) else (0, 4096)) = (0, wb)" "unat (0 :: u32) + unat wb \<le> 4096"
    using 0 by (simp_all add: nums aligned)
  from write_sectors_step [OF drv 0(1,2) this(1) 0(5) this(2,3) 0(8), of 0] obtain c1 where
      "write_sectors (Suc 0) i drv addr sa num buf wb cache s = Some (0, s\<lparr>chip := c1\<rparr>)" "ready c1"
      "mem c1 = overlay (4096 * (unat sa + unat i)) (take (unat wb) buf) (mem (chip s))"
    unfolding nums(1) by auto
  then show ?case by blast
next
  case (Suc k)
  have nums: "unat (sa + i) = unat sa + unat i" "unat (i + 1) = unat i + 1" "num - 1 \<noteq> i"
    "unat (wb - 4096) = unat wb - 4096"
  proof -
    show "unat (sa + i) = unat sa + unat i" "unat (i + 1) = unat i + 1"
      using Suc.prems(3) by (simp_all add: unat_add_small)
    have "unat (num - 1) = unat num - 1"
      using Suc.prems(4) unat_sub [of 1 num] by (simp add: word_le_nat_alt)
    then show "num - 1 \<noteq> i"
      using Suc.prems(4) by auto
    show "unat (wb - 4096) = unat wb - 4096"
      using Suc.prems(6) by (simp add: unat_sub word_le_nat_alt)
  qed
  have len: "length (mem c) = 0x100000" for c
    by (rule flash_driver_sizes [OF drv])
  have "unat (sa + i) < 256" "(if i = 0 \<and> i \<noteq> num - 1 then (addr mod 4096, 4096 - addr mod 4096)
      else if i = num - 1 then (addr mod 4096, wb) else (0, 4096)) = (0, 4096)" "unat (0 :: u32) + unat (4096 :: u32) \<le> 4096"
    "unat (4096 :: u32) \<le> length buf"
    using Suc.prems nums(3) [symmetric] by (auto simp: nums(1,2,4) aligned)
  from write_sectors_step [OF drv Suc.prems(1,2) this(1) Suc.prems(5) this(2-4), of "Suc k"] obtain c1 cache1 where
      c1: "write_sectors (Suc (Suc k)) i drv addr sa num buf wb cache s
         = write_sectors (Suc k) (i + 1) drv addr sa num (drop 4096 buf) (wb - 4096) cache1 (s\<lparr>chip := c1\<rparr>)"
      "ready c1" "length cache1 = 4096" "mem c1 = overlay (4096 * (unat sa + unat i)) (take 4096 buf) (mem (chip s))"
    unfolding nums(1) by auto
  have "installed drv (s\<lparr>chip := c1\<rparr>)" "ready (chip (s\<lparr>chip := c1\<rparr>))" "unat sa + unat (i + 1) + Suc k \<le> 256"
    "unat num = unat (i + 1) + Suc k" "4096 * k < unat (wb - 4096)" "unat (wb - 4096) \<le> 4096 * Suc k"
    "unat (wb - 4096) \<le> length (drop 4096 buf)"
    using Suc.prems c1(2) by (simp_all add: nums)
  from Suc.IH [OF this(1-4) c1(3) this(5-7)] obtain c2 where
      c2: "write_sectors (Suc k) (i + 1) drv addr sa num (drop 4096 buf) (wb - 4096) cache1 (s\<lparr>chip := c1\<rparr>)
        = Some (0, s\<lparr>chip := c2\<rparr>)" "ready c2"
      "mem c2 = overlay (4096 * (unat sa + unat (i + 1))) (take (unat wb - 4096) (drop 4096 buf)) (mem c1)"
    by (auto simp: nums)
  have piece: "take 4096 buf @ take (unat wb - 4096) (drop 4096 buf) = take (unat wb) buf"
    using Suc.prems(6) take_add [of 4096 "unat wb - 4096" buf] by simp
  have "mem c2 = overlay (4096 * (unat sa + unat i)) (take (unat wb) buf) (mem (chip s))"
  proof -
    have "4096 * (unat sa + unat (i + 1)) = 4096 * (unat sa + unat i) + length (take 4096 buf)"
      using Suc.prems(6,8) by (simp add: nums)
    moreover have "4096 * (unat sa + unat i) + length (take 4096 buf) + length (take (unat wb - 4096) (drop 4096 buf)) \<le> length (mem (chip s))"
      using Suc.prems(3,6-8) by (simp add: len)
    ultimately show ?thesis
      unfolding c2(3) c1(4) piece [symmetric] by (simp only: overlay_append)
  qed
  then show ?case
    unfolding c1(1) using c2(1,2) by blast
qed

text \<open>The bounds of a write inside the chip, in the words of the code.\<close>

lemma tls_fls_write_loop:
  assumes drv: "flash_driver drv mem ready" and inst: "installed drv s"
    and fits: "unat addr + unat len \<le> 0x100000" "0 < len"
  shows "tls_fls_write (Some cache) addr buf len s
    = write_sectors (unat ((addr + len - 1) div 4096 - addr div 4096 + 1)) 0 drv addr (addr div 4096)
        ((addr + len - 1) div 4096 - addr div 4096 + 1) buf len cache s"
proof -
  have "\<not> 0x100000 \<le> addr" "\<not> 0x100000 < addr + len" "len \<noteq> 0"
    using fits unat_gt_0 [of len] by (auto simp: word_less_nat_alt word_le_nat_alt unat_plus_if' word_gt_0)
  then show ?thesis
    using inst flash_driver_sizes(1-3) [OF drv]
    by (simp add: tls_fls_write_def installed_def Let_def del: linorder_not_less linorder_not_le)
qed

lemma sector_count:
  fixes addr len :: u32
  assumes "unat addr + unat len \<le> 0x100000" "0 < unat len"
  shows "unat ((addr + len - 1) div 4096 - addr div 4096 + 1) = (unat addr + unat len - 1) div 4096 - unat addr div 4096 + 1"
proof -
  define a where "a = unat addr div 4096"
  define b where "b = (unat addr + unat len - 1) div 4096"
  have sum: "unat (addr + len) = unat addr + unat len"
    using assms(1) by (intro unat_add_small) simp
  have "1 \<le> addr + len"
    using assms(2) by (simp add: word_le_nat_alt sum)
  then have "unat (addr + len - 1) = unat addr + unat len - 1"
    by (simp add: unat_sub sum)
  then have ab: "unat ((addr + len - 1) div 4096) = b" "unat (addr div 4096) = a"
    by (simp_all add: unat_div a_def b_def)
  have le: "a \<le> b"
    using assms(2) unfolding a_def b_def by (intro div_le_mono) simp
  have "b < 256"
    using assms unfolding b_def by (simp add: div_less_iff_less_mult)
  then have "unat ((addr + len - 1) div 4096 - addr div 4096 + 1) = b - a + 1"
    using le by (simp add: unat_plus_if' unat_sub word_le_nat_alt ab)
  then show ?thesis by (simp add: a_def b_def)
qed

text \<open>A write inside one sector, and a write that starts at the start of a sector.\<close>

lemma tls_fls_write_ok:
  assumes drv: "flash_driver drv mem ready" and inst: "installed drv s" and ready: "ready (chip s)"
    and fits: "unat addr + unat len \<le> 0x100000" "0 < len" "unat len \<le> length buf" and cache: "length cache = 4096"
    and place: "unat addr mod 4096 = 0 \<or> unat addr mod 4096 + unat len \<le> 4096"
  shows "\<exists>c'. tls_fls_write (Some cache) addr buf len s = Some (0, s\<lparr>chip := c'\<rparr>) \<and> ready c'
      \<and> mem c' = overlay (unat addr) (take (unat len) buf) (mem (chip s))"
proof -
  define num where "num = (addr + len - 1) div 4096 - addr div 4096 + 1"
  have len: "0 < unat len"
    using fits(2) by (simp add: word_gt_0 unat_gt_0)
  have num: "unat num = (unat addr + unat len - 1) div 4096 - unat addr div 4096 + 1"
    unfolding num_def by (rule sector_count [OF fits(1) len])
  have wrote: "tls_fls_write (Some cache) addr buf len s
      = write_sectors (unat num) 0 drv addr (addr div 4096) num buf len cache s"
    unfolding num_def by (rule tls_fls_write_loop [OF drv inst fits(1,2)])
  show ?thesis
  proof (cases "unat addr mod 4096 = 0")
    case True
    define k where "k = (unat len - 1) div 4096"
    have "unat addr = 4096 * (unat addr div 4096)"
      using True by (metis add.right_neutral mult_div_mod_eq)
    then have addr: "unat addr = 4096 * unat (addr div 4096)" "addr mod 4096 = 0"
      using True by (simp_all add: unat_div unat_mod word_unat_eq_iff)
    have k: "unat num = Suc k" "4096 * k < unat len" "unat len \<le> 4096 * Suc k"
    proof -
      have "(unat addr + unat len - 1) div 4096 = unat (addr div 4096) + k"
        unfolding k_def using len by (subst addr(1)) (simp add: Nat.add_diff_assoc del: unat_div)
      then show "unat num = Suc k"
        unfolding num by (subst (2) addr(1)) (simp del: unat_div)
      show "4096 * k < unat len" "unat len \<le> 4096 * Suc k"
        using len by (simp_all add: k_def)
    qed
    have "unat (addr div 4096) + unat (0 :: u32) + Suc k \<le> 256"
      using fits(1) k(2) addr(1) by simp
    from write_sectors_aligned [OF drv addr(2) inst ready this _ cache k(2,3) fits(3)] k(1) addr(1) show ?thesis
      unfolding wrote by simp
  next
    case False
    with place have one: "unat addr mod 4096 + unat len \<le> 4096" by simp
    define q r where "q = unat addr div 4096" and "r = unat addr mod 4096"
    have "unat addr = 4096 * q + r"
      by (simp add: q_def r_def)
    then have "(unat addr + unat len - 1) div 4096 = q"
      using one len unfolding r_def [symmetric] by (intro div_nat_eqI) simp_all
    then have "(unat addr + unat len - 1) div 4096 = unat addr div 4096"
      by (simp add: q_def)
    then have n1: "num = 1"
      using num by (simp add: word_unat_eq_iff)
    have "unat (addr div 4096 + 0) < 256"
      using fits(1) len by (simp add: unat_div div_less_iff_less_mult)
    moreover have "unat (addr mod 4096) + unat len \<le> 4096"
      using one by (simp add: unat_mod)
    ultimately obtain c' cache' where "write_sectors (Suc 0) 0 drv addr (addr div 4096) 1 buf len cache s
         = write_sectors 0 (0 + 1) drv addr (addr div 4096) 1 (drop (unat len) buf) (len - len) cache' (s\<lparr>chip := c'\<rparr>)"
      "ready c'" "mem c' = overlay (4096 * unat (addr div 4096 + 0) + unat (addr mod 4096)) (take (unat len) buf) (mem (chip s))"
      using write_sectors_step [OF drv inst ready _ cache, of "addr div 4096" 0 1 addr len "addr mod 4096" len buf 0] fits(3)
      by auto
    then show ?thesis
      unfolding wrote n1 by (intro exI [of _ c']) (simp add: unat_div unat_mod)
  qed
qed

lemma tls_fls_read_ok:
  assumes drv: "flash_driver drv mem ready" and inst: "installed drv s" and ready: "ready (chip s)"
    and fits: "unat addr + unat len \<le> 0x100000" "0 < len" "unat len \<le> length buf"
  shows "\<exists>c'. tls_fls_read addr buf len s
      = Some (0, take (unat len) (drop (unat addr) (mem (chip s))) @ drop (unat len) buf, s\<lparr>chip := c'\<rparr>)
      \<and> ready c' \<and> mem c' = mem (chip s)"
proof -
  obtain c' where c': "drv_read drv addr len (chip s) = Some (0, take (unat len) (drop (unat addr) (mem (chip s))), c')"
      "mem c' = mem (chip s)" "ready c'"
    using flash_driver_read [OF drv ready fits(1)] by blast
  have "\<not> 0x100000 \<le> addr" "\<not> 0x100000 < addr + len" "len \<noteq> 0"
    using fits unat_gt_0 [of len] by (auto simp: word_less_nat_alt word_le_nat_alt unat_plus_if' word_gt_0)
  moreover have "length (take (unat len) (drop (unat addr) (mem (chip s)))) = unat len"
    using fits(1) flash_driver_sizes(4) [OF drv, of "chip s"] by simp
  then have "wr buf 0 (take (unat len) (drop (unat addr) (mem (chip s))))
      = Some (take (unat len) (drop (unat addr) (mem (chip s))) @ drop (unat len) buf)"
    using wr_prefix fits(3) by metis
  ultimately show ?thesis
    using inst flash_driver_sizes(1) [OF drv] c'
    by (intro exI [of _ c']) (simp add: tls_fls_read_def installed_def del: linorder_not_less linorder_not_le)
qed

text \<open>
  A write that starts inside a sector and ends in the next one: the code puts the second piece at the offset of
  the first, \<open>addr mod 4096\<close>, not at the start of the sector, and when the piece does not fit behind that offset
  it writes past the cache.
\<close>

lemma tls_fls_write_across:
  assumes drv: "flash_driver drv mem ready" and inst: "installed drv s" and ready: "ready (chip s)"
    and fits: "unat addr + unat len \<le> 0x100000" "unat len \<le> length buf" and cache: "length cache = 4096"
    and o: "unat addr mod 4096 = off" "0 < off" "4096 < off + unat len" "off + unat len \<le> 8192"
  shows "off + (off + unat len - 4096) \<le> 4096 \<Longrightarrow>
      \<exists>c'. tls_fls_write (Some cache) addr buf len s = Some (0, s\<lparr>chip := c'\<rparr>)
      \<and> mem c' = overlay (unat addr + 4096) (drop (4096 - off) (take (unat len) buf))
                  (overlay (unat addr) (take (4096 - off) buf) (mem (chip s)))"
    "4096 < off + (off + unat len - 4096) \<Longrightarrow> tls_fls_write (Some cache) addr buf len s = None"
proof -
  define a where "a = unat addr div 4096"
  have addr: "unat addr = 4096 * a + off"
    unfolding a_def o(1) [symmetric] by simp
  have len: "0 < unat len" "len \<noteq> 0" "0 < len"
    using o unat_gt_0 [of len] by (auto simp: word_gt_0)
  have "(unat addr + unat len - 1) div 4096 = a + 1"
    using o addr by (simp add: div_nat_eqI)
  with sector_count [OF fits(1) len(1)] have "unat ((addr + len - 1) div 4096 - addr div 4096 + 1) = 2"
    by (simp add: a_def)
  then have num: "(addr + len - 1) div 4096 - addr div 4096 + 1 = 2"
    by (simp add: word_unat_eq_iff)
  have wrote: "tls_fls_write (Some cache) addr buf len s
      = write_sectors (Suc (Suc 0)) 0 drv addr (addr div 4096) 2 buf len cache s"
  proof -
    have "unat (2 :: u32) = Suc (Suc 0)" by simp
    then show ?thesis
      using tls_fls_write_loop [OF drv inst fits(1) len(3), of cache buf] unfolding num by (simp only:)
  qed
  have words: "unat (addr div 4096) = a" "unat (addr mod 4096) = off" "a + 1 < 256"
  proof -
    show "unat (addr div 4096) = a"
      by (simp add: unat_div a_def)
    show "unat (addr mod 4096) = off"
      using o(1) by (simp add: unat_mod)
    show "a + 1 < 256"
      using fits(1) addr o(2-4) by linarith
  qed
  have next_sector: "unat (addr div 4096 + 1) = a + 1"
    using words by (simp add: unat_add_small)
  have rest: "unat (4096 - addr mod 4096) = 4096 - off"
    using o(1) words(2) by (subst unat_sub) (auto simp: word_le_nat_alt)
  have wb: "unat (len - (4096 - addr mod 4096)) = off + unat len - 4096"
    using o(3) unfolding o(1) [symmetric] words(2) [symmetric]
    by (subst unat_sub) (use rest words(2) unat_mod [of addr 4096] in \<open>auto simp: word_le_nat_alt\<close>)
  obtain c1 cache1 where c1: "tls_fls_write (Some cache) addr buf len s
      = write_sectors (Suc 0) 1 drv addr (addr div 4096) 2 (drop (4096 - off) buf) (len - (4096 - addr mod 4096)) cache1
          (s\<lparr>chip := c1\<rparr>)"
      "ready c1" "length cache1 = 4096" "mem c1 = overlay (unat addr) (take (4096 - off) buf) (mem (chip s))"
  proof -
    have k: "unat (addr div 4096 + 0) < 256"
      using words by simp
    have "off \<le> 4096" "4096 - off \<le> length buf"
      using o fits(2) by auto
    then have "unat (addr mod 4096) + unat (4096 - addr mod 4096) \<le> 4096" "unat (4096 - addr mod 4096) \<le> length buf"
      by (simp_all only: rest words(2))
    then show ?thesis
      using write_sectors_step [OF drv inst ready k cache _, of 2 addr len "addr mod 4096" "4096 - addr mod 4096" buf "Suc 0"] that
      unfolding wrote rest by (simp add: addr words) blast
  qed
  show "\<exists>c'. tls_fls_write (Some cache) addr buf len s = Some (0, s\<lparr>chip := c'\<rparr>)
      \<and> mem c' = overlay (unat addr + 4096) (drop (4096 - off) (take (unat len) buf))
                  (overlay (unat addr) (take (4096 - off) buf) (mem (chip s)))"
    if "off + (off + unat len - 4096) \<le> 4096"
  proof -
    have "take (off + unat len - 4096) (drop (4096 - off) buf) = drop (4096 - off) (take (unat len) buf)"
      using o by (simp add: drop_take add.commute)
    moreover have "unat (addr div 4096 + 1) < 256"
      "unat (addr mod 4096) + unat (len - (4096 - addr mod 4096)) \<le> 4096"
      "unat (len - (4096 - addr mod 4096)) \<le> length (drop (4096 - off) buf)"
      using words(3) that fits(2) o by (simp_all only: next_sector words(2) wb length_drop)
    moreover have "(if 1 = (0 :: u32) \<and> 1 \<noteq> (2 :: u32) - 1 then (addr mod 4096, 4096 - addr mod 4096)
        else if 1 = (2 :: u32) - 1 then (addr mod 4096, len - (4096 - addr mod 4096)) else (0, 4096))
        = (addr mod 4096, len - (4096 - addr mod 4096))"
      by simp
    ultimately obtain c2 where "write_sectors (Suc 0) 1 drv addr (addr div 4096) 2 (drop (4096 - off) buf)
          (len - (4096 - addr mod 4096)) cache1 (s\<lparr>chip := c1\<rparr>) = Some (0, s\<lparr>chip := c2\<rparr>)"
        "mem c2 = overlay (4096 * (a + 1) + off) (drop (4096 - off) (take (unat len) buf)) (mem c1)"
      using write_sectors_step [OF drv, of "s\<lparr>chip := c1\<rparr>" "addr div 4096" 1 cache1 2 addr "len - (4096 - addr mod 4096)"
        "addr mod 4096" "len - (4096 - addr mod 4096)" "drop (4096 - off) buf" 0] inst c1(2,3)
      unfolding next_sector words(2) wb by auto
    then show ?thesis
      unfolding c1(1,4) by (intro exI [of _ c2]) (simp add: addr ac_simps)
  qed
  show "tls_fls_write (Some cache) addr buf len s = None" if "4096 < off + (off + unat len - 4096)"
    unfolding c1(1) using that words next_sector
    by (intro write_sectors_overflow [OF drv]) (simp_all add: c1(2,3) wb)
qed

section \<open>A chip\<close>

text \<open>A NOR flash in the sense of \<open>nor_chip\<close>: cells, write enable latch, the polls for which it stays busy.\<close>

record nor =
  nor_cells :: "nat \<Rightarrow> u8"
  nor_wel :: bool
  nor_busy :: nat

definition nor_mem :: "nor \<Rightarrow> u8 list" where
  "nor_mem c = map (nor_cells c) [0..<0x100000]"

definition nor_addr :: "u8 list \<Rightarrow> nat" where
  "nor_addr w = unat (w ! 1) * 65536 + unat (w ! 2) * 256 + unat (w ! 3)"

definition nor_status :: "nor \<Rightarrow> u8" where
  "nor_status c = (if nor_wel c then 2 else 0) OR (if nor_busy c = 0 then 0 else 1)"

definition nor_bus :: "nor spi_bus" where
  "nor_bus = \<lparr>
     tls_spi_write = (\<lambda>w c.
       (0, if w = [0x06] then c\<lparr>nor_wel := True\<rparr>
           else if w ! 0 = 0x20 \<and> nor_wel c then
             c\<lparr>nor_cells := (\<lambda>i. if nor_addr w \<le> i \<and> i < nor_addr w + 4096 then 0xFF else nor_cells c i), nor_wel := False, nor_busy := 3\<rparr>
           else c)),
     tls_spi_write_then_read = (\<lambda>w n c.
       if w = [0x05] then (0, [nor_status c], c\<lparr>nor_busy := nor_busy c - 1\<rparr>)
       else (0, map (nor_cells c) [nor_addr w..<nor_addr w + unat n], c)),
     tls_spi_write32_then_writen = (\<lambda>w d c.
       (0, if nor_wel c then
             c\<lparr>nor_cells := (\<lambda>i. if nor_addr w \<le> i \<and> i < nor_addr w + length d then nor_cells c i AND d ! (i - nor_addr w) else nor_cells c i),
               nor_wel := False, nor_busy := 2\<rparr>
           else c))\<rparr>"

lemma nor_addr_addr24:
  assumes "unat a < 0x1000000"
  shows "nor_addr (x # addr24 a) = unat a"
proof -
  have "unat (ucast (drop_bit 16 a) :: u8) = unat a div 65536 mod 256" "unat (ucast (drop_bit 8 a) :: u8) = unat a div 256 mod 256"
    "unat (ucast a :: u8) = unat a mod 256"
    by (simp_all add: unsigned_ucast_eq drop_bit_eq_div take_bit_eq_mod unat_div)
  moreover have "unat a div 65536 mod 256 = unat a div 65536"
    using assms by (simp add: div_less_iff_less_mult)
  moreover have "unat a div 65536 * 65536 + unat a div 256 mod 256 * 256 + unat a mod 256 = unat a"
  proof -
    define q where "q = unat a div 256"
    have "unat a div 65536 = q div 256"
      using div_mult2_eq [of "unat a" 256 256] by (simp add: q_def)
    moreover have "q = q div 256 * 256 + q mod 256" "unat a = q * 256 + unat a mod 256"
      unfolding q_def by (rule div_mult_mod_eq [symmetric])+
    ultimately show ?thesis
      unfolding q_def [symmetric] by linarith
  qed
  ultimately show ?thesis
    by (simp add: nor_addr_def addr24_def)
qed

lemma nor_status_bits: "nor_status c AND 2 \<noteq> 0 \<longleftrightarrow> nor_wel c" "nor_status c AND 1 = 0 \<longleftrightarrow> nor_busy c = 0"
  by (simp_all add: nor_status_def)

lemma map_overlay:
  assumes "a + n \<le> N" "length d = n" "\<And>i. i < n \<Longrightarrow> g (a + i) = d ! i" "\<And>i. i < a \<or> a + n \<le> i \<Longrightarrow> g i = f i"
  shows "map g [0..<N] = overlay a d (map f [0..<N])"
proof (rule nth_equalityI)
  show "length (map g [0..<N]) = length (overlay a d (map f [0..<N]))"
    using assms by simp
  fix i assume "i < length (map g [0..<N])"
  then have i: "i < N" by simp
  consider "i < a" | "a \<le> i" "i < a + n" | "a + n \<le> i" by linarith
  then show "map g [0..<N] ! i = overlay a d (map f [0..<N]) ! i"
  proof cases
    case 2
    then show ?thesis
      using assms(1,2) assms(3) [of "i - a"] i by (auto simp: overlay_def nth_append)
  qed (use assms i in \<open>auto simp: overlay_def nth_append\<close>)
qed

lemma block_end: "a mod n = 0 \<Longrightarrow> a < n * m \<Longrightarrow> a + n \<le> n * (m :: nat)"
proof -
  assume h: "a mod n = 0" "a < n * m"
  then obtain q where q: "a = n * q"
    by (auto elim: dvdE simp: mod_eq_0_iff_dvd)
  with h have "n * Suc q \<le> n * m"
    by (intro mult_le_mono2) simp
  with q show ?thesis by simp
qed

lemma nor_bus_chip: "nor_chip nor_bus nor_mem nor_wel nor_busy"
  unfolding nor_chip_def
proof (intro conjI allI impI)
  fix c :: nor and a n :: u32
  assume "unat a + unat n \<le> 0x100000"
  then show "\<exists>c'. tls_spi_write_then_read nor_bus (0x03 # addr24 a) n c
      = (0, take (unat n) (drop (unat a) (nor_mem c)), c') \<and> nor_mem c' = nor_mem c \<and> nor_busy c' = 0"
    if "nor_busy c = 0"
    using that by (simp add: nor_bus_def nor_addr_addr24 nor_mem_def drop_map take_map)
next
  fix c :: nor show "\<exists>c'. tls_spi_write nor_bus [0x06] c = (0, c') \<and> nor_mem c' = nor_mem c \<and> nor_wel c' \<and> nor_busy c' = 0"
    if "nor_busy c = 0"
    using that by (simp add: nor_bus_def nor_mem_def)
next
  fix c :: nor show "\<exists>sr c'. tls_spi_write_then_read nor_bus [0x05] 1 c = (0, [sr], c') \<and> nor_mem c' = nor_mem c \<and> nor_wel c' = nor_wel c
        \<and> nor_busy c' = nor_busy c - 1 \<and> (sr AND 2 \<noteq> 0 \<longleftrightarrow> nor_wel c) \<and> (sr AND 1 = 0 \<longleftrightarrow> nor_busy c = 0)"
    by (simp add: nor_bus_def nor_mem_def nor_status_bits)
next
  fix c :: nor and a :: u32 and d :: "u8 list"
  assume h: "nor_wel c" "unat a mod 256 = 0" "unat a < 0x100000" "length d = 256"
  have "unat a + 256 \<le> 0x100000"
    using block_end [of "unat a" 256 4096] h(2,3) by simp
  then have "map (\<lambda>i. if unat a \<le> i \<and> i < unat a + 256 then nor_cells c i AND d ! (i - unat a) else nor_cells c i) [0..<0x100000]
      = overlay (unat a) (map2 (AND) (take 256 (drop (unat a) (nor_mem c))) d) (map (nor_cells c) [0..<0x100000])"
    using h(4) by (intro map_overlay [where n = 256]) (auto simp: nor_mem_def)
  then show "\<exists>c'. tls_spi_write32_then_writen nor_bus (0x02 # addr24 a) d c = (0, c')
          \<and> nor_mem c' = overlay (unat a) (map2 (AND) (take 256 (drop (unat a) (nor_mem c))) d) (nor_mem c)"
    using h by (simp add: nor_bus_def nor_addr_addr24 nor_mem_def cong del: if_weak_cong)
next
  fix c :: nor and a :: u32
  assume h: "nor_wel c" "unat a mod 4096 = 0" "unat a < 0x100000"
  have "unat a + 4096 \<le> 0x100000"
    using block_end [of "unat a" 4096 256] h(2,3) by simp
  then have "map (\<lambda>i. if unat a \<le> i \<and> i < unat a + 4096 then 0xFF else nor_cells c i) [0..<0x100000]
      = overlay (unat a) (replicate 4096 0xFF) (map (nor_cells c) [0..<0x100000])"
    by (intro map_overlay [where n = 4096]) auto
  then show "\<exists>c'. tls_spi_write nor_bus (0x20 # addr24 a) c = (0, c')
          \<and> nor_mem c' = overlay (unat a) (replicate 4096 0xFF) (nor_mem c)"
    using h nor_addr_addr24 [of a "0x20"] by (simp add: nor_bus_def nor_mem_def addr24_def)
qed (simp add: nor_mem_def)

text \<open>An installed chip.\<close>

definition nor_flash :: "nor flash" where
  "nor_flash = \<lparr>spi_fls = Some \<lparr>fls_drvs = [gd25qxx_fls nor_bus], current_drv = Some (gd25qxx_fls nor_bus)\<rparr>,
     chip = \<lparr>nor_cells = (\<lambda>i. 0xFF), nor_wel = False, nor_busy = 0\<rparr>, gsflscache = None, gsSecOffset = 0, gsSector = 0\<rparr>"

lemma nor_flash_installed: "installed (gd25qxx_fls nor_bus) nor_flash" "nor_busy (chip nor_flash) = 0"
  by (simp_all add: installed_def fls_drv_def nor_flash_def)

section \<open>Properties\<close>

text \<open>C17: on a chip that behaves as a NOR flash, what \<^verbatim>\<open>tls_fls_write\<close> writes inside a sector or from the
  start of one is what \<^verbatim>\<open>tls_fls_read\<close> reads back; both report success and no other byte of the chip
  changes, although the sectors are erased and programmed anew.\<close>

theorem tls_fls_write_read:
  assumes "nor_chip bus mem wel busy" and "installed (gd25qxx_fls bus) s" and "busy (chip s) = 0"
    and "unat addr + unat len \<le> 0x100000" and "0 < len" and "unat len \<le> length buf" and "unat len \<le> length out"
    and "length cache = 4096" and "unat addr mod 4096 = 0 \<or> unat addr mod 4096 + unat len \<le> 4096"
  shows "\<exists>s' s''. tls_fls_write (Some cache) addr buf len s = Some (0, s')
    \<and> mem (chip s') = overlay (unat addr) (take (unat len) buf) (mem (chip s))
    \<and> tls_fls_read addr out len s' = Some (0, take (unat len) buf @ drop (unat len) out, s'')
    \<and> mem (chip s'') = mem (chip s')"
proof -
  note drv = gd25_driver [OF assms(1)]
  obtain c1 where c1: "tls_fls_write (Some cache) addr buf len s = Some (0, s\<lparr>chip := c1\<rparr>)" "busy c1 = 0"
      "mem c1 = overlay (unat addr) (take (unat len) buf) (mem (chip s))"
    using tls_fls_write_ok [OF drv assms(2-6,8,9)] by blast
  have "take (unat len) (drop (unat addr) (mem c1)) = take (unat len) buf"
    using overlay_read [of "unat addr" "take (unat len) buf" "mem (chip s)"] assms(4,6)
    by (simp add: c1(3) flash_driver_sizes(4) [OF drv])
  with tls_fls_read_ok [OF drv, of "s\<lparr>chip := c1\<rparr>" addr len out] assms(2,4,5,7) c1 show ?thesis
    by auto
qed

theorem tls_fls_write_read_witness:
  "\<exists>s' s''. tls_fls_write (Some (replicate 4096 0)) 0xF8ff0 [1, 2, 3, 4, 5] 4 nor_flash = Some (0, s')
    \<and> nor_mem (chip s') = overlay 0xF8ff0 [1, 2, 3, 4] (nor_mem (chip nor_flash))
    \<and> tls_fls_read 0xF8ff0 [9, 9, 9, 9, 9, 9] 4 s' = Some (0, [1, 2, 3, 4, 9, 9], s'')
    \<and> nor_mem (chip s'') = nor_mem (chip s')"
  using tls_fls_write_read [OF nor_bus_chip nor_flash_installed, of "0xF8ff0" 4 "[1, 2, 3, 4, 5]" "[9, 9, 9, 9, 9, 9]" "replicate 4096 0"]
  by simp

text \<open>C22: a write that starts inside a sector and ends in the next one is not what the caller asked for: the
  bytes of the second sector are put behind the offset of the first, so that they land 4096 bytes behind the start
  of the write and nothing is written to the start of the second sector; when they do not fit there, the
  copy runs over the end of the sector cache (undefined behaviour).\<close>

theorem tls_fls_write_misplaces:
  assumes "nor_chip bus mem wel busy" and "installed (gd25qxx_fls bus) s" and "busy (chip s) = 0"
    and "unat addr + unat len \<le> 0x100000" and "unat len \<le> length buf" and "length cache = 4096"
    and "unat addr mod 4096 = off" and "0 < off" and "4096 < off + unat len" and "off + unat len \<le> 8192"
  shows "if off + (off + unat len - 4096) \<le> 4096
    then \<exists>s'. tls_fls_write (Some cache) addr buf len s = Some (0, s')
       \<and> mem (chip s') = overlay (unat addr + 4096) (drop (4096 - off) (take (unat len) buf))
                           (overlay (unat addr) (take (4096 - off) buf) (mem (chip s)))
    else tls_fls_write (Some cache) addr buf len s = None"
proof (split if_split, intro conjI impI)
  note across = tls_fls_write_across [OF gd25_driver [OF assms(1)] assms(2-10)]
  show "\<exists>s'. tls_fls_write (Some cache) addr buf len s = Some (0, s')
       \<and> mem (chip s') = overlay (unat addr + 4096) (drop (4096 - off) (take (unat len) buf))
                           (overlay (unat addr) (take (4096 - off) buf) (mem (chip s)))"
    if "off + (off + unat len - 4096) \<le> 4096"
    using across(1) [OF that] by auto
  show "tls_fls_write (Some cache) addr buf len s = None" if "\<not> off + (off + unat len - 4096) \<le> 4096"
    using across(2) that by (simp only: not_le)
qed

theorem tls_fls_write_misplaces_witness:
  "(\<exists>s'. tls_fls_write (Some (replicate 4096 0)) 0x1010 (replicate 4096 7) 4096 nor_flash = Some (0, s')
      \<and> nor_mem (chip s') = overlay 0x2010 (drop 4080 (replicate 4096 7)) (overlay 0x1010 (take 4080 (replicate 4096 7)) (nor_mem (chip nor_flash))))
  \<and> tls_fls_write (Some (replicate 4096 0)) 0x1ff0 (replicate 4096 7) 64 nor_flash = None"
proof (intro conjI)
  define d where "d = replicate 4096 (7 :: u8)"
  have d: "length d = 4096" by (simp only: d_def length_replicate)
  have nums: "unat (0x1010 :: u32) = 0x1010" "unat (0x1ff0 :: u32) = 0x1ff0" "unat (4096 :: u32) = 4096" "unat (64 :: u32) = 64"
    "length (replicate 4096 (0 :: u8)) = 4096"
    by simp_all
  have "\<exists>s'. tls_fls_write (Some (replicate 4096 0)) 0x1010 d 4096 nor_flash = Some (0, s')
        \<and> nor_mem (chip s') = overlay 0x2010 (drop 4080 d) (overlay 0x1010 (take 4080 d) (nor_mem (chip nor_flash)))"
    using tls_fls_write_misplaces [OF nor_bus_chip nor_flash_installed, of "0x1010" 4096 d "replicate 4096 0" 16] d
    unfolding nums by simp
  then show "\<exists>s'. tls_fls_write (Some (replicate 4096 0)) 0x1010 (replicate 4096 7) 4096 nor_flash = Some (0, s')
      \<and> nor_mem (chip s') = overlay 0x2010 (drop 4080 (replicate 4096 7)) (overlay 0x1010 (take 4080 (replicate 4096 7)) (nor_mem (chip nor_flash)))"
    unfolding d_def .
  have "tls_fls_write (Some (replicate 4096 0)) 0x1ff0 d 64 nor_flash = None"
    using tls_fls_write_misplaces [OF nor_bus_chip nor_flash_installed, of "0x1ff0" 64 d "replicate 4096 0" "0xff0"] d
    unfolding nums by simp
  then show "tls_fls_write (Some (replicate 4096 0)) 0x1ff0 (replicate 4096 7) 64 nor_flash = None"
    unfolding d_def .
qed

end
