(* ===== verification/ModuleEntry.thy ===== *)
theory ModuleEntry
  imports Entry
begin

text \<open>
  Messages of the module, chunks from the UART, frames to and from the cloud: they keep the invariant, and
  of them only a registration moves the main state.
\<close>

section \<open>Messages of the module\<close>

text \<open>The message lies in one of three places; a packet in the UART buffer is complete.\<close>

definition src_ok :: "msg_src \<Rightarrow> 'h zc \<Rightarrow> bool" where
  "src_ok src s \<longleftrightarrow> (src = SrcUart \<longrightarrow> u32Status (g_struUartBuffer s) = 1)"

lemma src_write_inv:
  assumes "src_write src d s = Some s'" "zc_inv s" "src_ok src s"
  shows "zc_inv s' \<and> con s' = con s"
proof (cases src)
  case SrcBuild
  with assms(1) obtain b where "wr (g_u8MsgBuildBuffer s) 0 d = Some b" "s' = s\<lparr>g_u8MsgBuildBuffer := b\<rparr>"
    by (auto simp: src_write_def bind_Some_iff)
  moreover from this have "length b = 600"
    using length_wr assms(2) by (fastforce simp: zc_inv_def zc_rest_lengths)
  ultimately show ?thesis using assms(2) by (simp add: zc_inv_def)
next
  case SrcDev
  with assms(1) obtain b where "wr (g_u8DevMsgBuildBuffer s) 0 d = Some b" "s' = s\<lparr>g_u8DevMsgBuildBuffer := b\<rparr>"
    by (auto simp: src_write_def bind_Some_iff)
  with assms(2) show ?thesis
    by (simp add: zc_inv_def zc_rest_def length_wr)
next
  case SrcUart
  with assms(1) obtain b where b: "wr (u8UartBuffer (g_struUartBuffer s)) ZC_MAGIC_LEN d = Some b"
      "s' = s\<lparr>g_struUartBuffer := (g_struUartBuffer s)\<lparr>u8UartBuffer := b\<rparr>\<rparr>"
    by (auto simp: src_write_def bind_Some_iff)
  have u: "uart_ok (g_struUartBuffer s)" "u32Status (g_struUartBuffer s) = 1"
    using assms(2,3) SrcUart by (simp_all add: zc_inv_def zc_rest_def src_ok_def)
  then have "length b = 1000"
    using length_wr [OF b(1)] by (simp add: uart_ok_def)
  with uart_message_ok [OF u] b(2) assms(2) show ?thesis
    by (simp add: zc_inv_def zc_rest_def)
qed

lemma zc_rest_ignores [simp]:
  "zc_rest (s\<lparr>g_u8ClientSendLen := n\<rparr>) = zc_rest s" "recv_q (s\<lparr>g_u8ClientSendLen := n\<rparr>) = recv_q s"
  by (simp_all add: zc_rest_def recv_q_def)

context module_adapter begin

lemma answer_client_inv:
  assumes "answer_client A src cid l p s = Some (s', r)" "zc_inv s" "src_ok src s"
  shows "zc_inv s' \<and> st s' = st s"
proof -
  obtain h build real s1 key iv c len h2 s2
    where plain: "session_plain (get_MessageHead (src_bytes src s)) l p (g_u8MsgBuildBuffer s) = Some (h, build, real)"
      and s1: "src_write src (put_MessageHead h) s = Some s1"
      and c: "AES_CBC_Encrypt key_object (drop 4 build) (ucast real + 8) key 16 iv (drop 4 build) = Some (c, len)"
      and s2: "pfunSendTcpData A cid (put_SecHead h2 @ c) (ucast (ucast (len + 4) :: u8)) \<lparr>u8NeedPoll = 1, pu8AddrPara = None\<rparr>
        (s1\<lparr>stack := (\<lambda>i. stack s1 (i + 1)), g_u8MsgBuildBuffer := put_SecHead h2 @ c, g_u8ClientSendLen := ucast (len + 4)\<rparr>) = Some s2"
      and s': "Some (s2\<lparr>g_u8ClientSendLen := 0\<rparr>, ZC_RET_OK) = Some (s', r)"
    using assms(1) unfolding answer_client_def indet_def Let_def prod.case by (elim bind3E bind2E bindE) (rule that)
  note w = src_write_inv [OF s1 assms(2,3)]
  have "length build = 600"
    using session_plain_lengths(1) [OF plain] assms(2) by (simp add: zc_inv_def zc_rest_lengths)
  moreover have "unat (ucast real + 8 :: u32) < 2 ^ 32 - 16"
    using unat_16 [of real] by (subst unat_add_small) simp_all
  ultimately have "length (put_SecHead h2 @ c) = 600"
    using AES_CBC_Encrypt_lengths(1) [OF c] by simp
  then have "zc_inv (s1\<lparr>stack := (\<lambda>i. stack s1 (i + 1)), g_u8MsgBuildBuffer := put_SecHead h2 @ c, g_u8ClientSendLen := ucast (len + 4)\<rparr>)"
    using w assms(2) by (simp add: zc_inv_def)
  from platform_stays [OF send_tcp [OF s2] this] w s' show ?thesis
    by (auto simp: zc_inv_def)
qed

lemma ZC_DealSessionOpt_inv:
  assumes "ZC_DealSessionOpt A src l p s = Some (s', r)" "zc_inv s" "src_ok src s"
  shows "zc_inv s' \<and> st s' = st s"
proof -
  obtain cid found where "(if \<not> found then Some (s, ZC_RET_OK) else if src = SrcBuild then None
     else answer_client A src cid l p s) = Some (s', r)"
    using assms(1) unfolding ZC_DealSessionOpt_def by (elim bindE) blast
  with answer_client_inv [OF _ assms(2,3)] assms(2) show ?thesis
    by (auto split: if_splits)
qed

lemma register_inv:
  assumes "ZC_StoreRegisterInfo d s = Some s'" "zc_inv s"
  shows "zc_inv s' \<and> con s' = con s"
  using assms by (auto simp: ZC_StoreRegisterInfo_def bind_Some_iff zc_inv_def zc_rest_def register_ok_def dest!: length_rd)

lemma ZC_ConfigPara_inv:
  assumes "ZC_ConfigPara A d s = Some s'" "zc_inv s"
  shows "zc_inv s' \<and> con s' = con s"
proof -
  obtain c f g where c: "length c = 174" "write_config A (config_update f g s) = Some s'"
      "f = (\<lambda>w. w\<lparr>u32SecSwitch := ZC_HTONL (le32 (field 4 4 c)), u32TraceSwitch := ZC_HTONL (le32 (field 0 4 c)),
              u32WifiConfig := ZC_HTONL (le32 (field 8 4 c)),
              u32ServerAddrConfig := ZC_HTONL (le32 (field 12 4 c)),
              u32ServerIp := ZC_HTONL (le32 (field 112 4 c)),
              u16ServerPort := ZC_HTONS (le16 (field 172 2 c)),
              u8Password := field 48 ZC_PASSWORD_MAX_LEN c, u8Ssid := field 16 ZC_SSID_MAX_LEN c\<rparr>)"
      "g = (\<lambda>w. w\<lparr>u8CloudAddr := field 116 ZC_CLOUD_ADDR_MAX_LEN c, u8CloudKey := field 136 ZC_CLOUD_KEY_MAX_LEN c\<rparr>)"
    using assms(1) unfolding ZC_ConfigPara_def by (auto elim!: bindE dest: length_rd)
  have "config_ok (g_struZcConfigDb (config_update f g s))"
    using assms(2) c(1) unfolding c(3,4) by (simp add: zc_inv_def zc_rest_def config_ok_def)
  then have "zc_inv (config_update f g s)"
    using assms(2) by (simp add: zc_inv_def)
  with same_but_platform_rest [OF write_config_rest [OF c(2)]] show ?thesis by (simp add: zc_inv_def)
qed

text \<open>Registering: the main state leaves \<^verbatim>\<open>SLEEP\<close> or \<^verbatim>\<open>INIT\<close> for \<^verbatim>\<open>ACCESS_NET\<close>.\<close>

lemma register_module_inv:
  assumes "do {
       s \<leftarrow> ZC_StoreRegisterInfo p s;
       let s = con_update (u8MainState_update (\<lambda>_. PCT_STATE_ACCESS_NET)) s;
       if u8RegisterTimer (con s) \<noteq> PCT_TIMER_INVAILD then do {
         s \<leftarrow> TIMER_StopTimer A (u8RegisterTimer (con s)) s;
         Some (con_update (u8RegisterTimer_update (\<lambda>_. PCT_TIMER_INVAILD)) s)
       } else Some s
     } = Some s'" "zc_inv s"
  shows "zc_inv s' \<and> st s' = PCT_STATE_ACCESS_NET"
proof -
  obtain s1 where s1: "ZC_StoreRegisterInfo p s = Some s1"
    and run: "(let s = con_update (u8MainState_update (\<lambda>_. PCT_STATE_ACCESS_NET)) s1
      in if u8RegisterTimer (con s) \<noteq> PCT_TIMER_INVAILD then do {
         s \<leftarrow> TIMER_StopTimer A (u8RegisterTimer (con s)) s;
         Some (con_update (u8RegisterTimer_update (\<lambda>_. PCT_TIMER_INVAILD)) s)
       } else Some s) = Some s'"
    using assms(1) by (rule bindE)
  define u where "u = con_update (u8MainState_update (\<lambda>_. PCT_STATE_ACCESS_NET)) s1"
  have u: "zc_rest u" "con_ok (con u)" "st u = PCT_STATE_ACCESS_NET"
    using register_inv [OF s1 assms(2)] assms(2) by (simp_all add: u_def zc_inv_def)
  show ?thesis
  proof (cases "u8RegisterTimer (con u) \<noteq> PCT_TIMER_INVAILD")
    case True
    with run obtain s2 where "TIMER_StopTimer A (u8RegisterTimer (con u)) u = Some s2"
        "s' = con_update (u8RegisterTimer_update (\<lambda>_. PCT_TIMER_INVAILD)) s2"
      by (auto simp: Let_def bind_Some_iff simp flip: u_def)
    with TIMER_StopTimer_rest [OF this(1) u(1)] u show ?thesis by (simp add: zc_inv_def)
  next
    case False
    with run u show ?thesis by (simp add: zc_inv_def flip: u_def)
  qed
qed

lemma two_notes_inv:
  assumes "do { s \<leftarrow> PCT_SendNotifyMsg A c s; if P s then PCT_SendNotifyMsg A c' s else Some s } = Some s'" "zc_inv s" "rsa_writes A"
  shows "stays s s'"
proof -
  obtain s1 where s1: "PCT_SendNotifyMsg A c s = Some s1" "(if P s1 then PCT_SendNotifyMsg A c' s1 else Some s1) = Some s'"
    using assms(1) by (rule bindE)
  have "stays s s1"
    by (rule simple_sends(4) [OF assms(2,3) s1(1)])
  with s1(2) simple_sends(4) [OF _ assms(3), of s1 c' s'] show ?thesis by (cases "P s1") auto
qed

lemma ota_end_inv:
  assumes "do { s \<leftarrow> PCT_ModuleOtaFileEndMsg A s; PCT_SendNotifyMsg A c s } = Some s'" "zc_inv s" "rsa_writes A"
  shows "stays s s'"
proof -
  obtain s1 where s1: "PCT_ModuleOtaFileEndMsg A s = Some s1" "PCT_SendNotifyMsg A c s1 = Some s'"
    using assms(1) by (rule bindE)
  have "stays s s1"
    by (rule ota_replies(6) [OF assms(2,3) s1(1)])
  with simple_sends(4) [OF _ assms(3) s1(2)] show ?thesis by simp
qed

lemma dispatch_moudle_inv:
  assumes "dispatch_moudle A d n p s = Some s'" "zc_inv s" "rsa_writes A"
  shows "zc_inv s' \<and> (st s' = st s \<or> st s < PCT_STATE_ACCESS_NET \<and> st s' = PCT_STATE_ACCESS_NET)"
proof -
  have m: "st s \<le> PCT_STATE_DISCONNECT_CLOUD"
    using assms(2) by (simp add: zc_inv_def con_ok_def)
  let ?low = "\<not> (st s \<ge> PCT_STATE_ACCESS_NET \<and> st s < PCT_STATE_DISCONNECT_CLOUD) \<and> st s \<noteq> PCT_STATE_DISCONNECT_CLOUD"
  have low: "?low \<Longrightarrow> st s < PCT_STATE_ACCESS_NET"
    using m by (auto simp: not_le order.order_iff_strict)
  have rest: "pfunRest A s = Some s' \<Longrightarrow> stays s s'"
    using platform_stays [OF rest assms(2)] by blast
  have config: "ZC_ConfigPara A p s = Some s' \<Longrightarrow> zc_inv s' \<and> st s' = st s"
    using ZC_ConfigPara_inv [OF _ assms(2)] by simp
  have "(zc_inv s' \<and> st s' = st s) \<or> ?low \<and> zc_inv s' \<and> st s' = PCT_STATE_ACCESS_NET"
    using assms(1) simple_sends(4) [OF assms(2,3)] register_module_inv [OF _ assms(2)] two_notes_inv [OF _ assms(2,3)]
      ota_end_inv [OF _ assms(2,3)] ota_replies(5) [OF assms(2,3)] PCT_ModuleOtaFileChunkMsg_inv [OF _ assms(2,3)]
      rest config PCT_HandleMoudleEvent_inv [OF _ assms(2,3)]
    unfolding dispatch_moudle_def by (simp only: Let_def split: if_split_asm) blast+
  with low show ?thesis by blast
qed

lemma ZC_RecvDataFromMoudle_inv:
  assumes "ZC_RecvDataFromMoudle A src n s = Some (s', r)" "zc_inv s" "rsa_writes A" "src_ok src s"
  shows "zc_inv s' \<and> (st s' = st s \<or> st s < PCT_STATE_ACCESS_NET \<and> st s' = PCT_STATE_ACCESS_NET)"
proof -
  consider "s' = s" | l p r' where "ZC_DealSessionOpt A src l p s = Some (s', r')"
    | d p where "dispatch_moudle A d n p s = Some s'"
    using assms(1) unfolding ZC_RecvDataFromMoudle_def
    by (auto simp: Let_def bind_Some_iff split: if_splits)
  then show ?thesis
  proof cases
    case 2 with ZC_DealSessionOpt_inv [OF 2 assms(2,4)] show ?thesis by simp
  next
    case 3 from dispatch_moudle_inv [OF 3 assms(2,3)] show ?thesis .
  qed (use assms(2) in simp)
qed

section \<open>The UART\<close>

lemma ZC_Moudlefunc_inv:
  assumes "ZC_Moudlefunc A d n s = Some s'" "zc_inv s" "rsa_writes A" "unat n \<le> length d" "unat n + 1000 < 2 ^ 32"
  shows "zc_inv s' \<and> (st s' = st s \<or> st s < PCT_STATE_ACCESS_NET \<and> st s' = PCT_STATE_ACCESS_NET)"
  using assms(1,2,4,5)
proof (induction "2 * unat n + (if u32Status (g_struUartBuffer s) = 0 then 0 else 1)" arbitrary: d n s s' rule: less_induct)
  case less
  show ?case
  proof (cases "n = 0")
    case True
    with less.prems show ?thesis by (simp add: ZC_Moudlefunc.simps)
  next
    case False
    have "uart_ok (g_struUartBuffer s)"
      using less.prems(2) by (simp add: zc_inv_def zc_rest_def)
    from ZC_AssemblePkt_total [OF this less.prems(3,4)] obtain u r left
      where u: "ZC_AssemblePkt (g_struUartBuffer s) d n = Some (u, r, left)" "uart_ok u" "unat left \<le> unat n" by blast
    let ?s = "s\<lparr>g_struUartBuffer := u\<rparr>"
    have inv: "zc_inv ?s"
      using less.prems(2) u(2) by (simp add: zc_inv_def zc_rest_def)
    have run: "(if r = ZC_RET_ERROR then Some ?s
        else if u32Status u = 1 then do {
          (s, r) \<leftarrow> ZC_RecvDataFromMoudle A SrcUart (ucast (u32RecvLen u - 4)) ?s;
          let s = s\<lparr>g_struUartBuffer := uart_reset (g_struUartBuffer s)\<rparr>;
          if left > 0 then ZC_Moudlefunc A (drop (unat (n - left)) d) left s else Some s
        } else Some ?s) = Some s'"
      using less.prems(1) False u(1) by (simp add: ZC_Moudlefunc.simps [of A d n] Let_def)
    show ?thesis
    proof (cases "r \<noteq> ZC_RET_ERROR \<and> u32Status u = 1")
      case False
      with run inv show ?thesis by (auto split: if_splits)
    next
      case full: True
      with run obtain s2 r2 where s2: "ZC_RecvDataFromMoudle A SrcUart (ucast (u32RecvLen u - 4)) ?s = Some (s2, r2)"
        and next_: "(let s3 = s2\<lparr>g_struUartBuffer := uart_reset (g_struUartBuffer s2)\<rparr>
          in if left > 0 then ZC_Moudlefunc A (drop (unat (n - left)) d) left s3 else Some s3) = Some s'"
        by (auto simp: bind_Some_iff)
      define s3 where "s3 = s2\<lparr>g_struUartBuffer := uart_reset (g_struUartBuffer s2)\<rparr>"
      have "src_ok SrcUart ?s"
        using full by (simp add: src_ok_def)
      note s2' = ZC_RecvDataFromMoudle_inv [OF s2 inv assms(3) this]
      then have s3: "zc_inv s3" "st s3 = st s2" "u32Status (g_struUartBuffer s3) = 0"
        by (simp_all add: s3_def zc_inv_def zc_rest_def uart_ok_def)
      show ?thesis
      proof (cases "left > 0")
        case True
        from next_ True have rec: "ZC_Moudlefunc A (drop (unat (n - left)) d) left s3 = Some s'"
          by (simp add: Let_def s3_def)
        have "unat (n - left) = unat n - unat left"
          using u(3) by (simp add: unat_sub word_le_nat_alt)
        then have "unat left \<le> length (drop (unat (n - left)) d)" "unat left + 1000 < 2 ^ 32"
          using u(3) less.prems(3,4) by auto
        moreover have "2 * unat left + (if u32Status (g_struUartBuffer s3) = 0 then 0 else 1)
            < 2 * unat n + (if u32Status (g_struUartBuffer s) = 0 then 0 else 1)"
          using ZC_AssemblePkt_left [OF u(1) _ True] full s3(3) by auto
        ultimately have "zc_inv s' \<and> (st s' = st s3 \<or> st s3 < PCT_STATE_ACCESS_NET \<and> st s' = PCT_STATE_ACCESS_NET)"
          using less.hyps [OF _ rec s3(1)] by blast
        with s2' s3(2) show ?thesis by auto
      next
        case False
        with next_ s3 s2' show ?thesis by (auto simp: Let_def s3_def)
      qed
    qed
  qed
qed

section \<open>Frames\<close>

lemma MSG_SendDataToCloud_zc_inv:
  assumes "MSG_SendDataToCloud A sock s = Some s'" "zc_inv s"
  shows "zc_inv s' \<and> con s' = con s \<and> recv_q s' = recv_q s"
proof -
  have inv: "send_inv s" "zc_rest s"
    using assms(2) by (simp_all add: zc_inv_def zc_rest_def)
  from assms(1) inv(1) show ?thesis
    by (cases rule: MSG_SendDataToCloud_cases)
      (use assms(2) in \<open>simp_all add: zc_inv_def zc_rest_def recv_q_def\<close>)
qed

end

lemma MSG_RecvDataFromCloud_zc_inv:
  assumes "MSG_RecvDataFromCloud A d n s = Some s'" "zc_inv s" "unat n \<le> length d" "unat n + 600 < 2 ^ 32"
  shows "zc_inv s' \<and> con s' = con s"
proof -
  have "recv_ok s"
    using assms(2) by (simp add: zc_inv_def zc_rest_def)
  from MSG_RecvDataFromCloud_ok [OF assms(1) this assms(3,4)] obtain b m q x
    where s': "s' = s\<lparr>g_struRecvBuffer := b, g_u8MsgBuildBuffer := m, g_struRecvQueue := q, stack := x\<rparr>" "recv_ok s'"
    by blast
  from s'(2) show ?thesis
    using assms(2) unfolding s'(1) by (simp add: zc_inv_def zc_rest_def)
qed

end
