(* ===== verification/AcApi.thy ===== *)
theory AcApi
  imports ModuleEntry
begin

text \<open>
  The application of the module: \<^verbatim>\<open>ac_api.c\<close>, which builds its messages and takes those of the protocol core,
  and \<^verbatim>\<open>ac_hal.c\<close>, which acts on them.  Messages of the application enter the core through
  \<^verbatim>\<open>ZC_RecvDataFromMoudle\<close>; messages to it come out of the queue of \<^verbatim>\<open>AppTask\<close> in \<^verbatim>\<open>main.c\<close>.
  The pin of the LED is an argument, \<open>gpio_write\<close>.
\<close>

section \<open>Constants\<close>

abbreviation (input) ZC_CODE_EVENT_BASE :: u8 where "ZC_CODE_EVENT_BASE \<equiv> 64"
abbreviation (input) MSG_SERVER_CLIENT_SET_LED_ONOFF_REQ :: u8 where "MSG_SERVER_CLIENT_SET_LED_ONOFF_REQ \<equiv> 68"
abbreviation (input) MSG_SERVER_CLIENT_GET_LED_STATUS_RSP :: u8 where "MSG_SERVER_CLIENT_GET_LED_STATUS_RSP \<equiv> 203"
abbreviation (input) CLIENT_SERVER_OK :: u8 where "CLIENT_SERVER_OK \<equiv> 102"
abbreviation (input) CLOUDSTATUS :: u32 where "CLOUDSTATUS \<equiv> 0"
abbreviation (input) WIFIPOWERSTATUS :: u32 where "WIFIPOWERSTATUS \<equiv> 1"
abbreviation (input) CLOUDCONNECT :: u32 where "CLOUDCONNECT \<equiv> 1"
abbreviation (input) CLOUDDISCONNECT :: u32 where "CLOUDDISCONNECT \<equiv> 0"
abbreviation (input) WIFIPOWERON :: u32 where "WIFIPOWERON \<equiv> 1"

section \<open>Building messages\<close>

text \<open>The options: as \<^verbatim>\<open>EVENT_BuildOption\<close>, with \<^verbatim>\<open>AC_OptList\<close>, which has the same two fields.\<close>

definition AC_BuildOption :: "ZC_OptList option \<Rightarrow> u8 list \<Rightarrow> (u8 list \<times> u8 \<times> u16) option" where
  "AC_BuildOption pstruOptList pu8Buffer =
     (case pstruOptList of
        None \<Rightarrow> Some (pu8Buffer, 0, 0)
      | Some optlist \<Rightarrow> do {
          (buf, num, len) \<leftarrow>
            (case pstruTransportInfo optlist of
               None \<Rightarrow> Some (pu8Buffer, 0 :: u8, 0 :: u8)
             | Some p \<Rightarrow> do {
                 buf \<leftarrow> wr pu8Buffer 0 (put_MessageOptHead
                         \<lparr>OptCode = ZC_HTONS ZC_OPT_TRANSPORT, OptLen = ZC_HTONS 16\<rparr>);
                 d \<leftarrow> rd p 0 16;
                 buf \<leftarrow> wr buf 4 d;
                 Some (buf, 1, 20)
               });
          (buf, num, len) \<leftarrow>
            (case pstruSsession optlist of
               None \<Rightarrow> Some (buf, num, len)
             | Some p \<Rightarrow> do {
                 buf \<leftarrow> wr buf 0 (put_MessageOptHead
                         \<lparr>OptCode = ZC_HTONS ZC_OPT_SSESSION, OptLen = ZC_HTONS 4\<rparr>);
                 d \<leftarrow> rd p 0 4;
                 buf \<leftarrow> wr buf 4 d;
                 Some (buf, num + 1, len + 8)
               });
          Some (buf, num, ucast len)
        })"

definition AC_BuildMessage ::
  "u8 \<Rightarrow> u8 \<Rightarrow> u8 list \<Rightarrow> u16 \<Rightarrow> ZC_OptList option \<Rightarrow> u8 list \<Rightarrow> (u8 list \<times> u16) option" where
  "AC_BuildMessage u8MsgCode u8MsgId pu8Payload u16PayloadLen pstruOptList buf = do {
     (opt, num, optlen) \<leftarrow> AC_BuildOption pstruOptList (drop 8 buf);
     let buf = take 8 buf @ opt;
     d \<leftarrow> rd pu8Payload 0 (unat u16PayloadLen);
     buf \<leftarrow> wr buf (8 + unat optlen) d;
     c \<leftarrow> rd buf 8 (unat u16PayloadLen + unat optlen);
     buf \<leftarrow> wr buf 0 (put_MessageHead \<lparr>Version = 0, MsgId = u8MsgId, MsgCode = u8MsgCode, OptNum = num,
       Payloadlen = ZC_HTONS (u16PayloadLen + optlen), TotalMsgCrc = crc_bytes (crc16_ccitt c)\<rparr>);
     Some (buf, 8 + u16PayloadLen + optlen)
   }"

definition AC_SendMessage :: "'h PTC_ModuleAdapter \<Rightarrow> msg_src \<Rightarrow> u16 \<Rightarrow> 'h zc \<Rightarrow> 'h zc option" where
  "AC_SendMessage A src u16DataLen s = do {
     (s, r) \<leftarrow> ZC_RecvDataFromMoudle A src u16DataLen s;
     Some s
   }"

text \<open>A message built in one of the two buffers and sent from there.\<close>

definition ac_send ::
  "'h PTC_ModuleAdapter \<Rightarrow> msg_src \<Rightarrow> u8 \<Rightarrow> u8 \<Rightarrow> u8 list \<Rightarrow> u16 \<Rightarrow> ZC_OptList option \<Rightarrow> 'h zc \<Rightarrow> 'h zc option" where
  "ac_send A src code i payload len optlist s = do {
     (m, n) \<leftarrow> AC_BuildMessage code i payload len optlist
       (if src = SrcDev then g_u8DevMsgBuildBuffer s else g_u8MsgBuildBuffer s);
     AC_SendMessage A src n (if src = SrcDev then s\<lparr>g_u8DevMsgBuildBuffer := m\<rparr> else s\<lparr>g_u8MsgBuildBuffer := m\<rparr>)
   }"

definition AC_SendRestMsg :: "'h PTC_ModuleAdapter \<Rightarrow> ZC_OptList option \<Rightarrow> 'h zc \<Rightarrow> 'h zc option" where
  "AC_SendRestMsg A optlist = ac_send A SrcBuild ZC_CODE_REST 0 [] 0 optlist"

definition AC_SendAckMsg :: "'h PTC_ModuleAdapter \<Rightarrow> ZC_OptList option \<Rightarrow> u8 \<Rightarrow> 'h zc \<Rightarrow> 'h zc option" where
  "AC_SendAckMsg A optlist u8MsgId = ac_send A SrcBuild ZC_CODE_ACK u8MsgId [] 0 optlist"

definition AC_SendErrMsg ::
  "'h PTC_ModuleAdapter \<Rightarrow> ZC_OptList option \<Rightarrow> u8 \<Rightarrow> u8 list \<Rightarrow> u16 \<Rightarrow> 'h zc \<Rightarrow> 'h zc option" where
  "AC_SendErrMsg A optlist u8MsgId pu8ErrorMsg u16DataLen =
     ac_send A SrcBuild ZC_CODE_ERR u8MsgId pu8ErrorMsg u16DataLen optlist"

section \<open>Taking messages\<close>

fun AC_ParseOption_loop :: "nat \<Rightarrow> u8 list \<Rightarrow> ZC_OptList \<Rightarrow> u16 \<Rightarrow> (ZC_OptList \<times> u16) option" where
  "AC_ParseOption_loop 0 opt optlist optlen = Some (optlist, optlen)"
| "AC_ParseOption_loop (Suc n) opt optlist optlen = do {
     b \<leftarrow> rd opt 0 4;
     let h = get_MessageOptHead b;
     let optlist = (if ZC_HTONS (OptCode h) = ZC_OPT_TRANSPORT
                    then optlist\<lparr>pstruTransportInfo := Some (drop 4 opt)\<rparr>
                    else if ZC_HTONS (OptCode h) = ZC_OPT_SSESSION
                    then optlist\<lparr>pstruSsession := Some (drop 4 opt)\<rparr>
                    else optlist);
     AC_ParseOption_loop n (drop (4 + unat (ZC_HTONS (OptLen h))) opt) optlist
       (optlen + 4 + ZC_HTONS (OptLen h))
   }"

definition AC_ParseOption :: "u8 list \<Rightarrow> ZC_OptList \<Rightarrow> (ZC_OptList \<times> u16) option" where
  "AC_ParseOption pstruMsg optlist = do {
     n \<leftarrow> rd1 pstruMsg 3;
     AC_ParseOption_loop (unat n) (drop 8 pstruMsg) optlist 0
   }"

definition AC_StoreStatus :: "u32 \<Rightarrow> u32 \<Rightarrow> 'h zc \<Rightarrow> 'h zc" where
  "AC_StoreStatus u32Type u32Data s =
     (if u32Type = CLOUDSTATUS then s\<lparr>g_u32CloudStatus := u32Data\<rparr>
      else if u32Type = WIFIPOWERSTATUS then s\<lparr>g_u32WifiPowerStatus := u32Data\<rparr>
      else s)"

definition AC_GetStoreStatus :: "u32 \<Rightarrow> 'h zc \<Rightarrow> u32" where
  "AC_GetStoreStatus u32Type s =
     (if u32Type = CLOUDSTATUS then g_u32CloudStatus s
      else if u32Type = WIFIPOWERSTATUS then g_u32WifiPowerStatus s
      else ZC_RET_ERROR)"

definition AC_DealNotifyMessage :: "u8 \<Rightarrow> 'h zc \<Rightarrow> 'h zc" where
  "AC_DealNotifyMessage code s =
     (if code = ZC_CODE_EQ_DONE then AC_StoreStatus WIFIPOWERSTATUS WIFIPOWERON s
      else if code = ZC_CODE_CLOUD_CONNECTED then AC_StoreStatus CLOUDSTATUS CLOUDCONNECT s
      else if code = ZC_CODE_CLOUD_DISCONNECTED then AC_StoreStatus CLOUDSTATUS CLOUDDISCONNECT s
      else s)"

definition AC_BlinkLed :: "(u16 \<Rightarrow> u8 \<Rightarrow> 'h \<Rightarrow> 'h) \<Rightarrow> u8 \<Rightarrow> 'h zc \<Rightarrow> 'h zc" where
  "AC_BlinkLed gpio_write blink s = s\<lparr>platform := gpio_write 13 (if blink \<noteq> 0 then 1 else 0) (platform s)\<rparr>"

text \<open>The status sent is a local structure that is never assigned, here and in the next function.\<close>

definition AC_DealLed ::
  "'h PTC_ModuleAdapter \<Rightarrow> (u16 \<Rightarrow> u8 \<Rightarrow> 'h \<Rightarrow> 'h) \<Rightarrow> u8 \<Rightarrow> ZC_OptList \<Rightarrow> u8 list \<Rightarrow> 'h zc \<Rightarrow> 'h zc option" where
  "AC_DealLed A gpio_write i optlist pu8Playload s = do {
     x \<leftarrow> rd1 pu8Playload 0;
     if x = 0 \<or> x = 1 then Some (AC_BlinkLed gpio_write x s)
     else if x = 2 then
       (let (rsp, s) = indet 4 s
        in ac_send A SrcDev MSG_SERVER_CLIENT_GET_LED_STATUS_RSP i rsp 4 (Some optlist) s)
     else Some s
   }"

definition AC_SendLedStatus2Server :: "'h PTC_ModuleAdapter \<Rightarrow> 'h zc \<Rightarrow> 'h zc option" where
  "AC_SendLedStatus2Server A s =
     (let (rsp, s) = indet 4 s
      in ac_send A SrcDev MSG_SERVER_CLIENT_GET_LED_STATUS_RSP 0 (drop_bit 2 (rsp ! 0) # tl rsp) 4 None s)"

definition AC_DealEvent ::
  "'h PTC_ModuleAdapter \<Rightarrow> (u16 \<Rightarrow> u8 \<Rightarrow> 'h \<Rightarrow> 'h) \<Rightarrow> ZC_MessageHead \<Rightarrow> ZC_OptList \<Rightarrow> u8 list \<Rightarrow> 'h zc \<Rightarrow> 'h zc option" where
  "AC_DealEvent A gpio_write h optlist pu8Playload s = do {
     s \<leftarrow> (if MsgCode h = MSG_SERVER_CLIENT_SET_LED_ONOFF_REQ then AC_DealLed A gpio_write (MsgId h) optlist pu8Playload s
          else Some s);
     ac_send A SrcDev CLIENT_SERVER_OK (MsgId h) (c_string ''hello'') 6 (Some optlist) s
   }"

text \<open>A message from the queue, as the memory its pointer names.\<close>

definition AC_RecvMessage ::
  "'h PTC_ModuleAdapter \<Rightarrow> (u16 \<Rightarrow> u8 \<Rightarrow> 'h \<Rightarrow> 'h) \<Rightarrow> u8 list \<Rightarrow> 'h zc \<Rightarrow> 'h zc option" where
  "AC_RecvMessage A gpio_write msg s = do {
     b \<leftarrow> rd msg 0 8;
     let h = get_MessageHead b;
     (optlist, optlen) \<leftarrow> AC_ParseOption msg \<lparr>pstruTransportInfo = None, pstruSsession = None\<rparr>;
     let payload = drop (unat optlen + 8) msg;
     if MsgCode h \<in> {ZC_CODE_EQ_DONE, ZC_CODE_WIFI_CONNECTED, ZC_CODE_WIFI_DISCONNECTED, ZC_CODE_CLOUD_CONNECTED,
          ZC_CODE_CLOUD_DISCONNECTED} then Some (AC_DealNotifyMessage (MsgCode h) s)
     else if MsgCode h \<ge> ZC_CODE_EVENT_BASE then AC_DealEvent A gpio_write h optlist payload s
     else Some s
   }"

section \<open>The copies agree with the core\<close>

lemma AC_BuildOption_EVENT: "AC_BuildOption = EVENT_BuildOption"
  by (intro ext) (simp add: AC_BuildOption_def EVENT_BuildOption_def)

lemma AC_ParseOption_EVENT: "AC_ParseOption = EVENT_ParseOption"
proof (intro ext)
  have "AC_ParseOption_loop n b l k = EVENT_ParseOption_loop n b l k" for n b l k
    by (induction n arbitrary: b l k) (simp_all add: Let_def)
  then show "AC_ParseOption m l = EVENT_ParseOption m l" for m l
    by (simp add: AC_ParseOption_def EVENT_ParseOption_def)
qed

lemma length_AC_BuildMessage: "AC_BuildMessage code i p n l b = Some (m, k) \<Longrightarrow> length m = length b"
  unfolding AC_BuildMessage_def Let_def
  by (auto simp: AC_BuildOption_EVENT elim!: bindE dest!: length_wr EVENT_BuildOption_length)

section \<open>The invariant\<close>

lemma ac_buffers_inv:
  "zc_inv s \<Longrightarrow> length m = 600 \<Longrightarrow> zc_inv (s\<lparr>g_u8DevMsgBuildBuffer := m\<rparr>)"
  "zc_inv s \<Longrightarrow> zc_inv (s\<lparr>platform := h\<rparr>)" "zc_inv s \<Longrightarrow> zc_inv (s\<lparr>stack := x\<rparr>)"
  by (simp_all add: zc_inv_def zc_rest_def recv_fields_ok_def)

context module_adapter begin

abbreviation registers :: "'h zc \<Rightarrow> 'h zc \<Rightarrow> bool" where
  "registers s s' \<equiv> zc_inv s' \<and> (st s' = st s \<or> st s < PCT_STATE_ACCESS_NET \<and> st s' = PCT_STATE_ACCESS_NET)"

lemma ac_send_inv:
  assumes "ac_send A src code i p n l s = Some s'" "zc_inv s" "rsa_writes A" "src \<noteq> SrcUart"
  shows "registers s s'"
proof -
  obtain m k where m: "AC_BuildMessage code i p n l (if src = SrcDev then g_u8DevMsgBuildBuffer s else g_u8MsgBuildBuffer s) = Some (m, k)"
      "AC_SendMessage A src k (if src = SrcDev then s\<lparr>g_u8DevMsgBuildBuffer := m\<rparr> else s\<lparr>g_u8MsgBuildBuffer := m\<rparr>) = Some s'"
    using assms(1) unfolding ac_send_def by (elim bind2E) (rule that)
  define s1 where "s1 = (if src = SrcDev then s\<lparr>g_u8DevMsgBuildBuffer := m\<rparr> else s\<lparr>g_u8MsgBuildBuffer := m\<rparr>)"
  have "length m = 600"
    using length_AC_BuildMessage [OF m(1)] assms(2) by (simp add: zc_inv_def zc_rest_def recv_fields_ok_def)
  then have s1: "zc_inv s1" "st s1 = st s" "src_ok src s1"
    using assms(2,4) by (auto simp: s1_def zc_inv_def src_ok_def ac_buffers_inv zc_rest_def recv_fields_ok_def)
  obtain r where "ZC_RecvDataFromMoudle A src k s1 = Some (s', r)"
    using m(2) unfolding AC_SendMessage_def s1_def [symmetric] by (auto elim!: bindE)
  from ZC_RecvDataFromMoudle_inv [OF this s1(1) assms(3) s1(3)] show ?thesis
    by (simp add: s1(2))
qed

lemma registers_trans: "registers s s1 \<Longrightarrow> registers s1 s2 \<Longrightarrow> registers s s2"
  by auto

lemma AC_DealLed_inv:
  assumes "AC_DealLed A gp i l p s = Some s'" "zc_inv s" "rsa_writes A"
  shows "registers s s'"
proof -
  have "(\<exists>h. s' = s\<lparr>platform := h\<rparr>) \<or> s' = s \<or> (\<exists>x. ac_send A SrcDev MSG_SERVER_CLIENT_GET_LED_STATUS_RSP i
      (map (stack s) [0..<4]) 4 (Some l) (s\<lparr>stack := x\<rparr>) = Some s')"
    using assms(1) by (auto simp: AC_DealLed_def AC_BlinkLed_def indet_def elim!: bindE split: if_split_asm)
  then show ?thesis
    using assms(2) ac_send_inv [OF _ _ assms(3)] by (auto simp: ac_buffers_inv) (fastforce simp: ac_buffers_inv)+
qed

lemma AC_RecvMessage_inv:
  assumes "AC_RecvMessage A gp msg s = Some s'" "zc_inv s" "rsa_writes A"
  shows "registers s s'"
proof -
  have notify: "registers s (AC_DealNotifyMessage c s)" for c
    using assms(2) by (simp add: AC_DealNotifyMessage_def AC_StoreStatus_def zc_inv_def zc_rest_def recv_fields_ok_def)
  have event: "registers s s'" if run: "AC_DealEvent A gp h l p s = Some s'" for h l p
  proof -
    obtain s1 where s1: "(if MsgCode h = MSG_SERVER_CLIENT_SET_LED_ONOFF_REQ then AC_DealLed A gp (MsgId h) l p s else Some s) = Some s1"
        "ac_send A SrcDev CLIENT_SERVER_OK (MsgId h) (c_string ''hello'') 6 (Some l) s1 = Some s'"
      using run unfolding AC_DealEvent_def by (elim bindE)
    have "registers s s1"
      using s1(1) AC_DealLed_inv assms(2,3) by (auto split: if_split_asm)
    moreover from this ac_send_inv [OF s1(2) _ assms(3)] have "registers s1 s'"
      by simp
    ultimately show ?thesis by (rule registers_trans)
  qed
  have "s' = s \<or> (\<exists>c. s' = AC_DealNotifyMessage c s) \<or> (\<exists>h l p. AC_DealEvent A gp h l p s = Some s')"
    using assms(1) unfolding AC_RecvMessage_def Let_def
    by (auto elim!: bindE split: if_split_asm)
  with notify event assms(2) show ?thesis by metis
qed

end

end
