(* ===== verification/HfAdapter.thy ===== *)
theory HfAdapter
  imports Broadcast FlashCorrect AcApi
begin

text \<open>
  The platform of this module, \<^verbatim>\<open>zc_hf_adpter.c\<close>: the functions behind \<^verbatim>\<open>PTC_ModuleAdapter\<close> on sockets, OS
  timers, the flash memory and the firmware updater, and the two tasks that drive the protocol core.

  What the operating system, the TCP/IP stack and the C library answer is an argument, \<open>hf_env\<close>: an answer to
  each call as a function of all calls before it, which are recorded in the state.  Nothing is assumed of the
  answers unless a lemma says so.
\<close>

section \<open>The world outside\<close>

datatype hf_call =
  call_timer_create u32 | call_timer_start nat | call_timer_del nat
| call_socket bool | call_connect u32 u32 u16 | call_bind u32 u16 | call_listen u32 | call_close u32
| call_send u32 "u8 list" | call_sendto u32 "u8 list" "(u32 \<times> u16) option" | call_gethostbyname "u8 list"
| call_select u32 u8 | call_recv u32 | call_accept u32 | call_recvfrom u32
| call_rand | call_alloc nat | call_queue_send "u8 list" | call_oneshot u8
| call_gpio u16 u8 | call_fwup_enter | call_fwup_request u32 "u8 list" | call_fwup_exit u32 | call_task_create u8

text \<open>A result, a second value (an address, the ready descriptors) and the bytes put into a buffer.\<close>

record hf_answer =
  ans_res :: int
  ans_val :: u32
  ans_data :: "u8 list"

record hf_env =
  answer :: "hf_call list \<Rightarrow> hf_call \<Rightarrow> hf_answer"
  env_rsa_encrypt :: "u8 list \<Rightarrow> u8 list \<Rightarrow> u8 list \<Rightarrow> int \<times> u8 list"
  env_rsa_decrypt :: "u8 list list \<Rightarrow> u8 list \<Rightarrow> int \<times> int \<times> u8 list"
  env_version :: u32
  env_type :: u8

section \<open>The state of the platform\<close>

record HF_TimerInfo =
  u32FirstFlag :: u32
  struHandle :: nat

record 'c hf =
  g_struHfTimer :: "HF_TimerInfo list"
  g_u32session_id :: u32
  hf_flash :: "'c flash"
  calls :: "hf_call list"

type_synonym 'c hf_zc = "'c hf zc"

definition ask :: "hf_env \<Rightarrow> hf_call \<Rightarrow> 'c hf_zc \<Rightarrow> hf_answer \<times> 'c hf_zc" where
  "ask E x s = (answer E (calls (platform s)) x,
     s\<lparr>platform := (platform s)\<lparr>calls := calls (platform s) @ [x]\<rparr>\<rparr>)"

definition tell :: "hf_env \<Rightarrow> hf_call \<Rightarrow> 'c hf_zc \<Rightarrow> 'c hf_zc" where
  "tell E x s = snd (ask E x s)"

abbreviation failed :: "hf_answer \<Rightarrow> bool" where
  "failed a \<equiv> ans_res a < 0"

section \<open>The flash memory\<close>

abbreviation (input) USER_FLASH_PARAM1_ADDR :: u32 where "USER_FLASH_PARAM1_ADDR \<equiv> 0xF8000"
abbreviation (input) USER_FLASH_PARAM2_ADDR :: u32 where "USER_FLASH_PARAM2_ADDR \<equiv> 0xF9000"

definition flash_read :: "u32 \<Rightarrow> u8 list \<Rightarrow> u32 \<Rightarrow> 'c hf_zc \<Rightarrow> (u8 list \<times> 'c hf_zc) option" where
  "flash_read addr buf len s = do {
     (err, b, f) \<leftarrow> tls_fls_read addr buf len (hf_flash (platform s));
     Some (b, s\<lparr>platform := (platform s)\<lparr>hf_flash := f\<rparr>\<rparr>)
   }"

definition flash_write :: "hf_env \<Rightarrow> u32 \<Rightarrow> u8 list \<Rightarrow> u32 \<Rightarrow> 'c hf_zc \<Rightarrow> 'c hf_zc option" where
  "flash_write E addr buf len s = do {
     let (a, s) = ask E (call_alloc 4096) s;
     (err, f) \<leftarrow> tls_fls_write (if ans_res a = 0 then None else Some (take 4096 (ans_data a @ replicate 4096 0)))
       addr buf len (hf_flash (platform s));
     Some (s\<lparr>platform := (platform s)\<lparr>hf_flash := f\<rparr>\<rparr>)
   }"

definition HF_ReadRegisterInfoFromFlash :: "'c hf_zc \<Rightarrow> 'c hf_zc option" where
  "HF_ReadRegisterInfoFromFlash s = do {
     (b, s) \<leftarrow> flash_read USER_FLASH_PARAM2_ADDR (RegisterInfo_bytes (g_struRegisterInfo s)) 140 s;
     Some (s\<lparr>g_struRegisterInfo := RegisterInfo_of b\<rparr>)
   }"

definition HF_ReadDataFromFlash :: "'c hf_zc \<Rightarrow> 'c hf_zc option" where
  "HF_ReadDataFromFlash s = do {
     (m, s) \<leftarrow> flash_read USER_FLASH_PARAM1_ADDR (bytes32 0xFFFFFFFF) 4 s;
     if le32 m = ZC_MAGIC_FLAG then do {
       (b, s) \<leftarrow> flash_read USER_FLASH_PARAM1_ADDR (ConfigDB_bytes (g_struZcConfigDb s)) 296 s;
       Some (s\<lparr>g_struZcConfigDb := ConfigDB_of b\<rparr>)
     } else Some s
   }"

definition HF_WriteDataToFlash :: "hf_env \<Rightarrow> u8 list \<Rightarrow> u16 \<Rightarrow> 'c hf_zc \<Rightarrow> 'c hf_zc option" where
  "HF_WriteDataToFlash E pu8Data u16Len = flash_write E USER_FLASH_PARAM1_ADDR pu8Data (ucast u16Len)"

section \<open>Timers\<close>

fun HF_get_timer_id_loop :: "nat \<Rightarrow> nat \<Rightarrow> nat \<Rightarrow> HF_TimerInfo list \<Rightarrow> u8 option" where
  "HF_get_timer_id_loop 0 i h ts = Some 0xff"
| "HF_get_timer_id_loop (Suc k) i h ts = do {
     t \<leftarrow> rd1 ts i;
     if struHandle t = h then Some (word_of_nat i) else HF_get_timer_id_loop k (Suc i) h ts
   }"

definition HF_get_timer_id :: "nat \<Rightarrow> 'c hf_zc \<Rightarrow> u8 option" where
  "HF_get_timer_id h s = HF_get_timer_id_loop ZC_TIMER_MAX_NUM 0 h (g_struHfTimer (platform s))"

definition hf_timer_update :: "nat \<Rightarrow> (HF_TimerInfo \<Rightarrow> HF_TimerInfo) \<Rightarrow> 'c hf_zc \<Rightarrow> 'c hf_zc option" where
  "hf_timer_update i f s = do {
     t \<leftarrow> rd1 (g_struHfTimer (platform s)) i;
     ts \<leftarrow> wr1 (g_struHfTimer (platform s)) i (f t);
     Some (s\<lparr>platform := (platform s)\<lparr>g_struHfTimer := ts\<rparr>\<rparr>)
   }"

definition HF_StopTimer :: "hf_env \<Rightarrow> u8 \<Rightarrow> 'c hf_zc \<Rightarrow> 'c hf_zc option" where
  "HF_StopTimer E i s = do {
     t \<leftarrow> rd1 (g_struHfTimer (platform s)) (unat i);
     Some (tell E (call_timer_del (struHandle t)) s)
   }"

text \<open>What \<^verbatim>\<open>OSTmrCreate\<close> returns through \<^verbatim>\<open>tls_os_timer_create\<close> (\<^verbatim>\<open>wm_osal_ucos.h\<close>): the handle of the new
  timer, or NULL together with an error.\<close>

definition timer_handle :: "hf_answer \<Rightarrow> nat" where
  "timer_handle a = (if ans_res a = 0 then unat (ans_val a) else 0)"

text \<open>The handle, or NULL, is stored in either case.\<close>

definition HF_SetTimer :: "hf_env \<Rightarrow> u8 \<Rightarrow> u32 \<Rightarrow> 'c hf_zc \<Rightarrow> ('c hf_zc \<times> u32 \<times> u8 option) option" where
  "HF_SetTimer E ty u32Interval s = do {
     (r, ix) \<leftarrow> TIMER_FindIdleTimer s;
     if r = ZC_RET_OK then do {
       i \<leftarrow> ix;
       let (a, s) = ask E (call_timer_create (u32Interval div 20)) s;
       s \<leftarrow> hf_timer_update (unat i) (\<lambda>t. t\<lparr>struHandle := timer_handle a\<rparr>) s;
       if timer_handle a = 0 then Some (s, ZC_RET_ERROR, None)
       else do {
         s \<leftarrow> TIMER_AllocateTimer ty i (Some (unat i)) s;
         s \<leftarrow> hf_timer_update (unat i) (\<lambda>t. t\<lparr>u32FirstFlag := 1\<rparr>) s;
         Some (tell E (call_timer_start (timer_handle a)) s, r, Some i)
       }
     } else Some (s, r, None)
   }"

section \<open>Firmware, module, reset\<close>

definition HF_FirmwareUpdateFinish :: "hf_env \<Rightarrow> u32 \<Rightarrow> 'c hf_zc \<Rightarrow> ('c hf_zc \<times> u32) option" where
  "HF_FirmwareUpdateFinish E u32FileLen s =
     Some (tell E (call_fwup_exit (g_u32session_id (platform s))) s, ZC_RET_OK)"

definition fwup_request :: "hf_env \<Rightarrow> u8 list \<Rightarrow> u32 \<Rightarrow> 'c hf_zc \<Rightarrow> ('c hf_zc \<times> u32) option" where
  "fwup_request E pu8FileData u32DataLen s = do {
     d \<leftarrow> rd pu8FileData 0 (unat u32DataLen);
     let (a, s) = ask E (call_fwup_request (g_u32session_id (platform s)) d) s;
     Some (s, if failed a then ZC_RET_ERROR else ZC_RET_OK)
   }"

definition HF_FirmwareUpdate :: "hf_env \<Rightarrow> u8 list \<Rightarrow> u32 \<Rightarrow> u32 \<Rightarrow> 'c hf_zc \<Rightarrow> ('c hf_zc \<times> u32) option" where
  "HF_FirmwareUpdate E pu8FileData u32Offset u32DataLen s =
     (if u32Offset = 0 then
        (let (a, s) = ask E call_fwup_enter s;
             s = s\<lparr>platform := (platform s)\<lparr>g_u32session_id := ans_val a\<rparr>\<rparr>
         in if ans_val a = 0 then Some (s, ZC_RET_ERROR) else fwup_request E pu8FileData u32DataLen s)
      else fwup_request E pu8FileData u32DataLen s)"

text \<open>The copy goes to memory that may not have been given.\<close>

definition HF_SendDataToMoudle :: "hf_env \<Rightarrow> u8 list \<Rightarrow> u16 \<Rightarrow> 'c hf_zc \<Rightarrow> ('c hf_zc \<times> u32) option" where
  "HF_SendDataToMoudle E pu8Data u16DataLen s = do {
     let (a, s) = ask E (call_alloc (unat u16DataLen)) s;
     d \<leftarrow> rd pu8Data 0 (unat u16DataLen);
     if ans_res a = 0 then None else Some (tell E (call_queue_send d) s, ZC_RET_OK)
   }"

definition HF_Rest :: "hf_env \<Rightarrow> 'c hf_zc \<Rightarrow> 'c hf_zc option" where
  "HF_Rest E s = Some (tell E (call_oneshot 1) s)"

section \<open>Sockets\<close>

text \<open>The loop of \<^verbatim>\<open>HF_SendTcpData\<close> ends only if \<^verbatim>\<open>send\<close> makes progress.\<close>

partial_function (option) HF_SendTcpData_loop ::
  "hf_env \<Rightarrow> u32 \<Rightarrow> u8 list \<Rightarrow> u16 \<Rightarrow> u16 \<Rightarrow> 'c hf_zc \<Rightarrow> 'c hf_zc option" where
  "HF_SendTcpData_loop E u32Fd pu8Data u16DataLen u16SendLen s =
     (if u16SendLen < u16DataLen then do {
        d \<leftarrow> rd pu8Data (unat u16SendLen) (unat (u16DataLen - u16SendLen));
        let (a, s) = ask E (call_send u32Fd d) s;
        if failed a then Some s
        else HF_SendTcpData_loop E u32Fd pu8Data u16DataLen (u16SendLen + word_of_int (ans_res a)) s
      } else Some s)"

declare HF_SendTcpData_loop.simps [code]

definition HF_SendTcpData :: "hf_env \<Rightarrow> u32 \<Rightarrow> u8 list \<Rightarrow> u16 \<Rightarrow> ZC_SendParam \<Rightarrow> 'c hf_zc \<Rightarrow> 'c hf_zc option" where
  "HF_SendTcpData E u32Fd pu8Data u16DataLen pstruParam = HF_SendTcpData_loop E u32Fd pu8Data u16DataLen 0"

definition HF_SendUdpData :: "hf_env \<Rightarrow> u32 \<Rightarrow> u8 list \<Rightarrow> u16 \<Rightarrow> ZC_SendParam \<Rightarrow> 'c hf_zc \<Rightarrow> 'c hf_zc option" where
  "HF_SendUdpData E u32Fd pu8Data u16DataLen pstruParam s = do {
     d \<leftarrow> rd pu8Data 0 (unat u16DataLen);
     Some (tell E (call_sendto u32Fd d (pu8AddrPara pstruParam)) s)
   }"

text \<open>The values of \<open>n\<close> calls of \<^verbatim>\<open>rand\<close>.\<close>

fun rands :: "nat \<Rightarrow> hf_env \<Rightarrow> 'c hf_zc \<Rightarrow> u32 list \<times> 'c hf_zc" where
  "rands 0 E s = ([], s)"
| "rands (Suc n) E s =
     (let (a, s) = ask E call_rand s; (rs, s) = rands n E s in (ans_val a # rs, s))"

definition cloud_update :: "(PTC_Connection \<Rightarrow> PTC_Connection) \<Rightarrow> 'h zc \<Rightarrow> 'h zc" where
  "cloud_update f = con_update (\<lambda>c. c\<lparr>struCloudConnection := f (struCloudConnection c)\<rparr>)"

text \<open>\<^verbatim>\<open>HF_ConnectToCloud\<close> from the address of the server on.\<close>

definition connect_to :: "hf_env \<Rightarrow> u32 \<Rightarrow> u16 \<Rightarrow> 'c hf_zc \<Rightarrow> ('c hf_zc \<times> u32) option" where
  "connect_to E ip port s =
     (let (a, s) = ask E (call_socket True) s
      in if failed a then Some (s, ZC_RET_ERROR)
         else
           (let fd = word_of_int (ans_res a); (a, s) = ask E (call_connect fd ip port) s
            in if failed a then
                 (let s = tell E (call_close fd) s;
                      times = u32ConnectionTimes (struCloudConnection (con s));
                      s = cloud_update (\<lambda>k. k\<lparr>u32ConnectionTimes := times + 1\<rparr>) s
                  in Some (if times > 20 then config_update (\<lambda>w. w\<lparr>u32ServerAddrConfig := 0\<rparr>) (\<lambda>w. w) s else s, ZC_RET_ERROR))
               else
                 (let s = cloud_update (\<lambda>k. k\<lparr>u32ConnectionTimes := 0, u32Socket := fd\<rparr>) s;
                      (rs, s) = rands 8 E s
                  in Some (con_update (\<lambda>c. c\<lparr>RandMsg := ZC_Rand (\<lambda>i. rs ! i)\<rparr>) s, ZC_RET_OK))))"

definition HF_ConnectToCloud :: "hf_env \<Rightarrow> 'c hf_zc \<Rightarrow> ('c hf_zc \<times> u32) option" where
  "HF_ConnectToCloud E s =
     (let w = struSwitchInfo (g_struZcConfigDb s)
      in if u32ServerAddrConfig w = 1 then connect_to E (ZC_HTONL (u32ServerIp w)) (u16ServerPort w) s
         else
           (let (a, s) = ask E (call_gethostbyname (u8CloudAddr (struCloudInfo (g_struZcConfigDb s)))) s
            in if ans_res a = 0 then Some (s, ZC_RET_ERROR) else connect_to E (ans_val a) ZC_CLOUD_PORT s))"

definition HF_ListenClient :: "hf_env \<Rightarrow> 'c hf_zc \<Rightarrow> ('c hf_zc \<times> u32) option" where
  "HF_ListenClient E s =
     (let (a, s) = ask E (call_socket True) s
      in if failed a then Some (s, ZC_RET_ERROR)
         else
           (let fd = word_of_int (ans_res a);
                (a, s) = ask E (call_bind fd (u16Port (struClientConnection (con s)))) s
            in if failed a then Some (tell E (call_close fd) s, ZC_RET_ERROR)
               else
                 (let (a, s) = ask E (call_listen fd) s
                  in if failed a then Some (tell E (call_close fd) s, ZC_RET_ERROR)
                     else Some (con_update (\<lambda>c. c\<lparr>struClientConnection := (struClientConnection c)\<lparr>u32Socket := fd\<rparr>\<rparr>) s,
                            ZC_RET_OK))))"

section \<open>The table of functions\<close>

definition hf_adapter :: "hf_env \<Rightarrow> 'c hf PTC_ModuleAdapter" where
  "hf_adapter E = \<lparr>pfunConnectToCloud = HF_ConnectToCloud E, pfunListenClient = HF_ListenClient E,
     pfunSendTcpData = HF_SendTcpData E, pfunSendUdpData = HF_SendUdpData E, pfunUpdate = HF_FirmwareUpdate E,
     pfunUpdateFinish = HF_FirmwareUpdateFinish E, pfunSendToMoudle = HF_SendDataToMoudle E, pfunRest = HF_Rest E,
     pfunSetTimer = HF_SetTimer E, pfunStopTimer = HF_StopTimer E, pfunWriteFlash = HF_WriteDataToFlash E,
     rsa_pkcs1_encrypt = env_rsa_encrypt E, rsa_pkcs1_decrypt = env_rsa_decrypt E,
     ZC_MODULE_VERSION = env_version E, ZC_MODULE_TYPE = env_type E\<rparr>"

definition HF_timer_callback :: "hf_env \<Rightarrow> nat \<Rightarrow> 'c hf_zc \<Rightarrow> 'c hf_zc option" where
  "HF_timer_callback E htimer s = do {
     i \<leftarrow> HF_get_timer_id htimer s;
     t \<leftarrow> rd1 (g_struHfTimer (platform s)) (unat i);
     if u32FirstFlag t = 1 then do {
       s \<leftarrow> hf_timer_update (unat i) (\<lambda>t. t\<lparr>u32FirstFlag := 0\<rparr>) s;
       Some (tell E (call_timer_start htimer) s)
     } else do {
       s \<leftarrow> TIMER_TimeoutAction (hf_adapter E) i s;
       TIMER_StopTimer (hf_adapter E) i s
     }
   }"

section \<open>The contract of the adapter\<close>

lemma ask_same: "ask E x s = (a, s') \<Longrightarrow> same_but_platform s s'"
  by (auto simp: ask_def)

lemma tell_same [simp]: "same_but_platform s (tell E x s)"
  by (simp add: tell_def ask_def)

lemma HF_SendTcpData_loop_same:
  assumes "HF_SendTcpData_loop E fd d n k s = Some s'"
  shows "same_but_platform s s'"
proof (rule HF_SendTcpData_loop.raw_induct [where P = "\<lambda>E fd d n k s s'. same_but_platform s s'", OF _ assms])
  fix loop :: "hf_env \<Rightarrow> u32 \<Rightarrow> u8 list \<Rightarrow> u16 \<Rightarrow> u16 \<Rightarrow> 'a hf_zc \<Rightarrow> 'a hf_zc option" and E fd d n k s s'
  assume 1: "\<And>E fd d n k s s'. loop E fd d n k s = Some s' \<Longrightarrow> same_but_platform s s'"
    "(if k < n then do {
        d' \<leftarrow> rd d (unat k) (unat (n - k));
        let (a, s) = ask E (call_send fd d') s;
        if failed a then Some s else loop E fd d n (k + word_of_int (ans_res a)) s
      } else Some s) = Some s'"
  show "same_but_platform s s'"
  proof (cases "k < n")
    case True
    obtain a s1 where a: "ask E (call_send fd (take (unat (n - k)) (drop (unat k) d))) s = (a, s1)" by fastforce
    with 1(2) True have "s' = s1 \<or> loop E fd d n (k + word_of_int (ans_res a)) s1 = Some s'"
      by (auto simp: rd_def split: if_split_asm)
    with 1(1) ask_same [OF a] same_but_platform_trans [of s s1 s'] show ?thesis
      by blast
  qed (use 1(2) in simp)
qed

lemma flash_write_same: "flash_write E addr b n s = Some s' \<Longrightarrow> same_but_platform s s'"
  unfolding flash_write_def ask_def by (auto elim!: bindE)

lemma hf_timer_update_same: "hf_timer_update i f s = Some s' \<Longrightarrow> same_but_platform s s'"
  by (auto simp: hf_timer_update_def elim!: bindE)

lemma TIMER_FindIdleTimer_loop_cases:
  "TIMER_FindIdleTimer_loop k i ts = Some (r, ix) \<Longrightarrow> i + k \<le> 256 \<Longrightarrow>
     (\<exists>j. r = ZC_RET_OK \<and> ix = Some (word_of_nat j) \<and> i \<le> j \<and> j < i + k \<and> j < length ts \<and> idle_timer (ts ! j))
     \<or> r = ZC_RET_ERROR \<and> ix = None"
proof (induction k arbitrary: i)
  case (Suc k)
  then show ?case
    by (auto simp: rd1_eq_Some split: if_split_asm elim!: bindE) (fastforce dest!: Suc.IH [of "Suc i"])+
qed simp

lemma timer_startedI:
  assumes "j < 10" "j < length (g_struTimer s)" "idle_timer (g_struTimer s ! j)"
    and "s' = s\<lparr>g_struTimer := (g_struTimer s)[j := \<lparr>u8TimerStatus = ZC_TIMER_STATUS_USED, u8Type = ty, pu8Timer = p\<rparr>], platform := h\<rparr>"
  shows "timer_started ty j s s'"
  using assms unfolding timer_started_def by (auto intro!: exI [of _ h] exI [of _ p])

lemma HF_SetTimer_cases:
  assumes "HF_SetTimer E ty iv s = Some (s', r, ix)"
  shows "(\<exists>j. r = ZC_RET_OK \<and> ix = Some (word_of_nat j) \<and> timer_started ty j s s')
    \<or> r = ZC_RET_ERROR \<and> ix = None \<and> same_but_platform s s'"
proof -
  obtain r1 ix1 where find: "TIMER_FindIdleTimer_loop 10 0 (g_struTimer s) = Some (r1, ix1)"
    using assms by (auto simp: HF_SetTimer_def TIMER_FindIdleTimer_def elim!: bindE)
  from TIMER_FindIdleTimer_loop_cases [OF this] consider
      j where "r1 = ZC_RET_OK" "ix1 = Some (word_of_nat j)" "j < 10" "j < length (g_struTimer s)" "idle_timer (g_struTimer s ! j)"
    | "r1 = ZC_RET_ERROR" "ix1 = None"
    by auto
  then show ?thesis
  proof cases
    case (1 j)
    have unat: "unat (word_of_nat j :: u8) = j"
      using 1(3) by (simp add: unat_of_nat_small)
    obtain a s1 where a: "ask E (call_timer_create (iv div 20)) s = (a, s1)" by fastforce
    have s1: "\<exists>h. s1 = s\<lparr>platform := h\<rparr>"
      using ask_same [OF a] by (simp add: same_but_platform_def)
    obtain s2 where s2: "hf_timer_update j (\<lambda>t. t\<lparr>struHandle := timer_handle a\<rparr>) s1 = Some s2"
      using assms 1(1,2) find a by (auto simp: HF_SetTimer_def TIMER_FindIdleTimer_def unat elim!: bindE)
    show ?thesis
    proof (cases "timer_handle a = 0")
      case True
      with assms 1(1,2) find a s2 have "s' = s2" "r = ZC_RET_ERROR" "ix = None"
        by (simp_all add: HF_SetTimer_def TIMER_FindIdleTimer_def unat)
      with s1 s2 show ?thesis
        by (auto simp: hf_timer_update_def same_but_platform_def elim!: bindE)
    next
      case False
      with assms 1(1,2) find a s2 obtain s3 s4 where
          "TIMER_AllocateTimer ty (word_of_nat j) (Some j) s2 = Some s3"
          "hf_timer_update j (\<lambda>t. t\<lparr>u32FirstFlag := 1\<rparr>) s3 = Some s4"
          "s' = tell E (call_timer_start (timer_handle a)) s4" "r = ZC_RET_OK" "ix = Some (word_of_nat j)"
        by (auto simp: HF_SetTimer_def TIMER_FindIdleTimer_def unat elim!: bindE)
      note s2 this
      then show ?thesis
        using s1 1(3-5) unat
        by (intro disjI1 exI [of _ j])
          (auto intro!: timer_startedI simp: hf_timer_update_def TIMER_AllocateTimer_def wr1_eq_Some tell_def ask_def elim!: bindE)
    qed
  next
    case 2
    with assms find show ?thesis
      by (simp add: HF_SetTimer_def TIMER_FindIdleTimer_def)
  qed
qed

lemma rands_same: "rands n E s = (rs, s') \<Longrightarrow> same_but_platform s s'"
proof (induction n arbitrary: s rs s')
  case (Suc n)
  obtain a s1 where a: "ask E call_rand s = (a, s1)" by fastforce
  obtain rs' s2 where rs: "rands n E s1 = (rs', s2)" by fastforce
  with a Suc.prems have "s' = s2" by simp
  with ask_same [OF a] Suc.IH [OF rs] show ?case
    using same_but_platform_trans by blast
qed simp

abbreviation connects :: "'h zc \<Rightarrow> 'h zc \<Rightarrow> bool" where
  "connects s s' \<equiv> \<exists>h sock times rand cfg. length rand = 32 \<and> s' = s\<lparr>platform := h,
        g_struProtocolController := (con s)\<lparr>struCloudConnection :=
            (struCloudConnection (con s))\<lparr>u32Socket := sock, u32ConnectionTimes := times\<rparr>,
          RandMsg := rand\<rparr>,
        g_struZcConfigDb := (g_struZcConfigDb s)\<lparr>struSwitchInfo :=
          (struSwitchInfo (g_struZcConfigDb s))\<lparr>u32ServerAddrConfig := cfg\<rparr>\<rparr>\<rparr>"

lemma connectsI: "same_but_platform s s' \<Longrightarrow> length (RandMsg (con s)) = 32 \<Longrightarrow> connects s s'"
proof (elim same_but_platformE)
  fix h assume r: "length (RandMsg (con s)) = 32" "s' = s\<lparr>platform := h\<rparr>"
  then show ?thesis
    by (intro exI [of _ h] exI [of _ "u32Socket (struCloudConnection (con s))"]
        exI [of _ "u32ConnectionTimes (struCloudConnection (con s))"] exI [of _ "RandMsg (con s)"]
        exI [of _ "u32ServerAddrConfig (struSwitchInfo (g_struZcConfigDb s))"]) simp
qed

lemma connect_to_connects:
  assumes "connect_to E ip port s = Some (s', r)" "length (RandMsg (con s)) = 32"
  shows "connects s s'"
proof -
  obtain a1 s1 where a1: "ask E (call_socket True) s = (a1, s1)" by fastforce
  obtain a2 s2 where a2: "ask E (call_connect (word_of_int (ans_res a1)) ip port) s1 = (a2, s2)" by fastforce
  from ask_same [OF a1] ask_same [OF a2] have s12: "same_but_platform s s1" "same_but_platform s s2"
    by (auto intro: same_but_platform_trans)
  then obtain h where h: "s2 = s\<lparr>platform := h\<rparr>" by (elim same_but_platformE)
  show ?thesis
  proof (cases "failed a1")
    case True
    with assms(1) a1 have "s' = s1" by (simp add: connect_to_def)
    with connectsI [OF s12(1) assms(2)] show ?thesis by simp
  next
    case ok1: False
    show ?thesis
    proof (cases "failed a2")
      case True
      obtain h' where h': "tell E (call_close (word_of_int (ans_res a1))) s2 = s\<lparr>platform := h'\<rparr>"
        by (simp add: h tell_def ask_def)
      define times where "times = u32ConnectionTimes (struCloudConnection (con s))"
      have "s' = (if times > 20 then config_update (\<lambda>w. w\<lparr>u32ServerAddrConfig := 0\<rparr>) (\<lambda>w. w)
           (cloud_update (\<lambda>k. k\<lparr>u32ConnectionTimes := times + 1\<rparr>) (s\<lparr>platform := h'\<rparr>))
         else cloud_update (\<lambda>k. k\<lparr>u32ConnectionTimes := times + 1\<rparr>) (s\<lparr>platform := h'\<rparr>))"
        using assms(1) a1 a2 ok1 True h' by (simp add: connect_to_def Let_def times_def cong del: if_weak_cong)
      with assms(2) show ?thesis
        by (intro exI [of _ h'] exI [of _ "u32Socket (struCloudConnection (con s))"] exI [of _ "times + 1"]
            exI [of _ "RandMsg (con s)"]
            exI [of _ "if times > 20 then 0 else u32ServerAddrConfig (struSwitchInfo (g_struZcConfigDb s))"])
          (simp add: config_update_def cloud_update_def)
    next
      case False
      define s3 where "s3 = cloud_update (\<lambda>k. k\<lparr>u32ConnectionTimes := 0, u32Socket := word_of_int (ans_res a1)\<rparr>) s2"
      obtain rs s4 where rs: "rands 8 E s3 = (rs, s4)" by fastforce
      obtain h' where h': "s4 = s3\<lparr>platform := h'\<rparr>"
        using rands_same [OF rs] by (elim same_but_platformE)
      have "s' = con_update (\<lambda>c. c\<lparr>RandMsg := ZC_Rand (\<lambda>i. rs ! i)\<rparr>) (s3\<lparr>platform := h'\<rparr>)"
        using assms(1) a1 a2 ok1 False rs h' by (simp add: connect_to_def Let_def s3_def)
      then show ?thesis
        by (intro exI [of _ h'] exI [of _ "word_of_int (ans_res a1)"] exI [of _ 0] exI [of _ "ZC_Rand (\<lambda>i. rs ! i)"]
            exI [of _ "u32ServerAddrConfig (struSwitchInfo (g_struZcConfigDb s))"])
          (simp add: s3_def h cloud_update_def)
    qed
  qed
qed

lemma HF_ConnectToCloud_connects:
  assumes "HF_ConnectToCloud E s = Some (s', r)" "length (RandMsg (con s)) = 32"
  shows "connects s s'"
proof (cases "u32ServerAddrConfig (struSwitchInfo (g_struZcConfigDb s)) = 1")
  case True
  with assms connect_to_connects show ?thesis by (simp add: HF_ConnectToCloud_def Let_def)
next
  case False
  obtain a s1 where a: "ask E (call_gethostbyname (u8CloudAddr (struCloudInfo (g_struZcConfigDb s)))) s = (a, s1)" by fastforce
  obtain h where h: "s1 = s\<lparr>platform := h\<rparr>"
    using ask_same [OF a] by (elim same_but_platformE)
  show ?thesis
  proof (cases "ans_res a = 0")
    case True
    with assms(1) False a have "s' = s1" by (simp add: HF_ConnectToCloud_def Let_def)
    with connectsI [OF ask_same [OF a] assms(2)] show ?thesis by simp
  next
    case ok: False
    with assms(1) False a have "connect_to E (ans_val a) ZC_CLOUD_PORT s1 = Some (s', r)"
      by (simp add: HF_ConnectToCloud_def Let_def)
    from connect_to_connects [OF this] assms(2) show ?thesis
      by (simp add: h)
  qed
qed

lemma HF_ListenClient_listens:
  assumes "HF_ListenClient E s = Some (s', r)"
  shows "\<exists>h sock. s' = s\<lparr>platform := h,
        g_struProtocolController := (con s)\<lparr>struClientConnection :=
          (struClientConnection (con s))\<lparr>u32Socket := sock\<rparr>\<rparr>\<rparr>"
proof -
  have keep: "\<exists>h sock. s\<lparr>platform := x\<rparr> = s\<lparr>platform := h, g_struProtocolController := (con s)\<lparr>struClientConnection :=
      (struClientConnection (con s))\<lparr>u32Socket := sock\<rparr>\<rparr>\<rparr>" for x
    by (intro exI [of _ x] exI [of _ "u32Socket (struClientConnection (con s))"]) simp
  have new: "\<exists>h sock. con_update (\<lambda>c. c\<lparr>struClientConnection := (struClientConnection c)\<lparr>u32Socket := fd\<rparr>\<rparr>) (s\<lparr>platform := x\<rparr>)
      = s\<lparr>platform := h, g_struProtocolController := (con s)\<lparr>struClientConnection :=
      (struClientConnection (con s))\<lparr>u32Socket := sock\<rparr>\<rparr>\<rparr>" for x fd
    by (intro exI [of _ x] exI [of _ fd]) simp
  show ?thesis
    using assms keep new by (auto simp: HF_ListenClient_def Let_def ask_def tell_def split: if_split_asm)
qed

text \<open>The contract of the theory \<open>Adapter\<close> holds of these functions, whatever the outside answers.\<close>

interpretation hf: module_adapter "hf_adapter E" for E :: hf_env
proof unfold_locales
  fix fd d n p and s s' :: "'c hf_zc"
  assume "pfunSendTcpData (hf_adapter E) fd d n p s = Some s'"
  then show "same_but_platform s s'"
    by (simp add: hf_adapter_def HF_SendTcpData_def HF_SendTcpData_loop_same)
next
  fix fd d n p and s s' :: "'c hf_zc"
  assume "pfunSendUdpData (hf_adapter E) fd d n p s = Some s'"
  then show "same_but_platform s s'"
    by (auto simp: hf_adapter_def HF_SendUdpData_def elim!: bindE)
next
  fix d off m r and s s' :: "'c hf_zc"
  assume "pfunUpdate (hf_adapter E) d off m s = Some (s', r)"
  then show "same_but_platform s s'"
    by (auto simp: hf_adapter_def HF_FirmwareUpdate_def fwup_request_def ask_def Let_def elim!: bindE split: if_split_asm)
next
  fix m r and s s' :: "'c hf_zc"
  assume "pfunUpdateFinish (hf_adapter E) m s = Some (s', r)"
  then show "same_but_platform s s'"
    by (auto simp: hf_adapter_def HF_FirmwareUpdateFinish_def)
next
  fix d n r and s s' :: "'c hf_zc"
  assume "pfunSendToMoudle (hf_adapter E) d n s = Some (s', r)"
  then show "same_but_platform s s'"
    by (auto simp: hf_adapter_def HF_SendDataToMoudle_def ask_def tell_def elim!: bindE split: if_split_asm)
next
  fix s s' :: "'c hf_zc"
  assume "pfunRest (hf_adapter E) s = Some s'"
  then show "same_but_platform s s'"
    by (auto simp: hf_adapter_def HF_Rest_def)
next
  fix i and s s' :: "'c hf_zc"
  assume "pfunStopTimer (hf_adapter E) i s = Some s'"
  then show "same_but_platform s s'"
    by (auto simp: hf_adapter_def HF_StopTimer_def elim!: bindE)
next
  fix d n and s s' :: "'c hf_zc"
  assume "pfunWriteFlash (hf_adapter E) d n s = Some s'"
  then show "same_but_platform s s'"
    by (auto simp: hf_adapter_def HF_WriteDataToFlash_def intro: flash_write_same)
next
  fix ty iv r ix and s s' :: "'c hf_zc"
  assume "pfunSetTimer (hf_adapter E) ty iv s = Some (s', r, ix)"
  then show "(\<exists>j. r = ZC_RET_OK \<and> ix = Some (word_of_nat j) \<and> timer_started ty j s s')
      \<or> r = ZC_RET_ERROR \<and> ix = None \<and> same_but_platform s s'"
    by (intro HF_SetTimer_cases) (simp add: hf_adapter_def)
next
  fix r and s s' :: "'c hf_zc"
  assume "pfunConnectToCloud (hf_adapter E) s = Some (s', r)" "length (RandMsg (con s)) = 32"
  then show "connects s s'"
    by (intro HF_ConnectToCloud_connects) (simp_all add: hf_adapter_def)
next
  fix r and s s' :: "'c hf_zc"
  assume "pfunListenClient (hf_adapter E) s = Some (s', r)"
  then show "\<exists>h sock. s' = s\<lparr>platform := h, g_struProtocolController := (con s)\<lparr>struClientConnection :=
          (struClientConnection (con s))\<lparr>u32Socket := sock\<rparr>\<rparr>\<rparr>"
    by (intro HF_ListenClient_listens) (simp add: hf_adapter_def)
qed

end
