(* ===== verification/HfTasks.thy ===== *)
theory HfTasks
  imports HfAdapter
begin

text \<open>
  The rest of \<^verbatim>\<open>zc_hf_adpter.c\<close>: start, waking up and sleeping, and the bodies of the loops of its two tasks,
  \<^verbatim>\<open>HF_Cloudfunc\<close> (the machine, frames to the cloud, announcements) and \<^verbatim>\<open>HF_CloudRecvfunc\<close> (everything that
  arrives on a socket).
\<close>

section \<open>Start\<close>

definition tell_close :: "hf_env \<Rightarrow> u32 \<Rightarrow> 'c hf_zc \<Rightarrow> 'c hf_zc" where
  "tell_close E fd = tell E (call_close fd)"

definition uart_idle :: "'h zc \<Rightarrow> 'h zc" where
  "uart_idle s = s\<lparr>g_struUartBuffer := uart_reset (g_struUartBuffer s)\<rparr>"

definition HF_BcInit :: "hf_env \<Rightarrow> 'c hf_zc \<Rightarrow> 'c hf_zc" where
  "HF_BcInit E s =
     (let (a, s) = ask E (call_socket False) s;
          s = s\<lparr>g_Bcfd := word_of_int (ans_res a)\<rparr>;
          s = tell E (call_bind (g_Bcfd s) ZC_MOUDLE_PORT) s;
          s = con_update (\<lambda>c. c\<lparr>u16SendBcNum := 0\<rparr>) s
      in s\<lparr>g_pu8RemoteAddr := Some (0xFFFFFFFF, ZC_MOUDLE_BROADCAST_PORT), g_u32BcSleepCount := 10\<rparr>)"

text \<open>The last \<^verbatim>\<open>memcpy\<close> takes 20 bytes from a literal of 18.\<close>

definition HF_Init :: "hf_env \<Rightarrow> 'c hf_zc \<Rightarrow> 'c hf_zc" where
  "HF_Init E s =
     (let s = uart_idle (PCT_Init s);
          s = tell E (call_task_create 60) (tell E (call_task_create 59) s);
          (x, s) = indet 2 s
      in config_update
           (\<lambda>w. w\<lparr>u32SecSwitch := 0, u32TraceSwitch := 0, u32WifiConfig := 0, u32ServerAddrConfig := 0\<rparr>)
           (\<lambda>w. w\<lparr>u8CloudAddr := c_string ''test.ablecloud.cn'' @ x\<rparr>) s)"

section \<open>Waking up and sleeping\<close>

definition g_u8EqVersion :: "u8 list" where
  "g_u8EqVersion = [0, 0, 0, 0]"

definition g_u8DeviceId :: "u8 list" where
  "g_u8DeviceId = replicate 16 (of_char (CHR ''8''))"

text \<open>The bytes of \<^verbatim>\<open>g_u64Domain\<close>: \<^verbatim>\<open>SUB_DOMAIN_ID\<close> 6 shifted by 56 and \<^verbatim>\<open>MAJOR_DOMAIN_ID\<close> 3 by 40.\<close>

definition g_u64Domain :: "u8 list" where
  "g_u64Domain = [0, 0, 0, 0, 0, 3, 0, 6]"

definition g_u8ModuleKey :: "u8 list" where
  "g_u8ModuleKey = [
     0x8d, 0xc2, 0xf2, 0xae, 0xbc, 0x7b, 0xdc, 0x93, 0x80, 0xde, 0xb9, 0x6c, 0xa0, 0xe3, 0x93, 0x5d,
     0x89, 0x30, 0x7f, 0x1e, 0xec, 0x7f, 0xd3, 0x75, 0x3c, 0x3d, 0x4b, 0xd6, 0x59, 0x8a, 0xb3, 0x2b,
     0xea, 0x76, 0xb5, 0x4d, 0x3a, 0xb8, 0x75, 0xfc, 0xbb, 0xc6, 0x49, 0xa3, 0x48, 0x5b, 0x89, 0x2f,
     0x9a, 0xc8, 0x65, 0x68, 0x9a, 0x07, 0x15, 0x71, 0x03, 0x92, 0x10, 0x0e, 0x8c, 0x7b, 0x7e, 0xc5,
     0x1e, 0x8b, 0x9c, 0x8f, 0x15, 0x29, 0x56, 0xe5, 0xb8, 0x28, 0xdb, 0x0b, 0x14, 0xb0, 0x28, 0x2d,
     0x7d, 0x68, 0xd9, 0x21, 0x83, 0x8b, 0x31, 0xc8, 0x3b, 0xc8, 0x60, 0xd2, 0x28, 0xe8, 0xf6, 0xb1,
     0xcb, 0x26, 0x19, 0x68, 0x7c, 0x69, 0x4a, 0x80, 0xa5, 0x80, 0xd8, 0x0c, 0x3f, 0x43, 0x8f, 0x95]"

definition HF_WakeUp :: "hf_env \<Rightarrow> 'c hf_zc \<Rightarrow> 'c hf_zc option" where
  "HF_WakeUp E s = do {
     s \<leftarrow> PCT_WakeUp (hf_adapter E) s;
     s \<leftarrow> (if u8RegisterTimer (con s) \<noteq> PCT_TIMER_INVAILD then do {
         s \<leftarrow> TIMER_StopTimer (hf_adapter E) (u8RegisterTimer (con s)) s;
         Some (con_update (\<lambda>c. c\<lparr>u8RegisterTimer := PCT_TIMER_INVAILD\<rparr>) s)
       } else Some s);
     let s = s\<lparr>g_struRegisterInfo := \<lparr>u8PrivateKey = g_u8ModuleKey, u8DeviciId = g_u8DeviceId @ g_u64Domain,
       u8EqVersion = g_u8EqVersion\<rparr>\<rparr>;
     s \<leftarrow> flash_write E USER_FLASH_PARAM2_ADDR (RegisterInfo_bytes (g_struRegisterInfo s)) 140 s;
     s \<leftarrow> HF_ReadRegisterInfoFromFlash s;
     s \<leftarrow> HF_ReadRegisterInfoFromFlash s;
     Some (con_update (\<lambda>c. c\<lparr>u8MainState := PCT_STATE_ACCESS_NET\<rparr>) s)
   }"

fun close_clients :: "nat \<Rightarrow> nat \<Rightarrow> hf_env \<Rightarrow> 'c hf_zc \<Rightarrow> 'c hf_zc option" where
  "close_clients 0 i E s = Some s"
| "close_clients (Suc k) i E s = do {
     fl \<leftarrow> rd1 (u32ClientVaildFlag (g_struClientInfo s)) i;
     s \<leftarrow> (if fl = 0 then do {
         fd \<leftarrow> rd1 (u32ClientFd (g_struClientInfo s)) i;
         let s = tell_close E fd s;
         fds \<leftarrow> wr1 (u32ClientFd (g_struClientInfo s)) i PCT_INVAILD_SOCKET;
         Some (client_update (\<lambda>c. c\<lparr>u32ClientFd := fds\<rparr>) s)
       } else Some s);
     close_clients k (Suc i) E s
   }"

definition HF_Sleep :: "hf_env \<Rightarrow> 'c hf_zc \<Rightarrow> 'c hf_zc option" where
  "HF_Sleep E s = do {
     let s = tell_close E (g_Bcfd s) s;
     let s = (if u32Socket (struClientConnection (con s)) \<noteq> PCT_INVAILD_SOCKET
              then con_update (\<lambda>c. c\<lparr>struClientConnection := (struClientConnection c)\<lparr>u32Socket := PCT_INVAILD_SOCKET\<rparr>\<rparr>)
                     (tell_close E (u32Socket (struClientConnection (con s))) s)
              else s);
     let s = (if u32Socket (struCloudConnection (con s)) \<noteq> PCT_INVAILD_SOCKET
              then cloud_update (\<lambda>k. k\<lparr>u32Socket := PCT_INVAILD_SOCKET\<rparr>)
                     (tell_close E (u32Socket (struCloudConnection (con s))) s)
              else s);
     s \<leftarrow> close_clients ZC_MAX_CLIENT_NUM 0 E s;
     s \<leftarrow> PCT_Sleep (hf_adapter E) s;
     Some (uart_idle s)
   }"

section \<open>The task that sends\<close>

definition HF_Cloudfunc_turn :: "hf_env \<Rightarrow> 'c hf_zc \<Rightarrow> 'c hf_zc option" where
  "HF_Cloudfunc_turn E s = do {
     let fd = u32Socket (struCloudConnection (con s));
     s \<leftarrow> PCT_Run (hf_adapter E) s;
     s \<leftarrow> (if u8MainState (con s) = PCT_STATE_DISCONNECT_CLOUD then do {
         let (a, s) = ask E call_rand (tell_close E fd s);
         s \<leftarrow> PCT_ReconnectCloud (hf_adapter E) (PCT_TIMER_INTERVAL_RECONNECT * (ans_val a mod 10 + 1)) s;
         Some (uart_idle s)
       } else MSG_SendDataToCloud (hf_adapter E) (u32Socket (struCloudConnection (con s))) s);
     ZC_SendBc (hf_adapter E) s
   }"

section \<open>The task that receives\<close>

text \<open>
  Descriptor sets of one byte (\<^verbatim>\<open>FD_SETSIZE\<close> is 8).  A descriptor of type \<^verbatim>\<open>u32\<close> is divided as an unsigned
  number, \<^verbatim>\<open>g_Bcfd\<close> as a signed one; an index beyond the byte is undefined.
\<close>

definition FD_SET :: "u32 \<Rightarrow> u8 \<Rightarrow> u8 option" where
  "FD_SET n p = (if n div 8 = 0 then Some (p OR push_bit (unat (n AND 7)) 1) else None)"

definition FD_ISSET :: "u32 \<Rightarrow> u8 \<Rightarrow> bool option" where
  "FD_ISSET n p = (if n div 8 = 0 then Some (bit p (unat (n AND 7))) else None)"

definition FD_SET_int :: "u32 \<Rightarrow> u8 \<Rightarrow> u8 option" where
  "FD_SET_int n p = (if - 8 < sint n \<and> sint n < 8 then Some (p OR push_bit (unat (n AND 7)) 1) else None)"

definition FD_ISSET_int :: "u32 \<Rightarrow> u8 \<Rightarrow> bool option" where
  "FD_ISSET_int n p = (if - 8 < sint n \<and> sint n < 8 then Some (bit p (unat (n AND 7))) else None)"

text \<open>The set, the greatest descriptor so far, and whether anything but the broadcast socket is in the set.\<close>

definition add_fd :: "u32 \<Rightarrow> u8 \<times> u32 \<times> bool \<Rightarrow> (u8 \<times> u32 \<times> bool) option" where
  "add_fd fd = (\<lambda>(p, m, active). do { p \<leftarrow> FD_SET fd p; Some (p, if m > fd then m else fd, True) })"

fun add_clients :: "nat \<Rightarrow> nat \<Rightarrow> ZC_ClientInfo \<Rightarrow> u8 \<times> u32 \<times> bool \<Rightarrow> (u8 \<times> u32 \<times> bool) option" where
  "add_clients 0 i c x = Some x"
| "add_clients (Suc k) i c x = do {
     fl \<leftarrow> rd1 (u32ClientVaildFlag c) i;
     x \<leftarrow> (if fl = 0 then do { fd \<leftarrow> rd1 (u32ClientFd c) i; add_fd fd x } else Some x);
     add_clients k (Suc i) c x
   }"

definition cloud_readable :: "'h zc \<Rightarrow> bool" where
  "cloud_readable s \<longleftrightarrow> u8MainState (con s) \<ge> PCT_STATE_WAIT_ACCESSRSP \<and> u8MainState (con s) < PCT_STATE_DISCONNECT_CLOUD"

definition watch :: "u32 \<Rightarrow> 'h zc \<Rightarrow> (u8 \<times> u32 \<times> bool) option" where
  "watch m s = do {
     p \<leftarrow> FD_SET_int (g_Bcfd s) 0;
     let x = (p, if m > g_Bcfd s then m else g_Bcfd s, False);
     x \<leftarrow> (if PCT_INVAILD_SOCKET \<noteq> u32Socket (struClientConnection (con s))
          then add_fd (u32Socket (struClientConnection (con s))) x else Some x);
     x \<leftarrow> (if cloud_readable s then add_fd (u32Socket (struCloudConnection (con s))) x else Some x);
     add_clients ZC_MAX_CLIENT_NUM 0 (g_struClientInfo s) x
   }"

text \<open>\<^verbatim>\<open>recv\<close> into a buffer of \<open>n\<close> bytes: the result and the bytes.\<close>

definition receive :: "hf_env \<Rightarrow> hf_call \<Rightarrow> nat \<Rightarrow> 'c hf_zc \<Rightarrow> int \<times> u8 list \<times> 'c hf_zc" where
  "receive E x n s = (let (a, s) = ask E x s in (min (ans_res a) (int n), take n (ans_data a @ replicate n 0), s))"

definition serve_cloud :: "hf_env \<Rightarrow> u8 \<Rightarrow> 'c hf_zc \<Rightarrow> 'c hf_zc option" where
  "serve_cloud E p s =
     (if cloud_readable s then do {
        r \<leftarrow> FD_ISSET (u32Socket (struCloudConnection (con s))) p;
        if r then
          (let (n, d, s) = receive E (call_recv (u32Socket (struCloudConnection (con s)))) 1000 s
           in if n > 0 then MSG_RecvDataFromCloud (hf_adapter E) d (word_of_int n) s
              else do {
                s \<leftarrow> PCT_DisConnectCloud (hf_adapter E) s;
                Some (uart_idle s)
              })
        else Some s
      } else Some s)"

definition serve_client :: "hf_env \<Rightarrow> u8 \<Rightarrow> u32 \<Rightarrow> 'c hf_zc \<Rightarrow> 'c hf_zc option" where
  "serve_client E p fd s = do {
     r \<leftarrow> FD_ISSET fd p;
     if r then
       (let (n, d, s) = receive E (call_recv fd) 1000 s
        in if n > 0 then ZC_RecvDataFromClient (hf_adapter E) fd d (word_of_int n) s
           else do {
             s \<leftarrow> ZC_ClientDisconnect fd s;
             Some (tell_close E fd s)
           })
     else Some s
   }"

fun serve_clients :: "nat \<Rightarrow> nat \<Rightarrow> hf_env \<Rightarrow> u8 \<Rightarrow> 'c hf_zc \<Rightarrow> 'c hf_zc option" where
  "serve_clients 0 i E p s = Some s"
| "serve_clients (Suc k) i E p s = do {
     fl \<leftarrow> rd1 (u32ClientVaildFlag (g_struClientInfo s)) i;
     s \<leftarrow> (if fl = 0 then do {
         fd \<leftarrow> rd1 (u32ClientFd (g_struClientInfo s)) i;
         serve_client E p fd s
       } else Some s);
     serve_clients k (Suc i) E p s
   }"

text \<open>The result of \<^verbatim>\<open>accept\<close> is not checked.\<close>

definition serve_accept :: "hf_env \<Rightarrow> u8 \<Rightarrow> 'c hf_zc \<Rightarrow> 'c hf_zc option" where
  "serve_accept E p s =
     (if PCT_INVAILD_SOCKET \<noteq> u32Socket (struClientConnection (con s)) then do {
        r \<leftarrow> FD_ISSET (u32Socket (struClientConnection (con s))) p;
        if r then do {
          let (a, s) = ask E (call_accept (u32Socket (struClientConnection (con s)))) s;
          let connfd = word_of_int (ans_res a);
          (s, r) \<leftarrow> ZC_ClientConnect connfd s;
          Some (if r = ZC_RET_ERROR then tell_close E connfd s else s)
        } else Some s
      } else Some s)"

definition serve_bc :: "hf_env \<Rightarrow> u8 \<Rightarrow> 'c hf_zc \<Rightarrow> 'c hf_zc option" where
  "serve_bc E p s = do {
     r \<leftarrow> FD_ISSET_int (g_Bcfd s) p;
     if r then
       (let (n, d, s) = receive E (call_recvfrom (g_Bcfd s)) 100 s
        in if n > 0 then ZC_SendClientQueryReq (hf_adapter E) d (word_of_int n) s else Some s)
     else Some s
   }"

definition HF_CloudRecvfunc_turn :: "hf_env \<Rightarrow> u32 \<Rightarrow> 'c hf_zc \<Rightarrow> ('c hf_zc \<times> u32) option" where
  "HF_CloudRecvfunc_turn E u32MaxFd s = do {
     s \<leftarrow> ZC_StartClientListen (hf_adapter E) s;
     (p, m, active) \<leftarrow> watch u32MaxFd s;
     if \<not> active then Some (s, m)
     else do {
       let (a, s) = ask E (call_select (m + 1) p) s;
       let p = ucast (ans_val a);
       s \<leftarrow> serve_cloud E p s;
       s \<leftarrow> serve_clients ZC_MAX_CLIENT_NUM 0 E p s;
       s \<leftarrow> serve_accept E p s;
       s \<leftarrow> serve_bc E p s;
       Some (s, m)
     }
   }"

end
