(* ===== verification/System.thy ===== *)
theory System
  imports HfTasks
begin

text \<open>
  The whole module as a transition system: the turns of the two tasks, the timer callback, the events of the
  network, and the messages the application takes and sends, in any order.  A step is one call or one turn of a
  loop, run to its end: the system is modelled at the granularity of turns, not of instructions, so preemption of
  one task by another inside a turn is not covered.
\<close>

section \<open>The invariant of every operation\<close>

lemma uart_idle_inv: "zc_inv s \<Longrightarrow> zc_inv (uart_idle s)" "con (uart_idle s) = con s"
  by (simp_all add: uart_idle_def zc_inv_def zc_rest_def recv_fields_ok_def uart_ok_def)

lemma platform_inv: "same_but_platform s s' \<Longrightarrow> zc_inv s \<Longrightarrow> zc_inv s' \<and> con s' = con s"
  by (auto simp: same_but_platform_def ac_buffers_inv)

lemma tell_inv: "zc_inv s \<Longrightarrow> zc_inv (tell E x s)" "con (tell E x s) = con s" "u8MainState (con (tell E x s)) = u8MainState (con s)"
  by (simp_all add: tell_def ask_def ac_buffers_inv)

lemma HF_BcInit_inv: "zc_inv s \<Longrightarrow> zc_inv (HF_BcInit E s)" "u8MainState (con (HF_BcInit E s)) = u8MainState (con s)"
  by (simp_all add: HF_BcInit_def Let_def ask_def tell_def zc_inv_def zc_rest_def recv_fields_ok_def con_ok_def)

lemma HF_Init_inv: "zc_inv (HF_Init E (zc_start st h))" "u8MainState (con (HF_Init E (zc_start st h))) = PCT_STATE_INIT"
proof -
  define s where "s = tell E (call_task_create 60) (tell E (call_task_create 59) (uart_idle (PCT_Init (zc_start st h))))"
  have s: "zc_inv s" "con s = con (PCT_Init (zc_start st h))"
    by (simp_all add: s_def tell_inv uart_idle_inv PCT_Init_inv)
  define s1 where "s1 = snd (indet 2 s)"
  have s1: "zc_inv s1" "con s1 = con s" "g_struZcConfigDb s1 = g_struZcConfigDb s"
    using s(1) by (simp_all add: s1_def indet_def ac_buffers_inv)
  have init: "HF_Init E (zc_start st h) = config_update
           (\<lambda>w. w\<lparr>u32SecSwitch := 0, u32TraceSwitch := 0, u32WifiConfig := 0, u32ServerAddrConfig := 0\<rparr>)
           (\<lambda>w. w\<lparr>u8CloudAddr := c_string ''test.ablecloud.cn'' @ fst (indet 2 s)\<rparr>) s1"
    by (simp add: HF_Init_def Let_def s_def [symmetric] s1_def split_beta)
  have "length (fst (indet 2 s)) = 2"
    by (simp add: indet_def)
  then have "config_ok (g_struZcConfigDb (HF_Init E (zc_start st h)))"
    using s1 unfolding init by (simp add: config_ok_def zc_inv_def zc_rest_def)
  with s1(1) show "zc_inv (HF_Init E (zc_start st h))"
    unfolding init by (simp add: zc_inv_def)
  show "u8MainState (con (HF_Init E (zc_start st h))) = PCT_STATE_INIT"
    unfolding init by (simp add: s1(2) s(2) PCT_Init_def Let_def ZC_ClientInit_def client_update_def)
qed

lemma field_inv:
  "zc_inv s \<Longrightarrow> register_ok r \<Longrightarrow> zc_inv (s\<lparr>g_struRegisterInfo := r\<rparr>)"
  "zc_inv s \<Longrightarrow> config_ok c \<Longrightarrow> zc_inv (s\<lparr>g_struZcConfigDb := c\<rparr>)"
  "zc_inv s \<Longrightarrow> zc_inv (client_update (\<lambda>c. c\<lparr>u32ClientFd := (u32ClientFd c)[i := x]\<rparr>) s)"
  by (simp_all add: zc_inv_def zc_rest_def recv_fields_ok_def client_update_def client_ok_def)

text \<open>Reads leave objects of the same length.\<close>

lemma flash_read_length:
  assumes "flash_read addr b n s = Some (b', s')"
  shows "length b' = length b" "same_but_platform s s'"
  using assms
  by (auto simp: flash_read_def tls_fls_read_def Let_def elim!: bindE split: sum.splits if_split_asm dest: length_wr)

lemma HF_ReadRegisterInfoFromFlash_inv:
  assumes "HF_ReadRegisterInfoFromFlash s = Some s'" "zc_inv s"
  shows "zc_inv s' \<and> con s' = con s"
proof -
  obtain b s1 where b: "flash_read USER_FLASH_PARAM2_ADDR (RegisterInfo_bytes (g_struRegisterInfo s)) 140 s = Some (b, s1)"
      "s' = s1\<lparr>g_struRegisterInfo := RegisterInfo_of b\<rparr>"
    using assms(1) by (auto simp: HF_ReadRegisterInfoFromFlash_def elim!: bindE)
  have "length b = 140"
    using flash_read_length(1) [OF b(1)] RegisterInfo_of_bytes(2) assms(2) by (simp add: zc_inv_def zc_rest_def)
  then have "register_ok (RegisterInfo_of b)"
    by (simp add: register_ok_def RegisterInfo_of_def)
  with platform_inv [OF flash_read_length(2) [OF b(1)] assms(2)] b(2) show ?thesis
    by (simp add: field_inv)
qed

lemma HF_ReadDataFromFlash_inv:
  assumes "HF_ReadDataFromFlash s = Some s'" "zc_inv s"
  shows "zc_inv s' \<and> con s' = con s"
proof -
  obtain m s1 where m: "flash_read USER_FLASH_PARAM1_ADDR (bytes32 0xFFFFFFFF) 4 s = Some (m, s1)"
      "(if le32 m = ZC_MAGIC_FLAG then do {
       (b, s) \<leftarrow> flash_read USER_FLASH_PARAM1_ADDR (ConfigDB_bytes (g_struZcConfigDb s1)) 296 s1;
       Some (s\<lparr>g_struZcConfigDb := ConfigDB_of b\<rparr>)
     } else Some s1) = Some s'"
    using assms(1) unfolding HF_ReadDataFromFlash_def by (elim bind2E) (rule that)
  have s1: "zc_inv s1 \<and> con s1 = con s"
    by (rule platform_inv [OF flash_read_length(2) [OF m(1)] assms(2)])
  show ?thesis
  proof (cases "le32 m = ZC_MAGIC_FLAG")
    case True
    with m(2) obtain b s2 where b: "flash_read USER_FLASH_PARAM1_ADDR (ConfigDB_bytes (g_struZcConfigDb s1)) 296 s1 = Some (b, s2)"
        "s' = s2\<lparr>g_struZcConfigDb := ConfigDB_of b\<rparr>"
      by (auto elim!: bindE)
    have "length b = 296"
      using flash_read_length(1) [OF b(1)] ConfigDB_of_bytes(2) s1 by (simp add: zc_inv_def zc_rest_def)
    then have "config_ok (ConfigDB_of b)"
      by (simp add: config_ok_def ConfigDB_of_def ConnectionInfo_of_def CloudInfo_of_def SwitchInfo_of_def)
    with platform_inv [OF flash_read_length(2) [OF b(1)]] s1 b(2) show ?thesis
      by (simp add: field_inv)
  qed (use m(2) s1 in simp)
qed

lemma stop_register_inv:
  assumes "(if u8RegisterTimer (con s) \<noteq> PCT_TIMER_INVAILD then do {
         s \<leftarrow> TIMER_StopTimer (hf_adapter E) (u8RegisterTimer (con s)) s;
         Some (con_update (\<lambda>c. c\<lparr>u8RegisterTimer := PCT_TIMER_INVAILD\<rparr>) s)
       } else Some s) = Some s'" "zc_inv s"
  shows "zc_inv s'"
proof (cases "u8RegisterTimer (con s) = PCT_TIMER_INVAILD")
  case False
  with assms(1) obtain s1 where "TIMER_StopTimer (hf_adapter E) (u8RegisterTimer (con s)) s = Some s1"
      "s' = con_update (\<lambda>c. c\<lparr>u8RegisterTimer := PCT_TIMER_INVAILD\<rparr>) s1"
    by (auto elim!: bindE)
  with hf.TIMER_StopTimer_rest [OF this(1)] assms(2) show ?thesis
    by (simp add: zc_inv_def con_ok_def)
qed (use assms in simp)

lemma HF_WakeUp_inv:
  assumes "HF_WakeUp E s = Some s'" "zc_inv s"
  shows "zc_inv s' \<and> u8MainState (con s') = PCT_STATE_ACCESS_NET"
proof -
  let ?r = "\<lparr>u8PrivateKey = g_u8ModuleKey, u8DeviciId = g_u8DeviceId @ g_u64Domain, u8EqVersion = g_u8EqVersion\<rparr>"
  obtain s1 s2 s3 s4 s5 where s1: "PCT_WakeUp (hf_adapter E) s = Some s1"
    and s2: "(if u8RegisterTimer (con s1) \<noteq> PCT_TIMER_INVAILD then do {
         s \<leftarrow> TIMER_StopTimer (hf_adapter E) (u8RegisterTimer (con s1)) s1;
         Some (con_update (\<lambda>c. c\<lparr>u8RegisterTimer := PCT_TIMER_INVAILD\<rparr>) s)
       } else Some s1) = Some s2"
    and s3: "flash_write E USER_FLASH_PARAM2_ADDR (RegisterInfo_bytes ?r) 140 (s2\<lparr>g_struRegisterInfo := ?r\<rparr>) = Some s3"
    and s45: "HF_ReadRegisterInfoFromFlash s3 = Some s4" "HF_ReadRegisterInfoFromFlash s4 = Some s5"
    and s': "s' = con_update (\<lambda>c. c\<lparr>u8MainState := PCT_STATE_ACCESS_NET\<rparr>) s5"
    using assms(1) unfolding HF_WakeUp_def Let_def by (elim bindE) simp
  have "zc_inv s1" using hf.PCT_WakeUp_inv [OF s1 assms(2)] by simp
  from stop_register_inv [OF s2 this] have "zc_inv s2" .
  moreover have "register_ok ?r"
    by (simp add: register_ok_def g_u8ModuleKey_def g_u8DeviceId_def g_u64Domain_def g_u8EqVersion_def)
  ultimately have "zc_inv (s2\<lparr>g_struRegisterInfo := ?r\<rparr>)"
    by (simp add: zc_inv_def zc_rest_def recv_fields_ok_def)
  from platform_inv [OF flash_write_same [OF s3] this] have "zc_inv s3" by simp
  then have "zc_inv s5"
    using HF_ReadRegisterInfoFromFlash_inv [OF s45(1)] HF_ReadRegisterInfoFromFlash_inv [OF s45(2)] by simp
  then show ?thesis by (simp add: s' zc_inv_def con_ok_def)
qed

lemma close_clients_inv:
  "close_clients k i E s = Some s' \<Longrightarrow> zc_inv s \<Longrightarrow> zc_inv s' \<and> con s' = con s"
proof (induction k arbitrary: i s)
  case (Suc k)
  then obtain fl s1 where fl: "rd1 (u32ClientVaildFlag (g_struClientInfo s)) i = Some fl"
    and s1: "(if fl = 0 then do {
         fd \<leftarrow> rd1 (u32ClientFd (g_struClientInfo s)) i;
         let s = tell_close E fd s;
         fds \<leftarrow> wr1 (u32ClientFd (g_struClientInfo s)) i PCT_INVAILD_SOCKET;
         Some (client_update (\<lambda>c. c\<lparr>u32ClientFd := fds\<rparr>) s)
       } else Some s) = Some s1" and rest: "close_clients k (Suc i) E s1 = Some s'"
    unfolding close_clients.simps by (elim bindE)
  have "s1 = s \<or> (\<exists>fd x. s1 = client_update (\<lambda>c. c\<lparr>u32ClientFd := (u32ClientFd c)[i := x]\<rparr>) (tell E (call_close fd) s))"
  proof (cases "fl = 0")
    case True
    with s1 obtain fd where "s1 = client_update (\<lambda>c. c\<lparr>u32ClientFd := (u32ClientFd (g_struClientInfo s))[i := PCT_INVAILD_SOCKET]\<rparr>)
        (tell E (call_close fd) s)"
      by (auto simp: tell_close_def wr1_eq_Some tell_def ask_def elim!: bindE)
    then have "s1 = client_update (\<lambda>c. c\<lparr>u32ClientFd := (u32ClientFd c)[i := PCT_INVAILD_SOCKET]\<rparr>) (tell E (call_close fd) s)"
      by (simp add: client_update_def tell_def ask_def)
    then show ?thesis by blast
  qed (use s1 in simp)
  then have "zc_inv s1 \<and> con s1 = con s"
    using Suc.prems(2) by (auto simp: field_inv tell_inv) (simp add: client_update_def tell_inv)
  with Suc.IH [OF rest] show ?case by simp
qed simp

lemma connection_inv:
  "zc_inv s \<Longrightarrow> zc_inv (con_update (\<lambda>c. c\<lparr>struClientConnection := f c\<rparr>) s)" "zc_inv s \<Longrightarrow> zc_inv (cloud_update g s)"
  by (simp_all add: zc_inv_def con_ok_def cloud_update_def)

lemma HF_Sleep_inv:
  assumes "HF_Sleep E s = Some s'" "zc_inv s"
  shows "zc_inv s' \<and> u8MainState (con s') = PCT_STATE_INIT"
proof -
  define s1 where "s1 = tell_close E (g_Bcfd s) s"
  define s2 where "s2 = (if u32Socket (struClientConnection (con s1)) \<noteq> PCT_INVAILD_SOCKET
              then con_update (\<lambda>c. c\<lparr>struClientConnection := (struClientConnection c)\<lparr>u32Socket := PCT_INVAILD_SOCKET\<rparr>\<rparr>)
                     (tell_close E (u32Socket (struClientConnection (con s1))) s1) else s1)"
  define s3 where "s3 = (if u32Socket (struCloudConnection (con s2)) \<noteq> PCT_INVAILD_SOCKET
              then cloud_update (\<lambda>k. k\<lparr>u32Socket := PCT_INVAILD_SOCKET\<rparr>)
                     (tell_close E (u32Socket (struCloudConnection (con s2))) s2) else s2)"
  have s3: "zc_inv s3"
    using assms(2) unfolding s3_def s2_def s1_def tell_close_def by (simp add: tell_inv connection_inv)
  obtain s4 s5 where s4: "close_clients ZC_MAX_CLIENT_NUM 0 E s3 = Some s4" and s5: "PCT_Sleep (hf_adapter E) s4 = Some s5"
      and s': "s' = uart_idle s5"
    using assms(1) unfolding HF_Sleep_def Let_def s1_def [symmetric] s2_def [symmetric] s3_def [symmetric]
    by (auto elim!: bindE)
  from hf.PCT_Sleep_inv [OF s5] close_clients_inv [OF s4 s3] show ?thesis
    by (simp add: s' uart_idle_inv)
qed

text \<open>The turn of the sending task.\<close>

definition main_edge :: "u8 \<Rightarrow> u8 \<Rightarrow> bool" where
  "main_edge a b \<longleftrightarrow> a = b \<or> b = PCT_STATE_INIT \<or> b = PCT_STATE_ACCESS_NET \<or> b = PCT_STATE_DISCONNECT_CLOUD
     \<or> a = PCT_STATE_ACCESS_NET \<and> b = PCT_STATE_WAIT_ACCESS
     \<or> a = PCT_STATE_WAIT_ACCESS \<and> b = PCT_STATE_WAIT_ACCESSRSP
     \<or> a = PCT_STATE_WAIT_ACCESSRSP \<and> b = PCT_STATE_WAIT_MSG4
     \<or> a = PCT_STATE_WAIT_MSG4 \<and> b = PCT_STATE_CONNECT_CLOUD"

abbreviation moves :: "'h zc \<Rightarrow> 'h zc \<Rightarrow> bool" where
  "moves s s' \<equiv> zc_inv s' \<and> main_edge (u8MainState (con s)) (u8MainState (con s'))"

lemma main_edge_refl [simp]: "main_edge a a"
  by (simp add: main_edge_def)

lemma HF_Cloudfunc_turn_inv:
  assumes "HF_Cloudfunc_turn E s = Some s'" "zc_inv s" "rsa_writes (hf_adapter E :: 'c hf PTC_ModuleAdapter)"
  shows "moves s (s' :: 'c hf_zc)"
proof -
  obtain s1 s2 where s1: "PCT_Run (hf_adapter E) s = Some s1"
    and s2: "(if u8MainState (con s1) = PCT_STATE_DISCONNECT_CLOUD
       then (case ask E call_rand (tell_close E (u32Socket (struCloudConnection (con s))) s1) of
         (a, s) \<Rightarrow> do {
           s \<leftarrow> PCT_ReconnectCloud (hf_adapter E) (PCT_TIMER_INTERVAL_RECONNECT * (ans_val a mod 10 + 1)) s;
           Some (uart_idle s)
         }) else MSG_SendDataToCloud (hf_adapter E) (u32Socket (struCloudConnection (con s1))) s1) = Some s2"
    and s': "ZC_SendBc (hf_adapter E) s2 = Some s'"
    using assms(1) unfolding HF_Cloudfunc_turn_def Let_def by (elim bindE) (rule that)
  have run: "moves s s1"
    using hf.PCT_Run_inv [OF s1 assms(2,3)] by (auto simp: main_edge_def)
  have "moves s s2"
  proof (cases "u8MainState (con s1) = PCT_STATE_DISCONNECT_CLOUD")
    case False
    with s2 have "MSG_SendDataToCloud (hf_adapter E) (u32Socket (struCloudConnection (con s1))) s1 = Some s2" by simp
    with hf.MSG_SendDataToCloud_zc_inv [OF this] run show ?thesis by simp
  next
    case True
    obtain a s3 where a: "ask E call_rand (tell_close E (u32Socket (struCloudConnection (con s))) s1) = (a, s3)" by fastforce
    with True s2 obtain s4 where s4: "PCT_ReconnectCloud (hf_adapter E) (PCT_TIMER_INTERVAL_RECONNECT * (ans_val a mod 10 + 1)) s3 = Some s4"
        "s2 = uart_idle s4"
      by (auto elim!: bindE)
    have "zc_inv s3 \<and> con s3 = con s1"
      using platform_inv [OF ask_same [OF a]] run by (simp add: tell_close_def tell_inv)
    with hf.PCT_ReconnectCloud_inv [OF s4(1)] run True show ?thesis
      by (auto simp: s4(2) uart_idle_inv main_edge_def)
  qed
  with hf.ZC_SendBc_cases [OF s'] show ?thesis by simp
qed

text \<open>The turn of the receiving task.\<close>

lemma receive_inv:
  assumes "receive E x n s = (k, d, s')" "zc_inv s"
  shows "zc_inv s' \<and> con s' = con s" "length d = n" "k \<le> int n"
  using assms(1) assms(2) by (auto simp: receive_def ask_def ac_buffers_inv)

lemma received_length:
  assumes "0 < k" "k \<le> int n" "n \<le> 1000"
  shows "unat (word_of_int k :: u32) = nat k" "unat (word_of_int k :: u32) \<le> n" "unat (word_of_int k :: u32) + 600 < 2 ^ 32"
proof -
  have "unat (word_of_nat (nat k) :: u32) = nat k"
    using assms by (intro unat_of_nat_small) simp
  then show u: "unat (word_of_int k :: u32) = nat k"
    using assms(1) by simp
  show "unat (word_of_int k :: u32) \<le> n" "unat (word_of_int k :: u32) + 600 < 2 ^ 32"
    using assms unfolding u by simp_all
qed

lemma serve_cloud_inv:
  assumes "serve_cloud E p s = Some s'" "zc_inv s" "rsa_writes (hf_adapter E :: 'c hf PTC_ModuleAdapter)"
  shows "moves s (s' :: 'c hf_zc)"
proof -
  let ?sock = "u32Socket (struCloudConnection (con s))"
  obtain n d s1 where r: "receive E (call_recv ?sock) 1000 s = (n, d, s1)" by (rule prod_cases3)
  note s1 = receive_inv [OF r assms(2)]
  consider "s' = s" | "n > 0" "MSG_RecvDataFromCloud (hf_adapter E) d (word_of_int n) s1 = Some s'"
    | s2 where "PCT_DisConnectCloud (hf_adapter E) s1 = Some s2" "s' = uart_idle s2"
    using assms(1) r by (auto simp: serve_cloud_def elim!: bindE split: if_split_asm)
  then show ?thesis
  proof cases
    case 2
    with MSG_RecvDataFromCloud_zc_inv [OF 2(2)] s1 received_length [OF 2(1) s1(3)] show ?thesis by simp
  next
    case 3
    from s1(1) have "zc_rest s1" "con_ok (con s1)" unfolding zc_inv_def by blast+
    from hf.disconnect_inv [OF 3(1) this] show ?thesis
      by (simp add: 3(2) uart_idle_inv main_edge_def)
  qed (use assms(2) in simp)
qed

lemma serve_client_inv:
  assumes "serve_client E p fd s = Some s'" "zc_inv s"
  shows "zc_inv s' \<and> u8MainState (con s') = u8MainState (con s)"
proof -
  obtain n d s1 where r: "receive E (call_recv fd) 1000 s = (n, d, s1)" by (rule prod_cases3)
  note s1 = receive_inv [OF r assms(2)]
  consider "s' = s" | "n > 0" "ZC_RecvDataFromClient (hf_adapter E) fd d (word_of_int n) s1 = Some s'"
    | s2 where "ZC_ClientDisconnect fd s1 = Some s2" "s' = tell_close E fd s2"
    using assms(1) r by (auto simp: serve_client_def elim!: bindE split: if_split_asm)
  then show ?thesis
  proof cases
    case 2
    with hf.ZC_RecvDataFromClient_inv [OF 2(2)] s1 received_length [OF 2(1) s1(3)] show ?thesis by simp
  next
    case 3
    with ZC_ClientDisconnect_inv [OF 3(1)] s1 show ?thesis
      by (simp add: tell_close_def tell_inv)
  qed (use assms(2) in simp)
qed

lemma serve_clients_inv:
  "serve_clients k i E p s = Some s' \<Longrightarrow> zc_inv s \<Longrightarrow> zc_inv s' \<and> u8MainState (con s') = u8MainState (con s)"
proof (induction k arbitrary: i s)
  case (Suc k)
  obtain fl :: u32 and s1 where fl: "(if fl = 0 then do { fd \<leftarrow> rd1 (u32ClientFd (g_struClientInfo s)) i; serve_client E p fd s } else Some s) = Some s1"
      and rest: "serve_clients k (Suc i) E p s1 = Some s'"
    using Suc.prems(1) unfolding serve_clients.simps by (elim bindE) (erule that, assumption)
  have s1: "s1 = s \<or> (\<exists>fd. serve_client E p fd s = Some s1)" "serve_clients k (Suc i) E p s1 = Some s'"
    using fl rest by (auto elim!: bindE split: if_split_asm)
  from s1(1) have "zc_inv s1 \<and> u8MainState (con s1) = u8MainState (con s)"
    using serve_client_inv Suc.prems(2) by blast
  with Suc.IH [OF s1(2)] show ?case by simp
qed simp

lemma serve_accept_inv:
  assumes "serve_accept E p s = Some s'" "zc_inv s"
  shows "zc_inv s' \<and> u8MainState (con s') = u8MainState (con s)"
proof -
  obtain a s1 where a: "ask E (call_accept (u32Socket (struClientConnection (con s)))) s = (a, s1)" by fastforce
  have s1: "zc_inv s1 \<and> con s1 = con s"
    by (rule platform_inv [OF ask_same [OF a] assms(2)])
  have "s' = s \<or> (\<exists>s2 r. ZC_ClientConnect (word_of_int (ans_res a)) s1 = Some (s2, r)
      \<and> s' = (if r = ZC_RET_ERROR then tell_close E (word_of_int (ans_res a)) s2 else s2))"
    using assms(1) a unfolding serve_accept_def Let_def by (auto elim!: bindE split: if_split_asm) blast+
  then show ?thesis
    using s1 assms(2) by (auto simp: tell_close_def tell_inv dest!: ZC_ClientConnect_inv)
qed

lemma serve_bc_inv:
  assumes "serve_bc E p s = Some s'" "zc_inv s"
  shows "zc_inv s' \<and> u8MainState (con s') = u8MainState (con s)"
proof -
  obtain n d s1 where r: "receive E (call_recvfrom (g_Bcfd s)) 100 s = (n, d, s1)" by (rule prod_cases3)
  note s1 = receive_inv [OF r assms(2)]
  have "s' = s \<or> s' = s1 \<or> ZC_SendClientQueryReq (hf_adapter E) d (word_of_int n) s1 = Some s'"
    using assms(1) r by (auto simp: serve_bc_def elim!: bindE split: if_split_asm)
  then show ?thesis
    using s1(1) assms(2) by (auto dest!: hf.ZC_SendClientQueryReq_inv)
qed

lemma HF_CloudRecvfunc_turn_inv:
  assumes "HF_CloudRecvfunc_turn E m s = Some (s', m')" "zc_inv s" "rsa_writes (hf_adapter E :: 'c hf PTC_ModuleAdapter)"
  shows "moves s (s' :: 'c hf_zc)"
proof -
  obtain s1 x where s1: "ZC_StartClientListen (hf_adapter E) s = Some s1" "watch m s1 = Some x"
    using assms(1) unfolding HF_CloudRecvfunc_turn_def by (elim bindE) (rule that)
  have inv1: "zc_inv s1" "u8MainState (con s1) = u8MainState (con s)"
    using hf.ZC_StartClientListen_inv [OF s1(1) assms(2)] by simp_all
  obtain q k active where x: "x = (q, k, active)" by (rule prod_cases3)
  obtain a s2 where a: "ask E (call_select (k + 1) q) s1 = (a, s2)" by fastforce
  have s2: "zc_inv s2 \<and> con s2 = con s1"
    by (rule platform_inv [OF ask_same [OF a] inv1(1)])
  show ?thesis
  proof (cases active)
    case False
    with assms(1) s1 x inv1 show ?thesis by (simp add: HF_CloudRecvfunc_turn_def)
  next
    case True
    define p :: u8 where "p = ucast (ans_val a)"
    from assms(1) True s1 x a obtain s3 s4 s5 where
        run: "serve_cloud E p s2 = Some s3" "serve_clients ZC_MAX_CLIENT_NUM 0 E p s3 = Some s4" "serve_accept E p s4 = Some s5"
        "serve_bc E p s5 = Some s'"
      by (auto simp: HF_CloudRecvfunc_turn_def Let_def p_def elim!: bindE)
    from s2 inv1 serve_cloud_inv [OF run(1) _ assms(3)] have s3: "moves s s3" by simp
    from serve_clients_inv [OF run(2)] s3 serve_accept_inv [OF run(3)] serve_bc_inv [OF run(4)] show ?thesis by simp
  qed
qed

lemma HF_timer_callback_inv:
  assumes "HF_timer_callback E h s = Some s'" "zc_inv s" "rsa_writes (hf_adapter E :: 'c hf PTC_ModuleAdapter)"
  shows "moves s (s' :: 'c hf_zc)"
proof -
  have "same_but_platform s s' \<or> (\<exists>i s1. TIMER_TimeoutAction (hf_adapter E) i s = Some s1 \<and> TIMER_StopTimer (hf_adapter E) i s1 = Some s')"
    using assms(1) by (auto simp: HF_timer_callback_def elim!: bindE split: if_split_asm
        dest!: hf_timer_update_same dest: same_but_platform_trans [OF _ tell_same])
  then show ?thesis
  proof (elim disjE exE conjE)
    assume "same_but_platform s s'"
    from platform_inv [OF this assms(2)] show ?thesis by simp
  next
    fix i s1 assume run: "TIMER_TimeoutAction (hf_adapter E) i s = Some s1" "TIMER_StopTimer (hf_adapter E) i s1 = Some s'"
    from hf.TIMER_TimeoutAction_inv [OF run(1) assms(2,3)] hf.TIMER_StopTimer_rest [OF run(2)] show ?thesis
      by (auto simp: zc_inv_def main_edge_def)
  qed
qed

section \<open>The system\<close>

text \<open>The LED of \<^verbatim>\<open>ac_hal.c\<close> through the GPIO driver, and the memory of the platform at the start.\<close>

definition hf_gpio :: "u16 \<Rightarrow> u8 \<Rightarrow> 'c hf \<Rightarrow> 'c hf" where
  "hf_gpio pin v h = h\<lparr>calls := calls h @ [call_gpio pin v]\<rparr>"

definition hf_start :: "'c flash \<Rightarrow> 'c hf" where
  "hf_start f = \<lparr>g_struHfTimer = replicate 10 \<lparr>u32FirstFlag = 0, struHandle = 0\<rparr>, g_u32session_id = 0,
     hf_flash = f, calls = []\<rparr>"

text \<open>
  A step: a turn of one of the tasks of the adapter (the second number is the variable \<^verbatim>\<open>u32MaxFd\<close> of
  \<^verbatim>\<open>HF_CloudRecvfunc\<close>), a timer, the two network events of \<^verbatim>\<open>UserTaskProc\<close>, the start of \<^verbatim>\<open>HF_Cloudfunc\<close>, the
  configuration read by \<^verbatim>\<open>CreateUserTask\<close>, a message that \<^verbatim>\<open>AppTask\<close> takes, or a message of the application.
\<close>

inductive hf_step :: "hf_env \<Rightarrow> 'c hf_zc \<times> u32 \<Rightarrow> 'c hf_zc \<times> u32 \<Rightarrow> bool" for E :: hf_env where
  cloud_turn: "HF_Cloudfunc_turn E s = Some s' \<Longrightarrow> hf_step E (s, m) (s', m)"
| recv_turn: "HF_CloudRecvfunc_turn E m s = Some (s', m') \<Longrightarrow> hf_step E (s, m) (s', m')"
| timer_fires: "HF_timer_callback E h s = Some s' \<Longrightarrow> hf_step E (s, m) (s', m)"
| net_up: "HF_WakeUp E s = Some s' \<Longrightarrow> hf_step E (s, m) (s', m)"
| net_down: "HF_Sleep E s = Some s' \<Longrightarrow> hf_step E (s, m) (HF_BcInit E s', m)"
| task_start: "hf_step E (s, m) (HF_BcInit E s, m)"
| load_config: "HF_ReadDataFromFlash s = Some s' \<Longrightarrow> hf_step E (s, m) (s', m)"
| app_takes: "AC_RecvMessage (hf_adapter E) hf_gpio msg s = Some s' \<Longrightarrow> hf_step E (s, m) (s', m)"
| app_resets: "AC_SendRestMsg (hf_adapter E) l s = Some s' \<Longrightarrow> hf_step E (s, m) (s', m)"
| app_acks: "AC_SendAckMsg (hf_adapter E) l i s = Some s' \<Longrightarrow> hf_step E (s, m) (s', m)"
| app_errors: "AC_SendErrMsg (hf_adapter E) l i d n s = Some s' \<Longrightarrow> hf_step E (s, m) (s', m)"
| app_status: "AC_SendLedStatus2Server (hf_adapter E) s = Some s' \<Longrightarrow> hf_step E (s, m) (s', m)"

inductive hf_reach :: "hf_env \<Rightarrow> (nat \<Rightarrow> u8) \<Rightarrow> 'c flash \<Rightarrow> 'c hf_zc \<times> u32 \<Rightarrow> bool" for E mem f where
  hf_boot: "hf_reach E mem f (HF_Init E (zc_start mem (hf_start f)), 0)"
| hf_next: "hf_reach E mem f x \<Longrightarrow> hf_step E x y \<Longrightarrow> hf_reach E mem f y"

inductive_cases hf_stepE: "hf_step E (s, m) (s', m')"

lemma ac_sends_inv:
  assumes "zc_inv s" "rsa_writes (hf_adapter E :: 'c hf PTC_ModuleAdapter)"
  shows "AC_SendRestMsg (hf_adapter E) l s = Some s' \<Longrightarrow> moves s (s' :: 'c hf_zc)"
    "AC_SendAckMsg (hf_adapter E) l i s = Some s' \<Longrightarrow> moves s s'"
    "AC_SendErrMsg (hf_adapter E) l i d n s = Some s' \<Longrightarrow> moves s s'"
    "AC_SendLedStatus2Server (hf_adapter E) s = Some s' \<Longrightarrow> moves s s'"
  using hf.ac_send_inv [OF _ assms] hf.ac_send_inv [OF _ _ assms(2), of SrcDev]
  by (auto simp: AC_SendRestMsg_def AC_SendAckMsg_def AC_SendErrMsg_def AC_SendLedStatus2Server_def indet_def
      main_edge_def ac_buffers_inv assms(1) dest!: hf.ac_send_inv [OF _ _ assms(2)])

lemma hf_step_moves:
  assumes "hf_step E (s, m) (s', m')" "zc_inv s" "rsa_writes (hf_adapter E :: 'c hf PTC_ModuleAdapter)"
  shows "moves s (s' :: 'c hf_zc)"
  using assms(1)
proof (elim hf_stepE)
  assume "HF_WakeUp E s = Some s'"
  from HF_WakeUp_inv [OF this assms(2)] show ?thesis by (simp add: main_edge_def)
next
  fix s1 assume "HF_Sleep E s = Some s1" "s' = HF_BcInit E s1"
  with HF_Sleep_inv [OF this(1) assms(2)] show ?thesis by (simp add: main_edge_def HF_BcInit_inv)
next
  assume "HF_ReadDataFromFlash s = Some s'"
  from HF_ReadDataFromFlash_inv [OF this assms(2)] show ?thesis by simp
next
  fix msg assume "AC_RecvMessage (hf_adapter E) hf_gpio msg s = Some s'"
  from hf.AC_RecvMessage_inv [OF this assms(2,3)] show ?thesis by (auto simp: main_edge_def)
qed (use HF_Cloudfunc_turn_inv [OF _ assms(2,3)] HF_CloudRecvfunc_turn_inv [OF _ assms(2,3)]
    HF_timer_callback_inv [OF _ assms(2,3)] assms(2) ac_sends_inv [OF assms(2,3)] in \<open>auto simp: HF_BcInit_inv\<close>)

section \<open>The order of the main states\<close>

text \<open>A run with the main states it went through, one for each step.\<close>

inductive hf_trace :: "hf_env \<Rightarrow> (nat \<Rightarrow> u8) \<Rightarrow> 'c flash \<Rightarrow> u8 list \<Rightarrow> 'c hf_zc \<times> u32 \<Rightarrow> bool" for E mem f where
  trace_boot: "hf_trace E mem f [PCT_STATE_INIT] (HF_Init E (zc_start mem (hf_start f)), 0)"
| trace_next: "hf_trace E mem f ts x \<Longrightarrow> hf_step E x y \<Longrightarrow> hf_trace E mem f (ts @ [u8MainState (con (fst y))]) y"

lemma hf_trace_reach: "hf_trace E mem f ts x \<Longrightarrow> hf_reach E mem f x"
  by (induction rule: hf_trace.induct) (auto intro: hf_reach.intros)

text \<open>The way to a state: from \<^verbatim>\<open>PCT_STATE_ACCESS_NET\<close> on, one state after the other.\<close>

inductive way :: "u8 list \<Rightarrow> u8 \<Rightarrow> bool" where
  way_start: "way (p @ [PCT_STATE_ACCESS_NET]) PCT_STATE_ACCESS_NET"
| way_stay: "way ts n \<Longrightarrow> way (ts @ [n]) n"
| way_next: "way ts n \<Longrightarrow> n \<in> {PCT_STATE_ACCESS_NET, PCT_STATE_WAIT_ACCESS, PCT_STATE_WAIT_ACCESSRSP, PCT_STATE_WAIT_MSG4}
    \<Longrightarrow> way (ts @ [n + 1]) (n + 1)"

definition phases :: "u8 list \<Rightarrow> u8 list \<Rightarrow> bool" where
  "phases ns ts \<longleftrightarrow> (\<exists>p ks. length ks = length ns \<and> ts = p @ concat (map2 (\<lambda>n k. replicate (Suc k) n) ns ks))"

lemma phases_start: "phases [n] (p @ [n])"
  unfolding phases_def by (rule exI [of _ p], rule exI [of _ "[0]"]) simp

lemma phases_next: "phases ns ts \<Longrightarrow> phases (ns @ [n]) (ts @ [n])"
  unfolding phases_def
proof (elim exE conjE)
  fix p ks assume "length ks = length ns" "ts = p @ concat (map2 (\<lambda>n k. replicate (Suc k) n) ns ks)"
  then show "\<exists>p ks. length ks = length (ns @ [n]) \<and> ts @ [n] = p @ concat (map2 (\<lambda>n k. replicate (Suc k) n) (ns @ [n]) ks)"
    by (intro exI [of _ p] exI [of _ "ks @ [0]"]) simp
qed

lemma phases_stay: "phases (ns @ [n]) ts \<Longrightarrow> phases (ns @ [n]) (ts @ [n])"
  unfolding phases_def
proof (elim exE conjE)
  fix p ks assume ks: "length ks = length (ns @ [n])" "ts = p @ concat (map2 (\<lambda>n k. replicate (Suc k) n) (ns @ [n]) ks)"
  then obtain ks' k where k: "ks = ks' @ [k]"
    by (cases ks rule: rev_cases) auto
  with ks show "\<exists>p ks. length ks = length (ns @ [n]) \<and> ts @ [n] = p @ concat (map2 (\<lambda>n k. replicate (Suc k) n) (ns @ [n]) ks)"
    by (intro exI [of _ p] exI [of _ "ks' @ [Suc k]"]) (simp add: replicate_append_same)
qed

definition phase_list :: "u8 \<Rightarrow> u8 list" where
  "phase_list n = map word_of_nat [2..<Suc (unat n)]"

lemma way_phases: "way ts n \<Longrightarrow> 2 \<le> unat n \<and> unat n \<le> 6 \<and> phases (phase_list n) ts"
proof (induction rule: way.induct)
  case (way_start p)
  then show ?case using phases_start [of 2 p] by (simp add: phase_list_def)
next
  case (way_stay ts n)
  then have "phase_list n = map word_of_nat [2..<unat n] @ [n]"
    by (simp add: phase_list_def)
  with way_stay.IH phases_stay show ?case by metis
next
  case (way_next ts n)
  then have "unat (n + 1) = unat n + 1" "unat n \<le> 5"
    by auto
  moreover from this have "phase_list (n + 1) = phase_list n @ [n + 1]"
    using way_next.IH by (simp add: phase_list_def)
  ultimately show ?case
    using way_next.IH phases_next [of "phase_list n" ts "n + 1"] by simp
qed

lemma trace_way:
  assumes "hf_trace E mem f ts x" "rsa_writes (hf_adapter E :: 'c hf PTC_ModuleAdapter)"
  shows "zc_inv (fst (x :: 'c hf_zc \<times> u32)) \<and> (PCT_STATE_ACCESS_NET \<le> u8MainState (con (fst x)) \<and> u8MainState (con (fst x)) \<le> PCT_STATE_CONNECT_CLOUD
    \<longrightarrow> way ts (u8MainState (con (fst x))))"
  using assms(1)
proof (induction rule: hf_trace.induct)
  case trace_boot
  show ?case by (simp add: HF_Init_inv word_le_nat_alt)
next
  case (trace_next ts x y)
  obtain s m where x: "x = (s, m)" by fastforce
  obtain s' m' where y: "y = (s', m')" by fastforce
  from trace_next x y have moves: "moves s s'"
    using hf_step_moves [OF _ _ assms(2)] by simp
  let ?a = "u8MainState (con s)" and ?b = "u8MainState (con s')"
  show ?case
  proof (intro conjI impI)
    show "zc_inv (fst y)" using moves y by simp
    assume range: "PCT_STATE_ACCESS_NET \<le> u8MainState (con (fst y)) \<and> u8MainState (con (fst y)) \<le> PCT_STATE_CONNECT_CLOUD"
    consider "?b = 2" | "?a = ?b" "?b \<noteq> 2"
      | "?b = ?a + 1" "?a \<in> {PCT_STATE_ACCESS_NET, PCT_STATE_WAIT_ACCESS, PCT_STATE_WAIT_ACCESSRSP, PCT_STATE_WAIT_MSG4}"
      using moves range y by (auto simp: main_edge_def word_le_nat_alt)
    then have "way (ts @ [?b]) ?b"
    proof cases
      case 1 then show ?thesis using way_start by simp
    next
      case 2 then show ?thesis using way_stay trace_next.IH range x y by simp
    next
      case 3
      then have "way ts ?a" using trace_next.IH x by auto
      from way_next [OF this 3(2)] 3(1) show ?thesis by simp
    qed
    then show "way (ts @ [u8MainState (con (fst y))]) (u8MainState (con (fst y)))"
      by (simp add: y)
  qed
qed

end
