(* ===== verification/SystemCorrect.thy ===== *)
theory SystemCorrect
  imports System
begin

text \<open>
  What the invariant and the order of the main states give for every run of the module, with a concrete
  environment in which runs exist.
\<close>

section \<open>A run\<close>

text \<open>Timers are refused, everything else succeeds; \<^verbatim>\<open>rsa_pkcs1_encrypt\<close> writes its block of 32 bytes.\<close>

definition plain_env :: hf_env where
  "plain_env = \<lparr>answer = (\<lambda>h x. \<lparr>ans_res = 1, ans_val = 1, ans_data = []\<rparr>),
     env_rsa_encrypt = rsa_pkcs1_encrypt (quiet_adapter :: unit PTC_ModuleAdapter),
     env_rsa_decrypt = rsa_pkcs1_decrypt (quiet_adapter :: unit PTC_ModuleAdapter), env_version = 0x0102, env_type = 1\<rparr>"

text \<open>No flash driver is registered.\<close>

definition no_flash :: "unit flash" where
  "no_flash = \<lparr>spi_fls = None, chip = (), gsflscache = None, gsSecOffset = 0, gsSector = 0\<rparr>"

abbreviation plain_boot :: "unit hf_zc" where
  "plain_boot \<equiv> HF_Init plain_env (zc_start (\<lambda>_. 0) (hf_start no_flash))"

lemma plain_env_writes: "rsa_writes (hf_adapter plain_env)"
  by (simp add: rsa_writes_def hf_adapter_def plain_env_def quiet_adapter_def)

lemma plain_ask: "ask plain_env x s = (\<lparr>ans_res = 1, ans_val = 1, ans_data = []\<rparr>,
    s\<lparr>platform := (platform s)\<lparr>calls := calls (platform s) @ [x]\<rparr>\<rparr>)"
  by (simp add: ask_def plain_env_def)

lemma plain_tell: "tell plain_env x s = s\<lparr>platform := (platform s)\<lparr>calls := calls (platform s) @ [x]\<rparr>\<rparr>"
  by (simp add: tell_def plain_ask)

definition calm :: "unit hf_zc \<Rightarrow> bool" where
  "calm s \<longleftrightarrow> zc_inv s \<and> spi_fls (hf_flash (platform s)) = None
     \<and> length (g_struHfTimer (platform s)) = 10 \<and> MSG_PopMsg (g_struSendQueue s) = Some (g_struSendQueue s, None)
     \<and> u8ReconnectTimer (con s) = PCT_TIMER_INVAILD \<and> u8RegisterTimer (con s) = PCT_TIMER_INVAILD"

lemma plain_boot_calm: "calm plain_boot"
  by (simp add: calm_def HF_Init_inv, simp add: HF_Init_def Let_def indet_def config_update_def plain_tell uart_idle_def
      PCT_Init_def ZC_ClientInit_def client_update_def TIMER_Init_def MSG_Init_def ZC_ConfigInitPara_def
      zc_start_def hf_start_def no_flash_def MSG_PopMsg_def MSG_InitQueue_def)

lemma plain_set_timer:
  assumes "length (g_struTimer s) = 10" "length (g_struHfTimer (platform s)) = 10"
  shows "\<exists>ts c. length ts = 10 \<and> set_timer (hf_adapter plain_env) ty iv fld s
    = Some (s\<lparr>platform := (platform s)\<lparr>g_struHfTimer := ts, calls := c\<rparr>\<rparr>)"
proof -
  have "\<exists>ts c. length ts = 10 \<and> HF_SetTimer plain_env ty iv s
      = Some (s\<lparr>platform := (platform s)\<lparr>g_struHfTimer := ts, calls := c\<rparr>\<rparr>, ZC_RET_ERROR, None)"
  proof (cases "\<exists>j<10. idle_timer (g_struTimer s ! j)")
    case True
    let ?P = "\<lambda>j. j < 10 \<and> idle_timer (g_struTimer s ! j)"
    define i where "i = (LEAST j. ?P j)"
    have i: "i < 10"
      using LeastI_ex [of ?P] True by (simp add: i_def)
    then have "unat (word_of_nat i :: u8) = i"
      by (simp add: unat_of_nat_small)
    with TIMER_FindIdleTimer_spec [OF assms(1)] True i assms(2)
    have "HF_SetTimer plain_env ty iv s = Some (s\<lparr>platform := (platform s)\<lparr>
        g_struHfTimer := (g_struHfTimer (platform s))[i := (g_struHfTimer (platform s) ! i)\<lparr>struHandle := 0\<rparr>],
        calls := calls (platform s) @ [call_timer_create (iv div 20)]\<rparr>\<rparr>, ZC_RET_ERROR, None)"
      by (simp add: HF_SetTimer_def plain_ask timer_handle_def hf_timer_update_def rd1_def wr1_def i_def)
    with assms(2) show ?thesis
      by (intro exI conjI) simp_all
  next
    case False
    with TIMER_FindIdleTimer_spec [OF assms(1)] assms(2) show ?thesis
      by (intro exI [of _ "g_struHfTimer (platform s)"] exI [of _ "calls (platform s)"]) (simp add: HF_SetTimer_def)
  qed
  then obtain ts c where "length ts = 10" "HF_SetTimer plain_env ty iv s
      = Some (s\<lparr>platform := (platform s)\<lparr>g_struHfTimer := ts, calls := c\<rparr>\<rparr>, ZC_RET_ERROR, None)"
    by (elim exE conjE) (rule that)
  then show ?thesis
    by (intro exI [of _ ts] exI [of _ c]) (simp add: set_timer_def hf_adapter_def store_index_def)
qed

lemma plain_notify:
  assumes "length (g_u8MsgBuildBuffer s) = 600"
  shows "\<exists>c m. length m = 600 \<and> PCT_SendNotifyMsg (hf_adapter plain_env) code s
    = Some (s\<lparr>g_u8MsgBuildBuffer := m, platform := (platform s)\<lparr>calls := c\<rparr>\<rparr>)"
proof -
  let ?m = "message code 0 [] @ drop 8 (g_u8MsgBuildBuffer s)"
  have "EVENT_BuildMsg code 0 (g_u8MsgBuildBuffer s) [] 0 = Some (?m, 8)"
    using EVENT_BuildMsg_message [of 0 "[]" "g_u8MsgBuildBuffer s" code 0] assms by simp
  moreover have "length ?m = 600"
    using assms by (simp add: length_message)
  ultimately show ?thesis
    by (intro exI [of _ "calls (platform s) @ [call_alloc 8, call_queue_send (take 8 ?m)]"] exI [of _ ?m])
      (simp add: PCT_SendNotifyMsg_def hf_adapter_def HF_SendDataToMoudle_def plain_ask plain_tell rd_Some)
qed

lemma plain_flash:
  assumes "spi_fls (hf_flash (platform s)) = None"
  shows "flash_read a b n s = Some (b, s)"
    "flash_write plain_env a b n s = Some (s\<lparr>platform := (platform s)\<lparr>calls := calls (platform s) @ [call_alloc 4096]\<rparr>\<rparr>)"
  using assms by (simp_all add: flash_read_def flash_write_def tls_fls_read_def tls_fls_write_def fls_drv_def plain_ask)

lemma plain_wake:
  assumes "calm s" "u8MainState (con s) = PCT_STATE_INIT"
  shows "\<exists>s'. HF_WakeUp plain_env s = Some s' \<and> calm s' \<and> u8MainState (con s') = PCT_STATE_ACCESS_NET"
proof -
  have len: "zc_inv s" "length (g_u8MsgBuildBuffer s) = 600" "length (g_struTimer s) = 10"
    using assms(1) zc_rest_lengths [of s] by (simp_all add: calm_def zc_inv_def)
  have ht: "length (g_struHfTimer (platform s)) = 10"
    using assms(1) by (simp add: calm_def)
  obtain ts c where c: "length ts = 10" "set_timer (hf_adapter plain_env) PCT_TIMER_REGISTER PCT_TIMER_INTERVAL_REGISTER u8RegisterTimer_update s
      = Some (s\<lparr>platform := (platform s)\<lparr>g_struHfTimer := ts, calls := c\<rparr>\<rparr>)"
    using plain_set_timer [OF len(3) ht] by blast
  let ?s = "con_update (u16SendBcNum_update (\<lambda>_. 0)) (s\<lparr>platform := (platform s)\<lparr>g_struHfTimer := ts, calls := c\<rparr>\<rparr>)"
  obtain d m where d: "PCT_SendNotifyMsg (hf_adapter plain_env) ZC_CODE_WIFI_CONNECTED ?s
      = Some (?s\<lparr>g_u8MsgBuildBuffer := m, platform := (platform ?s)\<lparr>calls := d\<rparr>\<rparr>)"
    using plain_notify [of ?s ZC_CODE_WIFI_CONNECTED] len(2) by auto
  obtain s' where s': "HF_WakeUp plain_env s = Some s'" "spi_fls (hf_flash (platform s')) = None" "length (g_struHfTimer (platform s')) = 10"
      "g_struSendQueue s' = g_struSendQueue s" "u8ReconnectTimer (con s') = u8ReconnectTimer (con s)"
      "u8RegisterTimer (con s') = u8RegisterTimer (con s)"
    using assms(1) by (simp add: HF_WakeUp_def PCT_WakeUp_def assms(2) c d ZC_ClientWakeUp_def client_update_def calm_def
        plain_flash HF_ReadRegisterInfoFromFlash_def Let_def)
  with HF_WakeUp_inv [OF s'(1) len(1)] assms(1) show ?thesis
    by (auto simp: calm_def)
qed

lemma plain_rands: "\<exists>c. rands n plain_env s = (replicate n 1, s\<lparr>platform := (platform s)\<lparr>calls := c\<rparr>\<rparr>)"
proof (induction n arbitrary: s)
  case 0
  show ?case by (simp add: exI [of _ "calls (platform s)"])
next
  case (Suc n)
  obtain c where "rands n plain_env (s\<lparr>platform := (platform s)\<lparr>calls := calls (platform s) @ [call_rand]\<rparr>\<rparr>)
      = (replicate n 1, s\<lparr>platform := (platform s)\<lparr>calls := c\<rparr>\<rparr>)"
    using Suc [of "s\<lparr>platform := (platform s)\<lparr>calls := calls (platform s) @ [call_rand]\<rparr>\<rparr>"] by auto
  then show ?case by (auto simp: plain_ask)
qed

lemma plain_connect_to:
  "\<exists>s'. connect_to plain_env ip port s = Some (s', ZC_RET_OK) \<and> g_struSendQueue s' = g_struSendQueue s"
proof -
  let ?x = "cloud_update (\<lambda>k. k\<lparr>u32ConnectionTimes := 0, u32Socket := 1\<rparr>)
    (s\<lparr>platform := (platform s)\<lparr>calls := calls (platform s) @ [call_socket True, call_connect 1 ip port]\<rparr>\<rparr>)"
  obtain c where "rands 8 plain_env ?x = (replicate 8 1, ?x\<lparr>platform := (platform ?x)\<lparr>calls := c\<rparr>\<rparr>)"
    using plain_rands [of 8 ?x] by (elim exE)
  then show ?thesis
    by (simp add: connect_to_def plain_ask cloud_update_def)
qed

lemma plain_connect:
  assumes "calm s" "u8MainState (con s) = PCT_STATE_ACCESS_NET"
  shows "\<exists>s'. HF_Cloudfunc_turn plain_env s = Some s' \<and> u8MainState (con s') = PCT_STATE_WAIT_ACCESS"
proof -
  have ready: "u8ReconnectTimer (con s) = PCT_TIMER_INVAILD" "MSG_PopMsg (g_struSendQueue s) = Some (g_struSendQueue s, None)"
    using assms(1) by (simp_all add: calm_def)
  obtain ip port s0 where "HF_ConnectToCloud plain_env s = connect_to plain_env ip port s0" "g_struSendQueue s0 = g_struSendQueue s"
    by (cases "u32ServerAddrConfig (struSwitchInfo (g_struZcConfigDb s)) = 1")
      (auto simp: HF_ConnectToCloud_def Let_def plain_ask)
  then obtain s1 where s1: "HF_ConnectToCloud plain_env s = Some (s1, ZC_RET_OK)" "g_struSendQueue s1 = g_struSendQueue s"
    using plain_connect_to [of ip port s0] by auto
  let ?s = "con_update (\<lambda>c. c\<lparr>u8MainState := PCT_STATE_WAIT_ACCESS, u8keyRecv := PCT_KEY_UNRECVED\<rparr>) s1"
  have "PCT_Run (hf_adapter plain_env) s = Some ?s"
    using ready(1) s1(1) assms(2) by (simp add: PCT_Run_def PCT_ConnectCloud_def hf_adapter_def)
  then show ?thesis
    using ready(2) s1(2) by (simp add: HF_Cloudfunc_turn_def Let_def MSG_SendDataToCloud_def ZC_SendBc_def)
qed

text \<open>Boot, net up, one turn.\<close>

lemma plain_trace:
  "\<exists>s. hf_trace plain_env (\<lambda>_. 0) no_flash [PCT_STATE_INIT, PCT_STATE_ACCESS_NET, PCT_STATE_WAIT_ACCESS] (s, 0)
     \<and> u8MainState (con s) = PCT_STATE_WAIT_ACCESS"
proof -
  let ?t = "hf_trace plain_env (\<lambda>_. 0) no_flash"
  have boot: "?t [PCT_STATE_INIT] (plain_boot, 0)"
    by (rule trace_boot)
  obtain s1 where s1: "HF_WakeUp plain_env plain_boot = Some s1" "calm s1" "u8MainState (con s1) = PCT_STATE_ACCESS_NET"
    using plain_wake [OF plain_boot_calm HF_Init_inv(2)] by blast
  have 1: "?t [PCT_STATE_INIT, PCT_STATE_ACCESS_NET] (s1, 0)"
    using trace_next [OF boot hf_step.net_up [OF s1(1)]] s1(3) by simp
  obtain s2 where s2: "HF_Cloudfunc_turn plain_env s1 = Some s2" "u8MainState (con s2) = PCT_STATE_WAIT_ACCESS"
    using plain_connect [OF s1(2,3)] by blast
  from trace_next [OF 1 hf_step.cloud_turn [OF s2(1)]] s2(2) show ?thesis by auto
qed

section \<open>Every run\<close>

text \<open>C2: Whatever the network, the operating system and the application do, and in whatever order the turns of
  the tasks, the timers and the events come, the state of the protocol core keeps its invariant: the buffers and
  arrays have their sizes, the queues and the buffers they name fit together, timer indices are in the table, the
  session key is in place whenever a handshake or a session needs it, and the counters stay in their bounds.\<close>

theorem hf_reach_inv:
  assumes "rsa_writes (hf_adapter E :: 'c hf PTC_ModuleAdapter)" "hf_reach E mem f (s :: 'c hf_zc, m)"
  shows "zc_inv s"
proof -
  from assms(2) have "zc_inv (fst (s, m))"
  proof (induction rule: hf_reach.induct)
    case hf_boot
    show ?case by (simp add: HF_Init_inv)
  next
    case (hf_next x y)
    then show ?case
      using hf_step_moves [OF _ _ assms(1), of "fst x" "snd x" "fst y" "snd y"] by simp
  qed
  then show ?thesis by simp
qed

theorem hf_reach_inv_witness:
  "\<exists>s. hf_reach plain_env (\<lambda>_. 0) no_flash (s, 0) \<and> u8MainState (con s) = PCT_STATE_WAIT_ACCESS \<and> zc_inv s"
proof -
  from plain_trace obtain s where s: "hf_reach plain_env (\<lambda>_. 0) no_flash (s, 0)" "u8MainState (con s) = PCT_STATE_WAIT_ACCESS"
    using hf_trace_reach by blast
  from hf_reach_inv [OF plain_env_writes s(1)] s show ?thesis by blast
qed

text \<open>C3: The cloud is connected only after the whole handshake: in every run, when the main state is one of
  \<^verbatim>\<open>PCT_STATE_ACCESS_NET\<close> to \<^verbatim>\<open>PCT_STATE_CONNECT_CLOUD\<close>, the states of the last steps were
  \<^verbatim>\<open>PCT_STATE_ACCESS_NET\<close>, \<^verbatim>\<open>PCT_STATE_WAIT_ACCESS\<close>, and so on up to it, each for at least one step, none
  left out and none in another order.\<close>

theorem main_state_in_order:
  assumes "rsa_writes (hf_adapter E :: 'c hf PTC_ModuleAdapter)" "hf_trace E mem f ts (s :: 'c hf_zc, m)"
    "PCT_STATE_ACCESS_NET \<le> u8MainState (con s)" "u8MainState (con s) \<le> PCT_STATE_CONNECT_CLOUD"
  shows "phases (phase_list (u8MainState (con s))) ts"
  using trace_way [OF assms(2,1)] assms(3,4) way_phases by auto

theorem main_state_in_order_witness:
  "\<exists>s. hf_trace plain_env (\<lambda>_. 0) no_flash [PCT_STATE_INIT, PCT_STATE_ACCESS_NET, PCT_STATE_WAIT_ACCESS] (s, 0)
     \<and> phases [PCT_STATE_ACCESS_NET, PCT_STATE_WAIT_ACCESS] [PCT_STATE_INIT, PCT_STATE_ACCESS_NET, PCT_STATE_WAIT_ACCESS]"
proof -
  from plain_trace obtain s where s: "hf_trace plain_env (\<lambda>_. 0) no_flash [PCT_STATE_INIT, PCT_STATE_ACCESS_NET, PCT_STATE_WAIT_ACCESS] (s, 0)"
      "u8MainState (con s) = PCT_STATE_WAIT_ACCESS" by blast
  have "phase_list 3 = [PCT_STATE_ACCESS_NET, PCT_STATE_WAIT_ACCESS]"
    by (simp add: phase_list_def upt_conv_Cons)
  with main_state_in_order [OF plain_env_writes s(1)] s show ?thesis by auto
qed

end
