(* ===== verification/Handshake.thy ===== *)
theory Handshake
  imports SystemCorrect
begin

text \<open>
  What the module checks of the messages of the handshake before it takes the next step.
\<close>

text \<open>The message in the receive buffer is one of the handshake: its code, its checksum, and the nonce it gives
  back, which is the one of this connection.\<close>

definition handshake_message :: "u8 \<Rightarrow> 'h zc \<Rightarrow> bool" where
  "handshake_message code s \<longleftrightarrow>
     (let m = u8MsgBuffer (g_struRecvBuffer s); h = get_MessageHead m
      in MsgCode h = code \<and> PCT_CheckCrc (TotalMsgCrc h) (drop 8 m) (ZC_HTONS (Payloadlen h)) = Some ZC_RET_OK
         \<and> take 32 (drop 8 m) = RandMsg (con s))"

lemma PCT_CheckCrc_result: "PCT_CheckCrc c d n = Some r \<Longrightarrow> r \<noteq> ZC_RET_ERROR \<Longrightarrow> r = ZC_RET_OK"
  by (auto simp: PCT_CheckCrc_def elim!: bindE split: if_split_asm)

context module_adapter begin

lemma PCT_SendCloudAccessMsg3_key:
  assumes "PCT_SendCloudAccessMsg3 A s = Some s'" "zc_rest s" "rsa_writes A"
  shows "u8SessionKey (con s') = u8SessionKey (con s)"
proof -
  obtain p s2 r where s2: "build_and_send A ZC_CODE_HANDSHAKE_3 1 p 44 ZC_SEC_ALG_AES
        (con_update (u8keyRecv_update (\<lambda>_. PCT_KEY_RECVED)) (s\<lparr>stack := (\<lambda>i. stack s (i + 3))\<rparr>)) = Some (s2, r)"
    and s': "set_timer A PCT_TIMER_REACCESS (PCT_TIMER_INTERVAL_RECONNECT * 10) u8AccessTimer_update
       (con_update (u8MainState_update (\<lambda>_. PCT_STATE_WAIT_MSG4)) s2) = Some s'"
    using assms(1) unfolding PCT_SendCloudAccessMsg3_def Let_def indet_def prod.case
    by (elim bindE, simp only: split_paired_all prod.case)
  have "zc_rest s2" "con s2 = (con s)\<lparr>u8keyRecv := PCT_KEY_RECVED\<rparr>"
    using build_and_send_rest [OF s2 _ assms(3)] assms(2) by auto
  with set_timer_rest [OF s'] show ?thesis by auto
qed

text \<open>After \<^verbatim>\<open>PCT_DisConnectCloud\<close> the state is not that of a session.\<close>

lemma handle_msg2_accepts:
  assumes run: "handle_msg2 A h d s = Some s'" and inv: "zc_inv s" "rsa_writes A"
    and st: "st s \<noteq> PCT_STATE_WAIT_MSG4" "st s' = PCT_STATE_WAIT_MSG4"
  shows "MsgCode h = ZC_CODE_HANDSHAKE_2 \<and> PCT_CheckCrc (TotalMsgCrc h) d (ZC_HTONS (Payloadlen h)) = Some ZC_RET_OK
    \<and> take 32 d = RandMsg (con s) \<and> u8SessionKey (con s') = take 16 (drop 32 d)"
proof -
  have inv': "zc_rest s" "con_ok (con s)"
    using inv(1) by (simp_all add: zc_inv_def)
  have off: "PCT_DisConnectCloud A x \<noteq> Some s'" if "zc_rest x" for x
    using PCT_DisConnectCloud_rest [OF _ that] st(2) by auto
  obtain r where crc: "PCT_CheckCrc (TotalMsgCrc h) d (ZC_HTONS (Payloadlen h)) = Some r"
    and code: "MsgCode h = ZC_CODE_HANDSHAKE_2 \<or> MsgCode h = ZC_CODE_ACCESS_POINT_RSP"
    and r: "(if r = ZC_RET_ERROR then PCT_DisConnectCloud A s
        else do {
          s \<leftarrow> TIMER_StopTimer A (u8AccessTimer (con s)) s;
          rand \<leftarrow> rd d 0 ZC_HS_MSG_LEN;
          if rand = RandMsg (con s) then
            if MsgCode h = ZC_CODE_HANDSHAKE_2 then do {
              key \<leftarrow> rd d 32 ZC_HS_SESSION_KEY_LEN;
              PCT_SendCloudAccessMsg3 A (con_update (\<lambda>c. c\<lparr>u8SessionKey := key, IvRecv := key, IvSend := key\<rparr>) s)
            } else do {
              addr \<leftarrow> rd32 d 32;
              port \<leftarrow> rd16 d 36;
              s \<leftarrow> ZC_StoreAccessInfo A (bytes32 (ZC_HTONL addr)) (bytes16 (ZC_HTONS port)) s;
              PCT_DisConnectCloud A s
            }
          else PCT_DisConnectCloud A s
        }) = Some s'"
    using run st by (auto simp only: handle_msg2_def split: if_split_asm elim!: bindE)
  from r off [OF inv'(1)] have ok: "r = ZC_RET_OK"
    using PCT_CheckCrc_result [OF crc] by (cases "r = ZC_RET_ERROR") simp_all
  with r obtain s1 rand where s1: "TIMER_StopTimer A (u8AccessTimer (con s)) s = Some s1" "rd d 0 ZC_HS_MSG_LEN = Some rand"
    and rest: "(if rand = RandMsg (con s1) then
            if MsgCode h = ZC_CODE_HANDSHAKE_2 then do {
              key \<leftarrow> rd d 32 ZC_HS_SESSION_KEY_LEN;
              PCT_SendCloudAccessMsg3 A (con_update (\<lambda>c. c\<lparr>u8SessionKey := key, IvRecv := key, IvSend := key\<rparr>) s1)
            } else do {
              addr \<leftarrow> rd32 d 32;
              port \<leftarrow> rd16 d 36;
              s \<leftarrow> ZC_StoreAccessInfo A (bytes32 (ZC_HTONL addr)) (bytes16 (ZC_HTONS port)) s1;
              PCT_DisConnectCloud A s
            }
          else PCT_DisConnectCloud A s1) = Some s'"
    by (auto elim!: bindE)
  have s1': "zc_rest s1" "con s1 = con s"
    using TIMER_StopTimer_rest [OF s1(1) inv'(1)] by simp_all
  have rand: "rand = RandMsg (con s1)"
    using rest off [OF s1'(1)] by (cases "rand = RandMsg (con s1)") simp_all
  have code2: "MsgCode h = ZC_CODE_HANDSHAKE_2"
    using rest rand off ZC_StoreAccessInfo_rest [OF _ s1'(1)] by (auto elim!: bindE split: if_split_asm)
  with rest rand obtain key where key: "rd d 32 ZC_HS_SESSION_KEY_LEN = Some key"
      "PCT_SendCloudAccessMsg3 A (con_update (\<lambda>c. c\<lparr>u8SessionKey := key, IvRecv := key, IvSend := key\<rparr>) s1) = Some s'"
    by (auto elim!: bindE)
  from PCT_SendCloudAccessMsg3_key [OF key(2) _ inv(2)] s1' have "u8SessionKey (con s') = key" by simp
  with crc ok code2 s1(2) rand s1'(2) key(1) show ?thesis
    by (simp add: rd_eq_Some)
qed

lemma PCT_RecvAccessMsg2_accepts:
  assumes "PCT_RecvAccessMsg2 A s = Some s'" "zc_inv s" "rsa_writes A"
    "st s \<noteq> PCT_STATE_WAIT_MSG4" "st s' = PCT_STATE_WAIT_MSG4"
  shows "handshake_message ZC_CODE_HANDSHAKE_2 s \<and> u8SessionKey (con s') = take 16 (drop 40 (u8MsgBuffer (g_struRecvBuffer s)))"
proof -
  obtain q m where pop: "MSG_PopMsg (g_struRecvQueue s) = Some (q, m)"
    using assms(1) by (auto simp: PCT_RecvAccessMsg2_def bind_Some_iff)
  let ?s = "s\<lparr>g_struRecvQueue := q\<rparr>" and ?b = "u8MsgBuffer (g_struRecvBuffer s)"
  have s0: "zc_inv ?s" "recv_empty ?s" "m \<in> {None, Some RecvBuffer}"
    using pop_recv [OF pop] assms(2) by (auto simp: zc_inv_def)
  then obtain s1 where run: "handle_msg2 A (get_MessageHead ?b) (drop 8 ?b) ?s = Some s1" "release RecvBuffer s1 = Some s'"
    using assms(1,4,5) pop by (auto simp: PCT_RecvAccessMsg2_def bind_Some_iff Let_def get_buffer_def)
  have s1: "con s' = con s1"
    using release_Recv [OF run(2)] handle_msg2_inv [OF run(1) s0(1,2) assms(3)] by (simp add: zc_inv_def)
  from handle_msg2_accepts [OF run(1) s0(1) assms(3)] assms(4,5) s1 show ?thesis
    by (simp add: handshake_message_def Let_def)
qed

lemma PCT_RecvAccessMsg4_accepts:
  assumes "PCT_RecvAccessMsg4 A s = Some s'" "zc_inv s" "st s = PCT_STATE_WAIT_MSG4" "st s' = PCT_STATE_CONNECT_CLOUD"
  shows "handshake_message ZC_CODE_HANDSHAKE_4 s"
proof -
  obtain q m where pop: "MSG_PopMsg (g_struRecvQueue s) = Some (q, m)"
    using assms(1) by (auto simp: PCT_RecvAccessMsg4_def bind_Some_iff)
  let ?s = "s\<lparr>g_struRecvQueue := q\<rparr>" and ?b = "u8MsgBuffer (g_struRecvBuffer s)"
  let ?h = "get_MessageHead ?b"
  have s0: "zc_inv ?s" "recv_empty ?s" "m \<in> {None, Some RecvBuffer}"
    using pop_recv [OF pop] assms(2) by (auto simp: zc_inv_def)
  then obtain s1 s2 where run: "handle_msg4 A ?h (drop 8 ?b) ?s = Some s1" "release RecvBuffer s1 = Some s2" "restart_heart A s2 = Some s'"
    using assms(1,3,4) pop by (auto simp: PCT_RecvAccessMsg4_def bind_Some_iff Let_def get_buffer_def)
  have 1: "zc_inv s1 \<and> recv_empty s1 \<and> (st s1 = st s \<or> st s1 = PCT_STATE_DISCONNECT_CLOUD
    \<or> st s1 = PCT_STATE_CONNECT_CLOUD \<and> take 32 (drop 8 ?b) = RandMsg (con s) \<and> MsgCode ?h = ZC_CODE_HANDSHAKE_4
      \<and> PCT_CheckCrc (TotalMsgCrc ?h) (drop 8 ?b) (ZC_HTONS (Payloadlen ?h)) \<noteq> Some ZC_RET_ERROR)"
    using handle_msg4_inv [OF run(1) s0(1,2)] assms(3) by simp
  have 2: "zc_inv s2" "st s2 = st s1"
    using 1 release_Recv [OF run(2)] by (auto simp: zc_inv_def)
  from 1 2 restart_heart_inv [OF run(3) 2(1)] assms(3,4) have
    ok: "take 32 (drop 8 ?b) = RandMsg (con s)" "MsgCode ?h = ZC_CODE_HANDSHAKE_4"
      "PCT_CheckCrc (TotalMsgCrc ?h) (drop 8 ?b) (ZC_HTONS (Payloadlen ?h)) \<noteq> Some ZC_RET_ERROR" by auto
  moreover obtain r where "PCT_CheckCrc (TotalMsgCrc ?h) (drop 8 ?b) (ZC_HTONS (Payloadlen ?h)) = Some r"
    using run(1) ok(2) by (auto simp: handle_msg4_def bind_Some_iff)
  ultimately show ?thesis
    using PCT_CheckCrc_result by (auto simp: handshake_message_def Let_def)
qed

lemma PCT_Run_accepts:
  assumes "PCT_Run A s = Some s'" "zc_inv s" "rsa_writes A" "st s' \<in> {PCT_STATE_WAIT_MSG4, PCT_STATE_CONNECT_CLOUD}" "st s' \<noteq> st s"
  shows "if st s' = PCT_STATE_WAIT_MSG4
    then handshake_message ZC_CODE_HANDSHAKE_2 s \<and> u8SessionKey (con s') = take 16 (drop 40 (u8MsgBuffer (g_struRecvBuffer s)))
    else handshake_message ZC_CODE_HANDSHAKE_4 s"
proof -
  from PCT_Run_inv [OF assms(1-3)] assms(4,5)
  consider "st s = PCT_STATE_WAIT_ACCESSRSP" "st s' = PCT_STATE_WAIT_MSG4" | "st s = PCT_STATE_WAIT_MSG4" "st s' = PCT_STATE_CONNECT_CLOUD"
    by auto
  then show ?thesis
  proof cases
    case 1
    with PCT_RecvAccessMsg2_accepts [OF _ assms(2,3)] assms(1) show ?thesis by (simp add: PCT_Run_def)
  next
    case 2
    with PCT_RecvAccessMsg4_accepts [OF _ assms(2)] assms(1) show ?thesis by (simp add: PCT_Run_def)
  qed
qed

end

text \<open>C7: A turn of the machine brings the handshake forward only on a message from the receive queue that has
  the right code, passes the check of its checksum and gives back the nonce this connection was started with: the
  second message on the way to \<^verbatim>\<open>PCT_STATE_WAIT_MSG4\<close>, and then the session key is the one it carries, and the
  fourth on the way to \<^verbatim>\<open>PCT_STATE_CONNECT_CLOUD\<close>.\<close>

theorem handshake_checked:
  assumes "PCT_Run (hf_adapter E) s = Some (s' :: 'c hf_zc)" "zc_inv s" "rsa_writes (hf_adapter E :: 'c hf PTC_ModuleAdapter)"
    "u8MainState (con s') \<in> {PCT_STATE_WAIT_MSG4, PCT_STATE_CONNECT_CLOUD}" "u8MainState (con s') \<noteq> u8MainState (con s)"
  shows "if u8MainState (con s') = PCT_STATE_WAIT_MSG4
    then handshake_message ZC_CODE_HANDSHAKE_2 s \<and> u8SessionKey (con s') = take 16 (drop 40 (u8MsgBuffer (g_struRecvBuffer s)))
    else handshake_message ZC_CODE_HANDSHAKE_4 s"
  using assms by (rule hf.PCT_Run_accepts)

text \<open>The fourth message is in the receive queue.\<close>

definition before_connect :: "unit hf_zc" where
  "before_connect = plain_boot\<lparr>
     g_struRecvBuffer := \<lparr>u32Len = 40, u8Status = MSG_BUFFER_FULL,
       u8MsgBuffer = message ZC_CODE_HANDSHAKE_4 1 (replicate 32 0) @ replicate 560 0\<rparr>,
     g_struRecvQueue := fst (the (MSG_PushMsg (g_struRecvQueue plain_boot) (Some RecvBuffer))),
     g_struProtocolController := (con plain_boot)\<lparr>u8keyRecv := PCT_KEY_RECVED, u8MainState := PCT_STATE_WAIT_MSG4\<rparr>\<rparr>"

lemmas boot_simps = HF_Init_def Let_def indet_def config_update_def plain_tell uart_idle_def
  PCT_Init_def ZC_ClientInit_def client_update_def TIMER_Init_def MSG_Init_def ZC_ConfigInitPara_def
  zc_start_def hf_start_def zero_con_def

lemma boot_fields:
  "RandMsg (con plain_boot) = replicate 32 0" "u8AccessTimer (con plain_boot) = 0" "u8HeartTimer (con plain_boot) = 0xFF"
  "length (g_struTimer plain_boot) = 10" "length (g_struHfTimer (platform plain_boot)) = 10"
  "length (g_u8MsgBuildBuffer plain_boot) = 600" "g_struRecvQueue plain_boot = MSG_InitQueue zero_queue"
  by (simp_all add: boot_simps)

lemma boot_queue:
  obtains q q' where "MSG_PushMsg (g_struRecvQueue plain_boot) (Some RecvBuffer) = Some (q, ZC_RET_OK)" "ring_inv q"
    "ring_contents q = [Some RecvBuffer]" "MSG_PopMsg q = Some (q', Some RecvBuffer)" "ring_contents q' = []"
proof -
  have q0: "ring_inv (g_struRecvQueue plain_boot)" "ring_contents (g_struRecvQueue plain_boot) = []"
    using ring_start [of "zero_queue :: buffer_ref MSG_Queue"]
    by (simp_all add: boot_fields ring_storage_def zero_queue_def)
  from ring_push(2) [OF q0(1), of "Some RecvBuffer"] q0(2) obtain q where
    q: "MSG_PushMsg (g_struRecvQueue plain_boot) (Some RecvBuffer) = Some (q, ZC_RET_OK)" "ring_inv q" "ring_contents q = [Some RecvBuffer]"
    by auto
  from q(2,3) ring_pop [OF q(2)] that [OF q] show thesis by auto
qed

lemma before_connect_inv: "zc_inv before_connect"
proof -
  obtain q q' where q: "MSG_PushMsg (g_struRecvQueue plain_boot) (Some RecvBuffer) = Some (q, ZC_RET_OK)" "ring_inv q"
      "ring_contents q = [Some RecvBuffer]" "MSG_PopMsg q = Some (q', Some RecvBuffer)" "ring_contents q' = []"
    by (rule boot_queue)
  have "zc_inv plain_boot" by (rule HF_Init_inv)
  with q(1-3) show ?thesis
    by (simp add: before_connect_def zc_inv_def zc_rest_def recv_fields_ok_def recv_inv_def con_ok_def)
qed

lemma before_connect_run:
  "\<exists>s. PCT_Run (hf_adapter plain_env) before_connect = Some s \<and> u8MainState (con s) = PCT_STATE_CONNECT_CLOUD"
proof -
  obtain q q' where q: "MSG_PushMsg (g_struRecvQueue plain_boot) (Some RecvBuffer) = Some (q, ZC_RET_OK)" "ring_inv q"
      "ring_contents q = [Some RecvBuffer]" "MSG_PopMsg q = Some (q', Some RecvBuffer)" "ring_contents q' = []"
    by (rule boot_queue)
  let ?s = "before_connect\<lparr>g_struRecvQueue := q'\<rparr>" and ?m = "u8MsgBuffer (g_struRecvBuffer before_connect)"
  have m: "?m = message ZC_CODE_HANDSHAKE_4 1 (replicate 32 0) @ replicate 560 0" "drop 8 ?m = replicate 32 0 @ replicate 560 0"
    by (simp_all add: before_connect_def message_def message_head_def)
  have fields: "RandMsg (con ?s) = replicate 32 0" "u8AccessTimer (con ?s) = 0" "u8HeartTimer (con ?s) = 0xFF"
    "length (g_struTimer ?s) = 10" "length (g_struHfTimer (platform ?s)) = 10" "length (g_u8MsgBuildBuffer ?s) = 600"
    by (simp_all add: before_connect_def boot_fields)
  have crc: "PCT_CheckCrc (TotalMsgCrc (get_MessageHead ?m)) (drop 8 ?m) (ZC_HTONS (Payloadlen (get_MessageHead ?m))) = Some ZC_RET_OK"
    unfolding m(2) unfolding m(1) by (simp add: message_head_def PCT_CheckCrc_eq)
  have "g_struTimer ?s \<noteq> []" "g_struHfTimer (platform ?s) \<noteq> []"
    using fields(4,5) by auto
  then obtain ts c where stop: "TIMER_StopTimer (hf_adapter plain_env) 0 ?s
      = Some (?s\<lparr>g_struTimer := ts, platform := (platform ?s)\<lparr>calls := c\<rparr>\<rparr>)" "length ts = 10"
    using fields by (auto simp: TIMER_StopTimer_def rd1_def wr1_def hf_adapter_def HF_StopTimer_def plain_tell)
  let ?s1 = "con_update (u8MainState_update (\<lambda>_. PCT_STATE_CONNECT_CLOUD)) (?s\<lparr>g_struTimer := ts, platform := (platform ?s)\<lparr>calls := c\<rparr>\<rparr>)"
  obtain d b where notify: "length b = 600" "PCT_SendNotifyMsg (hf_adapter plain_env) ZC_CODE_CLOUD_CONNECTED ?s1
      = Some (?s1\<lparr>g_u8MsgBuildBuffer := b, platform := (platform ?s1)\<lparr>calls := d\<rparr>\<rparr>)"
    using plain_notify [of ?s1 ZC_CODE_CLOUD_CONNECTED] fields(6) by auto
  let ?s2 = "?s1\<lparr>g_u8MsgBuildBuffer := b, platform := (platform ?s1)\<lparr>calls := d\<rparr>\<rparr>"
  have msg4: "handle_msg4 (hf_adapter plain_env) (get_MessageHead ?m) (drop 8 ?m) ?s = Some ?s2"
    using crc stop(1) fields notify(2) by (simp add: handle_msg4_def m rd_Some message_head_def)
  let ?s3 = "?s2\<lparr>g_struRecvBuffer := idle (g_struRecvBuffer ?s2)\<rparr>"
  have "length (g_struTimer ?s3) = 10" "length (g_struHfTimer (platform ?s3)) = 10"
    using stop(2) fields(5) by simp_all
  from plain_set_timer [OF this, of PCT_TIMER_SENDHEART PCT_TIMER_INTERVAL_HEART u8HeartTimer_update] obtain hs e where timer: "set_timer (hf_adapter plain_env) PCT_TIMER_SENDHEART PCT_TIMER_INTERVAL_HEART u8HeartTimer_update ?s3
      = Some (?s3\<lparr>platform := (platform ?s3)\<lparr>g_struHfTimer := hs, calls := e\<rparr>\<rparr>)"
    by (elim exE conjE) (rule that)
  have "restart_heart (hf_adapter plain_env) ?s3 = Some (?s3\<lparr>platform := (platform ?s3)\<lparr>g_struHfTimer := hs, calls := e\<rparr>\<rparr>)"
    using timer fields(3) by (simp add: restart_heart_def)
  moreover have "PCT_Run (hf_adapter plain_env) before_connect = PCT_RecvAccessMsg4 (hf_adapter plain_env) before_connect"
      "g_struRecvQueue before_connect = q"
    using q(1) by (simp_all add: PCT_Run_def before_connect_def)
  ultimately show ?thesis
    using q(4) msg4 by (simp add: PCT_RecvAccessMsg4_def get_buffer_def release_def set_buffer_def)
qed

theorem handshake_checked_witness:
  "\<exists>s. PCT_Run (hf_adapter plain_env) before_connect = Some s \<and> u8MainState (con s) = PCT_STATE_CONNECT_CLOUD
     \<and> handshake_message ZC_CODE_HANDSHAKE_4 before_connect"
proof -
  from before_connect_run obtain s where s: "PCT_Run (hf_adapter plain_env) before_connect = Some s"
      "u8MainState (con s) = PCT_STATE_CONNECT_CLOUD" by blast
  have "u8MainState (con before_connect) = PCT_STATE_WAIT_MSG4"
    by (simp add: before_connect_def)
  with handshake_checked [OF s(1) before_connect_inv plain_env_writes] s show ?thesis by simp
qed

end
