(* ===== verification/HfTimers.thy ===== *)
theory HfTimers
  imports SystemCorrect
begin

text \<open>
  The OS timers behind the timer table: the entry of \<^verbatim>\<open>g_struHfTimer\<close> with the index of a used timer holds its
  handle, and the handle an OS timer calls back with leads to that index, although stopped timers leave their
  handles behind and the OS may use a handle again.
\<close>

abbreviation hf_handle :: "'c hf_zc \<Rightarrow> nat \<Rightarrow> nat" where
  "hf_handle s i \<equiv> struHandle (g_struHfTimer (platform s) ! i)"

definition timer_used :: "'h zc \<Rightarrow> nat \<Rightarrow> bool" where
  "timer_used s i \<longleftrightarrow> i < 10 \<and> \<not> idle_timer (g_struTimer s ! i)"

text \<open>No entry before that of a used timer holds its handle.\<close>

definition hf_timers_ok :: "'c hf_zc \<Rightarrow> bool" where
  "hf_timers_ok s \<longleftrightarrow> length (g_struTimer s) = 10 \<and> length (g_struHfTimer (platform s)) = 10
     \<and> (\<forall>i. timer_used s i \<longrightarrow> (\<forall>k<i. hf_handle s k \<noteq> hf_handle s i))"

lemma hf_timers_okD:
  assumes "hf_timers_ok s"
  shows "length (g_struTimer s) = 10" "length (g_struHfTimer (platform s)) = 10"
    "timer_used s i \<Longrightarrow> k < i \<Longrightarrow> hf_handle s k \<noteq> hf_handle s i"
  using assms by (auto simp: hf_timers_ok_def)

section \<open>Finding a timer\<close>

lemma HF_get_timer_id_loop_find:
  "i + k \<le> length ts \<Longrightarrow> HF_get_timer_id_loop k i h ts =
    (case find (\<lambda>j. struHandle (ts ! j) = h) [i..<i + k] of None \<Rightarrow> Some 0xff | Some j \<Rightarrow> Some (word_of_nat j))"
proof (induction k arbitrary: i)
  case (Suc k)
  have "[i..<i + Suc k] = i # [Suc i..<Suc i + k]"
    by (simp add: upt_conv_Cons)
  with Suc show ?case by (simp add: rd1_def)
qed simp

lemma HF_get_timer_id_used:
  assumes "hf_timers_ok s" "timer_used s i"
  shows "HF_get_timer_id (hf_handle s i) s = Some (word_of_nat i)"
proof -
  have "find (\<lambda>j. struHandle (g_struHfTimer (platform s) ! j) = hf_handle s i) [0..<10] = Some i"
    using assms hf_timers_okD(3) [OF assms] by (auto simp: find_Some_iff timer_used_def intro!: exI [of _ i])
  with HF_get_timer_id_loop_find [of 0 10 "g_struHfTimer (platform s)" "hf_handle s i"] hf_timers_okD(2) [OF assms(1)]
  show ?thesis by (simp add: HF_get_timer_id_def)
qed

lemma HF_get_timer_id_unknown:
  assumes "length (g_struHfTimer (platform s)) = 10" "\<forall>j<10. hf_handle s j \<noteq> h"
  shows "HF_get_timer_id h s = Some 0xff"
proof -
  have "find (\<lambda>j. struHandle (g_struHfTimer (platform s) ! j) = h) [0..<10] = None"
    using assms(2) by (auto simp: find_None_iff)
  with HF_get_timer_id_loop_find [of 0 10 "g_struHfTimer (platform s)" h] assms(1)
  show ?thesis by (simp add: HF_get_timer_id_def)
qed

section \<open>Starting and stopping\<close>

text \<open>What the OS answers to the request for a timer.\<close>

abbreviation created :: "hf_env \<Rightarrow> u32 \<Rightarrow> 'c hf_zc \<Rightarrow> hf_answer" where
  "created E iv s \<equiv> answer E (calls (platform s)) (call_timer_create (iv div 20))"

lemma HF_SetTimer_run:
  assumes len: "length (g_struTimer s) = 10" "length (g_struHfTimer (platform s)) = 10"
    and j: "j < 10" "idle_timer (g_struTimer s ! j)" "\<forall>k<j. \<not> idle_timer (g_struTimer s ! k)"
    and ok: "timer_handle (created E iv s) \<noteq> 0"
  shows "HF_SetTimer E ty iv s = Some (s\<lparr>
      g_struTimer := (g_struTimer s)[j := \<lparr>u8TimerStatus = ZC_TIMER_STATUS_USED, u8Type = ty, pu8Timer = Some j\<rparr>],
      platform := (platform s)\<lparr>
        g_struHfTimer := (g_struHfTimer (platform s))[j := \<lparr>u32FirstFlag = 1, struHandle = timer_handle (created E iv s)\<rparr>],
        calls := calls (platform s) @ [call_timer_create (iv div 20), call_timer_start (timer_handle (created E iv s))]\<rparr>\<rparr>,
    ZC_RET_OK, Some (word_of_nat j))"
proof -
  have "(LEAST j. j < 10 \<and> idle_timer (g_struTimer s ! j)) = j"
    using j by (intro Least_equality) (auto simp: not_le [symmetric])
  then have find: "TIMER_FindIdleTimer s = Some (ZC_RET_OK, Some (word_of_nat j))"
    using TIMER_FindIdleTimer_spec [OF len(1)] j by auto
  have unat: "unat (word_of_nat j :: u8) = j"
    using j(1) by (simp add: unat_of_nat_small)
  have entry: "t\<lparr>struHandle := h, u32FirstFlag := 1\<rparr> = \<lparr>u32FirstFlag = 1, struHandle = h\<rparr>" for t :: HF_TimerInfo and h
    by (cases t) simp
  show ?thesis
    using len j(1) ok unat
    by (simp add: HF_SetTimer_def entry find ask_def tell_def hf_timer_update_def TIMER_AllocateTimer_def rd1_def wr1_def)
qed

lemma HF_SetTimer_refused:
  assumes "HF_SetTimer E ty iv s = Some (s', r, ix)" "length (g_struTimer s) = 10"
    "(\<forall>j<10. \<not> idle_timer (g_struTimer s ! j)) \<or> timer_handle (created E iv s) = 0"
  shows "r = ZC_RET_ERROR \<and> ix = None \<and> g_struTimer s' = g_struTimer s
    \<and> length (g_struHfTimer (platform s')) = length (g_struHfTimer (platform s))
    \<and> (\<forall>k. hf_handle s' k = hf_handle s k \<or> \<not> timer_used s k \<and> hf_handle s' k = 0)"
proof -
  note find = TIMER_FindIdleTimer_spec [OF assms(2)]
  show ?thesis
  proof (cases "\<exists>j<10. idle_timer (g_struTimer s ! j)")
    case False
    with find assms(1) show ?thesis
      by (simp add: HF_SetTimer_def)
  next
    case True
    let ?P = "\<lambda>j. j < 10 \<and> idle_timer (g_struTimer s ! j)"
    define i where "i = (LEAST j. ?P j)"
    have i: "i < 10" "idle_timer (g_struTimer s ! i)"
      using LeastI_ex [of ?P] True by (simp_all add: i_def)
    have unat: "unat (word_of_nat i :: u8) = i"
      using i(1) by (simp add: unat_of_nat_small)
    have "timer_handle (created E iv s) = 0"
      using assms(3) True by auto
    with find assms(1) True obtain t where t: "rd1 (g_struHfTimer (platform s)) i = Some t"
        "r = ZC_RET_ERROR" "ix = None" "g_struTimer s' = g_struTimer s"
        "g_struHfTimer (platform s') = (g_struHfTimer (platform s))[i := t\<lparr>struHandle := 0\<rparr>]"
      unfolding i_def [symmetric]
      by (auto simp: HF_SetTimer_def ask_def hf_timer_update_def unat wr1_eq_Some elim!: bindE)
    have "i < length (g_struHfTimer (platform s))"
      using t(1) by (simp add: rd1_eq_Some)
    with i(2) t show ?thesis
      by (auto simp: nth_list_update timer_used_def)
  qed
qed

text \<open>The handle of a new timer is not the handle of one that is still used.\<close>

definition fresh_handle :: "hf_env \<Rightarrow> u32 \<Rightarrow> 'c hf_zc \<Rightarrow> bool" where
  "fresh_handle E iv s \<longleftrightarrow> (\<forall>i. timer_used s i \<longrightarrow> hf_handle s i \<noteq> timer_handle (created E iv s))"

lemma timer_used_update:
  "g_struTimer s' = (g_struTimer s)[j := t] \<Longrightarrow> length (g_struTimer s) = 10 \<Longrightarrow>
   timer_used s' i
     \<longleftrightarrow> i < 10 \<and> (if i = j then \<not> idle_timer t else timer_used s i)"
  by (auto simp: timer_used_def nth_list_update)

text \<open>The handle of a used timer is not NULL, which is what a failed request leaves behind.\<close>

definition hf_handles_set :: "'c hf_zc \<Rightarrow> bool" where
  "hf_handles_set s \<longleftrightarrow> (\<forall>i. timer_used s i \<longrightarrow> hf_handle s i \<noteq> 0)"

lemma HF_SetTimer_timers:
  assumes "HF_SetTimer E ty iv s = Some (s', r, ix)" "hf_timers_ok s" "fresh_handle E iv s" "hf_handles_set s"
  shows "hf_timers_ok s' \<and> hf_handles_set s' \<and> (if r = ZC_RET_OK
    then \<exists>j. \<not> timer_used s j \<and> timer_used s' j \<and> ix = Some (word_of_nat j) \<and> hf_handle s' j = timer_handle (created E iv s)
      \<and> u8Type (g_struTimer s' ! j) = ty \<and> (\<forall>i. i \<noteq> j \<longrightarrow> timer_used s' i = timer_used s i)
    else (\<forall>i. timer_used s' i = timer_used s i))"
proof (cases "(\<forall>j<10. \<not> idle_timer (g_struTimer s ! j)) \<or> timer_handle (created E iv s) = 0")
  case True
  have kept: "r = ZC_RET_ERROR" "g_struTimer s' = g_struTimer s" "length (g_struHfTimer (platform s')) = length (g_struHfTimer (platform s))"
      "hf_handle s' k = hf_handle s k \<or> \<not> timer_used s k \<and> hf_handle s' k = 0" for k
    using HF_SetTimer_refused [OF assms(1) hf_timers_okD(1) [OF assms(2)] True] by simp_all
  have used: "timer_used s' i = timer_used s i" "timer_used s i \<Longrightarrow> hf_handle s' i = hf_handle s i" for i
    using kept(2) kept(4) [of i] by (simp_all add: timer_used_def)
  have "hf_handle s' k \<noteq> hf_handle s' i" if i: "timer_used s i" "k < i" for i k
    using kept(4) [of k] used(2) [OF i(1)] hf_timers_okD(3) [OF assms(2) i] assms(4) i(1) by (auto simp: hf_handles_set_def)
  with used kept(1-3) assms(2,4) show ?thesis
    by (simp add: hf_timers_ok_def hf_handles_set_def)
next
  case False
  define j where "j = (LEAST j. j < 10 \<and> idle_timer (g_struTimer s ! j))"
  let ?P = "\<lambda>j. j < 10 \<and> idle_timer (g_struTimer s ! j)"
  have "\<exists>j. ?P j" using False by auto
  then have j: "j < 10" "idle_timer (g_struTimer s ! j)" "\<forall>k<j. \<not> idle_timer (g_struTimer s ! k)"
    using LeastI_ex [of ?P] not_less_Least [of _ ?P] by (auto simp: j_def [symmetric])
  note len = hf_timers_okD(1,2) [OF assms(2)]
  define h where "h = timer_handle (created E iv s)"
  obtain c where run: "s' = s\<lparr>
      g_struTimer := (g_struTimer s)[j := \<lparr>u8TimerStatus = ZC_TIMER_STATUS_USED, u8Type = ty, pu8Timer = Some j\<rparr>],
      platform := (platform s)\<lparr>g_struHfTimer := (g_struHfTimer (platform s))[j := \<lparr>u32FirstFlag = 1, struHandle = h\<rparr>], calls := c\<rparr>\<rparr>"
      "r = ZC_RET_OK" "ix = Some (word_of_nat j)"
  proof -
    have "timer_handle (created E iv s) \<noteq> 0" using False by simp
    from HF_SetTimer_run [OF len j this, of ty] assms(1) show thesis
      by (intro that) (simp_all only: option.inject prod.inject h_def)
  qed
  have used: "timer_used s' i \<longleftrightarrow> i = j \<or> timer_used s i" for i
    using timer_used_update [of s' s j _ i] len(1) j(1) by (auto simp: run(1) timer_used_def)
  have handle: "hf_handle s' i = (if i = j then h else hf_handle s i)" if "i < 10" for i
    using that len(2) by (simp add: run(1) nth_list_update)
  have early: "timer_used s k" if "k < j" for k
    using that j by (auto simp: timer_used_def)
  have "hf_handle s' k \<noteq> hf_handle s' i" if i: "timer_used s' i" "k < i" for i k
  proof -
    have "i < 10" "k < 10" using i by (auto simp: timer_used_def)
    with i used [of i] handle hf_timers_okD(3) [OF assms(2)] early [of k] assms(3) show ?thesis
      by (auto simp: fresh_handle_def h_def)
  qed
  moreover have "length (g_struTimer s') = 10" "length (g_struHfTimer (platform s')) = 10"
    using len by (simp_all add: run(1))
  moreover have "hf_handles_set s'"
    unfolding hf_handles_set_def
  proof (intro allI impI)
    fix i assume i: "timer_used s' i"
    then have "i < 10" by (simp add: timer_used_def)
    with i used [of i] handle [of i] assms(4) False show "hf_handle s' i \<noteq> 0"
      by (auto simp: hf_handles_set_def h_def)
  qed
  ultimately show ?thesis
    using run(2,3) used j handle [OF j(1)] by (auto simp: hf_timers_ok_def timer_used_def h_def run(1) len(1) nth_list_update)
qed

lemma TIMER_StopTimer_timers:
  assumes "TIMER_StopTimer (hf_adapter E) i s = Some (s' :: 'c hf_zc)" "hf_timers_ok s"
  shows "hf_timers_ok s' \<and> (hf_handles_set s \<longrightarrow> hf_handles_set s') \<and> (\<forall>k. timer_used s' k \<longleftrightarrow> timer_used s k \<and> k \<noteq> unat i)
    \<and> calls (platform s') = calls (platform s) @ [call_timer_del (hf_handle s (unat i))]"
proof -
  have s': "unat i < 10" "s' = s\<lparr>g_struTimer := (g_struTimer s)[unat i := (g_struTimer s ! unat i)\<lparr>u8TimerStatus := ZC_TIMER_STATUS_IDLE\<rparr>],
      platform := (platform s)\<lparr>calls := calls (platform s) @ [call_timer_del (hf_handle s (unat i))]\<rparr>\<rparr>"
    using assms(1) hf_timers_okD(1,2) [OF assms(2)]
    by (auto simp: TIMER_StopTimer_def hf_adapter_def HF_StopTimer_def rd1_eq_Some wr1_eq_Some tell_def ask_def elim!: bindE)
  have used: "timer_used s' k \<longleftrightarrow> timer_used s k \<and> k \<noteq> unat i" for k
    using timer_used_update [of s' s "unat i" _ k] hf_timers_okD(1) [OF assms(2)] by (auto simp: s'(2) timer_used_def)
  have "hf_handle s' k = hf_handle s k" for k
    by (simp add: s'(2))
  with used assms(2) show ?thesis
    by (simp add: hf_timers_ok_def hf_handles_set_def s'(2))
qed

section \<open>Every history of timers\<close>

text \<open>What the code does to the two tables: it starts a timer, stops one, resets the table after stopping them,
  clears the first flag, or leaves them alone.  The OS is trusted not to give out a handle twice at a time.\<close>

inductive timer_change :: "hf_env \<Rightarrow> 'c hf_zc \<Rightarrow> 'c hf_zc \<Rightarrow> bool" for E where
  change_set: "HF_SetTimer E ty iv s = Some (s', r, ix) \<Longrightarrow> fresh_handle E iv s \<Longrightarrow> timer_change E s s'"
| change_stop: "TIMER_StopTimer (hf_adapter E) i s = Some s' \<Longrightarrow> timer_change E s s'"
| change_init: "timer_change E s (TIMER_Init s)"
| change_flag: "hf_timer_update i (\<lambda>t. t\<lparr>u32FirstFlag := x\<rparr>) s = Some s' \<Longrightarrow> timer_change E s s'"
| change_other: "g_struTimer s' = g_struTimer s \<Longrightarrow> g_struHfTimer (platform s') = g_struHfTimer (platform s) \<Longrightarrow> timer_change E s s'"

lemma hf_timer_update_flag:
  assumes "hf_timer_update i (\<lambda>t. t\<lparr>u32FirstFlag := x\<rparr>) s = Some s'"
  shows "hf_handle s' k = hf_handle s k" "g_struTimer s' = g_struTimer s"
    "length (g_struHfTimer (platform s')) = length (g_struHfTimer (platform s))"
  using assms by (auto simp: hf_timer_update_def rd1_eq_Some wr1_eq_Some nth_list_update elim!: bindE)

lemma timer_change_ok:
  assumes "timer_change E s s'" "hf_timers_ok s" "hf_handles_set s"
  shows "hf_timers_ok s' \<and> hf_handles_set s'"
  using assms(1)
proof cases
  case change_set
  with HF_SetTimer_timers assms(2,3) show ?thesis by blast
next
  case change_stop
  with TIMER_StopTimer_timers assms(2,3) show ?thesis by blast
next
  case change_init
  with assms(2) show ?thesis by (auto simp: hf_timers_ok_def hf_handles_set_def timer_used_def TIMER_Init_def)
next
  case change_flag
  with hf_timer_update_flag [OF change_flag] assms(2,3) show ?thesis by (simp add: hf_timers_ok_def hf_handles_set_def timer_used_def)
next
  case change_other
  with assms(2,3) show ?thesis by (simp add: hf_timers_ok_def hf_handles_set_def timer_used_def)
qed

lemma boot_timers: "hf_timers_ok (HF_Init E (zc_start mem (hf_start f)))" "\<not> timer_used (HF_Init E (zc_start mem (hf_start f))) i"
  by (auto simp: hf_timers_ok_def timer_used_def HF_Init_def Let_def indet_def config_update_def tell_def ask_def uart_idle_def
      PCT_Init_def ZC_ClientInit_def client_update_def TIMER_Init_def MSG_Init_def ZC_ConfigInitPara_def zc_start_def hf_start_def)

text \<open>C21: However timers were started, stopped and reset since the start, and whatever handles stopped timers left
  behind, no two used timers share a handle and a callback finds the entry of its own timer: with the handle of the
  used timer \<open>i\<close>, \<^verbatim>\<open>HF_get_timer_id\<close> returns \<open>i\<close>, provided the OS never gives a new timer the handle of one that is
  still used.\<close>

theorem timer_callback_finds_own:
  assumes "(timer_change E)\<^sup>*\<^sup>* (HF_Init E (zc_start mem (hf_start f))) s" "timer_used s i"
  shows "HF_get_timer_id (hf_handle s i) s = Some (word_of_nat i)
    \<and> (\<forall>j. timer_used s j \<and> hf_handle s j = hf_handle s i \<longrightarrow> j = i)"
proof -
  from assms(1) have "hf_timers_ok s \<and> hf_handles_set s"
    by (induction rule: rtranclp_induct) (use timer_change_ok in \<open>auto simp: boot_timers hf_handles_set_def\<close>)
  then have "hf_timers_ok s" ..
  with HF_get_timer_id_used [OF this assms(2)] assms(2) show ?thesis
    using hf_timers_okD(3) by (metis nat_neq_iff)
qed

text \<open>An OS that always answers with success and the handle 7.\<close>

definition timer_env :: hf_env where
  "timer_env = plain_env\<lparr>answer := (\<lambda>h x. \<lparr>ans_res = 0, ans_val = 7, ans_data = []\<rparr>)\<rparr>"

abbreviation timer_boot :: "unit hf_zc" where
  "timer_boot \<equiv> HF_Init timer_env (zc_start (\<lambda>_. 0) (hf_start no_flash))"

lemma timer_env_start:
  obtains s where "HF_SetTimer timer_env PCT_TIMER_SENDHEART 60000 timer_boot = Some (s, ZC_RET_OK, Some 0)" "hf_handle s 0 = 7"
    "timer_used s 0" "u32FirstFlag (g_struHfTimer (platform s) ! 0) = 1" "hf_timers_ok s" "timer_change timer_env timer_boot s"
proof -
  have ok: "hf_timers_ok timer_boot" by (rule boot_timers)
  have "idle_timer (g_struTimer timer_boot ! 0)"
    using boot_timers(2) [of timer_env "\<lambda>_. 0" no_flash 0] by (simp add: timer_used_def)
  then obtain s where s: "HF_SetTimer timer_env PCT_TIMER_SENDHEART 60000 timer_boot = Some (s, ZC_RET_OK, Some 0)"
      "hf_handle s 0 = 7" "timer_used s 0" "u32FirstFlag (g_struHfTimer (platform s) ! 0) = 1"
    using HF_SetTimer_run [OF hf_timers_okD(1,2) [OF ok], of 0 timer_env 60000 PCT_TIMER_SENDHEART] hf_timers_okD(1,2) [OF ok]
    by (simp add: timer_env_def timer_handle_def timer_used_def)
  have "fresh_handle timer_env 60000 timer_boot"
    using boot_timers(2) by (auto simp: fresh_handle_def)
  with s(1) have "timer_change timer_env timer_boot s"
    by (rule change_set)
  moreover have "hf_handles_set timer_boot"
    using boot_timers(2) by (auto simp: hf_handles_set_def)
  ultimately show thesis
    using s timer_change_ok [OF _ ok] that by blast
qed

theorem timer_callback_finds_own_witness:
  "\<exists>s. HF_SetTimer timer_env PCT_TIMER_SENDHEART 60000 timer_boot = Some (s, ZC_RET_OK, Some 0) \<and> HF_get_timer_id 7 s = Some 0"
proof -
  obtain s where s: "HF_SetTimer timer_env PCT_TIMER_SENDHEART 60000 timer_boot = Some (s, ZC_RET_OK, Some 0)" "hf_handle s 0 = 7"
      "timer_used s 0" "timer_change timer_env timer_boot s"
    by (rule timer_env_start)
  from r_into_rtranclp [where r = "timer_change timer_env", OF s(4)] have "(timer_change timer_env)\<^sup>*\<^sup>* timer_boot s" .
  from timer_callback_finds_own [OF this s(3)] s show ?thesis by auto
qed

text \<open>C25: An OS timer runs twice before it acts: the first callback of a used timer only starts it again, the next
  one runs the action of its type and then frees its entry.\<close>

theorem timer_callback_twice:
  assumes "hf_timers_ok s" "timer_used s i"
  shows "HF_timer_callback E (hf_handle s i) s =
    (if u32FirstFlag (g_struHfTimer (platform s) ! i) = 1
     then Some (s\<lparr>platform := (platform s)\<lparr>
       g_struHfTimer := (g_struHfTimer (platform s))[i := \<lparr>u32FirstFlag = 0, struHandle = hf_handle s i\<rparr>],
       calls := calls (platform s) @ [call_timer_start (hf_handle s i)]\<rparr>\<rparr>)
     else TIMER_TimeoutAction (hf_adapter E) (word_of_nat i) s \<bind> TIMER_StopTimer (hf_adapter E) (word_of_nat i))"
proof -
  have i: "i < 10" "unat (word_of_nat i :: u8) = i"
    using assms(2) by (simp_all add: timer_used_def unat_of_nat_small)
  have entry: "t\<lparr>u32FirstFlag := x\<rparr> = \<lparr>u32FirstFlag = x, struHandle = struHandle t\<rparr>" for t :: HF_TimerInfo and x
    by (cases t) simp
  show ?thesis
    using HF_get_timer_id_used [OF assms] i hf_timers_okD(2) [OF assms(1)]
    by (simp add: HF_timer_callback_def rd1_def wr1_def hf_timer_update_def entry tell_def ask_def)
qed

theorem timer_callback_twice_witness:
  "\<exists>s. HF_SetTimer timer_env PCT_TIMER_SENDHEART 60000 timer_boot = Some (s, ZC_RET_OK, Some 0)
     \<and> HF_timer_callback timer_env 7 s = Some (s\<lparr>platform := (platform s)\<lparr>
       g_struHfTimer := (g_struHfTimer (platform s))[0 := \<lparr>u32FirstFlag = 0, struHandle = 7\<rparr>],
       calls := calls (platform s) @ [call_timer_start 7]\<rparr>\<rparr>)"
proof -
  obtain s where s: "HF_SetTimer timer_env PCT_TIMER_SENDHEART 60000 timer_boot = Some (s, ZC_RET_OK, Some 0)" "hf_handle s 0 = 7"
      "timer_used s 0" "u32FirstFlag (g_struHfTimer (platform s) ! 0) = 1" "hf_timers_ok s"
    by (rule timer_env_start)
  from timer_callback_twice [OF s(5,3), of timer_env] s show ?thesis by auto
qed

text \<open>C32: A callback with a handle that is in no entry, as when a timer fires once more after its entry was taken
  by another one, uses 255 as an index of the table of ten timers: undefined behaviour.\<close>

theorem timer_callback_unknown:
  assumes "length (g_struHfTimer (platform s)) = 10" "\<forall>j<10. hf_handle s j \<noteq> h"
  shows "HF_timer_callback E h s = None"
  using HF_get_timer_id_unknown [OF assms] assms(1) by (simp add: HF_timer_callback_def rd1_def)

theorem timer_callback_unknown_witness:
  "HF_timer_callback plain_env 9 plain_boot = None"
proof (rule timer_callback_unknown)
  show "length (g_struHfTimer (platform plain_boot)) = 10"
    using boot_timers(1) hf_timers_okD(2) by blast
  show "\<forall>j<10. hf_handle plain_boot j \<noteq> 9"
    by (simp add: HF_Init_def Let_def indet_def config_update_def tell_def ask_def uart_idle_def
      PCT_Init_def ZC_ClientInit_def client_update_def TIMER_Init_def MSG_Init_def ZC_ConfigInitPara_def zc_start_def hf_start_def)
qed

end
