(* ===== verification/Progress.thy ===== *)
theory Progress
  imports Handshake HfTimers
begin

text \<open>
  Progress of the handshake: on a platform that answers, a turn of the machine that finds the awaited message takes the
  next step.  This is the other half of \<open>Handshake\<close>, which says that no step is taken without it.
\<close>

section \<open>Sending with AES returns\<close>

lemma SEC_Encrypt_aes:
  assumes "u8SecType h = ZC_SEC_ALG_AES" and "con_ok (con s)" and "u8keyRecv (con s) = PCT_KEY_RECVED"
    and "n = ZC_HTONS (u16TotalMsg h)" and "unat n \<le> length p" and "unat n \<le> 500" and "length out = 596"
  shows "\<exists>c m. SEC_Encrypt A s h out p l = Some (ZC_RET_OK, c @ drop (length c) out, m) \<and> unat m = length c \<and> length c \<le> 596"
proof (cases "sec_flag s ZC_SEC_ALG_AES = ZC_SEC_ALG_NONE")
  case True
  with assms show ?thesis
    by (intro exI [of _ "take (unat n) p"] exI [of _ n]) (simp add: SEC_Encrypt_def Let_def rd_Some wr_prefix)
next
  case False
  then have flag: "sec_flag s ZC_SEC_ALG_AES = ZC_SEC_ALG_AES"
    by (simp add: sec_flag_def Let_def split: if_splits)
  have room: "16 * (unat n div 16) + 16 \<le> 596"
    using assms(6) by (simp add: div_le_mono [of "unat n" 500 16, THEN order_trans])
  obtain c q m where "SEC_AesEncrypt s out p n l = Some (ZC_RET_OK, c @ drop (length c) out, m)" "unat m = length c"
      "length c = 16 * (unat n div 16) + 16"
    by (rule SEC_Aes_roundtrip [of s n p out out l]) (use assms room con_okD [OF assms(2)] in auto)
  with room flag assms(1,4) show ?thesis
    by (intro exI [of _ c] exI [of _ m]) (auto simp: SEC_Encrypt_def Let_def)
qed

lemma fill_send_buffer_aes:
  assumes "send_inv s" and "i < 3" and "u8Status (g_struSendBuffer s ! i) = MSG_BUFFER_IDLE" and "u8SecType h = ZC_SEC_ALG_AES"
    and "con_ok (con s)" and "u8keyRecv (con s) = PCT_KEY_RECVED" and "unat (ZC_HTONS (u16TotalMsg h)) \<le> length p"
    and "unat (ZC_HTONS (u16TotalMsg h)) \<le> 500"
  shows "fill_send_buffer A h p pad i (g_struSendBuffer s ! i) s \<noteq> None"
proof -
  let ?b = "g_struSendBuffer s ! i"
  have len: "length (u8MsgBuffer ?b) = 600"
    using send_inv_bufferD [OF assms(1,2)] by simp
  obtain c m where enc: "SEC_Encrypt A s h (drop 4 (u8MsgBuffer ?b)) p (ZC_HTONS (u16TotalMsg h) + pad)
      = Some (ZC_RET_OK, c @ drop (length c) (drop 4 (u8MsgBuffer ?b)), m)" "length c \<le> 596"
  proof -
    have "length (drop 4 (u8MsgBuffer ?b)) = 596"
      using len by simp
    from SEC_Encrypt_aes [OF assms(4-6) refl assms(7,8) this] that show ?thesis by blast
  qed
  have "ring_inv (g_struSendQueue s)"
    using assms(1) by (simp add: send_ok_def)
  from ring_push(2) [OF this send_inv_room(1) [OF assms(1-3)]] obtain qu where
    "MSG_PushMsg (g_struSendQueue s) (Some (SendBuffer i)) = Some (qu, ZC_RET_OK)" by blast
  with enc len show ?thesis
    by (simp add: fill_send_buffer_def wr_Some put_SecHead_def)
qed

lemma PCT_SendMsgToCloud_loop_aes:
  assumes "send_inv s" and "i + k = 3" and "u8SecType h = ZC_SEC_ALG_AES" and "con_ok (con s)"
    and "u8keyRecv (con s) = PCT_KEY_RECVED" and "unat (ZC_HTONS (u16TotalMsg h)) \<le> length p" and "unat (ZC_HTONS (u16TotalMsg h)) \<le> 500"
  shows "PCT_SendMsgToCloud_loop k i A h p pad s \<noteq> None"
  using assms(2)
proof (induction k arbitrary: i)
  case (Suc k)
  then have i: "i < 3" by simp
  with send_inv_bufferD [OF assms(1) i] have "rd1 (g_struSendBuffer s) i = Some (g_struSendBuffer s ! i)"
    by (simp add: rd1_def)
  with Suc fill_send_buffer_aes [OF assms(1) i _ assms(3-7)] show ?case
    by simp
qed simp

lemma build_and_send_aes:
  assumes "zc_rest s" and "con_ok (con s)" and "u8keyRecv (con s) = PCT_KEY_RECVED" and "length p = unat n" and "unat n \<le> 100"
  shows "\<exists>s' r. build_and_send A code i p n ZC_SEC_ALG_AES s = Some (s', r)"
proof -
  obtain m len where m: "EVENT_BuildMsg code i (g_u8MsgBuildBuffer s) p n = Some (m, len)" "unat len = unat n + 8"
  proof (rule that)
    show "EVENT_BuildMsg code i (g_u8MsgBuildBuffer s) p n = Some (message code i (take (unat n) p) @ drop (8 + unat n) (g_u8MsgBuildBuffer s), 8 + n)"
      using assms(4,5) zc_rest_lengths(1) [OF assms(1)] by (intro EVENT_BuildMsg_message) simp_all
    show "unat (8 + n) = unat n + 8"
      using assms(5) by (subst unat_add_small) simp_all
  qed
  let ?t = "sec_head ZC_SEC_ALG_AES len (s\<lparr>g_u8MsgBuildBuffer := m\<rparr>)"
  have t: "send_inv (snd ?t)" "con (snd ?t) = con s" "length m = 600"
    using assms(1) length_EVENT_BuildMsg [OF m(1)] zc_rest_lengths(1) [OF assms(1)] by (simp_all add: sec_head_def indet_def zc_rest_def)
  have "PCT_SendMsgToCloud_loop 3 0 A (fst ?t) m pad (snd ?t) \<noteq> None" for pad
    using PCT_SendMsgToCloud_loop_aes [OF t(1), of 0 3 "fst ?t" m A pad] t assms m(2) by simp
  then have "PCT_SendMsgToCloud A (fst ?t) m (snd ?t) \<noteq> None"
    by (simp add: PCT_SendMsgToCloud_def split_beta Let_def)
  with m(1) show ?thesis
    by (auto simp: build_and_send_def split_beta)
qed

section \<open>A platform that answers\<close>

text \<open>The operations the handshake needs return as long as the platform is up, and keep it up; \<open>sent\<close>
  is what the device was sent.\<close>

locale responsive_adapter = module_adapter A for A :: "'h PTC_ModuleAdapter" +
  fixes up :: "'h \<Rightarrow> bool" and sent :: "'h \<Rightarrow> u8 list list"
  assumes stop_up: "up (platform s) \<Longrightarrow> unat i < 10
      \<Longrightarrow> \<exists>s'. pfunStopTimer A i s = Some s' \<and> up (platform s') \<and> sent (platform s') = sent (platform s)"
    and set_up: "up (platform s) \<Longrightarrow> length (g_struTimer s) = 10
      \<Longrightarrow> \<exists>s' r ix. pfunSetTimer A ty iv s = Some (s', r, ix) \<and> up (platform s') \<and> sent (platform s') = sent (platform s)"
    and send_up: "up (platform s) \<Longrightarrow> unat n \<le> length d
      \<Longrightarrow> \<exists>s' r. pfunSendToMoudle A d n s = Some (s', r) \<and> up (platform s') \<and> sent (platform s') = sent (platform s) @ [take (unat n) d]"
    and rsa_ok: "rsa_writes A"
begin

definition alive :: "'h zc \<Rightarrow> bool" where
  "alive s \<longleftrightarrow> zc_rest s \<and> up (platform s)"

lemma alive_lengths: "alive s \<Longrightarrow> length (g_struTimer s) = 10" "alive s \<Longrightarrow> length (g_u8MsgBuildBuffer s) = 600"
  using zc_rest_lengths [of s] by (simp_all add: alive_def)

lemma stop_timer_returns:
  assumes "alive s" and "unat i < 10"
  shows "\<exists>s'. TIMER_StopTimer A i s = Some s' \<and> alive s' \<and> con s' = con s \<and> recv_q s' = recv_q s"
proof -
  have len: "length (g_struTimer s) = 10"
    by (rule alive_lengths [OF assms(1)])
  let ?s = "s\<lparr>g_struTimer := (g_struTimer s)[unat i := (g_struTimer s ! unat i)\<lparr>u8TimerStatus := ZC_TIMER_STATUS_IDLE\<rparr>]\<rparr>"
  obtain s' where s': "pfunStopTimer A i ?s = Some s'" "up (platform s')"
    using stop_up [of ?s i] assms by (auto simp: alive_def)
  then have "TIMER_StopTimer A i s = Some s'"
    using len assms(2) by (simp add: TIMER_StopTimer_def rd1_def wr1_def)
  with s' TIMER_StopTimer_rest [OF this] assms(1) show ?thesis
    by (simp add: alive_def)
qed

lemma set_timer_returns:
  assumes "alive s"
  shows "\<exists>s'. set_timer A ty iv f s = Some s' \<and> alive s' \<and> sent (platform s') = sent (platform s)"
proof -
  have len: "length (g_struTimer s) = 10"
    by (rule alive_lengths [OF assms])
  obtain s' r ix where s': "pfunSetTimer A ty iv s = Some (s', r, ix)" "up (platform s')" "sent (platform s') = sent (platform s)"
    using set_up [of s ty iv] assms len by (auto simp: alive_def)
  then have "set_timer A ty iv f s = Some (store_index f ix s')" "platform (store_index f ix s') = platform s'"
    by (simp_all add: set_timer_def store_index_def split: option.splits)
  with s' set_timer_rest [OF this(1)] assms show ?thesis
    by (simp add: alive_def)
qed

lemma notify_returns:
  assumes "alive s"
  shows "\<exists>s'. PCT_SendNotifyMsg A code s = Some s' \<and> alive s'"
proof -
  have len: "length (g_u8MsgBuildBuffer s) = 600"
    by (rule alive_lengths [OF assms])
  obtain m where m: "EVENT_BuildMsg code 0 (g_u8MsgBuildBuffer s) [] 0 = Some (m, 8)" "length m = 600"
    using EVENT_BuildMsg_message [of 0 "[]" "g_u8MsgBuildBuffer s" code 0] length_EVENT_BuildMsg [of code 0 "g_u8MsgBuildBuffer s" "[]" 0] len
    by auto
  obtain s' r where s': "pfunSendToMoudle A m 8 (s\<lparr>g_u8MsgBuildBuffer := m\<rparr>) = Some (s', r)" "up (platform s')"
    using send_up [of "s\<lparr>g_u8MsgBuildBuffer := m\<rparr>" 8 m] assms m(2) by (auto simp: alive_def)
  with m(1) have "PCT_SendNotifyMsg A code s = Some s'"
    by (simp add: PCT_SendNotifyMsg_def)
  with s' PCT_SendNotifyMsg_rest [OF this] assms show ?thesis
    by (simp add: alive_def)
qed

lemma build_and_send_returns:
  assumes "alive s" and "con_ok (con s)" and "u8keyRecv (con s) = PCT_KEY_RECVED" and "length p = unat n" and "unat n \<le> 100"
  shows "\<exists>s' r. build_and_send A code i p n ZC_SEC_ALG_AES s = Some (s', r) \<and> alive s' \<and> platform s' = platform s
    \<and> g_struRetxBuffer s' = g_struRetxBuffer s"
proof -
  have rest: "zc_rest s"
    using assms(1) by (simp add: alive_def)
  obtain s' r where run: "build_and_send A code i p n ZC_SEC_ALG_AES s = Some (s', r)"
    using build_and_send_aes [OF rest assms(2-5)] by blast
  then obtain m len where m: "EVENT_BuildMsg code i (g_u8MsgBuildBuffer s) p n = Some (m, len)"
      "PCT_SendMsgToCloud A (fst (sec_head ZC_SEC_ALG_AES len (s\<lparr>g_u8MsgBuildBuffer := m\<rparr>))) m
         (snd (sec_head ZC_SEC_ALG_AES len (s\<lparr>g_u8MsgBuildBuffer := m\<rparr>))) = Some (s', r)"
    by (auto simp: build_and_send_def split_beta elim!: bindE)
  let ?s = "snd (sec_head ZC_SEC_ALG_AES len (s\<lparr>g_u8MsgBuildBuffer := m\<rparr>))"
  have "send_inv ?s"
    using rest by (simp add: sec_head_def indet_def zc_rest_def)
  with PCT_SendMsgToCloud_inv [OF m(2) _ rsa_ok]
  have eq: "s' = ?s\<lparr>g_struSendBuffer := g_struSendBuffer s', g_struSendQueue := g_struSendQueue s'\<rparr>"
    by blast
  have "platform s' = platform s" "g_struRetxBuffer s' = g_struRetxBuffer s"
    by (subst eq, simp add: sec_head_def indet_def)+
  with run build_and_send_rest [OF run rest rsa_ok] assms(1) show ?thesis
    by (simp add: alive_def)
qed

lemma msg3_returns:
  assumes "alive s" and "con_ok (con s)"
  shows "\<exists>s'. PCT_SendCloudAccessMsg3 A s = Some s' \<and> alive s'"
proof -
  let ?s = "con_update (u8keyRecv_update (\<lambda>_. PCT_KEY_RECVED)) (s\<lparr>stack := (\<lambda>i. stack s (i + 3))\<rparr>)"
  let ?p = "\<lambda>pad. take 32 (RandMsg (con s)) @ take 4 (u8EqVersion (g_struRegisterInfo s))
      @ [ucast (drop_bit 24 (ZC_MODULE_VERSION A)), ucast (drop_bit 16 (ZC_MODULE_VERSION A)), ucast (drop_bit 8 (ZC_MODULE_VERSION A)),
         ucast (ZC_MODULE_VERSION A)] @ [ZC_MODULE_TYPE A] @ pad"
  have len: "length (RandMsg (con s)) = 32" "length (u8EqVersion (g_struRegisterInfo s)) = 4"
    using assms con_okD(4) [OF assms(2)] by (simp_all add: alive_def zc_rest_def register_ok_def)
  have s: "alive ?s" "con_ok (con ?s)" "u8keyRecv (con ?s) = PCT_KEY_RECVED"
    using assms by (simp_all add: alive_def)
  have p: "length (?p (map (stack s) [0..<3])) = unat (44 :: u16)"
    using len by simp
  obtain s1 r where s1: "build_and_send A ZC_CODE_HANDSHAKE_3 1 (?p (map (stack s) [0..<3])) 44 ZC_SEC_ALG_AES ?s = Some (s1, r)" "alive s1"
  proof -
    have "unat (44 :: u16) \<le> 100"
      by simp
    from build_and_send_returns [OF s p this] that show ?thesis by blast
  qed
  then have "alive (con_update (u8MainState_update (\<lambda>_. PCT_STATE_WAIT_MSG4)) s1)"
    by (simp add: alive_def)
  from set_timer_returns [OF this] obtain s' where
    "set_timer A PCT_TIMER_REACCESS (PCT_TIMER_INTERVAL_RECONNECT * 10) u8AccessTimer_update
       (con_update (u8MainState_update (\<lambda>_. PCT_STATE_WAIT_MSG4)) s1) = Some s'" "alive s'" by blast
  with s1(1) len show ?thesis
    by (intro exI [of _ s']) (simp add: PCT_SendCloudAccessMsg3_def ZC_GetStoreInfor_def rd_def indet_def Let_def)
qed

lemma PCT_SendCloudAccessMsg3_rand:
  assumes "PCT_SendCloudAccessMsg3 A s = Some s'" "zc_rest s"
  shows "RandMsg (con s') = RandMsg (con s)"
proof -
  obtain p s2 r where s2: "build_and_send A ZC_CODE_HANDSHAKE_3 1 p 44 ZC_SEC_ALG_AES
        (con_update (u8keyRecv_update (\<lambda>_. PCT_KEY_RECVED)) (s\<lparr>stack := (\<lambda>i. stack s (i + 3))\<rparr>)) = Some (s2, r)"
    and s': "set_timer A PCT_TIMER_REACCESS (PCT_TIMER_INTERVAL_RECONNECT * 10) u8AccessTimer_update
       (con_update (u8MainState_update (\<lambda>_. PCT_STATE_WAIT_MSG4)) s2) = Some s'"
    using assms(1) unfolding PCT_SendCloudAccessMsg3_def Let_def indet_def prod.case
    by (elim bindE, simp only: split_paired_all prod.case)
  have "zc_rest s2" "con s2 = (con s)\<lparr>u8keyRecv := PCT_KEY_RECVED\<rparr>"
    using build_and_send_rest [OF s2 _ rsa_ok] assms(2) by auto
  with set_timer_rest [OF s'] show ?thesis by auto
qed

text \<open>The message is in the queue, and what the buffer holds of it.\<close>

lemma waiting_message:
  assumes "zc_inv s" and "ring_contents (g_struRecvQueue s) = [Some RecvBuffer]"
  shows "\<exists>q. MSG_PopMsg (g_struRecvQueue s) = Some (q, Some RecvBuffer) \<and> zc_rest (s\<lparr>g_struRecvQueue := q\<rparr>)
    \<and> recv_empty (s\<lparr>g_struRecvQueue := q\<rparr>) \<and> length (u8MsgBuffer (g_struRecvBuffer s)) = 600"
proof -
  have s: "ring_inv (g_struRecvQueue s)" "zc_rest s" "length (u8MsgBuffer (g_struRecvBuffer s)) = 600"
    using assms(1) by (simp_all add: zc_inv_def zc_rest_def recv_fields_ok_def recv_inv_def)
  from ring_pop [OF s(1)] assms(2) obtain q where "MSG_PopMsg (g_struRecvQueue s) = Some (q, Some RecvBuffer)"
    by auto
  with pop_recv [OF this s(2)] s(3) show ?thesis by blast
qed

lemma release_returns: "\<exists>s'. release RecvBuffer s = Some s' \<and> platform s' = platform s"
  by (simp add: release_def get_buffer_def set_buffer_def)

lemma turn_msg2:
  assumes "zc_inv s" and "up (platform s)" and "st s = PCT_STATE_WAIT_ACCESSRSP"
    and "ring_contents (g_struRecvQueue s) = [Some RecvBuffer]" and msg: "handshake_message ZC_CODE_HANDSHAKE_2 s"
  shows "\<exists>s'. PCT_Run A s = Some s' \<and> zc_inv s' \<and> up (platform s') \<and> st s' = PCT_STATE_WAIT_MSG4 \<and> RandMsg (con s') = RandMsg (con s)
    \<and> u8SessionKey (con s') = take 16 (drop 40 (u8MsgBuffer (g_struRecvBuffer s)))"
proof -
  let ?b = "u8MsgBuffer (g_struRecvBuffer s)"
  let ?key = "take 16 (drop 32 (drop 8 ?b))"
  obtain q where q: "MSG_PopMsg (g_struRecvQueue s) = Some (q, Some RecvBuffer)" "zc_rest (s\<lparr>g_struRecvQueue := q\<rparr>)"
      "recv_empty (s\<lparr>g_struRecvQueue := q\<rparr>)" "length ?b = 600"
    using waiting_message [OF assms(1,4)] by blast
  let ?s = "s\<lparr>g_struRecvQueue := q\<rparr>"
  have con: "con_ok (con s)" "alive ?s" "zc_inv ?s"
    using assms(1,2) q(2) by (simp_all add: zc_inv_def alive_def)
  obtain s1 where s1: "TIMER_StopTimer A (u8AccessTimer (con s)) ?s = Some s1" "alive s1" "con s1 = con s"
    using stop_timer_returns [OF con(2) con_okD(5) [OF con(1)]] by auto
  let ?s1 = "con_update (\<lambda>c. c\<lparr>u8SessionKey := ?key, IvRecv := ?key, IvSend := ?key\<rparr>) s1"
  have "alive ?s1" "con_ok (con ?s1)"
    using s1 con(1) q(4) by (simp_all add: alive_def)
  from msg3_returns [OF this] obtain s2 where s2: "PCT_SendCloudAccessMsg3 A ?s1 = Some s2" "alive s2" by blast
  from msg have head: "MsgCode (get_MessageHead ?b) = ZC_CODE_HANDSHAKE_2" "take 32 (drop 8 ?b) = RandMsg (con s)"
      "PCT_CheckCrc (TotalMsgCrc (get_MessageHead ?b)) (drop 8 ?b) (ZC_HTONS (Payloadlen (get_MessageHead ?b))) = Some ZC_RET_OK"
    by (simp_all add: handshake_message_def Let_def)
  have handled: "handle_msg2 A (get_MessageHead ?b) (drop 8 ?b) ?s = Some s2"
    using head s1(1,3) s2(1) q(4) by (simp add: handle_msg2_def rd_def)
  obtain s' where s': "release RecvBuffer s2 = Some s'" "platform s' = platform s2"
    using release_returns by blast
  have "recv_empty s2"
    using handle_msg2_inv [OF handled con(3) q(3) rsa_ok] by blast
  then have con': "con s' = con s2"
    using release_Recv [OF s'(1)] s2(2) by (simp add: alive_def)
  have run: "PCT_Run A s = Some s'"
    using assms(3) q(1) handled s'(1) by (simp add: PCT_Run_def PCT_RecvAccessMsg2_def get_buffer_def)
  have st': "st s' = PCT_STATE_WAIT_MSG4" "RandMsg (con s') = RandMsg (con s)"
    using PCT_SendCloudAccessMsg3_inv [OF s2(1) _ _ rsa_ok] PCT_SendCloudAccessMsg3_rand [OF s2(1)] s1 con(1) con' q(4)
    by (simp_all add: alive_def)
  show ?thesis
    using run PCT_Run_inv [OF run assms(1) rsa_ok] PCT_Run_accepts [OF run assms(1) rsa_ok] st' assms(3) s'(2) s2(2)
    by (simp add: alive_def)
qed

lemma restart_heart_returns:
  assumes "alive s" and "con_ok (con s)"
  shows "\<exists>s'. restart_heart A s = Some s' \<and> alive s'"
proof (cases "u8HeartTimer (con s) = PCT_TIMER_INVAILD")
  case True
  with set_timer_returns [OF assms(1), of PCT_TIMER_SENDHEART PCT_TIMER_INTERVAL_HEART u8HeartTimer_update] show ?thesis
    by (auto simp: restart_heart_def)
next
  case False
  then have "unat (u8HeartTimer (con s)) < 10"
    using assms(2) by (simp add: con_ok_def timer_index_ok_def)
  from stop_timer_returns [OF assms(1) this] obtain s1 where "TIMER_StopTimer A (u8HeartTimer (con s)) s = Some s1" "alive s1" by blast
  with False set_timer_returns [OF this(2), of PCT_TIMER_SENDHEART PCT_TIMER_INTERVAL_HEART u8HeartTimer_update] show ?thesis
    by (auto simp: restart_heart_def)
qed

lemma restart_heart_key:
  "restart_heart A s = Some s' \<Longrightarrow> zc_rest s \<Longrightarrow> u8SessionKey (con s') = u8SessionKey (con s)"
  by (auto simp: restart_heart_def bind_Some_iff split: if_splits dest!: TIMER_StopTimer_rest set_timer_rest)

lemma turn_msg4:
  assumes "zc_inv s" and "up (platform s)" and "st s = PCT_STATE_WAIT_MSG4"
    and "ring_contents (g_struRecvQueue s) = [Some RecvBuffer]" and msg: "handshake_message ZC_CODE_HANDSHAKE_4 s"
  shows "\<exists>s'. PCT_Run A s = Some s' \<and> zc_inv s' \<and> st s' = PCT_STATE_CONNECT_CLOUD \<and> u8SessionKey (con s') = u8SessionKey (con s)"
proof -
  let ?b = "u8MsgBuffer (g_struRecvBuffer s)"
  obtain q where q: "MSG_PopMsg (g_struRecvQueue s) = Some (q, Some RecvBuffer)" "zc_rest (s\<lparr>g_struRecvQueue := q\<rparr>)"
      "recv_empty (s\<lparr>g_struRecvQueue := q\<rparr>)" "length ?b = 600"
    using waiting_message [OF assms(1,4)] by blast
  let ?s = "s\<lparr>g_struRecvQueue := q\<rparr>"
  have con: "con_ok (con s)" "alive ?s" "zc_inv ?s"
    using assms(1,2) q(2) by (simp_all add: zc_inv_def alive_def)
  obtain s1 where s1: "TIMER_StopTimer A (u8AccessTimer (con s)) ?s = Some s1" "alive s1" "con s1 = con s"
    using stop_timer_returns [OF con(2) con_okD(5) [OF con(1)]] by auto
  let ?s1 = "con_update (u8MainState_update (\<lambda>_. PCT_STATE_CONNECT_CLOUD)) s1"
  have "alive ?s1"
    using s1(2) by (simp add: alive_def)
  from notify_returns [OF this] obtain s2 where s2: "PCT_SendNotifyMsg A ZC_CODE_CLOUD_CONNECTED ?s1 = Some s2" "alive s2" by blast
  from msg have head: "MsgCode (get_MessageHead ?b) = ZC_CODE_HANDSHAKE_4" "take 32 (drop 8 ?b) = RandMsg (con s)"
      "PCT_CheckCrc (TotalMsgCrc (get_MessageHead ?b)) (drop 8 ?b) (ZC_HTONS (Payloadlen (get_MessageHead ?b))) = Some ZC_RET_OK"
    by (simp_all add: handshake_message_def Let_def)
  have handled: "handle_msg4 A (get_MessageHead ?b) (drop 8 ?b) ?s = Some s2"
    using head s1(1,3) s2(1) q(4) by (simp add: handle_msg4_def rd_def)
  have s2': "st s2 = PCT_STATE_CONNECT_CLOUD" "zc_inv s2" "recv_empty s2" "u8SessionKey (con s2) = u8SessionKey (con s)"
    using PCT_SendNotifyMsg_rest [OF s2(1)] s1(2,3) handle_msg4_inv [OF handled con(3) q(3)] assms(3) by (simp_all add: alive_def)
  obtain s3 where s3: "release RecvBuffer s2 = Some s3" "platform s3 = platform s2"
    using release_returns by blast
  have s3': "zc_rest s3" "con s3 = con s2"
    using release_Recv [OF s3(1)] s2' by (simp_all add: zc_inv_def)
  have "alive s3" "con_ok (con s3)"
    using s2(2) s2'(2) s3(2) s3' by (simp_all add: alive_def zc_inv_def)
  from restart_heart_returns [OF this] obtain s' where s': "restart_heart A s3 = Some s'" by blast
  have run: "PCT_Run A s = Some s'"
    using assms(3) q(1) handled s3(1) s'(1) by (simp add: PCT_Run_def PCT_RecvAccessMsg4_def get_buffer_def)
  have "zc_inv s3"
    using s2'(2) s3' by (simp add: zc_inv_def)
  from run restart_heart_inv [OF s'(1) this] restart_heart_key [OF s'(1) s3'(1)] s2'(1,4) s3'(2) show ?thesis by simp
qed

end

section \<open>The platform of the module answers\<close>

text \<open>All that is asked of the outside is memory; timers may be refused.\<close>

abbreviation hf_up :: "'c hf \<Rightarrow> bool" where
  "hf_up h \<equiv> length (g_struHfTimer h) = 10"

definition hf_sent :: "'c hf \<Rightarrow> u8 list list" where
  "hf_sent h = concat (map (\<lambda>x. case x of call_queue_send d \<Rightarrow> [d] | _ \<Rightarrow> []) (calls h))"

lemma HF_SetTimer_returns:
  assumes "hf_up (platform s)" and "length (g_struTimer s) = 10"
  shows "\<exists>s' r ix. HF_SetTimer E ty iv s = Some (s', r, ix) \<and> hf_up (platform s') \<and> hf_sent (platform s') = hf_sent (platform s)"
proof (cases "\<exists>j<10. idle_timer (g_struTimer s ! j)")
  case False
  with TIMER_FindIdleTimer_spec [OF assms(2)] assms(1) show ?thesis
    by (simp add: HF_SetTimer_def)
next
  case True
  let ?P = "\<lambda>j. j < 10 \<and> idle_timer (g_struTimer s ! j)"
  define j where "j = (LEAST j. ?P j)"
  have "\<exists>j. ?P j" using True by auto
  then have j: "j < 10" "idle_timer (g_struTimer s ! j)" "\<forall>k<j. \<not> idle_timer (g_struTimer s ! k)"
    using LeastI_ex [of ?P] not_less_Least [of _ ?P] by (auto simp: j_def [symmetric])
  show ?thesis
  proof (cases "timer_handle (created E iv s) = 0")
    case False
    from HF_SetTimer_run [OF assms(2,1) j False, of ty] assms(1) show ?thesis by (simp add: hf_sent_def)
  next
    case no_timer: True
    have "unat (word_of_nat j :: u8) = j"
      using j(1) by (simp add: unat_of_nat_small)
    with TIMER_FindIdleTimer_spec [OF assms(2)] True no_timer assms(1) j(1) show ?thesis
      by (simp add: HF_SetTimer_def ask_def hf_sent_def hf_timer_update_def rd1_def wr1_def j_def [symmetric])
  qed
qed

lemma hf_responsive:
  assumes "\<forall>h n. ans_res (answer E h (call_alloc n)) \<noteq> 0" and "rsa_writes (hf_adapter E :: 'c hf PTC_ModuleAdapter)"
  shows "responsive_adapter (hf_adapter E :: 'c hf PTC_ModuleAdapter) hf_up hf_sent"
proof unfold_locales
  fix i and s :: "'c hf_zc"
  assume "hf_up (platform s)" "unat (i :: u8) < 10"
  then show "\<exists>s'. pfunStopTimer (hf_adapter E) i s = Some s' \<and> hf_up (platform s') \<and> hf_sent (platform s') = hf_sent (platform s)"
    by (simp add: hf_sent_def hf_adapter_def HF_StopTimer_def rd1_def tell_def ask_def)
next
  fix ty iv and s :: "'c hf_zc"
  assume "hf_up (platform s)" "length (g_struTimer s) = 10"
  from HF_SetTimer_returns [OF this] show "\<exists>s' r ix. pfunSetTimer (hf_adapter E) ty iv s = Some (s', r, ix) \<and> hf_up (platform s') \<and> hf_sent (platform s') = hf_sent (platform s)"
    by (simp add: hf_adapter_def)
next
  fix n :: u16 and d :: "u8 list" and s :: "'c hf_zc"
  assume "hf_up (platform s)" "unat n \<le> length d"
  with assms(1) show "\<exists>s' r. pfunSendToMoudle (hf_adapter E) d n s = Some (s', r) \<and> hf_up (platform s')
      \<and> hf_sent (platform s') = hf_sent (platform s) @ [take (unat n) d]"
    by (simp add: hf_sent_def hf_adapter_def HF_SendDataToMoudle_def rd_def tell_def ask_def Let_def)
qed (rule assms(2))

interpretation plain: responsive_adapter "hf_adapter plain_env :: unit hf PTC_ModuleAdapter" hf_up hf_sent
  by (rule hf_responsive) (simp_all add: plain_env_def plain_env_writes [unfolded plain_env_def])

section \<open>Properties\<close>

text \<open>C8: as long as memory is given, the handshake does not get stuck: with the second message of the cloud in the queue
  the next turn of the machine takes over its session key and waits for the fourth, whatever becomes of the answer it
  sends, and with that one in the queue, later, a turn connects the module, under this key.\<close>

theorem handshake_completes:
  fixes s :: "'c hf_zc"
  assumes "\<forall>h n. ans_res (answer E h (call_alloc n)) \<noteq> 0" and "rsa_writes (hf_adapter E :: 'c hf PTC_ModuleAdapter)"
    and "zc_inv s" and "hf_up (platform s)" and "u8MainState (con s) = PCT_STATE_WAIT_ACCESSRSP"
    and "ring_contents (g_struRecvQueue s) = [Some RecvBuffer]" and "handshake_message ZC_CODE_HANDSHAKE_2 s"
  shows "\<exists>s1. PCT_Run (hf_adapter E) s = Some s1 \<and> zc_inv s1 \<and> hf_up (platform s1) \<and> u8MainState (con s1) = PCT_STATE_WAIT_MSG4
    \<and> RandMsg (con s1) = RandMsg (con s) \<and> u8SessionKey (con s1) = take 16 (drop 40 (u8MsgBuffer (g_struRecvBuffer s)))
    \<and> (\<forall>s2 :: 'c hf_zc. zc_inv s2 \<and> con s2 = con s1 \<and> hf_up (platform s2) \<and> ring_contents (g_struRecvQueue s2) = [Some RecvBuffer]
          \<and> handshake_message ZC_CODE_HANDSHAKE_4 s2
        \<longrightarrow> (\<exists>s3. PCT_Run (hf_adapter E) s2 = Some s3 \<and> u8MainState (con s3) = PCT_STATE_CONNECT_CLOUD
              \<and> u8SessionKey (con s3) = u8SessionKey (con s1)))"
proof -
  note up = hf_responsive [OF assms(1,2)]
  from responsive_adapter.turn_msg2 [OF up assms(3-7)] obtain s1 where s1:
    "PCT_Run (hf_adapter E) s = Some s1" "zc_inv s1" "hf_up (platform s1)" "u8MainState (con s1) = PCT_STATE_WAIT_MSG4"
    "RandMsg (con s1) = RandMsg (con s)" "u8SessionKey (con s1) = take 16 (drop 40 (u8MsgBuffer (g_struRecvBuffer s)))"
    by blast
  have later: "\<exists>s3. PCT_Run (hf_adapter E) s2 = Some s3 \<and> u8MainState (con s3) = PCT_STATE_CONNECT_CLOUD
      \<and> u8SessionKey (con s3) = u8SessionKey (con s1)"
    if "zc_inv s2 \<and> con s2 = con s1 \<and> hf_up (platform s2) \<and> ring_contents (g_struRecvQueue s2) = [Some RecvBuffer]
      \<and> handshake_message ZC_CODE_HANDSHAKE_4 s2" for s2 :: "'c hf_zc"
    using responsive_adapter.turn_msg4 [OF up, of s2] that s1(4) by auto
  show ?thesis
    by (rule exI [of _ s1]) (intro conjI allI impI s1 later; elim conjE; assumption)
qed

text \<open>The second message is in the receive queue of a module that was just started.\<close>

definition before_key :: "unit hf_zc" where
  "before_key = plain_boot\<lparr>
     g_struRecvBuffer := \<lparr>u32Len = 56, u8Status = MSG_BUFFER_FULL,
       u8MsgBuffer = message ZC_CODE_HANDSHAKE_2 1 (replicate 32 0 @ replicate 16 7) @ replicate 544 0\<rparr>,
     g_struRecvQueue := fst (the (MSG_PushMsg (g_struRecvQueue plain_boot) (Some RecvBuffer))),
     g_struProtocolController := (con plain_boot)\<lparr>u8MainState := PCT_STATE_WAIT_ACCESSRSP\<rparr>\<rparr>"

lemma before_key_ok: "zc_inv before_key" "hf_up (platform before_key)" "ring_contents (g_struRecvQueue before_key) = [Some RecvBuffer]"
    "u8MainState (con before_key) = PCT_STATE_WAIT_ACCESSRSP" "handshake_message ZC_CODE_HANDSHAKE_2 before_key"
    "take 16 (drop 40 (u8MsgBuffer (g_struRecvBuffer before_key))) = replicate 16 7"
proof -
  obtain q q' where q: "MSG_PushMsg (g_struRecvQueue plain_boot) (Some RecvBuffer) = Some (q, ZC_RET_OK)" "ring_inv q"
      "ring_contents q = [Some RecvBuffer]" "MSG_PopMsg q = Some (q', Some RecvBuffer)" "ring_contents q' = []"
    by (rule boot_queue)
  have "zc_inv plain_boot" by (rule HF_Init_inv)
  with q(1-3) show "zc_inv before_key"
    by (simp add: before_key_def zc_inv_def zc_rest_def recv_fields_ok_def recv_inv_def con_ok_def)
  show "ring_contents (g_struRecvQueue before_key) = [Some RecvBuffer]" "u8MainState (con before_key) = PCT_STATE_WAIT_ACCESSRSP"
      "hf_up (platform before_key)"
    using q(1,3) boot_fields(5) by (simp_all add: before_key_def)
  have m: "drop 8 (u8MsgBuffer (g_struRecvBuffer before_key)) = replicate 32 0 @ replicate 16 7 @ replicate 544 0"
    by (simp add: before_key_def message_def message_head_def)
  show "take 16 (drop 40 (u8MsgBuffer (g_struRecvBuffer before_key))) = replicate 16 7"
    using arg_cong [OF m, of "\<lambda>x. take 16 (drop 32 x)"] by simp
  show "handshake_message ZC_CODE_HANDSHAKE_2 before_key"
    unfolding handshake_message_def Let_def m
    by (simp add: before_key_def boot_fields message_head_def PCT_CheckCrc_eq)
qed

theorem handshake_completes_witness:
  "\<exists>s1. PCT_Run (hf_adapter plain_env) before_key = Some s1 \<and> u8MainState (con s1) = PCT_STATE_WAIT_MSG4
    \<and> u8SessionKey (con s1) = replicate 16 7"
proof -
  have "\<forall>h n. ans_res (answer plain_env h (call_alloc n)) \<noteq> 0" by (simp add: plain_env_def)
  from handshake_completes [OF this plain_env_writes before_key_ok(1,2,4,3,5)] show ?thesis
    unfolding before_key_ok(6) by blast
qed

end
