(* ===== verification/Retransmit.thy ===== *)
theory Retransmit
  imports Progress
begin

text \<open>
  Retransmission: a message the device does not acknowledge is sent again a fixed number of times and given up.
\<close>

text \<open>The timer of the message fires a number of times.\<close>

fun timeouts :: "nat \<Rightarrow> 'h PTC_ModuleAdapter \<Rightarrow> 'h zc \<Rightarrow> 'h zc option" where
  "timeouts 0 A s = Some s"
| "timeouts (Suc k) A s = do { s \<leftarrow> PCT_SendMoudleTimeout A s; timeouts k A s }"

text \<open>The message in the retransmission buffer.\<close>

definition retx_message :: "'h zc \<Rightarrow> u8 list" where
  "retx_message s = take (unat (u32Len (g_struRetxBuffer s))) (u8MsgBuffer (g_struRetxBuffer s))"

context responsive_adapter begin

lemma set_timer_retx:
  assumes "set_timer A ty iv f s = Some s'"
  shows "g_struRetxBuffer s' = g_struRetxBuffer s"
proof -
  obtain s1 r ix where run: "pfunSetTimer A ty iv s = Some (s1, r, ix)" "s' = store_index f ix s1"
    using assms by (auto simp: set_timer_def bind_Some_iff)
  from set_timer_cases [OF run(1)] show ?thesis
    by (auto simp: run(2) store_index_def timer_started_def elim!: same_but_platformE split: option.splits)
qed

lemma timeout_resends:
  assumes inv: "zc_inv s" and up: "up (platform s)" and r: "pu8SendMoudleBuffer (con s) = Some RetxBuffer"
    and c: "u8ReSendMoudleNum (con s) < PCT_SENDMOUDLE_NUM"
  shows "\<exists>s'. PCT_SendMoudleTimeout A s = Some s' \<and> zc_inv s' \<and> up (platform s') \<and> st s' = st s
    \<and> pu8SendMoudleBuffer (con s') = Some RetxBuffer \<and> u8ReSendMoudleNum (con s') = u8ReSendMoudleNum (con s) + 1
    \<and> g_struRetxBuffer s' = g_struRetxBuffer s \<and> sent (platform s') = sent (platform s) @ [retx_message s]"
proof -
  let ?b = "g_struRetxBuffer s"
  let ?s = "con_update (\<lambda>c. c\<lparr>u8ReSendMoudleNum := u8ReSendMoudleNum c + 1\<rparr>) s"
  have b: "length (u8MsgBuffer ?b) = 600" "unat (u32Len ?b) \<le> 600"
    using inv by (simp_all add: zc_inv_def zc_rest_def retx_ok_def)
  have n: "unat (ucast (u32Len ?b) :: u16) = unat (u32Len ?b)"
    using b(2) by (simp add: unsigned_ucast_eq take_bit_nat_eq_self)
  have again: "\<not> u8ReSendMoudleNum (con ?s) > PCT_SENDMOUDLE_NUM"
    using c by (simp add: word_le_nat_alt word_less_nat_alt unat_plus_if')
  obtain s1 x where s1: "pfunSendToMoudle A (u8MsgBuffer ?b) (ucast (u32Len ?b)) ?s = Some (s1, x)" "up (platform s1)"
      "sent (platform s1) = sent (platform s) @ [retx_message s]"
    using send_up [of ?s "ucast (u32Len ?b)" "u8MsgBuffer ?b"] up b n by (auto simp: retx_message_def)
  have keeps: "same_but_platform ?s s1"
    by (rule send_moudle [OF s1(1)])
  then have alive: "alive s1" "con s1 = con ?s" "g_struRetxBuffer s1 = ?b"
    using inv s1(2) by (auto simp: alive_def zc_inv_def elim!: same_but_platformE)
  obtain s' where s': "set_timer A PCT_TIMER_SENDMOUDLE PCT_TIMER_INTERVAL_SENDMOUDLE u8SendMoudleTimer_update s1 = Some s'"
      "alive s'" "sent (platform s') = sent (platform s1)"
    using set_timer_returns [OF alive(1)] by blast
  have run: "PCT_SendMoudleTimeout A s = Some s'"
    using r again s1(1) s'(1) by (simp add: PCT_SendMoudleTimeout_def get_buffer_def)
  have con': "pu8SendMoudleBuffer (con s') = Some RetxBuffer" "u8ReSendMoudleNum (con s') = u8ReSendMoudleNum (con s) + 1"
    using set_timer_rest [OF s'(1)] alive r by (auto simp: alive_def)
  show ?thesis
    using run PCT_SendMoudleTimeout_inv [OF run inv rsa_ok] s'(2,3) s1(3) con' set_timer_retx [OF s'(1)] alive(3)
    by (simp add: alive_def)
qed

lemma timeout_gives_up:
  assumes inv: "zc_inv s" and up: "up (platform s)" and r: "pu8SendMoudleBuffer (con s) = Some RetxBuffer"
    and c: "u8ReSendMoudleNum (con s) = PCT_SENDMOUDLE_NUM" and key: "u8keyRecv (con s) = PCT_KEY_RECVED"
  shows "\<exists>s'. PCT_SendMoudleTimeout A s = Some s' \<and> zc_inv s' \<and> st s' = st s
    \<and> u8SendMoudleTimer (con s') = PCT_TIMER_INVAILD \<and> u8ReSendMoudleNum (con s') = 0
    \<and> u8Status (g_struRetxBuffer s') = MSG_BUFFER_IDLE \<and> sent (platform s') = sent (platform s)"
proof -
  let ?b = "g_struRetxBuffer s"
  let ?c = "\<lambda>c. c\<lparr>u8ReSendMoudleNum := u8ReSendMoudleNum c + 1\<rparr>"
  let ?s1 = "(con_update ?c s)\<lparr>g_struRetxBuffer := idle ?b\<rparr>"
  let ?s2 = "con_update (\<lambda>c. c\<lparr>u8SendMoudleTimer := PCT_TIMER_INVAILD, u8ReSendMoudleNum := 0\<rparr>) ?s1"
  have rel: "release RetxBuffer (con_update ?c s) = Some ?s1"
    by (simp add: release_def get_buffer_def set_buffer_def)
  have s2: "alive ?s2" "con_ok (con ?s2)" "u8keyRecv (con ?s2) = PCT_KEY_RECVED"
    using release_Retx [of s "s\<lparr>g_struRetxBuffer := idle ?b\<rparr>"] inv up key
    by (simp_all add: alive_def zc_inv_def release_def get_buffer_def set_buffer_def)
  have empty: "length ([] :: u8 list) = unat (0 :: u16)" "unat (0 :: u16) \<le> 100"
    by simp_all
  obtain s' x where s': "build_and_send A ZC_CODE_ERR (MsgId (get_MessageHead (u8MsgBuffer ?b))) [] 0 ZC_SEC_ALG_AES ?s2 = Some (s', x)"
      "alive s'" "platform s' = platform ?s2" "g_struRetxBuffer s' = idle ?b"
    using build_and_send_returns [OF s2 empty] by fastforce
  have err: "PCT_SendErrorMsg A (MsgId (get_MessageHead (u8MsgBuffer ?b))) [] 0 ?s2 = Some s'"
    using s'(1) by (simp add: PCT_SendErrorMsg_def)
  have run: "PCT_SendMoudleTimeout A s = Some s'"
    using r c rel err by (simp add: PCT_SendMoudleTimeout_def get_buffer_def)
  show ?thesis
    using run PCT_SendMoudleTimeout_inv [OF run inv rsa_ok] s'(3,4) PCT_SendErrorMsg_rest [OF err _ rsa_ok] s2(1)
    by (simp add: alive_def idle_def)
qed

lemma timeouts_end:
  assumes "zc_inv s" and "up (platform s)" and "st s = PCT_STATE_CONNECT_CLOUD"
    and "pu8SendMoudleBuffer (con s) = Some RetxBuffer" and "unat (u8ReSendMoudleNum (con s)) + k = 4"
  shows "\<exists>s'. timeouts (Suc k) A s = Some s' \<and> zc_inv s' \<and> st s' = PCT_STATE_CONNECT_CLOUD
    \<and> u8SendMoudleTimer (con s') = PCT_TIMER_INVAILD \<and> u8ReSendMoudleNum (con s') = 0
    \<and> u8Status (g_struRetxBuffer s') = MSG_BUFFER_IDLE \<and> sent (platform s') = sent (platform s) @ replicate k (retx_message s)"
  using assms
proof (induction k arbitrary: s)
  case 0
  have "u8ReSendMoudleNum (con s) = PCT_SENDMOUDLE_NUM"
    using 0(5) by (simp add: word_unat_eq_iff)
  moreover have "u8keyRecv (con s) = PCT_KEY_RECVED"
    using con_okD(10) [of "con s"] 0(1,3) by (simp add: zc_inv_def)
  ultimately show ?case
    using timeout_gives_up [OF 0(1,2,4)] 0(3) by auto
next
  case (Suc k)
  have "u8ReSendMoudleNum (con s) < PCT_SENDMOUDLE_NUM"
    using Suc.prems(5) by (simp add: word_less_nat_alt)
  from timeout_resends [OF Suc.prems(1,2,4) this] obtain s1 where s1: "PCT_SendMoudleTimeout A s = Some s1" "zc_inv s1" "up (platform s1)"
      "st s1 = st s" "pu8SendMoudleBuffer (con s1) = Some RetxBuffer" "u8ReSendMoudleNum (con s1) = u8ReSendMoudleNum (con s) + 1"
      "g_struRetxBuffer s1 = g_struRetxBuffer s" "sent (platform s1) = sent (platform s) @ [retx_message s]" by blast
  have "unat (u8ReSendMoudleNum (con s1)) + k = 4"
    using Suc.prems(5) by (simp add: s1(6) unat_plus_if')
  from Suc.IH [OF s1(2,3) _ s1(5) this] Suc.prems(3) s1(1,4,7,8) show ?case
    by (simp add: retx_message_def del: timeouts.simps) (simp add: timeouts.simps)
qed

end

section \<open>Properties\<close>

text \<open>C16: a message the device does not acknowledge is given up: when its timer fires again and again it is sent again,
  the same bytes each time, until it was sent five times in all; the next time the buffer is free, the timer is marked
  as not running, so that the next message from the cloud is taken, and the module is connected as before.\<close>

theorem retransmission_ends:
  fixes s :: "'c hf_zc"
  assumes "\<forall>h n. ans_res (answer E h (call_alloc n)) \<noteq> 0" and "rsa_writes (hf_adapter E :: 'c hf PTC_ModuleAdapter)"
    and "zc_inv s" and "hf_up (platform s)" and "u8MainState (con s) = PCT_STATE_CONNECT_CLOUD"
    and "pu8SendMoudleBuffer (con s) = Some RetxBuffer"
  shows "let k = 4 - unat (u8ReSendMoudleNum (con s)) in \<exists>s'. timeouts (Suc k) (hf_adapter E) s = Some s' \<and> zc_inv s'
    \<and> u8MainState (con s') = PCT_STATE_CONNECT_CLOUD \<and> u8SendMoudleTimer (con s') = PCT_TIMER_INVAILD
    \<and> u8ReSendMoudleNum (con s') = 0 \<and> u8Status (g_struRetxBuffer s') = MSG_BUFFER_IDLE
    \<and> hf_sent (platform s') = hf_sent (platform s) @ replicate k (retx_message s)"
proof -
  have "u8ReSendMoudleNum (con s) \<le> PCT_SENDMOUDLE_NUM"
    using assms(3) con_okD(6) by (simp add: zc_inv_def)
  then have "unat (u8ReSendMoudleNum (con s)) + (4 - unat (u8ReSendMoudleNum (con s))) = 4"
    by (simp add: word_le_nat_alt)
  from responsive_adapter.timeouts_end [OF hf_responsive [OF assms(1,2)] assms(3-6) this] show ?thesis
    unfolding Let_def .
qed

text \<open>A connected module with three bytes for the device, sent twice again already.\<close>

definition unacknowledged :: "unit hf_zc" where
  "unacknowledged = before_key\<lparr>
     g_struRetxBuffer := \<lparr>u32Len = 3, u8Status = MSG_BUFFER_FULL, u8MsgBuffer = [1, 2, 3] @ replicate 597 0\<rparr>,
     g_struProtocolController := (con before_key)\<lparr>u8keyRecv := PCT_KEY_RECVED, u8MainState := PCT_STATE_CONNECT_CLOUD,
       pu8SendMoudleBuffer := Some RetxBuffer, u8ReSendMoudleNum := 2\<rparr>\<rparr>"

theorem retransmission_ends_witness:
  "\<exists>s'. timeouts 3 (hf_adapter plain_env) unacknowledged = Some s' \<and> u8ReSendMoudleNum (con s') = 0
    \<and> hf_sent (platform s') = hf_sent (platform unacknowledged) @ [[1, 2, 3], [1, 2, 3]]"
proof -
  have mem: "\<forall>h n. ans_res (answer plain_env h (call_alloc n)) \<noteq> 0" by (simp add: plain_env_def)
  have inv: "zc_inv unacknowledged"
    using before_key_ok(1) by (simp add: unacknowledged_def zc_inv_def zc_rest_def retx_ok_def con_ok_def)
  have s: "hf_up (platform unacknowledged)" "u8MainState (con unacknowledged) = PCT_STATE_CONNECT_CLOUD"
      "pu8SendMoudleBuffer (con unacknowledged) = Some RetxBuffer" "u8ReSendMoudleNum (con unacknowledged) = 2"
      "retx_message unacknowledged = [1, 2, 3]"
    using before_key_ok(2) by (simp_all add: unacknowledged_def retx_message_def)
  have k: "Suc (4 - unat (2 :: u8)) = 3" "replicate (4 - unat (2 :: u8)) [1, 2, 3 :: u8] = [[1, 2, 3], [1, 2, 3]]"
  proof -
    have "unat (2 :: u8) = 2" by simp
    then show "Suc (4 - unat (2 :: u8)) = 3" "replicate (4 - unat (2 :: u8)) [1, 2, 3 :: u8] = [[1, 2, 3], [1, 2, 3]]"
      by (simp_all only:) (simp_all add: numeral_2_eq_2)
  qed
  from retransmission_ends [OF mem plain_env_writes inv s(1-3), unfolded s(4,5) Let_def k] show ?thesis
    by blast
qed

end
