(* ===== verification/HfStore.thy ===== *)
theory HfStore
  imports SystemCorrect
begin

text \<open>
  The configuration and the registration data in the flash memory: what one run of the module stores is what a later
  one reads.
\<close>

text \<open>The chip of the platform: a NOR flash behind an installed driver, not busy.\<close>

definition flash_ready :: "'c spi_bus \<Rightarrow> ('c \<Rightarrow> nat) \<Rightarrow> 'c hf_zc \<Rightarrow> bool" where
  "flash_ready bus busy s \<longleftrightarrow> installed (gd25qxx_fls bus) (hf_flash (platform s)) \<and> busy (chip (hf_flash (platform s))) = 0"

abbreviation flash_mem :: "('c \<Rightarrow> u8 list) \<Rightarrow> 'c hf_zc \<Rightarrow> u8 list" where
  "flash_mem mem s \<equiv> mem (chip (hf_flash (platform s)))"

text \<open>\<^verbatim>\<open>tls_mem_alloc\<close> gives the cache of \<^verbatim>\<open>tls_fls_write\<close>.\<close>

abbreviation cache_given :: "hf_env \<Rightarrow> 'c hf_zc \<Rightarrow> bool" where
  "cache_given E s \<equiv> ans_res (answer E (calls (platform s)) (call_alloc 4096)) \<noteq> 0"

lemma flash_write_stores:
  assumes chip: "nor_chip bus mem wel busy" and ready: "flash_ready bus busy s" and alloc: "cache_given E s"
    and fits: "unat addr + unat n \<le> 0x100000" "0 < n" "unat n \<le> length b" "unat addr mod 4096 + unat n \<le> 4096"
  shows "\<exists>s'. flash_write E addr b n s = Some s' \<and> same_but_platform s s' \<and> flash_ready bus busy s'
    \<and> flash_mem mem s' = overlay (unat addr) (take (unat n) b) (flash_mem mem s)"
proof -
  obtain a s1 where a: "ask E (call_alloc 4096) s = (a, s1)" by fastforce
  have s1: "same_but_platform s s1" "hf_flash (platform s1) = hf_flash (platform s)" "ans_res a \<noteq> 0"
    using a alloc by (auto simp: ask_def)
  let ?f = "hf_flash (platform s1)"
  have "installed (gd25qxx_fls bus) ?f" "busy (chip ?f) = 0"
    using ready by (simp_all add: flash_ready_def s1(2))
  moreover have "length (take 4096 (ans_data a @ replicate 4096 0)) = 4096"
    by simp
  ultimately obtain c where c: "tls_fls_write (Some (take 4096 (ans_data a @ replicate 4096 0))) addr b n ?f = Some (0, ?f\<lparr>chip := c\<rparr>)"
      "busy c = 0" "mem c = overlay (unat addr) (take (unat n) b) (mem (chip ?f))"
    using tls_fls_write_ok [OF gd25_driver [OF chip] _ _ fits(1-3) _ disjI2 [OF fits(4)]] by blast
  have "flash_write E addr b n s = Some (s1\<lparr>platform := (platform s1)\<lparr>hf_flash := ?f\<lparr>chip := c\<rparr>\<rparr>\<rparr>)"
    using a s1(3) c(1) by (simp add: flash_write_def)
  moreover have "same_but_platform s (s1\<lparr>platform := (platform s1)\<lparr>hf_flash := ?f\<lparr>chip := c\<rparr>\<rparr>\<rparr>)"
    using same_but_platform_trans [OF s1(1)] by simp
  ultimately show ?thesis
    using c(2,3) ready by (simp add: flash_ready_def s1(2))
qed

lemma flash_read_gets:
  assumes chip: "nor_chip bus mem wel busy" and ready: "flash_ready bus busy s"
    and fits: "unat addr + unat n \<le> 0x100000" "0 < n" "unat n \<le> length b"
  shows "\<exists>s'. flash_read addr b n s = Some (take (unat n) (drop (unat addr) (flash_mem mem s)) @ drop (unat n) b, s')
    \<and> same_but_platform s s' \<and> flash_ready bus busy s' \<and> flash_mem mem s' = flash_mem mem s"
proof -
  let ?f = "hf_flash (platform s)"
  have "installed (gd25qxx_fls bus) ?f" "busy (chip ?f) = 0"
    using ready by (simp_all add: flash_ready_def)
  from tls_fls_read_ok [OF gd25_driver [OF chip] this fits] obtain c where
    "tls_fls_read addr b n ?f = Some (0, take (unat n) (drop (unat addr) (flash_mem mem s)) @ drop (unat n) b, ?f\<lparr>chip := c\<rparr>)"
    "busy c = 0" "mem c = flash_mem mem s" by blast
  then show ?thesis
    using ready by (auto simp: flash_read_def flash_ready_def)
qed

section \<open>The configuration\<close>

text \<open>The database with its magic number is at its place in the flash.\<close>

definition config_stored :: "('c \<Rightarrow> u8 list) \<Rightarrow> ZC_ConfigDB \<Rightarrow> 'c hf_zc \<Rightarrow> bool" where
  "config_stored mem db s \<longleftrightarrow> take 296 (drop 0xF8000 (flash_mem mem s)) = ConfigDB_bytes db"

lemma write_config_stores:
  assumes "nor_chip bus mem wel busy" "flash_ready bus busy s" "cache_given E s" "config_ok (g_struZcConfigDb s)"
  shows "\<exists>s'. write_config (hf_adapter E) s = Some s' \<and> same_but_platform s s' \<and> flash_ready bus busy s'
    \<and> config_stored mem (g_struZcConfigDb s) s'
    \<and> flash_mem mem s' = overlay 0xF8000 (ConfigDB_bytes (g_struZcConfigDb s)) (flash_mem mem s)"
proof -
  let ?b = "ConfigDB_bytes (g_struZcConfigDb s)"
  have len: "length ?b = 296"
    by (rule ConfigDB_of_bytes(2) [OF assms(4)])
  obtain s' where s': "flash_write E 0xF8000 ?b 296 s = Some s'" "same_but_platform s s'" "flash_ready bus busy s'"
      "flash_mem mem s' = overlay 0xF8000 ?b (flash_mem mem s)"
    using flash_write_stores [OF assms(1-3), of "0xF8000" 296 ?b] len by auto
  have "take 296 (drop 0xF8000 (flash_mem mem s')) = ?b"
    using overlay_read [of "0xF8000" ?b "flash_mem mem s"] nor_chip_size [OF assms(1)] by (simp add: s'(4) len)
  with s' show ?thesis
    by (intro exI [of _ s']) (simp add: write_config_def Let_def hf_adapter_def HF_WriteDataToFlash_def len config_stored_def)
qed

lemma take_field: "take 4 (take 296 d) = take 4 (d :: u8 list)"
  by simp

lemma HF_ReadDataFromFlash_gets:
  assumes chip: "nor_chip bus mem wel busy" and ready: "flash_ready bus busy s"
    and stored: "config_stored mem db s" "config_ok db" and ok: "config_ok (g_struZcConfigDb s)"
  shows "\<exists>s'. HF_ReadDataFromFlash s = Some s' \<and> flash_ready bus busy s' \<and> flash_mem mem s' = flash_mem mem s
    \<and> g_struZcConfigDb s' = (if u32MagicFlag db = ZC_MAGIC_FLAG then db else g_struZcConfigDb s)
    \<and> same_but_platform (s\<lparr>g_struZcConfigDb := g_struZcConfigDb s'\<rparr>) s'"
proof -
  let ?d = "drop 0xF8000 (flash_mem mem s)"
  obtain s1 where s1: "flash_read 0xF8000 (bytes32 0xFFFFFFFF) 4 s = Some (take 4 ?d, s1)" "same_but_platform s s1"
      "flash_ready bus busy s1" "flash_mem mem s1 = flash_mem mem s"
    using flash_read_gets [OF chip ready, of "0xF8000" 4 "bytes32 0xFFFFFFFF"] by auto
  have "take 4 ?d = take 4 (ConfigDB_bytes db)"
    using stored(1) take_field [of ?d] by (simp only: config_stored_def)
  then have magic: "le32 (take 4 ?d) = u32MagicFlag db"
    by (simp add: ConfigDB_bytes_def)
  have db: "g_struZcConfigDb s1 = g_struZcConfigDb s"
    using s1(2) by (auto elim!: same_but_platformE)
  show ?thesis
  proof (cases "u32MagicFlag db = ZC_MAGIC_FLAG")
    case False
    have "s\<lparr>g_struZcConfigDb := g_struZcConfigDb s1\<rparr> = s"
      by (simp add: db)
    with False s1 magic db show ?thesis
      by (simp add: HF_ReadDataFromFlash_def)
  next
    case True
    have len: "length (ConfigDB_bytes (g_struZcConfigDb s1)) = 296"
      using ConfigDB_of_bytes(2) [OF ok] by (simp add: db)
    obtain s2 where s2: "flash_read 0xF8000 (ConfigDB_bytes (g_struZcConfigDb s1)) 296 s1 = Some (ConfigDB_bytes db, s2)"
        "same_but_platform s1 s2" "flash_ready bus busy s2" "flash_mem mem s2 = flash_mem mem s"
      using flash_read_gets [OF chip s1(3), of "0xF8000" 296 "ConfigDB_bytes (g_struZcConfigDb s1)"] stored(1) len
      by (auto simp: s1(4) config_stored_def)
    obtain h where "s2 = s\<lparr>platform := h\<rparr>"
      using same_but_platform_trans [OF s1(2) s2(2)] by (rule same_but_platformE)
    then have "same_but_platform (s\<lparr>g_struZcConfigDb := db\<rparr>) (s2\<lparr>g_struZcConfigDb := db\<rparr>)"
      unfolding same_but_platform_def by (intro exI [of _ h]) simp
    with True s1(1) s2 magic ConfigDB_of_bytes(1) [OF stored(2)] show ?thesis
      by (simp add: HF_ReadDataFromFlash_def flash_ready_def)
  qed
qed

text \<open>C11: A configuration survives a restart: \<^verbatim>\<open>ZC_StoreTokenKey\<close> writes the whole database with the new key to the
  flash, and \<^verbatim>\<open>HF_ReadDataFromFlash\<close>, run later from any state of the module over the same chip, finds the magic
  number and restores exactly that database, so that the key asked for is the one stored.\<close>

theorem configuration_survives:
  assumes "nor_chip bus mem wel busy" "flash_ready bus busy s" "cache_given E s" "16 \<le> length key"
    "config_ok (g_struZcConfigDb s)" "u32MagicFlag (g_struZcConfigDb s) = ZC_MAGIC_FLAG"
  shows "\<exists>s'. ZC_StoreTokenKey (hf_adapter E) key s = Some s' \<and> flash_ready bus busy s'
    \<and> (\<forall>t. flash_ready bus busy t \<and> flash_mem mem t = flash_mem mem s' \<and> config_ok (g_struZcConfigDb t)
        \<longrightarrow> (\<exists>t'. HF_ReadDataFromFlash t = Some t' \<and> g_struZcConfigDb t' = g_struZcConfigDb s'
              \<and> ZC_GetStoreInfor ZC_GET_TYPE_TOKENKEY t' = Some (take 16 key)))"
proof -
  let ?s = "config_update (\<lambda>w. w) (\<lambda>w. w\<lparr>u8TokenKey := take 16 key\<rparr>) s"
  have ok: "flash_ready bus busy ?s" "cache_given E ?s" "config_ok (g_struZcConfigDb ?s)"
      "u32MagicFlag (g_struZcConfigDb ?s) = ZC_MAGIC_FLAG" "u8TokenKey (struCloudInfo (g_struZcConfigDb ?s)) = take 16 key"
    using assms by (simp_all add: config_update_def flash_ready_def config_ok_def)
  from write_config_stores [OF assms(1) ok(1-3)] obtain s' where s': "write_config (hf_adapter E) ?s = Some s'"
      "same_but_platform ?s s'" "flash_ready bus busy s'" "config_stored mem (g_struZcConfigDb ?s) s'" by blast
  have db: "g_struZcConfigDb s' = g_struZcConfigDb ?s"
    using s'(2) by (auto elim!: same_but_platformE)
  have "\<exists>t'. HF_ReadDataFromFlash t = Some t' \<and> g_struZcConfigDb t' = g_struZcConfigDb s'
      \<and> ZC_GetStoreInfor ZC_GET_TYPE_TOKENKEY t' = Some (take 16 key)"
    if t: "flash_ready bus busy t" "flash_mem mem t = flash_mem mem s'" "config_ok (g_struZcConfigDb t)" for t
  proof -
    have "config_stored mem (g_struZcConfigDb ?s) t"
      using s'(4) t(2) by (simp add: config_stored_def)
    from HF_ReadDataFromFlash_gets [OF assms(1) t(1) this ok(3) t(3)] show ?thesis
      using ok(4,5) db by (auto simp: ZC_GetStoreInfor_def)
  qed
  moreover have "ZC_StoreTokenKey (hf_adapter E) key s = Some s'"
    using s'(1) assms(4) by (simp add: ZC_StoreTokenKey_def rd_Some)
  ultimately show ?thesis using s'(3) by blast
qed

text \<open>A module whose flash is the chip of the theory \<open>FlashCorrect\<close>.\<close>

definition chip_boot :: "nor hf_zc" where
  "chip_boot = HF_Init plain_env (zc_start (\<lambda>_. 0) (hf_start nor_flash))"

lemma chip_boot_ok:
  "flash_ready nor_bus nor_busy chip_boot" "cache_given plain_env chip_boot" "config_ok (g_struZcConfigDb chip_boot)"
  "u32MagicFlag (g_struZcConfigDb chip_boot) = ZC_MAGIC_FLAG"
proof -
  have flash: "hf_flash (platform chip_boot) = nor_flash"
    by (simp add: chip_boot_def HF_Init_def Let_def indet_def config_update_def plain_ask tell_def uart_idle_def
        PCT_Init_def ZC_ClientInit_def client_update_def TIMER_Init_def MSG_Init_def ZC_ConfigInitPara_def zc_start_def hf_start_def)
  show "flash_ready nor_bus nor_busy chip_boot"
    using nor_flash_installed by (simp add: flash_ready_def flash)
  show "cache_given plain_env chip_boot"
    by (simp add: plain_env_def)
  show "config_ok (g_struZcConfigDb chip_boot)"
    using HF_Init_inv [of plain_env "\<lambda>_. 0" "hf_start nor_flash"] by (simp add: chip_boot_def zc_inv_def zc_rest_def)
  show "u32MagicFlag (g_struZcConfigDb chip_boot) = ZC_MAGIC_FLAG"
    by (simp add: chip_boot_def HF_Init_def Let_def indet_def config_update_def plain_ask tell_def uart_idle_def
        PCT_Init_def ZC_ClientInit_def client_update_def TIMER_Init_def MSG_Init_def ZC_ConfigInitPara_def zc_start_def hf_start_def)
qed

theorem configuration_survives_witness:
  "\<exists>s' t'. ZC_StoreTokenKey (hf_adapter plain_env) (replicate 16 7) chip_boot = Some s'
     \<and> HF_ReadDataFromFlash (chip_boot\<lparr>platform := platform s'\<rparr>) = Some t'
     \<and> ZC_GetStoreInfor ZC_GET_TYPE_TOKENKEY t' = Some (replicate 16 7)"
proof -
  obtain s' where s': "ZC_StoreTokenKey (hf_adapter plain_env) (replicate 16 7) chip_boot = Some s'" "flash_ready nor_bus nor_busy s'"
      "\<forall>t. flash_ready nor_bus nor_busy t \<and> flash_mem nor_mem t = flash_mem nor_mem s' \<and> config_ok (g_struZcConfigDb t)
        \<longrightarrow> (\<exists>t'. HF_ReadDataFromFlash t = Some t' \<and> g_struZcConfigDb t' = g_struZcConfigDb s'
              \<and> ZC_GetStoreInfor ZC_GET_TYPE_TOKENKEY t' = Some (take 16 (replicate 16 7)))"
    using configuration_survives [OF nor_bus_chip chip_boot_ok(1,2) _ chip_boot_ok(3,4), of "replicate 16 7"] by auto
  have "flash_ready nor_bus nor_busy (chip_boot\<lparr>platform := platform s'\<rparr>)"
      "flash_mem nor_mem (chip_boot\<lparr>platform := platform s'\<rparr>) = flash_mem nor_mem s'"
      "config_ok (g_struZcConfigDb (chip_boot\<lparr>platform := platform s'\<rparr>))"
    using s'(2) chip_boot_ok(3) by (simp_all add: flash_ready_def)
  with s'(3) have "\<exists>t'. HF_ReadDataFromFlash (chip_boot\<lparr>platform := platform s'\<rparr>) = Some t'
      \<and> ZC_GetStoreInfor ZC_GET_TYPE_TOKENKEY t' = Some (take 16 (replicate 16 7))" by blast
  with s'(1) show ?thesis by auto
qed

end
