(* ===== verification/ClientTable.thy ===== *)
theory ClientTable
  imports Client
begin

text \<open>
  The table of local clients as a set of at most four descriptors: the contract of connecting and disconnecting, a
  locale, its interpretation on \<^verbatim>\<open>ZC_ClientConnect\<close> and \<^verbatim>\<open>ZC_ClientDisconnect\<close>, and any history of the two.
\<close>

section \<open>The contract\<close>

text \<open>A set of at most \<open>cap\<close> elements: adding to a full one fails and changes nothing.\<close>

locale bounded_set =
  fixes cap :: nat
    and inv :: "'s \<Rightarrow> bool"
    and elems :: "'s \<Rightarrow> 'e set"
    and add :: "'e \<Rightarrow> 's \<Rightarrow> ('s \<times> u32) option"
    and remove :: "'e \<Rightarrow> 's \<Rightarrow> 's option"
  assumes bounded: "inv s \<Longrightarrow> finite (elems s) \<and> card (elems s) \<le> cap"
    and add_room: "inv s \<Longrightarrow> e \<notin> elems s \<Longrightarrow> card (elems s) < cap \<Longrightarrow>
      \<exists>s'. add e s = Some (s', ZC_RET_OK) \<and> inv s' \<and> elems s' = insert e (elems s)"
    and add_full: "inv s \<Longrightarrow> card (elems s) = cap \<Longrightarrow> add e s = Some (s, ZC_RET_ERROR)"
    and remove_elem: "inv s \<Longrightarrow> \<exists>s'. remove e s = Some s' \<and> inv s' \<and> elems s' = elems s - {e}"

text \<open>A history: a client comes, with a descriptor the system does not use for another one, or goes.\<close>

datatype 'e table_event = comes 'e | goes 'e

fun table_set :: "nat \<Rightarrow> 'e table_event list \<Rightarrow> 'e set \<Rightarrow> 'e set" where
  "table_set cap [] x = x"
| "table_set cap (comes e # es) x = table_set cap es (if card x < cap then insert e x else x)"
| "table_set cap (goes e # es) x = table_set cap es (x - {e})"

fun table_fresh :: "nat \<Rightarrow> 'e table_event list \<Rightarrow> 'e set \<Rightarrow> bool" where
  "table_fresh cap [] x \<longleftrightarrow> True"
| "table_fresh cap (comes e # es) x \<longleftrightarrow> e \<notin> x \<and> table_fresh cap es (if card x < cap then insert e x else x)"
| "table_fresh cap (goes e # es) x \<longleftrightarrow> table_fresh cap es (x - {e})"

fun table_run :: "('e \<Rightarrow> 's \<Rightarrow> ('s \<times> u32) option) \<Rightarrow> ('e \<Rightarrow> 's \<Rightarrow> 's option) \<Rightarrow> 'e table_event list \<Rightarrow> 's \<Rightarrow> 's option" where
  "table_run add remove [] s = Some s"
| "table_run add remove (comes e # es) s = do { (s, r) \<leftarrow> add e s; table_run add remove es s }"
| "table_run add remove (goes e # es) s = do { s \<leftarrow> remove e s; table_run add remove es s }"

context bounded_set begin

lemma run_set:
  "inv s \<Longrightarrow> table_fresh cap es (elems s) \<Longrightarrow>
   \<exists>s'. table_run add remove es s = Some s' \<and> inv s' \<and> elems s' = table_set cap es (elems s)"
proof (induction es arbitrary: s)
  case (Cons x es)
  show ?case
  proof (cases x)
    case (goes e)
    obtain s1 where "remove e s = Some s1" "inv s1" "elems s1 = elems s - {e}"
      using remove_elem [OF Cons.prems(1)] by blast
    with Cons.IH [of s1] Cons.prems(2) goes show ?thesis by simp
  next
    case (comes e)
    show ?thesis
    proof (cases "card (elems s) < cap")
      case True
      then obtain s1 where "add e s = Some (s1, ZC_RET_OK)" "inv s1" "elems s1 = insert e (elems s)"
        using add_room [OF Cons.prems(1)] Cons.prems(2) comes by auto
      with Cons.IH [of s1] Cons.prems(2) comes True show ?thesis by simp
    next
      case False
      then have "add e s = Some (s, ZC_RET_ERROR)"
        using add_full [OF Cons.prems(1)] bounded [OF Cons.prems(1)] by simp
      with Cons.IH [of s] Cons.prems comes False show ?thesis by simp
    qed
  qed
qed simp

end

section \<open>The table\<close>

text \<open>The flags are 0 (in use) or 1 (free), and no descriptor is in use twice.\<close>

definition slot_used :: "'h zc \<Rightarrow> nat \<Rightarrow> bool" where
  "slot_used s i \<longleftrightarrow> i < 4 \<and> u32ClientVaildFlag (g_struClientInfo s) ! i = ZC_CLIENT_INVAILD_FLAG"

definition client_at :: "'h zc \<Rightarrow> nat \<Rightarrow> u32" where
  "client_at s i = u32ClientFd (g_struClientInfo s) ! i"

definition table_ok :: "'h zc \<Rightarrow> bool" where
  "table_ok s \<longleftrightarrow> length (u32ClientVaildFlag (g_struClientInfo s)) = 4 \<and> length (u32ClientFd (g_struClientInfo s)) = 4
     \<and> (\<forall>i<4. u32ClientVaildFlag (g_struClientInfo s) ! i \<in> {ZC_CLIENT_INVAILD_FLAG, ZC_CLIENT_VAILD_FLAG})
     \<and> inj_on (client_at s) {i. slot_used s i}"

definition clients :: "'h zc \<Rightarrow> u32 set" where
  "clients s = client_at s ` {i. slot_used s i}"

lemma slots_finite [simp]: "finite {i. slot_used s i}"
  by (rule finite_subset [of _ "{..<4}"]) (auto simp: slot_used_def)

lemma card_clients: "table_ok s \<Longrightarrow> card (clients s) = card {i. slot_used s i}"
  by (simp add: clients_def table_ok_def card_image)

lemma slots_card: "card {i. slot_used s i} \<le> 4" "card {i. slot_used s i} = 4 \<longleftrightarrow> (\<forall>i<4. slot_used s i)"
proof -
  have sub: "{i. slot_used s i} \<subseteq> {..<4}"
    by (auto simp: slot_used_def)
  show "card {i. slot_used s i} \<le> 4"
    using card_mono [OF _ sub] by simp
  show "card {i. slot_used s i} = 4 \<longleftrightarrow> (\<forall>i<4. slot_used s i)"
  proof
    assume "card {i. slot_used s i} = 4"
    then have "{i. slot_used s i} = {..<4}"
      using card_subset_eq [OF _ sub] by simp
    then show "\<forall>i<4. slot_used s i" by blast
  next
    assume "\<forall>i<4. slot_used s i"
    with sub have "{i. slot_used s i} = {..<4}" by auto
    then show "card {i. slot_used s i} = 4" by simp
  qed
qed

lemma ZC_ClientConnect_loop_used:
  assumes "\<forall>j. i \<le> j \<and> j < i + k \<longrightarrow> u32ClientVaildFlag (g_struClientInfo s) ! j \<noteq> ZC_CLIENT_VAILD_FLAG"
    "i + k \<le> length (u32ClientVaildFlag (g_struClientInfo s))"
  shows "ZC_ClientConnect_loop k i fd s = Some (s, ZC_RET_ERROR)"
  using assms
proof (induction k arbitrary: i)
  case (Suc k)
  then have "ZC_ClientConnect_loop k (Suc i) fd s = Some (s, ZC_RET_ERROR)"
    by (intro Suc.IH) auto
  with Suc.prems show ?case by (simp add: rd1_def)
qed simp

lemma ZC_ClientConnect_loop_free:
  assumes "i \<le> j" "j < i + k" "u32ClientVaildFlag (g_struClientInfo s) ! j = ZC_CLIENT_VAILD_FLAG"
    "\<forall>l. i \<le> l \<and> l < j \<longrightarrow> u32ClientVaildFlag (g_struClientInfo s) ! l \<noteq> ZC_CLIENT_VAILD_FLAG"
    "i + k \<le> length (u32ClientVaildFlag (g_struClientInfo s))" "i + k \<le> length (u32ClientFd (g_struClientInfo s))"
  shows "ZC_ClientConnect_loop k i fd s = Some (client_update (\<lambda>c. c\<lparr>u32ClientFd := (u32ClientFd c)[j := fd],
     u32ClientVaildFlag := (u32ClientVaildFlag c)[j := ZC_CLIENT_INVAILD_FLAG]\<rparr>) s, ZC_RET_OK)"
  using assms
proof (induction k arbitrary: i)
  case (Suc k)
  show ?case
  proof (cases "i = j")
    case True
    with Suc.prems show ?thesis by (simp add: rd1_def wr1_def client_update_def)
  next
    case False
    with Suc.prems have "u32ClientVaildFlag (g_struClientInfo s) ! i \<noteq> ZC_CLIENT_VAILD_FLAG" by auto
    moreover have "ZC_ClientConnect_loop k (Suc i) fd s = Some (client_update (\<lambda>c. c\<lparr>u32ClientFd := (u32ClientFd c)[j := fd],
     u32ClientVaildFlag := (u32ClientVaildFlag c)[j := ZC_CLIENT_INVAILD_FLAG]\<rparr>) s, ZC_RET_OK)"
      using False Suc.prems by (intro Suc.IH) auto
    ultimately show ?thesis
      using Suc.prems by (simp add: rd1_def)
  qed
qed simp

lemma ZC_ClientConnect_free:
  assumes "length (u32ClientVaildFlag (g_struClientInfo s)) = 4" "length (u32ClientFd (g_struClientInfo s)) = 4"
    "j < 4" "u32ClientVaildFlag (g_struClientInfo s) ! j = ZC_CLIENT_VAILD_FLAG"
  shows "\<exists>j<4. u32ClientVaildFlag (g_struClientInfo s) ! j = ZC_CLIENT_VAILD_FLAG
    \<and> ZC_ClientConnect fd s = Some (client_update (\<lambda>c. c\<lparr>u32ClientFd := (u32ClientFd c)[j := fd],
     u32ClientVaildFlag := (u32ClientVaildFlag c)[j := ZC_CLIENT_INVAILD_FLAG]\<rparr>) s, ZC_RET_OK)"
proof -
  let ?P = "\<lambda>j. j < 4 \<and> u32ClientVaildFlag (g_struClientInfo s) ! j = ZC_CLIENT_VAILD_FLAG"
  obtain l where l: "?P l" "\<forall>k<l. \<not> ?P k"
    using assms(3,4) ex_least_nat_le [of ?P j] by blast
  have "ZC_ClientConnect_loop 4 0 fd s = Some (client_update (\<lambda>c. c\<lparr>u32ClientFd := (u32ClientFd c)[l := fd],
     u32ClientVaildFlag := (u32ClientVaildFlag c)[l := ZC_CLIENT_INVAILD_FLAG]\<rparr>) s, ZC_RET_OK)"
    by (rule ZC_ClientConnect_loop_free) (use l assms(1,2) in auto)
  with l(1) show ?thesis
    unfolding ZC_ClientConnect_def by blast
qed

text \<open>Adding to a free slot.\<close>

lemma add_slot:
  assumes ok: "table_ok s" and j: "j < 4" "u32ClientVaildFlag (g_struClientInfo s) ! j = ZC_CLIENT_VAILD_FLAG" and fd: "fd \<notin> clients s"
    and s': "s' = client_update (\<lambda>c. c\<lparr>u32ClientFd := (u32ClientFd c)[j := fd],
       u32ClientVaildFlag := (u32ClientVaildFlag c)[j := ZC_CLIENT_INVAILD_FLAG]\<rparr>) s"
  shows "table_ok s'" "clients s' = insert fd (clients s)"
proof -
  have len: "length (u32ClientVaildFlag (g_struClientInfo s)) = 4" "length (u32ClientFd (g_struClientInfo s)) = 4"
    using ok by (simp_all add: table_ok_def)
  have free: "\<not> slot_used s j"
    using j(2) by (simp add: slot_used_def)
  have used: "{i. slot_used s' i} = insert j {i. slot_used s i}"
    using len j(1) by (auto simp: s' client_update_def slot_used_def nth_list_update split: if_split_asm)
  have at: "client_at s' i = (if i = j then fd else client_at s i)" if "i < 4" for i
    using that len(2) by (simp add: s' client_update_def client_at_def nth_list_update)
  have same: "client_at s' ` {i. slot_used s i} = clients s"
    unfolding clients_def by (rule image_cong) (use at free in \<open>auto simp: slot_used_def\<close>)
  show "clients s' = insert fd (clients s)"
    using at [OF j(1)] same unfolding clients_def [of s'] used by simp
  have "inj_on (client_at s') {i. slot_used s i}"
    using ok inj_on_cong [of "{i. slot_used s i}" "client_at s'" "client_at s"] at free
    by (metis (mono_tags, lifting) mem_Collect_eq slot_used_def table_ok_def)
  then have "inj_on (client_at s') {i. slot_used s' i}"
    using at [OF j(1)] same fd unfolding used by auto
  moreover have "\<forall>i<4. u32ClientVaildFlag (g_struClientInfo s') ! i \<in> {ZC_CLIENT_INVAILD_FLAG, ZC_CLIENT_VAILD_FLAG}"
    using ok len(1) j(1) by (simp add: table_ok_def s' client_update_def nth_list_update)
  ultimately show "table_ok s'"
    using len by (simp add: table_ok_def s' client_update_def)
qed

text \<open>Freeing the slots of a descriptor; \<^verbatim>\<open>ZC_SetClientFree\<close> does not touch the table.\<close>

definition free_slots :: "u32 \<Rightarrow> nat \<Rightarrow> nat \<Rightarrow> 'h zc \<Rightarrow> u32 list" where
  "free_slots fd i k s = map (\<lambda>j. if i \<le> j \<and> j < i + k \<and> client_at s j = fd then ZC_CLIENT_VAILD_FLAG
     else u32ClientVaildFlag (g_struClientInfo s) ! j) [0..<4]"

lemma ZC_ClientDisconnect_loop_frees:
  assumes "length (u32ClientVaildFlag (g_struClientInfo s)) = 4" "length (u32ClientFd (g_struClientInfo s)) = 4" "i + k \<le> 4"
  shows "\<exists>s'. ZC_ClientDisconnect_loop k i fd s = Some s'
    \<and> u32ClientFd (g_struClientInfo s') = u32ClientFd (g_struClientInfo s)
    \<and> u32ClientVaildFlag (g_struClientInfo s') = free_slots fd i k s"
  using assms
proof (induction k arbitrary: i s)
  case 0
  have "map (\<lambda>j. u32ClientVaildFlag (g_struClientInfo s) ! j) [0..<4] = u32ClientVaildFlag (g_struClientInfo s)"
    using 0 map_nth [of "u32ClientVaildFlag (g_struClientInfo s)"] by simp
  moreover have "free_slots fd i 0 s = map (\<lambda>j. u32ClientVaildFlag (g_struClientInfo s) ! j) [0..<4]"
    unfolding free_slots_def by (rule map_cong) auto
  ultimately show ?case by simp
next
  case (Suc k)
  let ?f = "(u32ClientVaildFlag (g_struClientInfo s))[i := ZC_CLIENT_VAILD_FLAG]"
  obtain s1 where s1: "ZC_ClientDisconnect_loop (Suc k) i fd s = ZC_ClientDisconnect_loop k (Suc i) fd s1"
      "u32ClientFd (g_struClientInfo s1) = u32ClientFd (g_struClientInfo s)"
      "u32ClientVaildFlag (g_struClientInfo s1) = (if client_at s i = fd then ?f else u32ClientVaildFlag (g_struClientInfo s))"
    using Suc.prems by (cases "fd = u32ClientFd (g_struClientInfo s) ! i")
      (auto simp: rd1_def wr1_def client_at_def client_update_def ZC_SetClientFree_def Let_def)
  have "free_slots fd (Suc i) k s1 = free_slots fd i (Suc k) s"
    using Suc.prems s1(2,3) by (auto simp: free_slots_def client_at_def nth_list_update Suc_le_eq le_less)
  with Suc.IH [of s1 "Suc i"] Suc.prems s1 show ?case by auto
qed

lemma remove_slots:
  assumes ok: "table_ok s" and s': "u32ClientFd (g_struClientInfo s') = u32ClientFd (g_struClientInfo s)"
      "u32ClientVaildFlag (g_struClientInfo s') = free_slots fd 0 4 s"
  shows "table_ok s'" "clients s' = clients s - {fd}"
proof -
  have used: "slot_used s' i \<longleftrightarrow> slot_used s i \<and> client_at s i \<noteq> fd" for i
    by (cases "i < 4") (simp_all add: slot_used_def s'(2) free_slots_def)
  have at: "client_at s' = client_at s"
    by (simp add: fun_eq_iff client_at_def s'(1))
  show "clients s' = clients s - {fd}"
    unfolding clients_def at by (auto simp: used)
  have "inj_on (client_at s') {i. slot_used s' i}"
    unfolding at using ok by (auto simp: table_ok_def used inj_on_def)
  with ok show "table_ok s'"
    by (auto simp: table_ok_def s' free_slots_def)
qed

interpretation client_set: bounded_set 4 table_ok clients ZC_ClientConnect ZC_ClientDisconnect
proof
  fix s :: "'h zc"
  assume ok: "table_ok s"
  then show "finite (clients s) \<and> card (clients s) \<le> 4"
    using card_clients [OF ok] slots_card(1) [of s] slots_finite [of s] unfolding clients_def by simp
next
  fix s :: "'h zc" and e
  assume ok: "table_ok s" and e: "e \<notin> clients s" "card (clients s) < 4"
  then obtain j where "j < 4" "\<not> slot_used s j"
    using slots_card(2) [of s] card_clients [OF ok] by auto
  then have "j < 4" "u32ClientVaildFlag (g_struClientInfo s) ! j = ZC_CLIENT_VAILD_FLAG"
    using ok by (auto simp: table_ok_def slot_used_def)
  with ok ZC_ClientConnect_free [of s j e] obtain l where "l < 4" "u32ClientVaildFlag (g_struClientInfo s) ! l = ZC_CLIENT_VAILD_FLAG"
      "ZC_ClientConnect e s = Some (client_update (\<lambda>c. c\<lparr>u32ClientFd := (u32ClientFd c)[l := e],
     u32ClientVaildFlag := (u32ClientVaildFlag c)[l := ZC_CLIENT_INVAILD_FLAG]\<rparr>) s, ZC_RET_OK)"
    by (auto simp: table_ok_def)
  with add_slot [OF ok this(1,2) e(1) refl]
  show "\<exists>s'. ZC_ClientConnect e s = Some (s', ZC_RET_OK) \<and> table_ok s' \<and> clients s' = insert e (clients s)" by blast
next
  fix s :: "'h zc" and e
  assume ok: "table_ok s" "card (clients s) = 4"
  then have "\<forall>j<4. u32ClientVaildFlag (g_struClientInfo s) ! j \<noteq> ZC_CLIENT_VAILD_FLAG"
    using slots_card(2) [of s] card_clients [OF ok(1)] by (auto simp: slot_used_def)
  with ok(1) show "ZC_ClientConnect e s = Some (s, ZC_RET_ERROR)"
    by (simp add: ZC_ClientConnect_def table_ok_def ZC_ClientConnect_loop_used)
next
  fix s :: "'h zc" and e
  assume ok: "table_ok s"
  then obtain s' where "ZC_ClientDisconnect e s = Some s'" "u32ClientFd (g_struClientInfo s') = u32ClientFd (g_struClientInfo s)"
      "u32ClientVaildFlag (g_struClientInfo s') = free_slots e 0 4 s"
    using ZC_ClientDisconnect_loop_frees [of s 0 4 e] by (auto simp: table_ok_def ZC_ClientDisconnect_def)
  with remove_slots [OF ok] show "\<exists>s'. ZC_ClientDisconnect e s = Some s' \<and> table_ok s' \<and> clients s' = clients s - {e}" by blast
qed

section \<open>Any history\<close>

text \<open>C23: Whatever clients come and go, the table of local clients holds exactly those that came and were not refused
  and did not go: connecting and disconnecting never fail, refine a set of at most four descriptors, and refuse a
  client exactly when four are there, provided no descriptor comes twice at a time.\<close>

theorem client_table_refines_set:
  assumes "table_ok s" "table_fresh 4 es (clients s)"
  shows "\<exists>s'. table_run ZC_ClientConnect ZC_ClientDisconnect es s = Some s' \<and> table_ok s' \<and> clients s' = table_set 4 es (clients s)"
  using assms by (rule client_set.run_set)

theorem client_table_refines_set_witness:
  "\<exists>s'. table_run ZC_ClientConnect ZC_ClientDisconnect [comes 3, comes 4, goes 3, comes 5] (ZC_ClientInit (zc_start (\<lambda>_. 0) ())) = Some s'
     \<and> clients s' = {4, 5}"
proof -
  let ?s = "ZC_ClientInit (zc_start (\<lambda>_. 0) ())"
  have none: "\<not> slot_used ?s i" for i
    by (simp add: slot_used_def ZC_ClientInit_def client_update_def zc_start_def)
  then have "clients ?s = {}" by (simp add: clients_def)
  moreover have "table_ok ?s"
    using none by (simp add: table_ok_def ZC_ClientInit_def client_update_def zc_start_def)
  ultimately show ?thesis
    using client_table_refines_set [of ?s "[comes 3, comes 4, goes 3, comes 5]"] by (auto simp: card_insert_if)
qed

end
