(* ===== verification/HfNet.thy ===== *)
theory HfNet
  imports SystemCorrect ClientTable
begin

text \<open>
  The sockets of the platform: what \<^verbatim>\<open>HF_SendTcpData\<close> puts on a connection, the announcements, and the clients
  that \<^verbatim>\<open>HF_CloudRecvfunc\<close> accepts.
\<close>

section \<open>The bytes a connection takes\<close>

text \<open>The bytes \<^verbatim>\<open>send\<close> accepted for a descriptor, in the order of the calls.\<close>

definition taken :: "hf_env \<Rightarrow> u32 \<Rightarrow> hf_call list \<Rightarrow> hf_call \<Rightarrow> u8 list" where
  "taken E fd h x = (case x of call_send f d \<Rightarrow> if f = fd then take (nat (ans_res (answer E h x))) d else [] | _ \<Rightarrow> [])"

definition tcp_stream :: "hf_env \<Rightarrow> u32 \<Rightarrow> hf_call list \<Rightarrow> u8 list" where
  "tcp_stream E fd cs = concat (map (\<lambda>i. taken E fd (take i cs) (cs ! i)) [0..<length cs])"

lemma tcp_stream_snoc: "tcp_stream E fd (cs @ [x]) = tcp_stream E fd cs @ taken E fd cs x"
  by (simp add: tcp_stream_def) (rule arg_cong [where f = concat], rule map_cong, auto simp: nth_append)

text \<open>\<^verbatim>\<open>send\<close> fails or takes at least one byte and at most what it is given.\<close>

definition send_takes :: "hf_env \<Rightarrow> u32 \<Rightarrow> bool" where
  "send_takes E fd \<longleftrightarrow> (\<forall>h d. d \<noteq> [] \<longrightarrow> failed (answer E h (call_send fd d))
     \<or> 1 \<le> ans_res (answer E h (call_send fd d)) \<and> ans_res (answer E h (call_send fd d)) \<le> int (length d))"

lemma HF_SendTcpData_loop_stream:
  assumes "send_takes E fd" "unat n \<le> length d"
  shows "unat k \<le> unat n \<Longrightarrow> \<exists>s' j. HF_SendTcpData_loop E fd d n k s = Some s' \<and> unat k + j \<le> unat n
    \<and> same_but_platform s s'
    \<and> tcp_stream E fd (calls (platform s')) = tcp_stream E fd (calls (platform s)) @ take j (drop (unat k) d)
    \<and> ((\<forall>h x. \<not> failed (answer E h (call_send fd x))) \<longrightarrow> unat k + j = unat n)"
proof (induction "unat n - unat k" arbitrary: k s rule: less_induct)
  case less
  show ?case
  proof (cases "k < n")
    case False
    with less.prems have "unat k = unat n" "HF_SendTcpData_loop E fd d n k s = Some s"
      by (auto simp: word_less_nat_alt HF_SendTcpData_loop.simps)
    then show ?thesis by (intro exI [of _ s] exI [of _ 0]) simp
  next
    case True
    define x where "x = take (unat (n - k)) (drop (unat k) d)"
    have nk: "unat (n - k) = unat n - unat k" "unat k < unat n"
      using True by (simp_all add: word_less_nat_alt unat_sub word_le_nat_alt)
    then have x: "length x = unat n - unat k" "x \<noteq> []" "rd d (unat k) (unat (n - k)) = Some x"
      using assms(2) by (auto simp: x_def rd_Some)
    define a where "a = answer E (calls (platform s)) (call_send fd x)"
    define s1 where "s1 = s\<lparr>platform := (platform s)\<lparr>calls := calls (platform s) @ [call_send fd x]\<rparr>\<rparr>"
    have step: "HF_SendTcpData_loop E fd d n k s = (if failed a then Some s1 else HF_SendTcpData_loop E fd d n (k + word_of_int (ans_res a)) s1)"
      using True x(3) by (subst HF_SendTcpData_loop.simps) (simp add: ask_def a_def s1_def)
    have s1: "same_but_platform s s1"
        "tcp_stream E fd (calls (platform s1)) = tcp_stream E fd (calls (platform s)) @ take (nat (ans_res a)) x"
      by (simp_all add: s1_def tcp_stream_snoc taken_def a_def)
    show ?thesis
    proof (cases "failed a")
      case True
      with step s1 nk(2) show ?thesis
        by (intro exI [of _ s1] exI [of _ 0]) (auto simp: a_def)
    next
      case False
      define r where "r = nat (ans_res a)"
      have "1 \<le> ans_res a" "ans_res a \<le> int (length x)"
        using assms(1) False x(2) unfolding send_takes_def a_def by blast+
      then have r: "1 \<le> r" "r \<le> unat n - unat k" "word_of_int (ans_res a) = (word_of_nat r :: u16)"
        using x(1) by (simp_all add: r_def)
      have "unat (word_of_nat r :: u16) = r"
        using r(2) unat_16 [of n] by (intro unat_of_nat_small) simp
      then have k': "unat (k + word_of_nat r) = unat k + r"
        using r(2) nk(2) unat_16 [of n] by (subst unat_add_small) simp_all
      have "unat n - unat (k + word_of_nat r) < unat n - unat k" "unat (k + word_of_nat r) \<le> unat n"
        using k' r(1,2) nk(2) by simp_all
      from less.hyps [OF this, of s1] obtain s' j where s': "HF_SendTcpData_loop E fd d n (k + word_of_nat r) s1 = Some s'" "unat k + r + j \<le> unat n"
          "same_but_platform s1 s'"
          "tcp_stream E fd (calls (platform s')) = tcp_stream E fd (calls (platform s1)) @ take j (drop (unat k + r) d)"
          "(\<forall>h x. \<not> failed (answer E h (call_send fd x))) \<longrightarrow> unat k + r + j = unat n"
        unfolding k' by blast
      have "take (nat (ans_res a)) x @ take j (drop (unat k + r) d) = take (r + j) (drop (unat k) d)"
        using r(2) nk by (simp add: x_def r_def [symmetric] min_def take_add add.commute [of "unat k" r])
      with step False r(3) s' s1 same_but_platform_trans [OF s1(1) s'(3)] show ?thesis
        by (intro exI [of _ s'] exI [of _ "r + j"]) (simp add: add.assoc)
    qed
  qed
qed

text \<open>C18: \<^verbatim>\<open>HF_SendTcpData\<close> always returns when \<^verbatim>\<open>send\<close> fails or takes at least one byte, however few it takes at
  a time; what the connection took is a prefix of the data, in order and without gaps, and all of it when no
  \<^verbatim>\<open>send\<close> fails.  Nothing but the state of the platform changes.\<close>

theorem HF_SendTcpData_sends:
  assumes "send_takes E fd" "unat n \<le> length d"
  shows "\<exists>s' k. HF_SendTcpData E fd d n p s = Some s' \<and> same_but_platform s s' \<and> k \<le> unat n
    \<and> tcp_stream E fd (calls (platform s')) = tcp_stream E fd (calls (platform s)) @ take k d
    \<and> ((\<forall>h x. \<not> failed (answer E h (call_send fd x))) \<longrightarrow> k = unat n)"
  using HF_SendTcpData_loop_stream [OF assms, of 0 s] by (simp add: HF_SendTcpData_def) blast

theorem HF_SendTcpData_sends_witness:
  "\<exists>s'. HF_SendTcpData plain_env 3 [5, 6, 7] 3 \<lparr>u8NeedPoll = 0, pu8AddrPara = None\<rparr> plain_boot = Some s'
     \<and> tcp_stream plain_env 3 (calls (platform s')) = tcp_stream plain_env 3 (calls (platform plain_boot)) @ [5, 6, 7]"
proof -
  have "send_takes plain_env 3" "\<forall>h x. \<not> failed (answer plain_env h (call_send 3 x))"
    by (auto simp: send_takes_def plain_env_def Suc_le_eq)
  with HF_SendTcpData_sends [of plain_env 3 3 "[5, 6, 7]" "\<lparr>u8NeedPoll = 0, pu8AddrPara = None\<rparr>" plain_boot] show ?thesis by auto
qed

section \<open>Announcements\<close>

text \<open>An announcement is due.\<close>

definition bc_due :: "'h zc \<Rightarrow> bool" where
  "bc_due s \<longleftrightarrow> u8MainState (con s) = PCT_STATE_CONNECT_CLOUD \<and> sleepcount s + 1 > g_u32BcSleepCount s
     \<and> u16SendBcNum (con s) < PCT_SEND_BC_MAX_NUM"

text \<open>One turn.\<close>

lemma ZC_SendBc_turn:
  assumes "zc_inv s"
  shows "\<exists>s'. ZC_SendBc (hf_adapter E) s = Some s' \<and> zc_inv s'
    \<and> calls (platform s') = calls (platform s) @ (if bc_due s then [call_sendto (g_Bcfd s) (bc_message s) (g_pu8RemoteAddr s)] else [])
    \<and> u16SendBcNum (con s') = u16SendBcNum (con s) + (if bc_due s then 1 else 0)"
proof -
  have lens: "length (u8DeviciId (g_struRegisterInfo s)) = 24" "length (RandMsg (con s)) = 32" "length (g_u8MsgBuildBuffer s) = 600"
    using assms zc_rest_lengths [of s] by (simp_all add: zc_inv_def zc_rest_def register_ok_def con_ok_def)
  let ?s = "s\<lparr>sleepcount := sleepcount s + 1\<rparr>"
  have b: "EVENT_BuildBcMsg ?s = Some (?s\<lparr>g_u8MsgBuildBuffer := bc_message s @ drop 64 (g_u8MsgBuildBuffer s)\<rparr>, 64)"
    using EVENT_BuildBcMsg_message [of ?s] lens by (simp add: bc_message_def)
  have len: "length (bc_message s) = 64"
    by (rule length_bc_message [OF lens(1,2)])
  have "\<exists>s'. ZC_SendBc (hf_adapter E) s = Some s'
    \<and> calls (platform s') = calls (platform s) @ (if bc_due s then [call_sendto (g_Bcfd s) (bc_message s) (g_pu8RemoteAddr s)] else [])
    \<and> u16SendBcNum (con s') = u16SendBcNum (con s) + (if bc_due s then 1 else 0)"
  proof (cases "bc_due s")
    case True
    with b len lens(3) show ?thesis
      by (simp add: bc_due_def ZC_SendBc_def hf_adapter_def HF_SendUdpData_def rd_Some tell_def ask_def)
  next
    case False
    with b show ?thesis
      by (auto simp: bc_due_def ZC_SendBc_def Let_def)
  qed
  then show ?thesis
    using hf.ZC_SendBc_cases [OF _ assms] by blast
qed

text \<open>Turns of \<^verbatim>\<open>ZC_SendBc\<close>, with anything in between, and the calls that were made in them.\<close>

fun bc_turns :: "hf_env \<Rightarrow> ('c hf_zc \<Rightarrow> 'c hf_zc) list \<Rightarrow> 'c hf_zc \<Rightarrow> ('c hf_zc \<times> hf_call list) option" where
  "bc_turns E [] s = Some (s, [])"
| "bc_turns E (g # gs) s = do {
     s' \<leftarrow> ZC_SendBc (hf_adapter E) (g s);
     (t, ds) \<leftarrow> bc_turns E gs s';
     Some (t, drop (length (calls (platform (g s)))) (calls (platform s')) @ ds)
   }"

definition keeps_bc_count :: "('c hf_zc \<Rightarrow> 'c hf_zc) \<Rightarrow> bool" where
  "keeps_bc_count g \<longleftrightarrow> (\<forall>s. zc_inv s \<longrightarrow> zc_inv (g s) \<and> u16SendBcNum (con (g s)) = u16SendBcNum (con s))"

lemma bc_turns_bounded:
  fixes s :: "'c hf_zc"
  assumes "zc_inv s" "\<forall>g\<in>set gs. keeps_bc_count g"
  shows "\<exists>t ds. bc_turns E gs s = Some (t, ds) \<and> zc_inv t
    \<and> unat (u16SendBcNum (con t)) = unat (u16SendBcNum (con s)) + length ds
    \<and> (\<forall>d\<in>set ds. \<exists>x :: 'c hf_zc. zc_inv x \<and> bc_due x \<and> d = call_sendto (g_Bcfd x) (bc_message x) (g_pu8RemoteAddr x))"
  using assms
proof (induction gs arbitrary: s)
  case Nil
  then show ?case by simp
next
  case (Cons g gs)
  have g: "zc_inv (g s)" "u16SendBcNum (con (g s)) = u16SendBcNum (con s)"
    using Cons.prems by (simp_all add: keeps_bc_count_def)
  obtain s' where s': "ZC_SendBc (hf_adapter E) (g s) = Some s'" "zc_inv s'"
      "calls (platform s') = calls (platform (g s))
         @ (if bc_due (g s) then [call_sendto (g_Bcfd (g s)) (bc_message (g s)) (g_pu8RemoteAddr (g s))] else [])"
      "u16SendBcNum (con s') = u16SendBcNum (con (g s)) + (if bc_due (g s) then 1 else 0)"
    using ZC_SendBc_turn [OF g(1), of E] by (elim exE conjE) (rule that)
  have num: "unat (u16SendBcNum (con s')) = unat (u16SendBcNum (con s)) + (if bc_due (g s) then 1 else 0)"
    unfolding s'(4) g(2) using g(2) by (auto simp: bc_due_def word_less_nat_alt unat_add_small)
  obtain t ds where t: "bc_turns E gs s' = Some (t, ds)" "zc_inv t"
      "unat (u16SendBcNum (con t)) = unat (u16SendBcNum (con s')) + length ds"
      "\<forall>d\<in>set ds. \<exists>x :: 'c hf_zc. zc_inv x \<and> bc_due x \<and> d = call_sendto (g_Bcfd x) (bc_message x) (g_pu8RemoteAddr x)"
    using Cons.IH [OF s'(2)] Cons.prems(2) by auto
  show ?case
  proof (cases "bc_due (g s)")
    case True
    have "\<exists>x :: 'c hf_zc. zc_inv x \<and> bc_due x
        \<and> call_sendto (g_Bcfd (g s)) (bc_message (g s)) (g_pu8RemoteAddr (g s)) = call_sendto (g_Bcfd x) (bc_message x) (g_pu8RemoteAddr x)"
      using g(1) True by blast
    with s'(1,3) num t True show ?thesis
      by (intro exI [of _ t] exI [of _ "call_sendto (g_Bcfd (g s)) (bc_message (g s)) (g_pu8RemoteAddr (g s)) # ds"]) simp
  next
    case False
    with s'(1,3) num t show ?thesis by simp
  qed
qed

text \<open>C26: \<^verbatim>\<open>ZC_SendBc\<close> always returns.  It sends one datagram, the message with domain, device and nonce, when the
  module is connected, the pause is over and the counter is below 300, and none otherwise; it adds what it sends to
  the counter; the message has 64 bytes, the code of an announcement and a checksum that a receiver accepts.  So
  between two resets of the counter (\<^verbatim>\<open>HF_BcInit\<close> and \<^verbatim>\<open>PCT_WakeUp\<close> set it to 0) any number of turns of
  \<^verbatim>\<open>ZC_SendBc\<close>, whatever happens between them, sends exactly as many announcements as the counter grows by,
  hence at most 300 less what it held before, and nothing else.\<close>

theorem ZC_SendBc_announces:
  fixes s :: "'c hf_zc"
  assumes "zc_inv s" "\<forall>g\<in>set gs. keeps_bc_count g"
  shows "(\<exists>s'. ZC_SendBc (hf_adapter E) s = Some s'
      \<and> calls (platform s') = calls (platform s) @ (if bc_due s then [call_sendto (g_Bcfd s) (bc_message s) (g_pu8RemoteAddr s)] else [])
      \<and> u16SendBcNum (con s') = u16SendBcNum (con s) + (if bc_due s then 1 else 0))
    \<and> length (bc_message s) = 64 \<and> MsgCode (get_MessageHead (bc_message s)) = ZC_CODE_BC_INFO
    \<and> PCT_CheckCrc (TotalMsgCrc (get_MessageHead (bc_message s))) (drop 8 (bc_message s))
        (ZC_HTONS (Payloadlen (get_MessageHead (bc_message s)))) = Some ZC_RET_OK
    \<and> (\<exists>t ds. bc_turns E gs s = Some (t, ds)
      \<and> unat (u16SendBcNum (con t)) = unat (u16SendBcNum (con s)) + length ds
      \<and> unat (u16SendBcNum (con s)) + length ds \<le> 300
      \<and> (\<forall>d\<in>set ds. \<exists>x :: 'c hf_zc. zc_inv x \<and> bc_due x \<and> d = call_sendto (g_Bcfd x) (bc_message x) (g_pu8RemoteAddr x)))"
proof (intro conjI)
  note head = get_MessageHead_message [where b = "[]", unfolded append_Nil2]
  have lens: "length (u8DeviciId (g_struRegisterInfo s)) = 24" "length (RandMsg (con s)) = 32"
    using assms(1) zc_rest_lengths [of s] by (simp_all add: zc_inv_def zc_rest_def register_ok_def con_ok_def)
  show "\<exists>s'. ZC_SendBc (hf_adapter E) s = Some s'
      \<and> calls (platform s') = calls (platform s) @ (if bc_due s then [call_sendto (g_Bcfd s) (bc_message s) (g_pu8RemoteAddr s)] else [])
      \<and> u16SendBcNum (con s') = u16SendBcNum (con s) + (if bc_due s then 1 else 0)"
    using ZC_SendBc_turn [OF assms(1)] by blast
  show "length (bc_message s) = 64"
    by (rule length_bc_message [OF lens])
  show "MsgCode (get_MessageHead (bc_message s)) = ZC_CODE_BC_INFO"
    by (simp add: bc_message_def head message_head_def)
  show "PCT_CheckCrc (TotalMsgCrc (get_MessageHead (bc_message s))) (drop 8 (bc_message s))
        (ZC_HTONS (Payloadlen (get_MessageHead (bc_message s)))) = Some ZC_RET_OK"
    using lens by (simp add: bc_message_def head message_head_def PCT_CheckCrc_eq)
  obtain t ds where t: "bc_turns E gs s = Some (t, ds)" "zc_inv t"
      "unat (u16SendBcNum (con t)) = unat (u16SendBcNum (con s)) + length ds"
      "\<forall>d\<in>set ds. \<exists>x :: 'c hf_zc. zc_inv x \<and> bc_due x \<and> d = call_sendto (g_Bcfd x) (bc_message x) (g_pu8RemoteAddr x)"
    using bc_turns_bounded [OF assms, of E] by (elim exE conjE) (rule that)
  have "u16SendBcNum (con t) \<le> PCT_SEND_BC_MAX_NUM"
    using t(2) by (simp add: zc_inv_def con_ok_def)
  then have "unat (u16SendBcNum (con s)) + length ds \<le> 300"
    unfolding t(3) [symmetric] by (simp add: word_le_nat_alt)
  with t show "\<exists>t ds. bc_turns E gs s = Some (t, ds)
      \<and> unat (u16SendBcNum (con t)) = unat (u16SendBcNum (con s)) + length ds
      \<and> unat (u16SendBcNum (con s)) + length ds \<le> 300
      \<and> (\<forall>d\<in>set ds. \<exists>x :: 'c hf_zc. zc_inv x \<and> bc_due x \<and> d = call_sendto (g_Bcfd x) (bc_message x) (g_pu8RemoteAddr x))"
    by blast
qed

text \<open>A connected module whose pause is over, with one announcement left.\<close>

definition announcing :: "unit hf_zc" where
  "announcing = (con_update (\<lambda>c. c\<lparr>u8MainState := PCT_STATE_CONNECT_CLOUD, u8keyRecv := PCT_KEY_RECVED, u16SendBcNum := 299\<rparr>) plain_boot)
     \<lparr>g_u32BcSleepCount := 10, sleepcount := 10\<rparr>"

lemma announcing_ok: "zc_inv announcing" "bc_due announcing" "u16SendBcNum (con announcing) = 299"
proof -
  have "zc_inv plain_boot"
    using HF_Init_inv(1) [of plain_env "\<lambda>_. 0" "hf_start no_flash"] .
  then show "zc_inv announcing"
    by (simp add: announcing_def zc_inv_def zc_rest_def con_ok_def recv_fields_ok_def word_le_nat_alt)
  show "bc_due announcing" "u16SendBcNum (con announcing) = 299"
    by (simp_all add: announcing_def bc_due_def word_less_nat_alt)
qed

theorem ZC_SendBc_announces_witness:
  "(\<exists>s'. ZC_SendBc (hf_adapter plain_env) announcing = Some s' \<and> u16SendBcNum (con s') = 300
      \<and> calls (platform s') = calls (platform announcing) @ [call_sendto (g_Bcfd announcing) (bc_message announcing) (g_pu8RemoteAddr announcing)])
   \<and> (\<exists>t ds. bc_turns plain_env [\<lambda>s. s, \<lambda>s. s\<lparr>sleepcount := 10\<rparr>, \<lambda>s. s\<lparr>sleepcount := 10\<rparr>] announcing = Some (t, ds) \<and> length ds = 1)"
proof -
  have "\<forall>g\<in>set [\<lambda>s. s, \<lambda>s :: unit hf_zc. s\<lparr>sleepcount := 10\<rparr>, \<lambda>s. s\<lparr>sleepcount := 10\<rparr>]. keeps_bc_count g"
    by (auto simp: keeps_bc_count_def zc_inv_def zc_rest_def recv_fields_ok_def)
  note turns = ZC_SendBc_announces [OF announcing_ok(1) this, of plain_env]
  obtain s' where s': "ZC_SendBc (hf_adapter plain_env) announcing = Some s'" "u16SendBcNum (con s') = 300"
      "calls (platform s') = calls (platform announcing) @ [call_sendto (g_Bcfd announcing) (bc_message announcing) (g_pu8RemoteAddr announcing)]"
    using turns announcing_ok(2,3) by auto
  obtain t ds where t: "bc_turns plain_env [\<lambda>s. s, \<lambda>s. s\<lparr>sleepcount := 10\<rparr>, \<lambda>s. s\<lparr>sleepcount := 10\<rparr>] announcing = Some (t, ds)"
      "length ds \<le> 1"
    using turns announcing_ok(3) by (auto simp del: bc_turns.simps)
  have "ds \<noteq> []"
    using t(1) s'(1,3) by (auto simp: bc_turns.simps(2) [of plain_env "\<lambda>s. s"] simp del: bc_turns.simps elim!: bind2E)
  with t have "length ds = 1"
    by (cases ds) simp_all
  with s' t(1) show ?thesis by blast
qed

section \<open>Accepting clients\<close>

lemma add_clients_bad:
  assumes "i \<le> j" "j < i + k" "rd1 (u32ClientVaildFlag c) j = Some 0" "rd1 (u32ClientFd c) j = Some fd" "8 \<le> fd"
  shows "add_clients k i c x = None"
  using assms
proof (induction k arbitrary: i x)
  case (Suc k)
  show ?case
  proof (cases "i = j")
    case True
    have "fd div 8 \<noteq> 0"
      using Suc.prems(5) by (simp add: word_unat_eq_iff unat_div word_le_nat_alt div_eq_0_iff not_less)
    with True Suc.prems(3,4) show ?thesis
      by (simp add: add_fd_def FD_SET_def split: prod.split)
  next
    case False
    with Suc.prems Suc.IH [of "Suc i"] show ?thesis
      by (auto intro!: Option.bind_cong [THEN trans] simp: not_None_eq split: bind_splits)
  qed
qed simp

text \<open>C27: When \<^verbatim>\<open>accept\<close> fails, its result, which the code does not check, becomes a client: it takes a slot of the
  table, and the next turn of \<^verbatim>\<open>HF_CloudRecvfunc\<close> puts the descriptor 0xFFFFFFFF into the set for \<^verbatim>\<open>select\<close>, a
  write outside of the set (undefined behaviour).\<close>

theorem failed_accept_breaks_select:
  assumes "serve_accept E p s = Some s'" "u32Socket (struClientConnection (con s)) \<noteq> PCT_INVAILD_SOCKET"
    "FD_ISSET (u32Socket (struClientConnection (con s))) p = Some True"
    "ans_res (answer E (calls (platform s)) (call_accept (u32Socket (struClientConnection (con s))))) = -1"
    "length (u32ClientVaildFlag (g_struClientInfo s)) = 4" "length (u32ClientFd (g_struClientInfo s)) = 4"
    "j < 4" "u32ClientVaildFlag (g_struClientInfo s) ! j = ZC_CLIENT_VAILD_FLAG"
  shows "watch m s' = None"
proof -
  let ?sock = "u32Socket (struClientConnection (con s))"
  let ?s = "s\<lparr>platform := (platform s)\<lparr>calls := calls (platform s) @ [call_accept ?sock]\<rparr>\<rparr>"
  obtain i where i: "i < 4" "ZC_ClientConnect (- 1) ?s = Some (client_update (\<lambda>c. c\<lparr>u32ClientFd := (u32ClientFd c)[i := - 1],
     u32ClientVaildFlag := (u32ClientVaildFlag c)[i := ZC_CLIENT_INVAILD_FLAG]\<rparr>) ?s, ZC_RET_OK)"
    using ZC_ClientConnect_free [of ?s j "- 1"] assms(5-8) by auto
  then have "s' = client_update (\<lambda>c. c\<lparr>u32ClientFd := (u32ClientFd c)[i := - 1],
     u32ClientVaildFlag := (u32ClientVaildFlag c)[i := ZC_CLIENT_INVAILD_FLAG]\<rparr>) ?s"
    using assms(1-4) by (simp add: serve_accept_def ask_def)
  then have slot: "rd1 (u32ClientVaildFlag (g_struClientInfo s')) i = Some 0" "rd1 (u32ClientFd (g_struClientInfo s')) i = Some (- 1)"
    using i(1) assms(5,6) by (simp_all add: client_update_def rd1_def)
  have "add_clients 4 0 (g_struClientInfo s') x = None" for x
    using add_clients_bad [OF _ _ slot, of 0 4 x] i(1) word_n1_ge by simp
  then show ?thesis
    by (simp add: watch_def Let_def bind_eq_None_conv split: option.splits)
qed

definition refusing_env :: hf_env where
  "refusing_env = plain_env\<lparr>answer := (\<lambda>h x. \<lparr>ans_res = - 1, ans_val = 0, ans_data = []\<rparr>)\<rparr>"

definition listening :: "unit hf_zc" where
  "listening = con_update (\<lambda>c. c\<lparr>struClientConnection := (struClientConnection c)\<lparr>u32Socket := 2\<rparr>\<rparr>) plain_boot"

theorem failed_accept_breaks_select_witness:
  "\<exists>s'. serve_accept refusing_env 4 listening = Some s' \<and> watch 0 s' = None"
proof -
  have slots: "u32ClientVaildFlag (g_struClientInfo listening) = [1, 1, 1, 1]" "u32ClientFd (g_struClientInfo listening) = [0, 0, 0, 0]"
    by (simp_all add: listening_def HF_Init_def Let_def indet_def config_update_def plain_tell uart_idle_def
      PCT_Init_def ZC_ClientInit_def client_update_def TIMER_Init_def MSG_Init_def ZC_ConfigInitPara_def zc_start_def hf_start_def
      numeral_eq_Suc)
  have sock: "u32Socket (struClientConnection (con listening)) = 2" "FD_ISSET 2 4 = Some True"
    by (simp add: listening_def, simp add: FD_ISSET_def bit_numeral_simps)
  let ?s = "listening\<lparr>platform := (platform listening)\<lparr>calls := calls (platform listening) @ [call_accept 2]\<rparr>\<rparr>"
  obtain x where "ZC_ClientConnect (- 1) ?s = Some (x, ZC_RET_OK)"
    using ZC_ClientConnect_free [of ?s 0 "- 1"] slots by auto
  then have "serve_accept refusing_env 4 listening = Some x"
    using sock by (simp add: serve_accept_def ask_def refusing_env_def)
  with failed_accept_breaks_select [OF this, of 0 0] slots sock show ?thesis
    by (simp add: refusing_env_def)
qed

end
