(* ===== verification/CloudQueue.thy ===== *)
theory CloudQueue
  imports HfNet
begin

text \<open>
  What waits for the cloud, seen from outside: \<^verbatim>\<open>PCT_SendMsgToCloud\<close> and \<^verbatim>\<open>MSG_SendDataToCloud\<close> over the
  platform's \<^verbatim>\<open>HF_SendTcpData\<close> implement a queue of at most three messages.  The abstract queue holds plain
  texts; a waiting frame stands for the text that the keys of the module decrypt it to.
\<close>

section \<open>The abstract queue\<close>

text \<open>A message is queued, or the turn of the receive task sends the oldest one.\<close>

datatype cloud_op = Queue_Msg ZC_SecHead "u8 list" | Send_Oldest

text \<open>\<^verbatim>\<open>u16Len > MSG_BUFFER_MAXLEN\<close>, where the sum does not wrap around.\<close>

definition too_long :: "'h zc \<Rightarrow> ZC_SecHead \<Rightarrow> bool" where
  "too_long s h \<longleftrightarrow> (let n = ZC_HTONS (u16TotalMsg h); l = unat n + 4 + unat (snd (SEC_PaddingCheck s (u8SecType h) n))
     in 600 < l \<and> l < 65536)"

text \<open>What waits afterwards, what was sent, and the results of \<^verbatim>\<open>PCT_SendMsgToCloud\<close>; \<open>long\<close> says which
  messages are refused for their length.\<close>

fun fifo_run :: "(ZC_SecHead \<Rightarrow> bool) \<Rightarrow> cloud_op list \<Rightarrow> u8 list list \<Rightarrow> u8 list list \<times> u8 list list \<times> u32 list" where
  "fifo_run long [] q = (q, [], [])"
| "fifo_run long (Queue_Msg h p # ops) q =
     (if long h \<or> length q = 3
      then let (w, d, rs) = fifo_run long ops q in (w, d, ZC_RET_ERROR # rs)
      else let (w, d, rs) = fifo_run long ops (q @ [p]) in (w, d, ZC_RET_OK # rs))"
| "fifo_run long (Send_Oldest # ops) [] = fifo_run long ops []"
| "fifo_run long (Send_Oldest # ops) (p # q) = (let (w, d, rs) = fifo_run long ops q in (w, p # d, rs))"

section \<open>The run of the code\<close>

fun cloud_run :: "hf_env \<Rightarrow> u32 \<Rightarrow> cloud_op list \<Rightarrow> 'c hf_zc \<Rightarrow> ('c hf_zc \<times> u32 list) option" where
  "cloud_run E fd [] s = Some (s, [])"
| "cloud_run E fd (Queue_Msg h p # ops) s = do {
     (s, r) \<leftarrow> PCT_SendMsgToCloud (hf_adapter E) h p s;
     (s, rs) \<leftarrow> cloud_run E fd ops s;
     Some (s, r # rs)
   }"
| "cloud_run E fd (Send_Oldest # ops) s = do {
     s \<leftarrow> MSG_SendDataToCloud (hf_adapter E) fd s;
     cloud_run E fd ops s
   }"

text \<open>A message whose head has the length of its text and a known algorithm, and whose cipher text fits into a
  buffer or is refused as too long.  Between the two is RSA text for which \<^verbatim>\<open>SEC_PaddingCheck\<close> announces less
  than its cipher text takes.\<close>

fun op_ok :: "'h zc \<Rightarrow> cloud_op \<Rightarrow> bool" where
  "op_ok s (Queue_Msg h p) \<longleftrightarrow> u8SecType h \<in> {ZC_SEC_ALG_NONE, ZC_SEC_ALG_RSA, ZC_SEC_ALG_AES}
     \<and> unat (ZC_HTONS (u16TotalMsg h)) = length p
     \<and> (sec_room (sec_flag s (u8SecType h)) (length p) \<le> 596 \<or> too_long s h)"
| "op_ok s Send_Oldest \<longleftrightarrow> True"

text \<open>A frame that stands for a text: its head announces its length, and its body decrypts to the text.\<close>

definition carries :: "'h PTC_ModuleAdapter \<Rightarrow> 'h zc \<Rightarrow> u8 list \<Rightarrow> u8 list \<Rightarrow> bool" where
  "carries A s f p \<longleftrightarrow> (\<exists>h c. f = put_SecHead h @ c \<and> unat (ZC_HTONS (u16TotalMsg h)) = length c \<and> length f \<le> 600
     \<and> (\<forall>rest out l. length out = 600 \<longrightarrow>
          (\<exists>q. SEC_Decrypt A s h (c @ rest) out l = Some (ZC_RET_OK, p @ q, word_of_nat (length p)))))"

text \<open>What the connection took of a frame: a part of its front, and all of it when no \<^verbatim>\<open>send\<close> fails.\<close>

definition delivers :: "hf_env \<Rightarrow> u32 \<Rightarrow> 'c hf_zc \<Rightarrow> u8 list \<Rightarrow> u8 list \<Rightarrow> bool" where
  "delivers E fd s x p \<longleftrightarrow> (\<exists>f k. carries (hf_adapter E) s f p \<and> x = take k f
     \<and> ((\<forall>h y. \<not> failed (answer E h (call_send fd y))) \<longrightarrow> x = f))"

lemma same_keys_trans: "same_keys s t \<Longrightarrow> same_keys t u \<Longrightarrow> same_keys s u"
  by (simp add: same_keys_def)

lemma same_keys_sym: "same_keys s t \<Longrightarrow> same_keys t s"
  by (simp add: same_keys_def)

lemma carries_cong: "same_keys s t \<Longrightarrow> carries A s f p = carries A t f p"
  by (simp add: carries_def SEC_Decrypt_cong [of s t])

lemma ready_cong:
  assumes "same_keys s t"
  shows "sec_ready A s = sec_ready A t" "sec_flag s = sec_flag t" "too_long s = too_long t" "op_ok s x = op_ok t x"
proof -
  show flag: "sec_flag s = sec_flag t"
    using assms by (simp add: fun_eq_iff sec_flag_def same_keys_def)
  show tl: "too_long s = too_long t"
    by (simp add: fun_eq_iff too_long_def SEC_PaddingCheck_def flag)
  show "sec_ready A s = sec_ready A t"
    using assms by (simp add: sec_ready_def same_keys_def rsa_enc_of_def rsa_dec_of_def)
  show "op_ok s x = op_ok t x"
    by (cases x) (simp_all add: flag tl)
qed

section \<open>One operation\<close>

lemma PCT_SendMsgToCloud_loop_changed:
  "PCT_SendMsgToCloud_loop k i A h p pad s = Some (s', r) \<Longrightarrow> send_changed s s'"
  by (induction k arbitrary: i)
    (auto simp: fill_send_buffer_def Let_def elim!: bindE bind2E bind3E split: if_split_asm)

lemma PCT_SendMsgToCloud_changed: "PCT_SendMsgToCloud A h p s = Some (s', r) \<Longrightarrow> send_changed s s'"
  by (auto simp: PCT_SendMsgToCloud_def Let_def dest: PCT_SendMsgToCloud_loop_changed split: prod.splits if_split_asm)

text \<open>Three frames wait exactly when no buffer is idle.\<close>

lemma send_inv_full:
  assumes inv: "send_inv s"
  shows "length (outbox s) \<le> 3" "length (outbox s) = 3 \<longleftrightarrow> (\<forall>i<3. u8Status (g_struSendBuffer s ! i) \<noteq> MSG_BUFFER_IDLE)"
proof -
  let ?c = "ring_contents (g_struSendQueue s)" and ?all = "(\<lambda>j. Some (SendBuffer j)) ` {..<3}"
  have set: "set ?c = {Some (SendBuffer i) | i. i < 3 \<and> u8Status (g_struSendBuffer s ! i) = MSG_BUFFER_FULL}"
    and dist: "distinct ?c"
    using inv by (simp_all add: send_ok_def)
  note len = distinct_card [OF dist]
  have all: "card ?all = 3"
    by (subst card_image) (auto simp: inj_on_def)
  have sub: "set ?c \<subseteq> ?all"
    unfolding set by auto
  show le: "length (outbox s) \<le> 3"
    using card_mono [OF _ sub] all by (simp add: outbox_def flip: len)
  have "length (outbox s) = 3" if "\<forall>i<3. u8Status (g_struSendBuffer s ! i) \<noteq> MSG_BUFFER_IDLE"
  proof -
    have "\<forall>i<3. u8Status (g_struSendBuffer s ! i) = MSG_BUFFER_FULL"
      using that inv by (auto simp: send_ok_def)
    then have "set ?c = ?all"
      unfolding set by auto
    then show ?thesis
      using all by (simp add: outbox_def flip: len)
  qed
  moreover have "u8Status (g_struSendBuffer s ! i) \<noteq> MSG_BUFFER_IDLE" if "length (outbox s) = 3" "i < 3" for i
    using send_inv_room(1) [OF inv that(2)] that(1) by (auto simp: outbox_def)
  ultimately show "length (outbox s) = 3 \<longleftrightarrow> (\<forall>i<3. u8Status (g_struSendBuffer s ! i) \<noteq> MSG_BUFFER_IDLE)"
    by blast
qed

lemma PCT_SendMsgToCloud_loop_full:
  "length (g_struSendBuffer s) = 3 \<Longrightarrow> i + k = 3 \<Longrightarrow> \<forall>j<3. u8Status (g_struSendBuffer s ! j) \<noteq> MSG_BUFFER_IDLE \<Longrightarrow>
    PCT_SendMsgToCloud_loop k i A h p pad s = Some (s, ZC_RET_ERROR)"
  by (induction k arbitrary: i) (simp_all add: rd1_def)

text \<open>A message is refused.\<close>

lemma queue_refused:
  assumes inv: "send_inv s" and full: "too_long s h \<or> length (outbox s) = 3"
  shows "PCT_SendMsgToCloud A h p s = Some (s, ZC_RET_ERROR)"
proof -
  let ?n = "ZC_HTONS (u16TotalMsg h)"
  obtain r pad where pad: "SEC_PaddingCheck s (u8SecType h) ?n = (r, pad)"
    by (cases "SEC_PaddingCheck s (u8SecType h) ?n") (rule that)
  have "too_long s h \<Longrightarrow> ?n + 4 + pad > 600"
  proof -
    assume "too_long s h"
    then have l: "600 < unat ?n + 4 + unat pad" "unat ?n + 4 + unat pad < 65536"
      by (simp_all add: too_long_def pad Let_def)
    then have "unat (?n + 4 + pad) = unat ?n + 4 + unat pad"
      by (simp add: unat_add_small)
    with l(1) show ?thesis by (simp add: word_less_nat_alt)
  qed
  moreover have "length (outbox s) = 3 \<Longrightarrow> PCT_SendMsgToCloud_loop 3 0 A h p pad s = Some (s, ZC_RET_ERROR)"
    using PCT_SendMsgToCloud_loop_full [of s 0 3] send_inv_full(2) [OF inv] inv by (simp add: send_ok_def)
  ultimately show ?thesis
    using full by (auto simp: PCT_SendMsgToCloud_def pad)
qed

text \<open>A message is queued.\<close>

lemma queue_accepted:
  assumes inv: "send_inv s" "length (outbox s) < 3" and ready: "sec_ready A s"
    and op: "op_ok s (Queue_Msg h p)" "\<not> too_long s h"
  shows "\<exists>s' f. PCT_SendMsgToCloud A h p s = Some (s', ZC_RET_OK) \<and> send_inv s' \<and> send_changed s s'
    \<and> outbox s' = outbox s @ [f] \<and> carries A s f p"
proof -
  let ?n = "ZC_HTONS (u16TotalMsg h)"
  have idle: "\<exists>i<3. u8Status (g_struSendBuffer s ! i) = MSG_BUFFER_IDLE"
    using send_inv_full(2) [OF inv(1)] inv(2) by force
  have n: "unat ?n \<le> length p" "sec_room (sec_flag s (u8SecType h)) (unat ?n) \<le> 596"
    using op by simp_all
  have np: "word_of_nat (length p) = ?n"
    using op(1) unat_16 [of ?n] by (simp add: word_unat_eq_iff unat_of_nat_small)
  note frame = PCT_SendMsgToCloud_frame [OF inv(1) idle ready _ refl n(1,2)]
  have ty: "u8SecType h \<in> {ZC_SEC_ALG_NONE, ZC_SEC_ALG_RSA, ZC_SEC_ALG_AES}"
    using op(1) by simp
  obtain s' c m where s': "PCT_SendMsgToCloud A h p s = Some (s', ZC_RET_OK)" "send_inv s'"
      "outbox s' = outbox s @ [put_SecHead (h\<lparr>u16TotalMsg := ZC_HTONS m\<rparr>) @ c]" "unat m = length c" "length c \<le> 596"
    using frame [OF ty, of "replicate 600 0"] by auto
  have "\<exists>q. SEC_Decrypt A s (h\<lparr>u16TotalMsg := ZC_HTONS m\<rparr>) (c @ rest) out l = Some (ZC_RET_OK, p @ q, word_of_nat (length p))"
    if out: "length out = 600" for out rest l
  proof -
    obtain c' m' q where c': "outbox s' = outbox s @ [put_SecHead (h\<lparr>u16TotalMsg := ZC_HTONS m'\<rparr>) @ c']" "unat m' = length c'"
      and dec: "\<And>h' rest l'. u8SecType h' = u8SecType h \<Longrightarrow> ZC_HTONS (u16TotalMsg h') = m' \<Longrightarrow>
         SEC_Decrypt A s h' (c' @ rest) out l' = Some (ZC_RET_OK, take (unat ?n) p @ q, ?n)"
      using frame [OF ty out] s'(1) by auto
    have "c' = c"
      using s'(3) c'(1) by (simp add: put_SecHead_def)
    then have "m' = m"
      using s'(4) c'(2) by (simp add: word_unat_eq_iff)
    with dec [of "h\<lparr>u16TotalMsg := ZC_HTONS m\<rparr>" rest l] \<open>c' = c\<close> op(1) np show ?thesis
      by (auto simp: ZC_HTONS_involution)
  qed
  then have "carries A s (put_SecHead (h\<lparr>u16TotalMsg := ZC_HTONS m\<rparr>) @ c) p"
    unfolding carries_def using s'(4,5)
    by (intro exI [of _ "h\<lparr>u16TotalMsg := ZC_HTONS m\<rparr>"] exI [of _ c]) (simp add: ZC_HTONS_involution)
  with s' PCT_SendMsgToCloud_changed [OF s'(1)] show ?thesis by blast
qed

text \<open>The oldest one is sent.\<close>

lemma send_nothing: "send_inv s \<Longrightarrow> outbox s = [] \<Longrightarrow> MSG_SendDataToCloud A fd s = Some s"
  using ring_pop(1) [of "g_struSendQueue s"] by (simp add: MSG_SendDataToCloud_def outbox_def send_ok_def)

lemma send_oldest:
  assumes inv: "send_inv s" and out: "outbox s = f # fs" and env: "send_takes E fd"
  shows "\<exists>s' k. MSG_SendDataToCloud (hf_adapter E) fd s = Some s' \<and> send_inv s' \<and> same_keys s s' \<and> outbox s' = fs
    \<and> tcp_stream E fd (calls (platform s')) = tcp_stream E fd (calls (platform s)) @ take k f
    \<and> ((\<forall>h y. \<not> failed (answer E h (call_send fd y))) \<longrightarrow> take k f = f)"
proof -
  let ?q = "g_struSendQueue s"
  obtain m ms where c: "ring_contents ?q = m # ms" "frame_of (g_struSendBuffer s) m = f"
      "map (frame_of (g_struSendBuffer s)) ms = fs"
    using out by (auto simp: outbox_def)
  obtain i where i: "i < 3" "m = Some (SendBuffer i)"
    using send_inv_contents [OF inv, of m] c(1) by auto
  obtain q where q: "MSG_PopMsg ?q = Some (q, m)" "ring_inv q" "ring_contents q = ms"
    using ring_pop(2) [OF _ c(1)] inv by (auto simp: send_ok_def)
  have qc: "ring_contents ?q = Some (SendBuffer i) # ring_contents q"
    using c(1) i(2) q(3) by simp
  note rel = send_inv_release [OF inv qc q(2)]
  let ?b = "g_struSendBuffer s ! i"
  have b: "unat (u32Len ?b) \<le> 600" "length (u8MsgBuffer ?b) = 600" "length (g_struSendBuffer s) = 3"
    using inv rel(1,2) by (auto simp: send_ok_def frame_ok_def)
  then have n: "unat (ucast (u32Len ?b) :: u16) = unat (u32Len ?b)"
    by (simp add: unsigned_ucast_eq take_bit_nat_eq_self)
  have f: "f = take (unat (u32Len ?b)) (u8MsgBuffer ?b)"
    using c(2) i(2) by (simp add: frame_of_def)
  obtain s1 k where s1: "HF_SendTcpData E fd (u8MsgBuffer ?b) (ucast (u32Len ?b)) \<lparr>u8NeedPoll = 0, pu8AddrPara = None\<rparr>
        (s\<lparr>g_struSendQueue := q\<rparr>) = Some s1" "k \<le> unat (u32Len ?b)" "same_but_platform (s\<lparr>g_struSendQueue := q\<rparr>) s1"
      "tcp_stream E fd (calls (platform s1)) = tcp_stream E fd (calls (platform s)) @ take k (u8MsgBuffer ?b)"
      "(\<forall>h y. \<not> failed (answer E h (call_send fd y))) \<longrightarrow> k = unat (u32Len ?b)"
    using HF_SendTcpData_loop_stream [OF env, of "ucast (u32Len ?b)" "u8MsgBuffer ?b" 0 "s\<lparr>g_struSendQueue := q\<rparr>"] b n
    by (auto simp: HF_SendTcpData_def)
  from s1(3) obtain h where h: "s1 = s\<lparr>g_struSendQueue := q, platform := h\<rparr>"
    by (auto elim!: same_but_platformE)
  let ?s' = "s\<lparr>g_struSendQueue := q, platform := h, g_struSendBuffer := (g_struSendBuffer s)[i := idle ?b]\<rparr>"
  have "MSG_SendDataToCloud (hf_adapter E) fd s = Some ?s'"
    using q(1) i b(3) s1(1)
    by (simp add: MSG_SendDataToCloud_def get_buffer_def set_buffer_def rd1_def release_def h hf_adapter_def)
  moreover have "send_inv ?s'"
    using rel(3) by simp
  moreover have "outbox ?s' = fs"
    using inv qc c(3) q(3) by (simp add: outbox_def map_frame_of_update send_ok_def)
  moreover have "take k (u8MsgBuffer ?b) = take k f"
    using s1(2) f by (simp add: min_def)
  ultimately show ?thesis
    using s1(4,5) f by (intro exI [of _ ?s'] exI [of _ k]) (auto simp: h same_keys_def)
qed

section \<open>Any run\<close>

text \<open>The relation between the state and the abstract queue.\<close>

definition holds_queue :: "hf_env \<Rightarrow> 'c hf_zc \<Rightarrow> 'c hf_zc \<Rightarrow> u8 list list \<Rightarrow> bool" where
  "holds_queue E s0 s q \<longleftrightarrow> send_inv s \<and> same_keys s0 s \<and> list_all2 (carries (hf_adapter E) s0) (outbox s) q"

lemma holds_queue_put:
  assumes q: "holds_queue E s0 s q" and ready: "sec_ready (hf_adapter E) s0" and op: "op_ok s0 (Queue_Msg h p)"
  shows "\<exists>s'. PCT_SendMsgToCloud (hf_adapter E) h p s
      = Some (s', if too_long s0 h \<or> length q = 3 then ZC_RET_ERROR else ZC_RET_OK)
    \<and> holds_queue E s0 s' (if too_long s0 h \<or> length q = 3 then q else q @ [p])
    \<and> platform s' = platform s"
proof -
  have s: "send_inv s" "same_keys s0 s" "list_all2 (carries (hf_adapter E) s0) (outbox s) q"
    using q by (simp_all add: holds_queue_def)
  note cong = ready_cong [OF s(2)] and len = list_all2_lengthD [OF s(3)]
  show ?thesis
  proof (cases "too_long s0 h \<or> length q = 3")
    case True
    then have "too_long s h \<or> length (outbox s) = 3"
      using cong(3) len by simp
    from queue_refused [OF s(1) this] True q show ?thesis by simp
  next
    case False
    then have room: "length (outbox s) < 3" "\<not> too_long s h"
      using send_inv_full(1) [OF s(1)] cong(3) len by simp_all
    have "sec_ready (hf_adapter E) s" "op_ok s (Queue_Msg h p)"
      using ready op by (simp_all only: cong)
    from queue_accepted [OF s(1) room(1) this room(2)]
    obtain s' f where s': "PCT_SendMsgToCloud (hf_adapter E) h p s = Some (s', ZC_RET_OK)" "send_inv s'" "send_changed s s'"
        "outbox s' = outbox s @ [f]" "carries (hf_adapter E) s f p"
      by (elim exE conjE) (rule that)
    have "same_keys s s'" "platform s' = platform s"
      by (subst s'(3), simp add: same_keys_def)+
    moreover have "carries (hf_adapter E) s0 f p"
      using s'(5) carries_cong [OF s(2)] by simp
    ultimately show ?thesis
      using s' s False by (intro exI [of _ s']) (auto simp: holds_queue_def list_all2_appendI intro: same_keys_trans)
  qed
qed

lemma holds_queue_take:
  assumes q: "holds_queue E s0 s (p # q)" and env: "send_takes E fd"
  shows "\<exists>s' x. MSG_SendDataToCloud (hf_adapter E) fd s = Some s' \<and> holds_queue E s0 s' q \<and> delivers E fd s0 x p
    \<and> tcp_stream E fd (calls (platform s')) = tcp_stream E fd (calls (platform s)) @ x"
proof -
  obtain f fs where f: "outbox s = f # fs" "carries (hf_adapter E) s0 f p" "list_all2 (carries (hf_adapter E) s0) fs q"
    using q by (auto simp: holds_queue_def list_all2_Cons2)
  have s: "send_inv s" "same_keys s0 s"
    using q by (simp_all add: holds_queue_def)
  from send_oldest [OF s(1) f(1) env] obtain s' k where s': "MSG_SendDataToCloud (hf_adapter E) fd s = Some s'" "send_inv s'"
      "same_keys s s'" "outbox s' = fs" "tcp_stream E fd (calls (platform s')) = tcp_stream E fd (calls (platform s)) @ take k f"
      "(\<forall>h y. \<not> failed (answer E h (call_send fd y))) \<longrightarrow> take k f = f"
    by (elim exE conjE) (rule that)
  have "delivers E fd s0 (take k f) p"
    unfolding delivers_def using f(2) s'(6) by (intro exI [of _ f] exI [of _ k]) simp
  moreover have "holds_queue E s0 s' q"
    using s' f(3) same_keys_trans [OF s(2) s'(3)] by (simp add: holds_queue_def)
  ultimately show ?thesis
    using s' by (intro exI [of _ s'] exI [of _ "take k f"]) simp
qed

lemma cloud_run_refines:
  assumes ready: "sec_ready (hf_adapter E) s0" and env: "send_takes E fd"
  shows "holds_queue E s0 s q \<Longrightarrow> \<forall>op\<in>set ops. op_ok s0 op \<Longrightarrow> fifo_run (too_long s0) ops q = (w, d, rs) \<Longrightarrow>
    \<exists>s' xs. cloud_run E fd ops s = Some (s', rs) \<and> holds_queue E s0 s' w \<and> list_all2 (delivers E fd s0) xs d
      \<and> tcp_stream E fd (calls (platform s')) = tcp_stream E fd (calls (platform s)) @ concat xs"
proof (induction "too_long s0" ops q arbitrary: s w d rs rule: fifo_run.induct)
  case (1 q)
  then show ?case by (intro exI [of _ s] exI [of _ "[]"]) simp
next
  case (2 h p ops q)
  let ?full = "too_long s0 h \<or> length q = 3"
  obtain w' d' rs' where rest: "fifo_run (too_long s0) ops (if ?full then q else q @ [p]) = (w', d', rs')"
    by (cases "fifo_run (too_long s0) ops (if ?full then q else q @ [p])") (rule that)
  then have eq: "w = w'" "d = d'" "rs = (if ?full then ZC_RET_ERROR else ZC_RET_OK) # rs'"
    using 2(5) by (auto split: if_split_asm)
  obtain s1 where s1: "PCT_SendMsgToCloud (hf_adapter E) h p s = Some (s1, if ?full then ZC_RET_ERROR else ZC_RET_OK)"
      "holds_queue E s0 s1 (if ?full then q else q @ [p])" "platform s1 = platform s"
    using holds_queue_put [OF 2(3) ready, of h p] 2(4) by (auto simp del: op_ok.simps)
  have "\<exists>s' xs. cloud_run E fd ops s1 = Some (s', rs') \<and> holds_queue E s0 s' w' \<and> list_all2 (delivers E fd s0) xs d'
      \<and> tcp_stream E fd (calls (platform s')) = tcp_stream E fd (calls (platform s1)) @ concat xs"
    using 2(1,2,4) s1(2) rest by (cases ?full) simp_all
  then show ?case
    using s1 eq by (elim exE conjE) (auto simp del: cloud_run.simps simp: cloud_run.simps(2))
next
  case (3 ops)
  then have "MSG_SendDataToCloud (hf_adapter E) fd s = Some s"
    by (intro send_nothing) (simp_all add: holds_queue_def)
  with 3 show ?case by simp
next
  case (4 ops p q)
  obtain w' d' rs' where rest: "fifo_run (too_long s0) ops q = (w', d', rs')"
    by (cases "fifo_run (too_long s0) ops q") (rule that)
  then have eq: "w = w'" "d = p # d'" "rs = rs'"
    using 4(4) by simp_all
  obtain s1 x where s1: "MSG_SendDataToCloud (hf_adapter E) fd s = Some s1" "holds_queue E s0 s1 q" "delivers E fd s0 x p"
      "tcp_stream E fd (calls (platform s1)) = tcp_stream E fd (calls (platform s)) @ x"
    using holds_queue_take [OF 4(2) env] by (elim exE conjE) (rule that)
  obtain s' xs where s': "cloud_run E fd ops s1 = Some (s', rs')" "holds_queue E s0 s' w'" "list_all2 (delivers E fd s0) xs d'"
      "tcp_stream E fd (calls (platform s')) = tcp_stream E fd (calls (platform s1)) @ concat xs"
    using 4(1) [OF s1(2) _ rest] 4(3) by auto
  show ?case
    unfolding eq using s1 s' by (intro exI [of _ s'] exI [of _ "x # xs"]) simp
qed

section \<open>Properties\<close>

text \<open>C9: What waits for the cloud is a first-in first-out queue of three messages.  Take the module with its keys in
  place and any sequence of operations: messages given to \<^verbatim>\<open>PCT_SendMsgToCloud\<close>, which either fit into a buffer
  or are too long for one, and calls of \<^verbatim>\<open>MSG_SendDataToCloud\<close> over \<^verbatim>\<open>HF_SendTcpData\<close>, where \<^verbatim>\<open>send\<close> fails
  or takes at least one byte.  The whole sequence returns; a message is refused with \<^verbatim>\<open>ZC_RET_ERROR\<close> exactly when
  it is too long or three are waiting, which changes nothing, and is queued with \<^verbatim>\<open>ZC_RET_OK\<close> otherwise; what
  waits afterwards are frames that decrypt to the texts of the abstract queue, in its order; and the connection
  took, one after the other, the frames of the texts that left the queue, oldest first: each one whole when no
  \<^verbatim>\<open>send\<close> fails, and a front part of it otherwise.  The buffers stay consistent with their queue, so
  \<^verbatim>\<open>MSG_PushMsg\<close>, whose result the code ignores, never fails.\<close>

theorem cloud_outbox_refines_fifo:
  assumes "send_inv s" "sec_ready (hf_adapter E) s" "send_takes E fd" "\<forall>op\<in>set ops. op_ok s op"
    and "list_all2 (carries (hf_adapter E) s) (outbox s) q" "fifo_run (too_long s) ops q = (waiting, delivered, results)"
  shows "\<exists>s' xs. cloud_run E fd ops s = Some (s', results) \<and> send_inv s'
    \<and> list_all2 (carries (hf_adapter E) s) (outbox s') waiting \<and> list_all2 (delivers E fd s) xs delivered
    \<and> tcp_stream E fd (calls (platform s')) = tcp_stream E fd (calls (platform s)) @ concat xs"
proof -
  have "holds_queue E s s q"
    using assms(1,5) by (simp add: holds_queue_def same_keys_def)
  from cloud_run_refines [OF assms(2,3) this assms(4,6)] show ?thesis
    by (auto simp: holds_queue_def)
qed

text \<open>Five messages, one of them too long and one when three are waiting, and three turns of the task.\<close>

definition aes_head :: "u16 \<Rightarrow> ZC_SecHead" where
  "aes_head n = \<lparr>u16TotalMsg = ZC_HTONS n, u8SecType = ZC_SEC_ALG_AES, u8Resver = 0\<rparr>"

definition five_messages :: "cloud_op list" where
  "five_messages = [Queue_Msg (aes_head 2) [1, 1], Send_Oldest, Send_Oldest, Queue_Msg (aes_head 700) (replicate 700 9),
     Queue_Msg (aes_head 3) [2, 2, 2], Queue_Msg (aes_head 1) [3], Queue_Msg (aes_head 2) [4, 4], Queue_Msg (aes_head 1) [5],
     Send_Oldest]"

definition keyed_boot :: "unit hf_zc" where
  "keyed_boot = zc_ready (\<lambda>_. 0) (hf_start no_flash)"

lemma keyed_boot_ok:
  "send_inv keyed_boot" "outbox keyed_boot = []" "sec_ready (hf_adapter plain_env) keyed_boot"
  "sec_flag keyed_boot ty = ty" "calls (platform keyed_boot) = []"
proof -
  show "send_inv keyed_boot" "outbox keyed_boot = []" "sec_flag keyed_boot ty = ty"
    by (simp_all add: keyed_boot_def zc_ready_ok)
  show "sec_ready (hf_adapter plain_env) keyed_boot"
    using zc_ready_sec [of "\<lambda>_. 0" "hf_start no_flash"]
    by (simp add: keyed_boot_def sec_ready_def rsa_enc_of_def rsa_dec_of_def hf_adapter_def plain_env_def quiet_adapter_def)
  show "calls (platform keyed_boot) = []"
    by (simp add: keyed_boot_def zc_ready_def MSG_Init_def ZC_ConfigInitPara_def Let_def zc_start_def hf_start_def config_update_def)
qed

lemma too_long_aes: "too_long keyed_boot (aes_head n) \<longleftrightarrow> 600 < 16 * (unat n div 16) + 20 \<and> 16 * (unat n div 16) + 20 < 65536"
proof -
  have "unat n + unat (snd (SEC_PaddingCheck keyed_boot ZC_SEC_ALG_AES n)) = 16 * (unat n div 16) + 16"
    using SEC_PaddingCheck_aes(2) [of keyed_boot ZC_SEC_ALG_AES n] keyed_boot_ok(4) by simp
  then show ?thesis
    by (simp add: too_long_def aes_head_def ZC_HTONS_involution Let_def)
qed

theorem cloud_outbox_refines_fifo_witness:
  "\<exists>s' f1 f2 g1 g2. cloud_run plain_env 3 five_messages keyed_boot
      = Some (s', [ZC_RET_OK, ZC_RET_ERROR, ZC_RET_OK, ZC_RET_OK, ZC_RET_OK, ZC_RET_ERROR])
    \<and> tcp_stream plain_env 3 (calls (platform s')) = f1 @ f2 \<and> outbox s' = [g1, g2]
    \<and> carries (hf_adapter plain_env) keyed_boot f1 [1, 1] \<and> carries (hf_adapter plain_env) keyed_boot f2 [2, 2, 2]
    \<and> carries (hf_adapter plain_env) keyed_boot g1 [3] \<and> carries (hf_adapter plain_env) keyed_boot g2 [4, 4]"
proof -
  have env: "send_takes plain_env 3" "\<forall>h y. \<not> failed (answer plain_env h (call_send 3 y))"
    by (auto simp: send_takes_def plain_env_def Suc_le_eq)
  have ops: "\<forall>op\<in>set five_messages. op_ok keyed_boot op"
    unfolding five_messages_def by (simp add: too_long_aes keyed_boot_ok(4) sec_room_def) (simp add: aes_head_def ZC_HTONS_involution)
  have fifo: "fifo_run (too_long keyed_boot) five_messages []
      = ([[3], [4, 4]], [[1, 1], [2, 2, 2]], [ZC_RET_OK, ZC_RET_ERROR, ZC_RET_OK, ZC_RET_OK, ZC_RET_OK, ZC_RET_ERROR])"
    unfolding five_messages_def by (simp add: too_long_aes)
  have "list_all2 (carries (hf_adapter plain_env) keyed_boot) (outbox keyed_boot) []"
    by (simp add: keyed_boot_ok)
  from cloud_outbox_refines_fifo [OF keyed_boot_ok(1,3) env(1) ops this fifo]
  obtain s' xs where s': "cloud_run plain_env 3 five_messages keyed_boot
        = Some (s', [ZC_RET_OK, ZC_RET_ERROR, ZC_RET_OK, ZC_RET_OK, ZC_RET_OK, ZC_RET_ERROR])"
      "list_all2 (carries (hf_adapter plain_env) keyed_boot) (outbox s') [[3], [4, 4]]"
      "list_all2 (delivers plain_env 3 keyed_boot) xs [[1, 1], [2, 2, 2]]"
      "tcp_stream plain_env 3 (calls (platform s')) = concat xs"
    by (auto simp: keyed_boot_ok(5) tcp_stream_def)
  obtain g1 g2 where g: "outbox s' = [g1, g2]" "carries (hf_adapter plain_env) keyed_boot g1 [3]"
      "carries (hf_adapter plain_env) keyed_boot g2 [4, 4]"
    using s'(2) by (auto simp: list_all2_Cons2)
  obtain f1 f2 where f: "xs = [f1, f2]" "carries (hf_adapter plain_env) keyed_boot f1 [1, 1]"
      "carries (hf_adapter plain_env) keyed_boot f2 [2, 2, 2]"
    using s'(3) env(2) by (auto simp: list_all2_Cons2 delivers_def)
  show ?thesis
    using s'(1,4) g f by (intro exI [of _ s'] exI [of _ f1] exI [of _ f2] exI [of _ g1] exI [of _ g2]) simp
qed

end
