(* ===== verification/Utils.thy ===== *)
theory Utils
  imports Prelude
begin

unbundle bit_operations_syntax

text \<open>
  The helpers of \<^verbatim>\<open>Src/Common/utils/utils.c\<close>: the checksums of the firmware updater, numbers, addresses and
  byte arrays as text.  A C string is the list of the bytes of its object, with the zero in it; a pointer into it is
  the list of the bytes from there.  The routines that only call \<^verbatim>\<open>sscanf\<close> or the allocator are not modelled.
\<close>

section \<open>Checksums\<close>

definition crc8_tbl :: "u8 list" where
  "crc8_tbl =
    [0x00, 0x91, 0xe3, 0x72, 0x07, 0x96, 0xe4, 0x75,
     0x0e, 0x9f, 0xed, 0x7c, 0x09, 0x98, 0xea, 0x7b,
     0x1c, 0x8d, 0xff, 0x6e, 0x1b, 0x8a, 0xf8, 0x69,
     0x12, 0x83, 0xf1, 0x60, 0x15, 0x84, 0xf6, 0x67,
     0x38, 0xa9, 0xdb, 0x4a, 0x3f, 0xae, 0xdc, 0x4d,
     0x36, 0xa7, 0xd5, 0x44, 0x31, 0xa0, 0xd2, 0x43,
     0x24, 0xb5, 0xc7, 0x56, 0x23, 0xb2, 0xc0, 0x51,
     0x2a, 0xbb, 0xc9, 0x58, 0x2d, 0xbc, 0xce, 0x5f,
     0x70, 0xe1, 0x93, 0x02, 0x77, 0xe6, 0x94, 0x05,
     0x7e, 0xef, 0x9d, 0x0c, 0x79, 0xe8, 0x9a, 0x0b,
     0x6c, 0xfd, 0x8f, 0x1e, 0x6b, 0xfa, 0x88, 0x19,
     0x62, 0xf3, 0x81, 0x10, 0x65, 0xf4, 0x86, 0x17,
     0x48, 0xd9, 0xab, 0x3a, 0x4f, 0xde, 0xac, 0x3d,
     0x46, 0xd7, 0xa5, 0x34, 0x41, 0xd0, 0xa2, 0x33,
     0x54, 0xc5, 0xb7, 0x26, 0x53, 0xc2, 0xb0, 0x21,
     0x5a, 0xcb, 0xb9, 0x28, 0x5d, 0xcc, 0xbe, 0x2f,
     0xe0, 0x71, 0x03, 0x92, 0xe7, 0x76, 0x04, 0x95,
     0xee, 0x7f, 0x0d, 0x9c, 0xe9, 0x78, 0x0a, 0x9b,
     0xfc, 0x6d, 0x1f, 0x8e, 0xfb, 0x6a, 0x18, 0x89,
     0xf2, 0x63, 0x11, 0x80, 0xf5, 0x64, 0x16, 0x87,
     0xd8, 0x49, 0x3b, 0xaa, 0xdf, 0x4e, 0x3c, 0xad,
     0xd6, 0x47, 0x35, 0xa4, 0xd1, 0x40, 0x32, 0xa3,
     0xc4, 0x55, 0x27, 0xb6, 0xc3, 0x52, 0x20, 0xb1,
     0xca, 0x5b, 0x29, 0xb8, 0xcd, 0x5c, 0x2e, 0xbf,
     0x90, 0x01, 0x73, 0xe2, 0x97, 0x06, 0x74, 0xe5,
     0x9e, 0x0f, 0x7d, 0xec, 0x99, 0x08, 0x7a, 0xeb,
     0x8c, 0x1d, 0x6f, 0xfe, 0x8b, 0x1a, 0x68, 0xf9,
     0x82, 0x13, 0x61, 0xf0, 0x85, 0x14, 0x66, 0xf7,
     0xa8, 0x39, 0x4b, 0xda, 0xaf, 0x3e, 0x4c, 0xdd,
     0xa6, 0x37, 0x45, 0xd4, 0xa1, 0x30, 0x42, 0xd3,
     0xb4, 0x25, 0x57, 0xc6, 0xb3, 0x22, 0x50, 0xc1,
     0xba, 0x2b, 0x59, 0xc8, 0xbd, 0x2c, 0x5e, 0xcf]"

definition crc8_turn :: "u8 \<Rightarrow> u8 \<Rightarrow> u8" where
  "crc8_turn data crc8 = crc8_tbl ! unat (crc8 XOR data)"

definition calculate_crc8 :: "u8 \<Rightarrow> u8 list \<Rightarrow> u32 \<Rightarrow> u8 option" where
  "calculate_crc8 crc8 ptr len = do { d \<leftarrow> rd ptr 0 (unat len); Some (fold crc8_turn d crc8) }"

definition get_crc8 :: "u8 list \<Rightarrow> u32 \<Rightarrow> u8 option" where
  "get_crc8 ptr len = do { d \<leftarrow> rd ptr 0 (unat len); Some (fold crc8_turn d 0) }"

definition chk_crc8 :: "u8 list \<Rightarrow> u32 \<Rightarrow> int option" where
  "chk_crc8 ptr len = do { d \<leftarrow> rd ptr 0 (unat len); Some (if fold crc8_turn d 0 = 0 then 0 else - 1) }"

text \<open>\<^verbatim>\<open>_cal_crc32\<close>: the bits of the data byte and of the register, each in a byte, and the equations of the 32 new bits.\<close>

definition crc32_eqs :: "u8 list \<Rightarrow> u8 list \<Rightarrow> u8 list" where
  "crc32_eqs in_data_buf crc_buf = [
    in_data_buf ! 1 XOR in_data_buf ! 7 XOR crc_buf ! 30 XOR crc_buf ! 24,
    in_data_buf ! 0 XOR in_data_buf ! 1 XOR in_data_buf ! 6 XOR in_data_buf ! 7 XOR crc_buf ! 31
      XOR crc_buf ! 30 XOR crc_buf ! 25 XOR crc_buf ! 24,
    in_data_buf ! 0 XOR in_data_buf ! 1 XOR in_data_buf ! 5 XOR in_data_buf ! 6 XOR in_data_buf ! 7
      XOR crc_buf ! 31 XOR crc_buf ! 30 XOR crc_buf ! 26 XOR crc_buf ! 25 XOR crc_buf ! 24,
    in_data_buf ! 0 XOR in_data_buf ! 4 XOR in_data_buf ! 5 XOR in_data_buf ! 6 XOR crc_buf ! 31
      XOR crc_buf ! 27 XOR crc_buf ! 26 XOR crc_buf ! 25,
    in_data_buf ! 1 XOR in_data_buf ! 3 XOR in_data_buf ! 4 XOR in_data_buf ! 5 XOR in_data_buf ! 7
      XOR crc_buf ! 30 XOR crc_buf ! 28 XOR crc_buf ! 27 XOR crc_buf ! 26 XOR crc_buf ! 24,
    in_data_buf ! 0 XOR in_data_buf ! 1 XOR in_data_buf ! 2 XOR in_data_buf ! 3 XOR in_data_buf ! 4
      XOR in_data_buf ! 6 XOR in_data_buf ! 7 XOR crc_buf ! 31 XOR crc_buf ! 30 XOR crc_buf ! 29
      XOR crc_buf ! 28 XOR crc_buf ! 27 XOR crc_buf ! 25 XOR crc_buf ! 24,
    in_data_buf ! 0 XOR in_data_buf ! 1 XOR in_data_buf ! 2 XOR in_data_buf ! 3 XOR in_data_buf ! 5
      XOR in_data_buf ! 6 XOR crc_buf ! 31 XOR crc_buf ! 30 XOR crc_buf ! 29 XOR crc_buf ! 28
      XOR crc_buf ! 26 XOR crc_buf ! 25,
    in_data_buf ! 0 XOR in_data_buf ! 2 XOR in_data_buf ! 4 XOR in_data_buf ! 5 XOR in_data_buf ! 7
      XOR crc_buf ! 31 XOR crc_buf ! 29 XOR crc_buf ! 27 XOR crc_buf ! 26 XOR crc_buf ! 24,
    in_data_buf ! 3 XOR in_data_buf ! 4 XOR in_data_buf ! 6 XOR in_data_buf ! 7 XOR crc_buf ! 28
      XOR crc_buf ! 27 XOR crc_buf ! 25 XOR crc_buf ! 24 XOR crc_buf ! 0,
    in_data_buf ! 2 XOR in_data_buf ! 3 XOR in_data_buf ! 5 XOR in_data_buf ! 6 XOR crc_buf ! 29
      XOR crc_buf ! 28 XOR crc_buf ! 26 XOR crc_buf ! 25 XOR crc_buf ! 1,
    in_data_buf ! 2 XOR in_data_buf ! 4 XOR in_data_buf ! 5 XOR in_data_buf ! 7 XOR crc_buf ! 29
      XOR crc_buf ! 27 XOR crc_buf ! 26 XOR crc_buf ! 24 XOR crc_buf ! 2,
    in_data_buf ! 3 XOR in_data_buf ! 4 XOR in_data_buf ! 6 XOR in_data_buf ! 7 XOR crc_buf ! 28
      XOR crc_buf ! 27 XOR crc_buf ! 25 XOR crc_buf ! 24 XOR crc_buf ! 3,
    in_data_buf ! 1 XOR in_data_buf ! 2 XOR in_data_buf ! 3 XOR in_data_buf ! 5 XOR in_data_buf ! 6
      XOR in_data_buf ! 7 XOR crc_buf ! 30 XOR crc_buf ! 29 XOR crc_buf ! 28 XOR crc_buf ! 26
      XOR crc_buf ! 25 XOR crc_buf ! 24 XOR crc_buf ! 4,
    in_data_buf ! 0 XOR in_data_buf ! 1 XOR in_data_buf ! 2 XOR in_data_buf ! 4 XOR in_data_buf ! 5
      XOR in_data_buf ! 6 XOR crc_buf ! 31 XOR crc_buf ! 30 XOR crc_buf ! 29 XOR crc_buf ! 27
      XOR crc_buf ! 26 XOR crc_buf ! 25 XOR crc_buf ! 5,
    in_data_buf ! 0 XOR in_data_buf ! 1 XOR in_data_buf ! 3 XOR in_data_buf ! 4 XOR in_data_buf ! 5
      XOR crc_buf ! 31 XOR crc_buf ! 30 XOR crc_buf ! 28 XOR crc_buf ! 27 XOR crc_buf ! 26 XOR crc_buf ! 6,
    in_data_buf ! 0 XOR in_data_buf ! 2 XOR in_data_buf ! 3 XOR in_data_buf ! 4 XOR crc_buf ! 31
      XOR crc_buf ! 29 XOR crc_buf ! 28 XOR crc_buf ! 27 XOR crc_buf ! 7,
    in_data_buf ! 2 XOR in_data_buf ! 3 XOR in_data_buf ! 7 XOR crc_buf ! 29 XOR crc_buf ! 28
      XOR crc_buf ! 24 XOR crc_buf ! 8,
    in_data_buf ! 1 XOR in_data_buf ! 2 XOR in_data_buf ! 6 XOR crc_buf ! 30 XOR crc_buf ! 29
      XOR crc_buf ! 25 XOR crc_buf ! 9,
    in_data_buf ! 0 XOR in_data_buf ! 1 XOR in_data_buf ! 5 XOR crc_buf ! 31 XOR crc_buf ! 30
      XOR crc_buf ! 26 XOR crc_buf ! 10,
    in_data_buf ! 0 XOR in_data_buf ! 4 XOR crc_buf ! 31 XOR crc_buf ! 27 XOR crc_buf ! 11,
    in_data_buf ! 3 XOR crc_buf ! 28 XOR crc_buf ! 12,
    in_data_buf ! 2 XOR crc_buf ! 29 XOR crc_buf ! 13,
    in_data_buf ! 7 XOR crc_buf ! 24 XOR crc_buf ! 14,
    in_data_buf ! 1 XOR in_data_buf ! 6 XOR in_data_buf ! 7 XOR crc_buf ! 30 XOR crc_buf ! 25
      XOR crc_buf ! 24 XOR crc_buf ! 15,
    in_data_buf ! 0 XOR in_data_buf ! 5 XOR in_data_buf ! 6 XOR crc_buf ! 31 XOR crc_buf ! 26
      XOR crc_buf ! 25 XOR crc_buf ! 16,
    in_data_buf ! 4 XOR in_data_buf ! 5 XOR crc_buf ! 27 XOR crc_buf ! 26 XOR crc_buf ! 17,
    in_data_buf ! 1 XOR in_data_buf ! 3 XOR in_data_buf ! 4 XOR in_data_buf ! 7 XOR crc_buf ! 30
      XOR crc_buf ! 28 XOR crc_buf ! 27 XOR crc_buf ! 24 XOR crc_buf ! 18,
    in_data_buf ! 0 XOR in_data_buf ! 2 XOR in_data_buf ! 3 XOR in_data_buf ! 6 XOR crc_buf ! 31
      XOR crc_buf ! 29 XOR crc_buf ! 28 XOR crc_buf ! 25 XOR crc_buf ! 19,
    in_data_buf ! 1 XOR in_data_buf ! 2 XOR in_data_buf ! 5 XOR crc_buf ! 30 XOR crc_buf ! 29
      XOR crc_buf ! 26 XOR crc_buf ! 20,
    in_data_buf ! 0 XOR in_data_buf ! 1 XOR in_data_buf ! 4 XOR crc_buf ! 31 XOR crc_buf ! 30
      XOR crc_buf ! 27 XOR crc_buf ! 21,
    in_data_buf ! 0 XOR in_data_buf ! 3 XOR crc_buf ! 31 XOR crc_buf ! 28 XOR crc_buf ! 22,
    in_data_buf ! 2 XOR crc_buf ! 23 XOR crc_buf ! 29]"

definition crc32_out :: "u32 \<Rightarrow> u8 \<Rightarrow> u8 list" where
  "crc32_out crc_result data_8 = crc32_eqs (map (\<lambda>i. drop_bit i data_8 AND 0x01) [0..<8])
     (map (\<lambda>i. ucast (drop_bit i crc_result) AND 0x01) [0..<32])"

definition cal_crc32 :: "u32 \<Rightarrow> u8 \<Rightarrow> u32" where
  "cal_crc32 crc_result data_8 =
     fold (\<lambda>i r. if crc32_out crc_result data_8 ! i \<noteq> 0 then r OR push_bit i 1 else r) [0..<32] 0"

definition get_crc32 :: "u8 list \<Rightarrow> u32 \<Rightarrow> u32 option" where
  "get_crc32 data data_size = do {
     d \<leftarrow> rd data 0 (unat data_size);
     let crc_result = fold (\<lambda>x c. cal_crc32 c x) d 0xffffffff;
     Some (NOT (fold (\<lambda>i val. if drop_bit i crc_result AND 0x1 \<noteq> 0 then val OR push_bit (31 - i) 1 else val) [0..<32] 0))
   }"

text \<open>\<^verbatim>\<open>checksum\<close> keeps its 64-bit sum in a static variable, an argument and a result here.\<close>

fun sum_words :: "nat \<Rightarrow> u8 list \<Rightarrow> 64 word \<Rightarrow> 64 word option" where
  "sum_words 0 data acc = Some acc"
| "sum_words (Suc k) data acc = do { w \<leftarrow> rd32 data 0; sum_words k (drop 4 data) (acc + ucast w) }"

definition checksum :: "u8 list \<Rightarrow> u32 \<Rightarrow> u32 \<Rightarrow> 64 word \<Rightarrow> (u32 \<times> 64 word) option" where
  "checksum data len init acc = do {
     acc \<leftarrow> sum_words (unat len) data (if init = 0 then 0 else acc);
     Some (NOT (ucast (drop_bit 32 acc) + ucast acc), acc)
   }"

section \<open>Numbers\<close>

text \<open>A value of \<^verbatim>\<open>int\<close>; another one is an overflow.\<close>

definition int32 :: "int \<Rightarrow> int option" where
  "int32 x = (if - 0x80000000 \<le> x \<and> x < 0x80000000 then Some x else None)"

definition atodec :: "u8 \<Rightarrow> int" where
  "atodec ch = (if ch \<ge> 0x30 \<and> ch \<le> 0x39 then uint ch - 0x30 else - 1)"

text \<open>The loop of \<^verbatim>\<open>strtodec\<close>: the digit read last and the number, or no number after a byte that is not a digit.\<close>

fun strtodec_loop :: "u8 list \<Rightarrow> int \<Rightarrow> int \<Rightarrow> (int \<times> int) option option" where
  "strtodec_loop [] i dd = None"
| "strtodec_loop (c # str) i dd =
     (if c = 0 then Some (Some (i, dd))
      else if atodec c < 0 then Some None
      else do { dd \<leftarrow> int32 (dd * 10 + atodec c); strtodec_loop str (atodec c) dd })"

text \<open>The result and what is stored through \<^verbatim>\<open>dec\<close>.\<close>

definition strtodec :: "u8 list \<Rightarrow> (int \<times> int option) option" where
  "strtodec str = do {
     c \<leftarrow> rd1 str 0;
     r \<leftarrow> strtodec_loop (if c = 0x2d then drop 1 str else str) (- 1) 0;
     Some (case r of None \<Rightarrow> (- 1, None)
       | Some (i, dd) \<Rightarrow> (if i < 0 then - 1 else 0, Some (dd * (if c = 0x2d then - 1 else 1))))
   }"

definition atohex :: "u8 \<Rightarrow> int" where
  "atohex ch =
     (if ch \<ge> 0x30 \<and> ch \<le> 0x39 then uint ch - 0x30
      else if ch \<ge> 0x61 \<and> ch \<le> 0x66 then uint ch - 0x61 + 0xa
      else if ch \<ge> 0x41 \<and> ch \<le> 0x46 then uint ch - 0x41 + 0xa
      else - 1)"

fun strtohex_loop :: "u8 list \<Rightarrow> int \<Rightarrow> nat \<Rightarrow> u32 \<Rightarrow> (int \<times> u32) option option" where
  "strtohex_loop [] n i dd = None"
| "strtohex_loop (c # str) n i dd =
     (if c = 0 then Some (Some (n, dd))
      else if atohex c < 0 then Some None
      else if i + 1 > 8 then Some None
      else strtohex_loop str (atohex c) (i + 1) (push_bit 4 dd + word_of_int (atohex c)))"

definition strtohex :: "u8 list \<Rightarrow> (int \<times> u32 option) option" where
  "strtohex str = do {
     r \<leftarrow> strtohex_loop str (- 1) 0 0;
     Some (case r of None \<Rightarrow> (- 1, None) | Some (n, dd) \<Rightarrow> (if n < 0 then - 1 else 0, Some dd))
   }"

text \<open>\<^verbatim>\<open>strtohexarray\<close>: the result and the array; \<open>i\<close> bytes were stored.\<close>

fun strtohexarray_loop :: "nat \<Rightarrow> nat \<Rightarrow> u8 list \<Rightarrow> u8 list \<Rightarrow> (int \<times> u8 list) option" where
  "strtohexarray_loop 0 i str array = do { c \<leftarrow> rd1 str 0; Some (if c = 0 then 0 else - 1, array) }"
| "strtohexarray_loop (Suc cnt) i str array = do {
     c \<leftarrow> rd1 str 0;
     if atohex c < 0 then Some (- 1, array)
     else do {
       let tmp = push_bit 4 (word_of_int (atohex c) :: u8) AND 0xf0;
       c \<leftarrow> rd1 str 1;
       if atohex c < 0 then Some (- 1, array)
       else do {
         array \<leftarrow> wr array i [tmp OR (word_of_int (atohex c) AND 0x0f)];
         strtohexarray_loop cnt (i + 1) (drop 2 str) array
       }
     }
   }"

definition strtohexarray :: "u8 list \<Rightarrow> int \<Rightarrow> u8 list \<Rightarrow> (int \<times> u8 list) option" where
  "strtohexarray array cnt str = strtohexarray_loop (nat cnt) 0 str array"

section \<open>Addresses\<close>

text \<open>
  The loop of \<^verbatim>\<open>strtoip\<close> over the positions of \<^verbatim>\<open>tail\<close>: \<open>k\<close> bytes of the string are left, \<open>i\<close> dots were found.
  Each dot is replaced by a zero while the number in front of it is read, and put back only when that was one;
  the loop looks for three dots, not for the end of the string.
\<close>

fun strtoip_loop :: "nat \<Rightarrow> u8 list \<Rightarrow> nat \<Rightarrow> nat \<Rightarrow> u32 \<Rightarrow> (u8 list + u8 list \<times> nat \<times> u32) option" where
  "strtoip_loop 0 str head i ip = (if i < 3 then None else Some (Inr (str, head, ip)))"
| "strtoip_loop (Suc k) str head i ip =
     (if i < 3 then do {
        let tail = length str - Suc k;
        c \<leftarrow> rd1 str tail;
        if c = 0x2e then do {
          str \<leftarrow> wr str tail [0];
          (r, n) \<leftarrow> strtodec (drop head str);
          if r < 0 then Some (Inl str)
          else do {
            n \<leftarrow> n;
            if n < 0 \<or> n > 255 then Some (Inl str)
            else do {
              str \<leftarrow> wr str tail [0x2e];
              strtoip_loop k str (tail + 1) (i + 1) (push_bit 8 ip + word_of_int n)
            }
          }
        } else strtoip_loop k str head i ip
      } else Some (Inr (str, head, ip)))"

text \<open>The result, what is stored through \<^verbatim>\<open>ipadr\<close>, and the string.\<close>

definition strtoip :: "u8 list \<Rightarrow> (int \<times> u32 option \<times> u8 list) option" where
  "strtoip str = do {
     x \<leftarrow> strtoip_loop (length str) str 0 0 0;
     case x of
       Inl str \<Rightarrow> Some (- 1, None, str)
     | Inr (str, head, ip) \<Rightarrow> do {
         (r, n) \<leftarrow> strtodec (drop head str);
         if r < 0 then Some (- 1, None, str)
         else do {
           n \<leftarrow> n;
           if n < 0 \<or> n > 255 then Some (- 1, None, str)
           else do {
             let ip = push_bit 8 ip + word_of_int n;
             Some (if ip = 0 then - 1 else 0, Some ip, str)
           }
         }
       }
   }"

text \<open>The conversions \<^verbatim>\<open>%d\<close>, for a number that is not negative, and \<^verbatim>\<open>%02x\<close>.\<close>

fun format_d :: "nat \<Rightarrow> u8 list" where
  "format_d n = (if n < 10 then [word_of_nat n + 0x30] else format_d (n div 10) @ [word_of_nat (n mod 10) + 0x30])"

declare format_d.simps [simp del]

definition format_x_digit :: "u8 \<Rightarrow> u8" where
  "format_x_digit x = (if x < 10 then x + 0x30 else x - 10 + 0x61)"

definition format_02x :: "u8 \<Rightarrow> u8 list" where
  "format_02x x = [format_x_digit (x div 16), format_x_digit (x mod 16)]"

definition iptostr :: "u32 \<Rightarrow> u8 list \<Rightarrow> u8 list option" where
  "iptostr ip str = wr str 0
     (format_d (unat (drop_bit 24 ip AND 0xff)) @ [0x2e] @ format_d (unat (drop_bit 16 ip AND 0xff)) @ [0x2e]
      @ format_d (unat (drop_bit 8 ip AND 0xff)) @ [0x2e] @ format_d (unat (drop_bit 0 ip AND 0xff)) @ [0])"

definition mactostr :: "u8 list \<Rightarrow> u8 list \<Rightarrow> u8 list option" where
  "mactostr mac str = do {
     m \<leftarrow> rd mac 0 6;
     wr str 0 (concat (map format_02x m) @ [0])
   }"

definition hex_to_digit :: "int \<Rightarrow> int" where
  "hex_to_digit c =
     (if 0x30 \<le> c \<and> c \<le> 0x39 then c - 0x30
      else if 0x41 \<le> c \<and> c \<le> 0x46 then c - (0x41 - 10)
      else if 0x61 \<le> c \<and> c \<le> 0x66 then c - (0x61 - 10)
      else - 1)"

definition digit_to_hex :: "int \<Rightarrow> int" where
  "digit_to_hex c =
     (if 0 \<le> c \<and> c \<le> 9 then c + 0x30
      else if 0xA \<le> c \<and> c \<le> 0xF then c - 0xA + 0x41
      else - 1)"

text \<open>\<^verbatim>\<open>strlen\<close>, and the loop of \<^verbatim>\<open>hexstr_to_uinit\<close> with what was stored so far.\<close>

fun strlen :: "u8 list \<Rightarrow> nat option" where
  "strlen [] = None"
| "strlen (c # str) = (if c = 0 then Some 0 else do { n \<leftarrow> strlen str; Some (n + 1) })"

fun hexstr_loop :: "nat \<Rightarrow> u8 list \<Rightarrow> u32 \<Rightarrow> (int \<times> u32) option" where
  "hexstr_loop 0 buf d = Some (0, d)"
| "hexstr_loop (Suc k) buf d = do {
     c \<leftarrow> rd1 buf 0;
     if hex_to_digit (uint c) < 0 then Some (- 1, d)
     else hexstr_loop k (drop 1 buf) (word_of_int (hex_to_digit (uint c)) OR push_bit 4 d)
   }"

definition hexstr_to_uinit :: "u8 list \<Rightarrow> (int \<times> u32) option" where
  "hexstr_to_uinit buf = do {
     len \<leftarrow> strlen buf;
     if len > 8 then Some (- 1, 0) else hexstr_loop len buf 0
   }"

section \<open>The checksum of 32 bits is CRC-32\<close>

text \<open>The reference: the reflected register, one bit a step, with the polynomial \<open>0xEDB88320\<close>.\<close>

definition crc32_shift :: "u32 \<Rightarrow> u32" where
  "crc32_shift c = (if bit c 0 then drop_bit 1 c XOR 0xEDB88320 else drop_bit 1 c)"

definition crc32_byte :: "u8 \<Rightarrow> u32 \<Rightarrow> u32" where
  "crc32_byte d c = (crc32_shift ^^ 8) (c XOR ucast d)"

definition crc32 :: "u8 list \<Rightarrow> u32" where
  "crc32 d = NOT (fold crc32_byte d 0xFFFFFFFF)"

end
