(* ===== verification/Crc32.thy ===== *)
theory Crc32
  imports Utils
begin

text \<open>
  The checksum of 32 bits of \<open>Utils\<close>, whose 32 equations are written out in the code, is CRC-32: the reflected register
  with the polynomial \<open>0xEDB88320\<close>.  Both sides respect XOR, so that the single bits decide.
\<close>

section \<open>CRC-32\<close>

lemma bit_fold_or:
  "bit (fold (\<lambda>i r. if P i then r OR push_bit i 1 else r) [0..<k] (0 :: u32)) n \<longleftrightarrow> n < 32 \<and> n < k \<and> P n"
  by (induction k) (auto simp: bit_simps less_Suc_eq)

text \<open>The order of the bits turned round, as \<^verbatim>\<open>get_crc32\<close> does.\<close>

definition rev32 :: "u32 \<Rightarrow> u32" where
  "rev32 c = fold (\<lambda>i val. if drop_bit i c AND 0x1 \<noteq> 0 then val OR push_bit (31 - i) 1 else val) [0..<32] 0"

lemma drop_bit_and_1: "drop_bit i x AND 0x1 = of_bool (bit x i)" for x :: "'a::len word"
  by (rule bit_word_eqI) (auto simp: bit_simps)

lemma bit_fold_rev:
  "k \<le> 32 \<Longrightarrow> bit (fold (\<lambda>i val. if P i then val OR push_bit (31 - i) 1 else val) [0..<k] (0 :: u32)) n
    \<longleftrightarrow> n < 32 \<and> 31 - n < k \<and> P (31 - n)"
proof (induction k)
  case (Suc k)
  have "n < 32 \<and> 31 - n = k \<longleftrightarrow> n = 31 - k"
    using Suc.prems by auto
  with Suc show ?case
    by (auto simp: bit_simps less_Suc_eq)
qed simp

lemma bit_rev32: "bit (rev32 c) n \<longleftrightarrow> n < 32 \<and> bit c (31 - n)"
  unfolding rev32_def by (subst bit_fold_rev) (auto simp: drop_bit_and_1)

lemma rev32_rev32: "rev32 (rev32 c) = c"
  by (rule bit_word_eqI) (auto simp: bit_rev32)

lemma rev32_xor: "rev32 (c XOR c') = rev32 c XOR rev32 c'"
  by (rule bit_word_eqI) (auto simp: bit_rev32 bit_xor_iff)

text \<open>Two functions that respect XOR and agree on the single bits are the same.\<close>

lemma xor_linear_eq:
  fixes f g :: "'a::len word \<Rightarrow> 'b::len word"
  assumes f: "\<And>x y. f (x XOR y) = f x XOR f y" and g: "\<And>x y. g (x XOR y) = g x XOR g y"
    and basis: "list_all (\<lambda>n. f (push_bit n 1) = g (push_bit n 1)) [0..<LENGTH('a)]"
  shows "f x = g x"
proof -
  have "f 0 = 0" "g 0 = 0"
    using f [of 0 0] g [of 0 0] by simp_all
  moreover have "f (take_bit k x) = g (take_bit k x)" if "k \<le> LENGTH('a)" for k
    using that
  proof (induction k)
    case (Suc k)
    have split: "take_bit (Suc k) x = take_bit k x XOR (if bit x k then push_bit k 1 else 0)"
      by (rule bit_word_eqI) (auto simp: bit_simps less_Suc_eq)
    have "f (push_bit k 1) = g (push_bit k 1)"
      using basis Suc.prems by (simp add: list_all_iff)
    with Suc \<open>f 0 = 0\<close> \<open>g 0 = 0\<close> show ?case
      unfolding split f g by simp
  qed (use \<open>f 0 = 0\<close> \<open>g 0 = 0\<close> in simp)
  from this [of "LENGTH('a)"] show ?thesis by simp
qed

text \<open>The equations of \<^verbatim>\<open>_cal_crc32\<close> respect XOR, and give bits.\<close>

lemma crc32_eqs_xor:
  assumes "length a = 8" "length a' = 8" "length b = 32" "length b' = 32"
  shows "crc32_eqs (map2 (XOR) a a') (map2 (XOR) b b') = map2 (XOR) (crc32_eqs a b) (crc32_eqs a' b')"
  unfolding crc32_eqs_def by (simp add: assms) (simp add: xor.assoc xor.commute xor.left_commute)

lemma map_bits_xor:
  "map (\<lambda>i. drop_bit i (d XOR d') AND 1) is = map2 (XOR) (map (\<lambda>i. drop_bit i d AND 1) is) (map (\<lambda>i. drop_bit i d' AND 1) is)"
  "map (\<lambda>i. ucast (drop_bit i (c XOR c')) AND 1) is
     = map2 (XOR) (map (\<lambda>i. ucast (drop_bit i c) AND 1) is) (map (\<lambda>i. ucast (drop_bit i c') AND (1 :: u8)) is)"
  for c c' :: u32 and d d' :: u8
proof -
  have and_xor: "(x XOR y) AND 1 = (x AND 1) XOR (y AND 1)" for x y :: u8
    by (rule bit_word_eqI) (auto simp: bit_simps)
  show "map (\<lambda>i. drop_bit i (d XOR d') AND 1) is = map2 (XOR) (map (\<lambda>i. drop_bit i d AND 1) is) (map (\<lambda>i. drop_bit i d' AND 1) is)"
    "map (\<lambda>i. ucast (drop_bit i (c XOR c')) AND 1) is
     = map2 (XOR) (map (\<lambda>i. ucast (drop_bit i c) AND 1) is) (map (\<lambda>i. ucast (drop_bit i c') AND (1 :: u8)) is)"
    by (induction "is") (simp_all add: drop_bit_xor unsigned_xor_eq and_xor)
qed

lemma length_crc32_out [simp]: "length (crc32_out c d) = 32"
  by (simp add: crc32_out_def crc32_eqs_def)

lemma crc32_out_xor: "n < 32 \<Longrightarrow> crc32_out (c XOR c') (d XOR d') ! n = crc32_out c d ! n XOR crc32_out c' d' ! n"
proof -
  have "crc32_out (c XOR c') (d XOR d') = map2 (XOR) (crc32_out c d) (crc32_out c' d')"
    unfolding crc32_out_def map_bits_xor by (rule crc32_eqs_xor) simp_all
  then show "n < 32 \<Longrightarrow> ?thesis" by simp
qed

lemma crc32_out_bit: "n < 32 \<Longrightarrow> crc32_out c d ! n = 0 \<or> crc32_out c d ! n = 1"
proof -
  have and_xor: "(x XOR y) AND 1 = (x AND 1) XOR (y AND 1)" for x y :: u8
    by (rule bit_word_eqI) (auto simp: bit_simps)
  have "list_all (\<lambda>x. x AND 1 = x) (crc32_out c d)"
    by (simp add: crc32_out_def crc32_eqs_def and_xor and.assoc)
  then have "crc32_out c d ! n AND 1 = crc32_out c d ! n" if "n < 32"
    using that by (simp add: list_all_length)
  moreover have "x = 0 \<or> x = 1" if "x AND 1 = x" for x :: u8
    using that drop_bit_and_1 [of 0 x] by (cases "bit x 0") auto
  ultimately show "n < 32 \<Longrightarrow> ?thesis" by blast
qed

lemma bit_cal_crc32: "bit (cal_crc32 c d) n \<longleftrightarrow> n < 32 \<and> crc32_out c d ! n \<noteq> 0"
  unfolding cal_crc32_def by (subst bit_fold_or) auto

lemma cal_crc32_xor: "cal_crc32 (c XOR c') (d XOR d') = cal_crc32 c d XOR cal_crc32 c' d'"
proof (rule bit_word_eqI)
  fix n assume "n < LENGTH(32)"
  then have n: "n < 32" by simp
  then show "bit (cal_crc32 (c XOR c') (d XOR d')) n = bit (cal_crc32 c d XOR cal_crc32 c' d') n"
    using crc32_out_bit [OF n, of c d] crc32_out_bit [OF n, of c' d']
    by (elim disjE) (simp_all add: bit_cal_crc32 bit_xor_iff crc32_out_xor)
qed

lemma crc32_shift_xor: "crc32_shift (x XOR y) = crc32_shift x XOR crc32_shift y"
  by (rule bit_word_eqI) (auto simp: crc32_shift_def bit_xor_iff bit_drop_bit_eq)

lemma crc32_shifts_xor: "(crc32_shift ^^ n) (x XOR y) = (crc32_shift ^^ n) x XOR (crc32_shift ^^ n) y"
  by (induction n) (simp_all add: crc32_shift_xor)

text \<open>The single bits, by evaluation.\<close>

definition horner :: "u8 list \<Rightarrow> u32" where
  "horner xs = fold (\<lambda>x r. push_bit 1 r OR (if x = 0 then 0 else 1)) xs 0"

lemma bit_horner: "bit (horner xs) n \<longleftrightarrow> n < 32 \<and> n < length xs \<and> rev xs ! n \<noteq> 0"
  unfolding horner_def
proof (induction xs arbitrary: n rule: rev_induct)
  case (snoc x xs)
  have "bit (push_bit 1 r OR (if x = 0 then 0 else 1) :: u32) n \<longleftrightarrow>
      n < 32 \<and> (if n = 0 then x \<noteq> 0 else bit r (n - 1))" for r
    unfolding bit_or_iff bit_push_bit_iff by (auto simp: bit_1_iff)
  with snoc [of "n - 1"] show ?case
    by (cases n) auto
qed simp

lemma rev32_cal_crc32: "rev32 (cal_crc32 c d) = horner (crc32_out c d)"
  by (rule bit_word_eqI) (auto simp: bit_rev32 bit_cal_crc32 bit_horner rev_nth)

lemma unit_vectors:
  "n < 32 \<Longrightarrow> map (\<lambda>i. ucast (drop_bit i (push_bit n 1 :: u32)) AND (1 :: u8)) [0..<32] = (replicate 32 0)[n := 1]"
  "n < 8 \<Longrightarrow> map (\<lambda>i. drop_bit i (push_bit n 1 :: u8) AND 1) [0..<8] = (replicate 8 0)[n := 1]"
  "map (\<lambda>i. ucast (drop_bit i (0 :: u32)) AND (1 :: u8)) [0..<32] = replicate 32 0"
  "map (\<lambda>i. drop_bit i (0 :: u8) AND 1) [0..<8] = replicate 8 0"
proof -
  have "ucast (drop_bit i (push_bit n 1 :: u32)) AND (1 :: u8) = (if i = n then 1 else 0)" if "n < 32" for i
    using that by (intro bit_word_eqI) (auto simp: bit_simps)
  then show "n < 32 \<Longrightarrow> map (\<lambda>i. ucast (drop_bit i (push_bit n 1 :: u32)) AND (1 :: u8)) [0..<32] = (replicate 32 0)[n := 1]"
    by (intro nth_equalityI) (simp_all add: nth_list_update)
  have "drop_bit i (push_bit n 1 :: u8) AND 1 = (if i = n then 1 else 0)" if "n < 8" for i
    using that by (intro bit_word_eqI) (auto simp: bit_simps)
  then show "n < 8 \<Longrightarrow> map (\<lambda>i. drop_bit i (push_bit n 1 :: u8) AND 1) [0..<8] = (replicate 8 0)[n := 1]"
    by (intro nth_equalityI) (simp_all add: nth_list_update)
qed (simp_all add: map_replicate_const)

lemma eight_times: "(f ^^ 8) x = f (f (f (f (f (f (f (f x)))))))"
  by (simp add: numeral_eq_Suc)

definition register_bit_ok :: "nat \<Rightarrow> bool" where
  "register_bit_ok n \<longleftrightarrow> horner (crc32_eqs (replicate 8 0) ((replicate 32 0)[n := 1])) = (crc32_shift ^^ 8) (push_bit (31 - n) 1)"

definition data_bit_ok :: "nat \<Rightarrow> bool" where
  "data_bit_ok n \<longleftrightarrow> horner (crc32_eqs ((replicate 8 0)[n := 1]) (replicate 32 0)) = (crc32_shift ^^ 8) (push_bit n 1)"

lemma register_bits_ok: "list_all register_bit_ok [0..<32]"
  by (simp add: register_bit_ok_def crc32_eqs_def nth_list_update horner_def upt_rec eight_times crc32_shift_def)

lemma data_bits_ok: "list_all data_bit_ok [0..<8]"
  by (simp add: data_bit_ok_def crc32_eqs_def nth_list_update horner_def upt_rec eight_times crc32_shift_def)

lemma cal_crc32_byte: "rev32 (cal_crc32 c d) = crc32_byte d (rev32 c)"
proof -
  have rev_unit: "rev32 (push_bit n 1) = push_bit (31 - n) 1" if "n < 32" for n
    using that by (intro bit_word_eqI) (auto simp: bit_rev32 bit_simps)
  have up: "ucast (push_bit n 1 :: u8) = (push_bit n 1 :: u32)" if "n < 8" for n
    using that by (intro bit_word_eqI) (auto simp: bit_simps)
  have "rev32 (cal_crc32 c 0) = (crc32_shift ^^ 8) (rev32 c)"
  proof (rule xor_linear_eq [of "\<lambda>c. rev32 (cal_crc32 c 0)" "\<lambda>c. (crc32_shift ^^ 8) (rev32 c)"])
    show "list_all (\<lambda>n. rev32 (cal_crc32 (push_bit n 1) 0) = (crc32_shift ^^ 8) (rev32 (push_bit n 1))) [0..<LENGTH(32)]"
      using register_bits_ok
      by (auto simp: list_all_iff register_bit_ok_def rev32_cal_crc32 crc32_out_def unit_vectors rev_unit map_replicate_const simp del: push_bit_of_1)
  qed (use cal_crc32_xor [of _ _ 0 0] in \<open>simp_all add: rev32_xor crc32_shifts_xor\<close>)
  moreover have "rev32 (cal_crc32 0 d) = (crc32_shift ^^ 8) (ucast d)"
  proof (rule xor_linear_eq [of "\<lambda>d. rev32 (cal_crc32 0 d)" "\<lambda>d. (crc32_shift ^^ 8) (ucast d)"])
    show "list_all (\<lambda>n. rev32 (cal_crc32 0 (push_bit n 1)) = (crc32_shift ^^ 8) (ucast (push_bit n 1 :: u8))) [0..<LENGTH(8)]"
      using data_bits_ok
      by (auto simp: list_all_iff data_bit_ok_def rev32_cal_crc32 crc32_out_def unit_vectors up map_replicate_const simp del: push_bit_of_1)
  qed (use cal_crc32_xor [of 0 0] in \<open>simp_all add: rev32_xor unsigned_xor_eq crc32_shifts_xor\<close>)
  ultimately show ?thesis
    using cal_crc32_xor [of c 0 0 d] by (simp add: rev32_xor crc32_byte_def crc32_shifts_xor)
qed

lemma get_crc32_fold: "rev32 (fold (\<lambda>x c. cal_crc32 c x) d c) = fold crc32_byte d (rev32 c)"
  by (induction d arbitrary: c) (simp_all add: cal_crc32_byte)

lemma get_crc32_eq: "unat n \<le> length d \<Longrightarrow> get_crc32 d n = Some (crc32 (take (unat n) d))"
proof -
  have "rev32 0xFFFFFFFF = 0xFFFFFFFF"
  proof -
    have "(0xFFFFFFFF :: u32) = - 1" by simp
    then show ?thesis
      by (simp only:) (rule bit_word_eqI, auto simp: bit_rev32 bit_minus_1_iff)
  qed
  then show "unat n \<le> length d \<Longrightarrow> ?thesis"
    using get_crc32_fold [of "take (unat n) d" "0xFFFFFFFF"]
    by (simp add: get_crc32_def crc32_def rd_def Let_def rev32_def)
qed

section \<open>Properties\<close>

text \<open>C29: \<^verbatim>\<open>get_crc32\<close> computes the CRC-32 of every message, and never fails inside the message: the equations of
  \<^verbatim>\<open>_cal_crc32\<close>, eight steps written as one, with the turned bits and the complement at the end, are the shift
  register of the standard.\<close>

theorem get_crc32_is_crc32:
  assumes "unat data_size \<le> length data"
  shows "get_crc32 data data_size = Some (crc32 (take (unat data_size) data))"
  using assms by (rule get_crc32_eq)

theorem get_crc32_is_crc32_witness:
  "get_crc32 [0x31, 0x32, 0x33] 3 = Some (crc32 [0x31, 0x32, 0x33]) \<and> crc32 [0x31] = 0x83DCEFB7"
  using get_crc32_is_crc32 [of 3 "[0x31, 0x32, 0x33]"]
  by (simp add: crc32_def crc32_byte_def eight_times crc32_shift_def)

end
