(* ===== verification/UtilsCorrect.thy ===== *)
theory UtilsCorrect
  imports Utils
begin

text \<open>
  What the other helpers of \<open>Utils\<close> do: the checksum of 8 bits finds every changed byte, and addresses and byte arrays
  written as text are read back.
\<close>

section \<open>CRC-8\<close>

text \<open>A predicate is evaluated at every byte.\<close>

lemma every_byte: "list_all P (map word_of_nat [0..<256]) \<Longrightarrow> P (b :: u8)"
  by (rule all_bytes) (simp add: list_all_iff)

definition bit_part :: "u8 \<Rightarrow> u8 \<Rightarrow> u8 \<Rightarrow> u8" where
  "bit_part m v d = (if d AND m \<noteq> 0 then v else 0)"

definition crc8_entry_ok :: "u8 \<Rightarrow> bool" where
  "crc8_entry_ok d \<longleftrightarrow> crc8_tbl ! unat d =
     bit_part 0x80 0xe0 d XOR bit_part 0x40 0x70 d XOR bit_part 0x20 0x38 d XOR bit_part 0x10 0x1c d
     XOR bit_part 0x08 0x0e d XOR bit_part 0x04 0x07 d XOR bit_part 0x02 0xe3 d XOR bit_part 0x01 0x91 d
   \<and> (crc8_tbl ! unat d = 0 \<longrightarrow> d = 0)"

lemma crc8_entry: "crc8_entry_ok d"
  by (rule every_byte) code_simp

lemma bit_part_xor: "n < 8 \<Longrightarrow> bit_part (2 ^ n) v (x XOR y) = bit_part (2 ^ n) v x XOR bit_part (2 ^ n) v y"
proof -
  have "d AND 2 ^ n \<noteq> 0 \<longleftrightarrow> bit d n" for d :: u8
    by (simp add: and_exp_eq_0_iff_not_bit)
  then show "n < 8 \<Longrightarrow> ?thesis"
    by (simp add: bit_part_def bit_xor_iff)
qed

lemma crc8_tbl_xor: "crc8_tbl ! unat (x XOR y) = crc8_tbl ! unat x XOR crc8_tbl ! unat y" for x y :: u8
proof -
  have part: "bit_part 0x80 v (x XOR y) = bit_part 0x80 v x XOR bit_part 0x80 v y"
    "bit_part 0x40 v (x XOR y) = bit_part 0x40 v x XOR bit_part 0x40 v y"
    "bit_part 0x20 v (x XOR y) = bit_part 0x20 v x XOR bit_part 0x20 v y"
    "bit_part 0x10 v (x XOR y) = bit_part 0x10 v x XOR bit_part 0x10 v y"
    "bit_part 0x08 v (x XOR y) = bit_part 0x08 v x XOR bit_part 0x08 v y"
    "bit_part 0x04 v (x XOR y) = bit_part 0x04 v x XOR bit_part 0x04 v y"
    "bit_part 0x02 v (x XOR y) = bit_part 0x02 v x XOR bit_part 0x02 v y"
    "bit_part 0x01 v (x XOR y) = bit_part 0x01 v x XOR bit_part 0x01 v y" for v
    using bit_part_xor [of 7 v x y] bit_part_xor [of 6 v x y] bit_part_xor [of 5 v x y] bit_part_xor [of 4 v x y]
      bit_part_xor [of 3 v x y] bit_part_xor [of 2 v x y] bit_part_xor [of 1 v x y] bit_part_xor [of 0 v x y]
    by simp_all
  have entry: "crc8_tbl ! unat d =
     bit_part 0x80 0xe0 d XOR bit_part 0x40 0x70 d XOR bit_part 0x20 0x38 d XOR bit_part 0x10 0x1c d
     XOR bit_part 0x08 0x0e d XOR bit_part 0x04 0x07 d XOR bit_part 0x02 0xe3 d XOR bit_part 0x01 0x91 d" for d
    using crc8_entry [of d] by (simp only: crc8_entry_ok_def)
  show ?thesis
    unfolding entry part by (simp only: xor.assoc xor.commute xor.left_commute)
qed

lemma crc8_tbl_0: "crc8_tbl ! unat x = 0 \<longleftrightarrow> x = 0" for x :: u8
  using crc8_entry [of x] by (auto simp: crc8_entry_ok_def crc8_tbl_def)

lemma word_xor_eq_0: "x XOR y = 0 \<longleftrightarrow> x = y" for x y :: "'a::len word"
  by (metis xor.assoc xor.right_neutral xor_self_eq)

lemma crc8_turn_inject: "crc8_turn d c = crc8_turn d' c' \<longleftrightarrow> c XOR d = c' XOR d'"
proof -
  have "crc8_turn d c = crc8_turn d' c' \<longleftrightarrow> crc8_tbl ! unat ((c XOR d) XOR (c' XOR d')) = 0"
    unfolding crc8_tbl_xor [of "c XOR d"] by (simp add: crc8_turn_def word_xor_eq_0)
  then show ?thesis
    by (simp only: crc8_tbl_0 word_xor_eq_0)
qed

lemma xor_right_inject: "x XOR a = y XOR a \<longleftrightarrow> x = y" for x y :: "'a::len word"
  by (metis xor.assoc xor.right_neutral xor_self_eq)

lemma crc8_fold_inject: "fold crc8_turn d c = fold crc8_turn d c' \<longleftrightarrow> c = c'"
  by (induction d arbitrary: c c') (simp_all add: crc8_turn_inject xor_right_inject)

lemma crc8_one_byte:
  "fold crc8_turn (xs @ x # ys) c = fold crc8_turn (xs @ y # ys) c \<longleftrightarrow> x = y"
proof -
  have "a XOR x = a XOR y \<longleftrightarrow> x = y" for a :: u8
    using xor_right_inject [of x a y] by (simp add: xor.commute)
  then show ?thesis
    by (simp add: crc8_fold_inject crc8_turn_inject)
qed

section \<open>Addresses as text\<close>

lemma atodec_digit:
  assumes "n < 10"
  shows "atodec (word_of_nat n + 0x30) = int n"
proof -
  have "n \<in> set [0..<10]" using assms by simp
  moreover have "list_all (\<lambda>n. atodec (word_of_nat n + 0x30) = int n) [0..<10]" by code_simp
  ultimately show ?thesis unfolding list_all_iff by blast
qed

lemma digit_bounds:
  assumes "n < 10"
  shows "(word_of_nat n + 0x30 :: u8) \<noteq> 0" "(word_of_nat n + 0x30 :: u8) \<noteq> 0x2e" "(word_of_nat n + 0x30 :: u8) \<noteq> 0x2d"
proof -
  have "n \<in> set [0..<10]" using assms by simp
  moreover have "list_all (\<lambda>n. (word_of_nat n + 0x30 :: u8) \<noteq> 0 \<and> (word_of_nat n + 0x30 :: u8) \<noteq> 0x2e
      \<and> (word_of_nat n + 0x30 :: u8) \<noteq> 0x2d) [0..<10]"
    by code_simp
  ultimately show "(word_of_nat n + 0x30 :: u8) \<noteq> 0" "(word_of_nat n + 0x30 :: u8) \<noteq> 0x2e"
      "(word_of_nat n + 0x30 :: u8) \<noteq> 0x2d"
    unfolding list_all_iff by blast+
qed

text \<open>The digits of a byte: at most three, no dot, and read back as the number.\<close>

lemma format_d_byte:
  assumes "n < 256"
  obtains ds where "format_d n = ds" "length ds \<le> 3" "0x2e \<notin> set ds"
    "\<And>rest. strtodec (ds @ 0 # rest) = Some (0, Some (int n))"
proof -
  have int32: "int32 x = Some x" if "0 \<le> x" "x < 10000" for x
    using that by (simp add: int32_def)
  note digits = atodec_digit digit_bounds digit_bounds [symmetric]
  consider "n < 10" | "10 \<le> n" "n < 100" | "100 \<le> n" by linarith
  then show ?thesis
  proof cases
    case 1
    then show ?thesis
      by (intro that [of "[word_of_nat n + 0x30]"]) (simp_all add: format_d.simps strtodec_def digits int32)
  next
    case 2
    then have d: "n div 10 < 10" "n mod 10 < 10" "int n = int (n div 10) * 10 + int (n mod 10)"
      by (simp_all add: div_less_iff_less_mult zdiv_int zmod_int)
    from 2 d show ?thesis
      by (intro that [of "[word_of_nat (n div 10) + 0x30, word_of_nat (n mod 10) + 0x30]"])
        (simp_all add: format_d.simps [of n] format_d.simps [of "n div 10"] strtodec_def digits int32)
  next
    case 3
    then have d: "n div 10 div 10 < 10" "n div 10 mod 10 < 10" "n mod 10 < 10"
        "int (n div 10) = int (n div 10 div 10) * 10 + int (n div 10 mod 10)"
        "int n = int (n div 10) * 10 + int (n mod 10)" "10 \<le> n div 10" "10 \<le> n"
      using assms by (simp_all add: div_less_iff_less_mult less_eq_div_iff_mult_less_eq zdiv_int zmod_int)
    have "format_d n = [word_of_nat (n div 10 div 10) + 0x30, word_of_nat (n div 10 mod 10) + 0x30, word_of_nat (n mod 10) + 0x30]"
      using d by (simp add: format_d.simps [of n] format_d.simps [of "n div 10"] format_d.simps [of "n div 10 div 10"])
    with d assms show ?thesis
      by (intro that [of "[word_of_nat (n div 10 div 10) + 0x30, word_of_nat (n div 10 mod 10) + 0x30, word_of_nat (n mod 10) + 0x30]"])
        (simp_all add: strtodec_def digits int32)
  qed
qed

text \<open>The loop of \<^verbatim>\<open>strtoip\<close> passes bytes that are no dots, and takes a number in front of a dot.\<close>

lemma strtoip_loop_skip:
  assumes "0x2e \<notin> set xs" "i < 3"
  shows "strtoip_loop (length xs + length post) (pre @ xs @ post) head i ip
    = strtoip_loop (length post) (pre @ xs @ post) head i ip"
  using assms
proof (induction xs arbitrary: pre)
  case (Cons x xs)
  have "length (pre @ (x # xs) @ post) - Suc (length xs + length post) = length pre"
    by simp
  then have "rd1 (pre @ (x # xs) @ post) (length (pre @ (x # xs) @ post) - Suc (length xs + length post)) = Some x"
    by (simp add: rd1_def)
  with Cons.prems Cons.IH [of "pre @ [x]"] show ?case by (simp add: Let_def)
qed simp

lemma strtoip_loop_number:
  assumes n: "n < 256" and ds: "format_d n = ds" "0x2e \<notin> set ds" "\<And>rest. strtodec (ds @ 0 # rest) = Some (0, Some (int n))"
    and i: "i < 3"
  shows "strtoip_loop (length ds + Suc (length post)) (pre @ ds @ 0x2e # post) (length pre) i ip
    = strtoip_loop (length post) ((pre @ ds @ [0x2e]) @ post) (length (pre @ ds @ [0x2e])) (i + 1) (push_bit 8 ip + word_of_nat n)"
proof -
  let ?str = "pre @ ds @ 0x2e # post"
  have tail: "length ?str - Suc (length post) = length (pre @ ds)"
    by simp
  have steps: "rd1 ?str (length (pre @ ds)) = Some 0x2e" "wr ?str (length (pre @ ds)) [0] = Some (pre @ ds @ 0 # post)"
    "wr (pre @ ds @ 0 # post) (length (pre @ ds)) [0x2e] = Some ?str"
    by (simp_all add: rd1_def wr_def nth_append)
  have "strtoip_loop (length ds + Suc (length post)) ?str (length pre) i ip
      = strtoip_loop (Suc (length post)) ?str (length pre) i ip"
    using strtoip_loop_skip [OF ds(2) i, of "0x2e # post" pre] by simp
  also have "\<dots> = strtoip_loop (length post) ?str (length (pre @ ds) + 1) (i + 1) (push_bit 8 ip + word_of_int (int n))"
    using i n ds(3) [of post] steps by (simp only: strtoip_loop.simps Let_def tail) simp
  finally show ?thesis by simp
qed

lemma strtoip_format:
  assumes "a < 256" "b < 256" "c < 256" "d < 256"
  shows "strtoip (format_d a @ [0x2e] @ format_d b @ [0x2e] @ format_d c @ [0x2e] @ format_d d @ 0 # rest)
    = (let ip = push_bit 8 (push_bit 8 (push_bit 8 (word_of_nat a) + word_of_nat b) + word_of_nat c) + word_of_nat d
       in Some (if ip = 0 then - 1 else 0, Some ip, format_d a @ [0x2e] @ format_d b @ [0x2e] @ format_d c @ [0x2e] @ format_d d @ 0 # rest))"
proof -
  obtain da where da: "format_d a = da" "0x2e \<notin> set da" "\<And>rest. strtodec (da @ 0 # rest) = Some (0, Some (int a))"
    by (rule format_d_byte [OF assms(1)]) (rule that)
  obtain db where db: "format_d b = db" "0x2e \<notin> set db" "\<And>rest. strtodec (db @ 0 # rest) = Some (0, Some (int b))"
    by (rule format_d_byte [OF assms(2)]) (rule that)
  obtain dc where dc: "format_d c = dc" "0x2e \<notin> set dc" "\<And>rest. strtodec (dc @ 0 # rest) = Some (0, Some (int c))"
    by (rule format_d_byte [OF assms(3)]) (rule that)
  obtain dd where dd: "format_d d = dd" "\<And>rest. strtodec (dd @ 0 # rest) = Some (0, Some (int d))"
    by (rule format_d_byte [OF assms(4)]) (rule that)
  let ?tail = "dd @ 0 # rest"
  let ?s = "da @ 0x2e # db @ 0x2e # dc @ 0x2e # ?tail"
  let ?ip = "push_bit 8 (push_bit 8 (word_of_nat a) + word_of_nat b) + word_of_nat c :: u32"
  have "strtoip_loop (length ?s) ?s 0 0 0
      = strtoip_loop (length (db @ 0x2e # dc @ 0x2e # ?tail)) ?s (length (da @ [0x2e])) 1 (word_of_nat a)"
    using strtoip_loop_number [OF assms(1) da, of 0 "db @ 0x2e # dc @ 0x2e # ?tail" "[]" 0] by simp
  also have "\<dots> = strtoip_loop (length (dc @ 0x2e # ?tail)) ?s (length (da @ 0x2e # db @ [0x2e])) 2
      (push_bit 8 (word_of_nat a) + word_of_nat b)"
    using strtoip_loop_number [OF assms(2) db, of 1 "dc @ 0x2e # ?tail" "da @ [0x2e]" "word_of_nat a"]
    by (simp add: numeral_2_eq_2)
  also have "\<dots> = strtoip_loop (length ?tail) ?s (length (da @ 0x2e # db @ 0x2e # dc @ [0x2e])) 3 ?ip"
    using strtoip_loop_number [OF assms(3) dc, of 2 "?tail" "da @ 0x2e # db @ [0x2e]"]
    by (simp add: numeral_3_eq_3 numeral_2_eq_2)
  also have "\<dots> = Some (Inr (?s, length (da @ 0x2e # db @ 0x2e # dc @ [0x2e]), ?ip))"
    by (cases "length ?tail") simp_all
  finally have loop: "strtoip_loop (length ?s) ?s 0 0 0 = Some (Inr (?s, length (da @ 0x2e # db @ 0x2e # dc @ [0x2e]), ?ip))" .
  have "drop (length xs) (xs @ ys) = ys" for xs ys :: "u8 list"
    by simp
  from this [of "da @ 0x2e # db @ 0x2e # dc @ [0x2e]" ?tail]
  have "drop (length (da @ 0x2e # db @ 0x2e # dc @ [0x2e])) ?s = ?tail"
    by (simp del: length_append)
  with loop dd(2) [of rest] assms(4) show ?thesis
    unfolding da(1) db(1) dc(1) dd(1) by (simp add: strtoip_def Let_def del: length_append)
qed

lemma address_bytes:
  "push_bit 8 (push_bit 8 (push_bit 8 (drop_bit 24 ip AND 0xff) + (drop_bit 16 ip AND 0xff)) + (drop_bit 8 ip AND 0xff)) + (drop_bit 0 ip AND 0xff)
   = (ip :: u32)"
proof -
  have FF: "(0xff :: u32) = mask 8"
    by (simp add: mask_eq_exp_minus_1)
  have plus: "push_bit 8 x + (y AND 0xff) = push_bit 8 x OR (y AND 0xff)" for x y :: u32
    unfolding FF by (rule disjunctive_add) (auto simp: bit_simps)
  show ?thesis
  proof (unfold plus, rule bit_word_eqI)
    fix n assume "n < LENGTH(32)"
    then consider "n < 8" | "8 \<le> n" "n < 16" | "16 \<le> n" "n < 24" | "24 \<le> n" "n < 32"
      by fastforce
    then show "bit (push_bit 8 (push_bit 8 (push_bit 8 (drop_bit 24 ip AND 0xff) OR drop_bit 16 ip AND 0xff) OR drop_bit 8 ip AND 0xff)
        OR drop_bit 0 ip AND 0xff) n = bit ip n"
      unfolding FF by cases (auto simp: bit_simps)
  qed
qed

section \<open>Byte arrays as text\<close>

definition format_02x_ok :: "u8 \<Rightarrow> bool" where
  "format_02x_ok x \<longleftrightarrow>
     (let h = atohex (format_x_digit (x div 16)); l = atohex (format_x_digit (x mod 16))
      in \<not> h < 0 \<and> \<not> l < 0 \<and> (push_bit 4 (word_of_int h) AND 0xf0) OR (word_of_int l AND 0x0f) = x)"

lemma format_02x_digits: "format_02x_ok x"
  by (rule every_byte) code_simp

lemma strtohexarray_loop_format:
  "i + length ms \<le> length array \<Longrightarrow>
   strtohexarray_loop (length ms) i (concat (map format_02x ms) @ 0 # rest) array
     = Some (0, take i array @ ms @ drop (i + length ms) array)"
proof (induction ms arbitrary: i array)
  case (Cons x ms)
  let ?a = "take i array @ x # drop (Suc i) array"
  have a: "wr array i [x] = Some ?a"
    using Cons.prems by (simp add: wr_def)
  have "Suc i + length ms \<le> length ?a" "take (Suc i) ?a @ ms @ drop (Suc i + length ms) ?a = take i array @ x # ms @ drop (Suc (i + length ms)) array"
    using Cons.prems by (simp_all add: min_def add.commute)
  with Cons.IH [of "Suc i" ?a] a format_02x_digits [of x] show ?case
    by (simp add: format_02x_def [of x] format_02x_ok_def Let_def)
qed simp

section \<open>Properties\<close>

text \<open>C40: \<^verbatim>\<open>chk_crc8\<close> accepts a message followed by a byte exactly when the byte is the checksum \<^verbatim>\<open>get_crc8\<close> of the
  message, and when one byte of a message is replaced by another one the checksum is another one, wherever it is.\<close>

theorem crc8_detects_one_byte:
  assumes "length (pre @ x # post) < 2 ^ 31"
  shows "\<exists>c. get_crc8 (pre @ x # post) (word_of_nat (length (pre @ x # post))) = Some c
    \<and> (\<forall>b. chk_crc8 (pre @ x # post @ [b]) (word_of_nat (length (pre @ x # post) + 1)) = Some (if b = c then 0 else - 1))
    \<and> (\<forall>y. get_crc8 (pre @ y # post) (word_of_nat (length (pre @ x # post))) = Some c \<longleftrightarrow> x = y)"
proof -
  let ?n = "length (pre @ x # post)"
  have n: "unat (word_of_nat ?n :: u32) = ?n" "unat (word_of_nat (?n + 1) :: u32) = ?n + 1"
    by (rule unat_of_nat_small, use assms in simp)+
  have chk: "fold crc8_turn [b] c = 0 \<longleftrightarrow> b = c" for b c
    by (auto simp: crc8_turn_def crc8_tbl_0 word_xor_eq_0)
  have "rd (pre @ x # post @ [b]) 0 (?n + 1) = Some ((pre @ x # post) @ [b])"
      "rd (pre @ y # post) 0 ?n = Some (pre @ y # post)" for b y
    by (simp_all add: rd_all)
  then show ?thesis
    using chk [of _ "fold crc8_turn (pre @ x # post) 0"] crc8_one_byte [of pre _ post 0]
    by (intro exI [of _ "fold crc8_turn (pre @ x # post) 0"])
      (auto simp only: get_crc8_def chk_crc8_def n fold_append o_apply bind.bind_lunit option.inject)
qed

theorem crc8_detects_one_byte_witness:
  "\<exists>c. get_crc8 [1, 2, 3] 3 = Some c \<and> (\<forall>b. chk_crc8 [1, 2, 3, b] 4 = Some (if b = c then 0 else - 1))
    \<and> get_crc8 [1, 7, 3] 3 \<noteq> Some c"
  using crc8_detects_one_byte [of "[1]" 2 "[3]"] by (auto dest: spec [of _ 7])

text \<open>C30: an address that \<^verbatim>\<open>iptostr\<close> writes is read back by \<^verbatim>\<open>strtoip\<close>, which leaves the text as it was; only the
  address 0.0.0.0, although it is stored, is reported as an error.  Six bytes that \<^verbatim>\<open>mactostr\<close> writes are read back by
  \<^verbatim>\<open>strtohexarray\<close>.\<close>

theorem addresses_roundtrip:
  assumes "16 \<le> length str" and "6 \<le> length mac" and "6 \<le> length array"
  shows "\<exists>t m. iptostr ip str = Some t \<and> strtoip t = Some (if ip = 0 then - 1 else 0, Some ip, t)
    \<and> mactostr mac str = Some m \<and> strtohexarray array 6 m = Some (0, take 6 mac @ drop 6 array)"
proof -
  let ?b = "\<lambda>k. unat (drop_bit k ip AND 0xff)"
  have FF: "(0xff :: u32) = mask 8"
    by (simp add: mask_eq_exp_minus_1)
  have b: "?b k < 256" for k
    unfolding FF by (simp add: take_bit_eq_mask [symmetric] unsigned_take_bit_eq take_bit_nat_def)
  have digits: "length (format_d (?b k)) \<le> 3" for k
    by (rule format_d_byte [OF b [of k]]) simp
  let ?t = "format_d (?b 24) @ [0x2e] @ format_d (?b 16) @ [0x2e] @ format_d (?b 8) @ [0x2e] @ format_d (?b 0) @ [0]"
  have "length ?t \<le> length str"
    using digits [of 24] digits [of 16] digits [of 8] digits [of 0] assms(1) by simp
  then have "iptostr ip str = Some (?t @ drop (length ?t) str)"
    unfolding iptostr_def by (rule wr_prefix)
  moreover have "strtoip (?t @ drop (length ?t) str) = Some (if ip = 0 then - 1 else 0, Some ip, ?t @ drop (length ?t) str)"
    using strtoip_format [OF b b b b, of 24 16 8 0 "drop (length ?t) str"] address_bytes [of ip]
    by (simp add: Let_def)
  moreover have "mactostr mac str = Some (concat (map format_02x (take 6 mac)) @ 0 # drop 13 str)"
  proof -
    have "length (concat (map format_02x ms)) = 2 * length ms" for ms
      by (induction ms) (simp_all add: format_02x_def)
    with assms(1,2) show ?thesis
      by (simp add: mactostr_def rd_def wr_prefix)
  qed
  moreover have "strtohexarray array 6 (concat (map format_02x (take 6 mac)) @ 0 # drop 13 str) = Some (0, take 6 mac @ drop 6 array)"
    using strtohexarray_loop_format [of 0 "take 6 mac" array "drop 13 str"] assms(2,3)
    by (simp add: strtohexarray_def)
  ultimately show ?thesis by blast
qed

theorem addresses_roundtrip_witness:
  "\<exists>t m. iptostr 0xC0A80001 (replicate 16 0) = Some t \<and> strtoip t = Some (0, Some 0xC0A80001, t)
    \<and> mactostr [0, 0x25, 0x31, 0xAB, 0xCD, 0xEF] (replicate 16 0) = Some m
    \<and> strtohexarray (replicate 6 0) 6 m = Some (0, [0, 0x25, 0x31, 0xAB, 0xCD, 0xEF])"
  using addresses_roundtrip [of "replicate 16 0" "[0, 0x25, 0x31, 0xAB, 0xCD, 0xEF]" "replicate 6 0" "0xC0A80001"] by simp

text \<open>C33: \<^verbatim>\<open>strtoip\<close> looks for three dots and not for the end of the text: on a text without a dot it reads past the end
  of the object (undefined behaviour) instead of reporting the error its check behind the loop is for.\<close>

theorem strtoip_runs_past_end:
  assumes "0x2e \<notin> set str"
  shows "strtoip str = None"
  using strtoip_loop_skip [OF assms, of 0 "[]" "[]" 0 0] by (simp add: strtoip_def)

theorem strtoip_runs_past_end_witness:
  "strtoip [0x31, 0x32, 0x37, 0] = None"
  by (rule strtoip_runs_past_end) simp

end
