(* ===== verification/Fwup.thy ===== *)
theory Fwup
  imports Flash Utils
begin

unbundle bit_operations_syntax

text \<open>
  The firmware updater, \<^verbatim>\<open>Src/Common/fwup/wm_fwup.c\<close>: sessions, the queue of requests and the scheduler that checks the
  header of an image, writes the image to the flash memory, verifies it and points the boot footer at it.  The flash
  memory is that of \<open>Flash\<close>; the semaphores order callers only and are not modelled.
\<close>

section \<open>Constants\<close>

abbreviation (input) TLS_FWUP_STATUS_OK :: u32 where "TLS_FWUP_STATUS_OK \<equiv> 0"
abbreviation (input) TLS_FWUP_STATUS_EINVALID :: u32 where "TLS_FWUP_STATUS_EINVALID \<equiv> 1"
abbreviation (input) TLS_FWUP_STATUS_EMEM :: u32 where "TLS_FWUP_STATUS_EMEM \<equiv> 2"
abbreviation (input) TLS_FWUP_STATUS_EPERM :: u32 where "TLS_FWUP_STATUS_EPERM \<equiv> 3"
abbreviation (input) TLS_FWUP_STATUS_EBUSY :: u32 where "TLS_FWUP_STATUS_EBUSY \<equiv> 4"
abbreviation (input) TLS_FWUP_STATUS_ESESSIONID :: u32 where "TLS_FWUP_STATUS_ESESSIONID \<equiv> 5"
abbreviation (input) TLS_FWUP_STATUS_EIO :: u32 where "TLS_FWUP_STATUS_EIO \<equiv> 6"
abbreviation (input) TLS_FWUP_STATUS_ESIGNATURE :: u32 where "TLS_FWUP_STATUS_ESIGNATURE \<equiv> 7"
abbreviation (input) TLS_FWUP_STATUS_ECRC :: u32 where "TLS_FWUP_STATUS_ECRC \<equiv> 8"
abbreviation (input) TLS_FWUP_STATUS_EUNDEF :: u32 where "TLS_FWUP_STATUS_EUNDEF \<equiv> 9"

abbreviation (input) TLS_FWUP_BOOT_IMAGE_SIGNATURE_WORD :: u32 where "TLS_FWUP_BOOT_IMAGE_SIGNATURE_WORD \<equiv> 0xa0ffff9f"
abbreviation (input) TLS_FWUP_IMAGE_SIGNATURE_WORD :: u32 where "TLS_FWUP_IMAGE_SIGNATURE_WORD \<equiv> 0x64365577"
abbreviation (input) TLS_FWUP_IMAGE_SIGNATURE_WORD_B :: u32 where "TLS_FWUP_IMAGE_SIGNATURE_WORD_B \<equiv> 0x62161900"
abbreviation (input) TLS_FWUP_BLK_SIZE :: u32 where "TLS_FWUP_BLK_SIZE \<equiv> 512"

abbreviation (input) TLS_FWUP_REQ_STATUS_IDLE :: u32 where "TLS_FWUP_REQ_STATUS_IDLE \<equiv> 0"
abbreviation (input) TLS_FWUP_REQ_STATUS_BUSY :: u32 where "TLS_FWUP_REQ_STATUS_BUSY \<equiv> 1"
abbreviation (input) TLS_FWUP_REQ_STATUS_SUCCESS :: u32 where "TLS_FWUP_REQ_STATUS_SUCCESS \<equiv> 2"
abbreviation (input) TLS_FWUP_REQ_STATUS_FIO :: u32 where "TLS_FWUP_REQ_STATUS_FIO \<equiv> 3"
abbreviation (input) TLS_FWUP_REQ_STATUS_FSIGNATURE :: u32 where "TLS_FWUP_REQ_STATUS_FSIGNATURE \<equiv> 4"
abbreviation (input) TLS_FWUP_REQ_STATUS_FMEM :: u32 where "TLS_FWUP_REQ_STATUS_FMEM \<equiv> 5"
abbreviation (input) TLS_FWUP_REQ_STATUS_FCRC :: u32 where "TLS_FWUP_REQ_STATUS_FCRC \<equiv> 6"
abbreviation (input) TLS_FWUP_REQ_STATUS_FCOMPLETE :: u32 where "TLS_FWUP_REQ_STATUS_FCOMPLETE \<equiv> 7"

abbreviation (input) TLS_FWUP_STATE_UNDEF :: u16 where "TLS_FWUP_STATE_UNDEF \<equiv> 0xffff"
abbreviation (input) TLS_FWUP_STATE_BUSY :: u16 where "TLS_FWUP_STATE_BUSY \<equiv> 1"
abbreviation (input) TLS_FWUP_STATE_COMPLETE :: u16 where "TLS_FWUP_STATE_COMPLETE \<equiv> 2"
abbreviation (input) TLS_FWUP_STATE_ERROR_IO :: u16 where "TLS_FWUP_STATE_ERROR_IO \<equiv> 4"
abbreviation (input) TLS_FWUP_STATE_ERROR_SIGNATURE :: u16 where "TLS_FWUP_STATE_ERROR_SIGNATURE \<equiv> 8"
abbreviation (input) TLS_FWUP_STATE_ERROR_MEM :: u16 where "TLS_FWUP_STATE_ERROR_MEM \<equiv> 16"
abbreviation (input) TLS_FWUP_STATE_ERROR_CRC :: u16 where "TLS_FWUP_STATE_ERROR_CRC \<equiv> 32"
abbreviation (input) TLS_FWUP_STATE_ERROR :: u16 where "TLS_FWUP_STATE_ERROR \<equiv> 60"

abbreviation (input) TLS_FLASH_BOOT_FOOTER_ADDR :: u32 where "TLS_FLASH_BOOT_FOOTER_ADDR \<equiv> 0"
abbreviation (input) TLS_FLASH_FIRMWARE1_ADDR :: u32 where "TLS_FLASH_FIRMWARE1_ADDR \<equiv> 0x3000"
abbreviation (input) TLS_FLASH_FIRMWARE2_ADDR :: u32 where "TLS_FLASH_FIRMWARE2_ADDR \<equiv> 0x4e000"
abbreviation (input) TLS_SRAM_FIRMWARE_EXEC_ADDR :: u32 where "TLS_SRAM_FIRMWARE_EXEC_ADDR \<equiv> 0x400"

section \<open>The structures of \<^verbatim>\<open>wm_fwup.h\<close>\<close>

datatype tls_fwup_image_src = SRC_LUART | SRC_HUART | SRC_HSPI | SRC_WEB

record tls_fwup_boot_footer =
  footer_base :: u32
  footer_length :: u32
  load_address :: u32
  exec_address :: u32
  footer_name :: "u8 list"
  signature :: u32
  footer_type :: u32
  image_checksum :: u32

record tls_fwup_image_hdr =
  hdr_magic :: u32
  hdr_crc8 :: u8
  dest_specific :: u8
  dest_offset :: u16
  file_len :: u32
  hdr_time :: "u8 list"

definition boot_footer_bytes :: "tls_fwup_boot_footer \<Rightarrow> u8 list" where
  "boot_footer_bytes f = bytes32 (footer_base f) @ bytes32 (footer_length f) @ bytes32 (load_address f) @ bytes32 (exec_address f)
     @ footer_name f @ bytes32 (signature f) @ bytes32 (footer_type f) @ bytes32 (image_checksum f)"

definition boot_footer_of :: "u8 list \<Rightarrow> tls_fwup_boot_footer" where
  "boot_footer_of b = \<lparr>footer_base = le32 b, footer_length = le32 (drop 4 b), load_address = le32 (drop 8 b),
     exec_address = le32 (drop 12 b), footer_name = take 16 (drop 16 b), signature = le32 (drop 32 b),
     footer_type = le32 (drop 36 b), image_checksum = le32 (drop 40 b)\<rparr>"

definition image_hdr_bytes :: "tls_fwup_image_hdr \<Rightarrow> u8 list" where
  "image_hdr_bytes h = bytes32 (hdr_magic h) @ [hdr_crc8 h, dest_specific h] @ bytes16 (dest_offset h)
     @ bytes32 (file_len h) @ hdr_time h"

definition image_hdr_of :: "u8 list \<Rightarrow> tls_fwup_image_hdr" where
  "image_hdr_of b = \<lparr>hdr_magic = le32 b, hdr_crc8 = b ! 4, dest_specific = b ! 5, dest_offset = le16 (drop 6 b),
     file_len = le32 (drop 8 b), hdr_time = take 4 (drop 12 b)\<rparr>"

definition no_hdr :: tls_fwup_image_hdr where
  "no_hdr = \<lparr>hdr_magic = 0, hdr_crc8 = 0, dest_specific = 0, dest_offset = 0, file_len = 0, hdr_time = replicate 4 0\<rparr>"

text \<open>The completion of every request is \<^verbatim>\<open>fwup_request_complete\<close>, which wakes the caller up.\<close>

record tls_fwup_request =
  req_data :: "u8 list"
  data_len :: u32

record tls_fwup =
  wait_list :: "tls_fwup_request list"
  busy :: bool
  current_image_src :: tls_fwup_image_src
  current_state :: u16
  current_session_id :: u32
  received_len :: u32
  total_len :: u32
  updated_len :: u32
  program_base :: u32
  program_offset :: u32
  received_number :: int

text \<open>The calls out of the module that matter to others.\<close>

datatype fw_call = tls_wifi_set_oneshot_flag u8 | tls_wifi_set_psflag u8 u8 | tls_sys_reset

record 'c fw =
  fwup :: "tls_fwup option"
  current_hdr :: tls_fwup_image_hdr
  oneshotback :: u8
  checksum_sum :: "64 word"
  fw_flash :: "'c flash"
  fw_calls :: "fw_call list"

text \<open>
  What the outside answers during one call: the memory \<^verbatim>\<open>tls_mem_alloc\<close> gives for the buffer of the verification, for
  the sector of \<^verbatim>\<open>tls_fls_write\<close> and for the cache of the fast writes, the bytes that happen to be in a footer on the
  stack, whether semaphores can be created, the flag of the Wi-Fi library, and the values of \<^verbatim>\<open>rand\<close>.
\<close>

record fw_env =
  mem_buffer :: "u8 list option"
  mem_sector :: "u8 list option"
  mem_cache :: "u8 list option"
  stack_footer :: "u8 list"
  sem_ok :: bool
  oneshot_flag :: u8
  rand_values :: "u32 list"

definition with_fwup :: "(tls_fwup \<Rightarrow> tls_fwup) \<Rightarrow> 'c fw \<Rightarrow> 'c fw" where
  "with_fwup f s = s\<lparr>fwup := map_option f (fwup s)\<rparr>"

definition with_hdr :: "(tls_fwup_image_hdr \<Rightarrow> tls_fwup_image_hdr) \<Rightarrow> 'c fw \<Rightarrow> 'c fw" where
  "with_hdr f s = s\<lparr>current_hdr := f (current_hdr s)\<rparr>"

definition fw_tell :: "fw_call \<Rightarrow> 'c fw \<Rightarrow> 'c fw" where
  "fw_tell c s = s\<lparr>fw_calls := fw_calls s @ [c]\<rparr>"

definition add_state :: "u16 \<Rightarrow> 'c fw \<Rightarrow> 'c fw" where
  "add_state b = with_fwup (current_state_update (\<lambda>x. x OR b))"

section \<open>The scheduler: one request\<close>

definition swap_16 :: "u16 \<Rightarrow> u16" where
  "swap_16 v = push_bit 8 (v AND 0xff) OR drop_bit 8 v"

definition swap_32 :: "u32 \<Rightarrow> u32" where
  "swap_32 v = push_bit 24 (v AND 0xff) OR push_bit 8 (v AND 0xff00) OR drop_bit 8 (v AND 0xff0000) OR drop_bit 24 v"

text \<open>
  A step of the request is its result after \<^verbatim>\<open>goto request_finish\<close>, \<open>Inl\<close> with the status of the request, or the value
  with which it goes on.  \<open>or_finish\<close> goes on only with the latter.
\<close>

type_synonym ('c, 'a) fw_step = "(u32 \<times> 'c fw) + ('a \<times> 'c fw)"

definition or_finish :: "('c, 'a) fw_step option \<Rightarrow> ('a \<Rightarrow> 'c fw \<Rightarrow> ('c, 'b) fw_step option) \<Rightarrow> ('c, 'b) fw_step option" where
  "or_finish m f = do { r \<leftarrow> m; case r of Inl e \<Rightarrow> Some (Inl e) | Inr (a, s) \<Rightarrow> f a s }"

text \<open>Reading the boot footer.\<close>

definition read_footer :: "fw_env \<Rightarrow> 'c fw \<Rightarrow> ('c, tls_fwup_boot_footer) fw_step option" where
  "read_footer E s = do {
     (err, b, fl) \<leftarrow> tls_fls_read TLS_FLASH_BOOT_FOOTER_ADDR (stack_footer E) 44 (fw_flash s);
     let s = s\<lparr>fw_flash := fl\<rparr>;
     Some (if err \<noteq> TLS_FLS_STATUS_OK then Inl (TLS_FWUP_REQ_STATUS_FIO, add_state TLS_FWUP_STATE_ERROR_IO s)
           else Inr (boot_footer_of b, s))
   }"

text \<open>A block from the low-speed UART: the first one stands for the header.\<close>

definition fwup_block :: "fw_env \<Rightarrow> tls_fwup_request \<Rightarrow> 'c fw \<Rightarrow> ('c, u8 list \<times> u32) fw_step option" where
  "fwup_block E req s = do {
     number \<leftarrow> rd16 (req_data req) 0;
     let buffer = drop 4 (req_data req);
     or_finish
       (if number = 0 then
          or_finish (read_footer E s) (\<lambda>footer s. do {
            blocks \<leftarrow> rd16 (req_data req) 2;
            let len = ucast blocks * TLS_FWUP_BLK_SIZE;
            let s = with_fwup (\<lambda>w. w\<lparr>program_base :=
                      (if footer_base footer = TLS_FLASH_FIRMWARE1_ADDR then TLS_FLASH_FIRMWARE2_ADDR else TLS_FLASH_FIRMWARE1_ADDR),
                      total_len := len, updated_len := 0\<rparr>) s;
            Some (Inr ((), s\<lparr>current_hdr := no_hdr\<lparr>file_len := len, dest_specific := 0\<rparr>\<rparr>))
          })
        else Some (Inr ((), s)))
       (\<lambda>_ s. do {
          let s = with_fwup (received_len_update (\<lambda>n. n + data_len req)) s;
          crc8 \<leftarrow> calculate_crc8 (hdr_crc8 (current_hdr s)) buffer TLS_FWUP_BLK_SIZE;
          Some (Inr ((buffer, TLS_FWUP_BLK_SIZE), with_hdr (hdr_crc8_update (\<lambda>_. crc8)) s))
        })
   }"

text \<open>What is done when the header is complete.\<close>

definition header_received :: "fw_env \<Rightarrow> tls_fwup \<Rightarrow> 'c fw \<Rightarrow> ('c, unit) fw_step option" where
  "header_received E w s = do {
     let s = (if current_image_src w = SRC_WEB
              then with_hdr (\<lambda>h. h\<lparr>hdr_magic := swap_32 (hdr_magic h), file_len := swap_32 (file_len h),
                     dest_offset := swap_16 (dest_offset h)\<rparr>) s
              else s);
     let h = current_hdr s;
     if hdr_magic h \<noteq> TLS_FWUP_IMAGE_SIGNATURE_WORD \<and> hdr_magic h \<noteq> TLS_FWUP_IMAGE_SIGNATURE_WORD_B
     then Some (Inl (TLS_FWUP_REQ_STATUS_FSIGNATURE, add_state TLS_FWUP_STATE_ERROR_SIGNATURE s))
     else or_finish
       (if dest_specific h = 0 then
          or_finish (read_footer E s) (\<lambda>footer s. Some (Inr (
            if signature footer = TLS_FWUP_BOOT_IMAGE_SIGNATURE_WORD then
              (if footer_base footer = TLS_FLASH_FIRMWARE1_ADDR then TLS_FLASH_FIRMWARE2_ADDR else TLS_FLASH_FIRMWARE1_ADDR)
            else TLS_FLASH_FIRMWARE1_ADDR, s)))
        else Some (Inr (ucast (dest_offset h) * 0x1000, s)))
       (\<lambda>base s. Some (Inr ((), with_fwup (\<lambda>w. w\<lparr>program_base := base, updated_len := 0, total_len := file_len h\<rparr>) s)))
   }"

text \<open>A request of another source: the first 16 bytes are the header; every piece of it is copied to its start.\<close>

definition fwup_image :: "fw_env \<Rightarrow> tls_fwup_request \<Rightarrow> 'c fw \<Rightarrow> ('c, u8 list \<times> u32) fw_step option" where
  "fwup_image E req s = do {
     w \<leftarrow> fwup s;
     or_finish
       (if received_len w < 16 then do {
          let len = (if data_len req < 16 - received_len w then data_len req else 16 - received_len w);
          d \<leftarrow> rd (req_data req) 0 (unat len);
          b \<leftarrow> wr (image_hdr_bytes (current_hdr s)) 0 d;
          let s = with_fwup (received_len_update (\<lambda>n. n + len)) (s\<lparr>current_hdr := image_hdr_of b\<rparr>);
          or_finish (if received_len w + len = 16 then header_received E w s else Some (Inr ((), s)))
            (\<lambda>_ s. Some (Inr ((drop (unat len) (req_data req), data_len req - len), s)))
        } else Some (Inr ((req_data req, data_len req), s)))
       (\<lambda>(buffer, n) s. Some (Inr ((buffer, n), with_fwup (received_len_update (\<lambda>x. x + n)) s)))
   }"

text \<open>The verification: the image is read back in pieces of at most 1024 bytes.\<close>

partial_function (option) verify_loop ::
  "u32 \<Rightarrow> u32 \<Rightarrow> u32 \<Rightarrow> u8 \<Rightarrow> u32 \<Rightarrow> u8 list \<Rightarrow> 'c fw \<Rightarrow> ('c, u8 \<times> u32) fw_step option" where
  "verify_loop base offset left crc8 check buf s =
     (if left > 0 then do {
        let len = (if left > 1024 then 1024 else left);
        (err, buf, fl) \<leftarrow> tls_fls_read (base + offset) buf len (fw_flash s);
        let s = s\<lparr>fw_flash := fl\<rparr>;
        if err \<noteq> TLS_FLS_STATUS_OK then Some (Inl (TLS_FWUP_REQ_STATUS_FIO, add_state TLS_FWUP_STATE_ERROR_IO s))
        else do {
          crc8 \<leftarrow> calculate_crc8 crc8 buf len;
          buf \<leftarrow> (if len AND 3 \<noteq> 0 then wr buf (unat len) (replicate (unat (4 - (len AND 3))) 0) else Some buf);
          (check, acc) \<leftarrow> checksum buf (len div 4 + (if len AND 3 \<noteq> 0 then 1 else 0)) offset (checksum_sum s);
          verify_loop base (offset + len) (left - len) crc8 check buf (s\<lparr>checksum_sum := acc\<rparr>)
        }
      } else Some (Inr ((crc8, check), s)))"

declare verify_loop.simps [code]

text \<open>The last byte was written.\<close>

definition new_footer :: "tls_fwup \<Rightarrow> u32 \<Rightarrow> tls_fwup_boot_footer" where
  "new_footer w check = \<lparr>footer_base = program_base w, footer_length = total_len w,
     load_address = TLS_SRAM_FIRMWARE_EXEC_ADDR, exec_address = TLS_SRAM_FIRMWARE_EXEC_ADDR,
     footer_name = [0x63, 0x75, 0x63, 0x6b, 0x6f, 0x6f] @ replicate 10 0,
     signature = TLS_FWUP_BOOT_IMAGE_SIGNATURE_WORD, footer_type = 4, image_checksum = check\<rparr>"

definition fwup_finish :: "fw_env \<Rightarrow> 'c fw \<Rightarrow> ('c, unit) fw_step option" where
  "fwup_finish E s = do {
     fl \<leftarrow> tls_fls_fast_write_destroy (fw_flash s);
     let s = s\<lparr>fw_flash := fl\<rparr>;
     w \<leftarrow> fwup s;
     case mem_buffer E of
       None \<Rightarrow> Some (Inl (TLS_FWUP_REQ_STATUS_FMEM, add_state TLS_FWUP_STATE_ERROR_MEM s))
     | Some buf \<Rightarrow>
         or_finish (verify_loop (program_base w) 0 (total_len w) 0 0 buf s) (\<lambda>(crc8, check) s.
           if hdr_crc8 (current_hdr s) \<noteq> crc8 then
             Some (Inl (TLS_FWUP_REQ_STATUS_FCRC, add_state TLS_FWUP_STATE_ERROR_CRC s))
           else or_finish
             (if dest_specific (current_hdr s) = 0 then do {
                (err, fl) \<leftarrow> tls_fls_write (mem_sector E) TLS_FLASH_BOOT_FOOTER_ADDR (boot_footer_bytes (new_footer w check)) 44 (fw_flash s);
                let s = s\<lparr>fw_flash := fl\<rparr>;
                Some (if err \<noteq> TLS_FLS_STATUS_OK then Inl (TLS_FWUP_REQ_STATUS_FIO, add_state TLS_FWUP_STATE_ERROR_IO s) else Inr ((), s))
              } else Some (Inr ((), s)))
             (\<lambda>_ s. let s = add_state TLS_FWUP_STATE_COMPLETE s
                    in Some (Inr ((), if oneshotback s = 1 then fw_tell (tls_wifi_set_oneshot_flag (oneshotback s)) s else s))))
   }"

definition fwup_program :: "fw_env \<Rightarrow> u8 list \<Rightarrow> u32 \<Rightarrow> 'c fw \<Rightarrow> ('c, unit) fw_step option" where
  "fwup_program E buffer n s =
     (if n > 0 then do {
        w \<leftarrow> fwup s;
        (err, fl) \<leftarrow> tls_fls_fast_write (program_base w + program_offset w) buffer n (fw_flash s);
        let s = s\<lparr>fw_flash := fl\<rparr>;
        if err \<noteq> TLS_FLS_STATUS_OK then Some (Inl (TLS_FWUP_REQ_STATUS_FIO, add_state TLS_FWUP_STATE_ERROR_IO s))
        else
          (let s = with_fwup (\<lambda>w. w\<lparr>program_offset := program_offset w + n, updated_len := updated_len w + n\<rparr>) s
           in if updated_len w + n \<ge> total_len w then fwup_finish E s else Some (Inr ((), s)))
      } else Some (Inr ((), s)))"

text \<open>The status with which a request is discarded after an error or the end.\<close>

definition discard_status :: "u16 \<Rightarrow> u32 option" where
  "discard_status st =
     (if st AND TLS_FWUP_STATE_ERROR \<noteq> 0 then Some (
        if st AND TLS_FWUP_STATE_ERROR_IO \<noteq> 0 then TLS_FWUP_REQ_STATUS_FIO
        else if st AND TLS_FWUP_STATE_ERROR_SIGNATURE \<noteq> 0 then TLS_FWUP_REQ_STATUS_FSIGNATURE
        else if st AND TLS_FWUP_STATE_ERROR_MEM \<noteq> 0 then TLS_FWUP_REQ_STATUS_FMEM
        else if st AND TLS_FWUP_STATE_ERROR_CRC \<noteq> 0 then TLS_FWUP_REQ_STATUS_FCRC
        else TLS_FWUP_REQ_STATUS_BUSY)
      else if st AND TLS_FWUP_STATE_COMPLETE \<noteq> 0 then Some TLS_FWUP_REQ_STATUS_FCOMPLETE
      else None)"

definition fwup_handle :: "fw_env \<Rightarrow> tls_fwup_request \<Rightarrow> 'c fw \<Rightarrow> ('c, unit) fw_step option" where
  "fwup_handle E req s = do {
     w \<leftarrow> fwup s;
     case discard_status (current_state w) of
       Some st \<Rightarrow> Some (Inl (st, s))
     | None \<Rightarrow> or_finish (if current_image_src w = SRC_LUART then fwup_block E req s else fwup_image E req s)
                 (\<lambda>(buffer, n) s. fwup_program E buffer n s)
   }"

text \<open>The request and \<^verbatim>\<open>request_finish\<close>: the status of the request and the state behind it.\<close>

definition request_turn :: "fw_env \<Rightarrow> tls_fwup_request \<Rightarrow> 'c fw \<Rightarrow> (u32 \<times> 'c fw) option" where
  "request_turn E req s = do {
     r \<leftarrow> fwup_handle E req s;
     let (st, s) = (case r of Inl (st, s) \<Rightarrow> (st, s) | Inr (_, s) \<Rightarrow> (TLS_FWUP_REQ_STATUS_SUCCESS, s));
     let s = with_fwup (\<lambda>w. w\<lparr>wait_list := tl (wait_list w)\<rparr>) s;
     let s = with_fwup (\<lambda>w. if wait_list w = [] then w\<lparr>current_state := current_state w AND NOT TLS_FWUP_STATE_BUSY\<rparr> else w) s;
     w \<leftarrow> fwup s;
     Some (st, if updated_len w \<ge> total_len w then fw_tell tls_sys_reset s else s)
   }"

text \<open>One turn of \<^verbatim>\<open>fwup_scheduler\<close>: the requests in the list, in order, with their statuses.\<close>

fun request_turns :: "fw_env \<Rightarrow> tls_fwup_request list \<Rightarrow> 'c fw \<Rightarrow> (u32 list \<times> 'c fw) option" where
  "request_turns E [] s = Some ([], s)"
| "request_turns E (req # reqs) s = do {
     (st, s) \<leftarrow> request_turn E req s;
     (sts, s) \<leftarrow> request_turns E reqs s;
     Some (st # sts, s)
   }"

definition fwup_scheduler :: "fw_env \<Rightarrow> 'c fw \<Rightarrow> (u32 list \<times> 'c fw) option" where
  "fwup_scheduler E s = do {
     w \<leftarrow> fwup s;
     request_turns E (wait_list w) (if wait_list w \<noteq> [] then add_state TLS_FWUP_STATE_BUSY s else s)
   }"

section \<open>The interface\<close>

definition reset_session :: "tls_fwup \<Rightarrow> tls_fwup" where
  "reset_session w = w\<lparr>current_state := 0, received_len := 0, total_len := 0, updated_len := 0,
     program_base := 0, program_offset := 0\<rparr>"

definition tls_fwup_enter :: "fw_env \<Rightarrow> tls_fwup_image_src \<Rightarrow> 'c fw \<Rightarrow> (u32 \<times> 'c fw) option" where
  "tls_fwup_enter E image_src s =
     (case fwup s of
        None \<Rightarrow> Some (0, s)
      | Some w \<Rightarrow>
          if busy w then Some (0, s)
          else
            (case dropWhile (\<lambda>r. r = 0) (rand_values E) of
               [] \<Rightarrow> None
             | session_id # _ \<Rightarrow>
                 (let s = with_fwup (\<lambda>w. (reset_session w)\<lparr>current_image_src := image_src, received_number := - 1,
                            current_session_id := session_id, busy := True\<rparr>) (s\<lparr>current_hdr := no_hdr\<rparr>);
                      s = s\<lparr>oneshotback := oneshot_flag E\<rparr>;
                      s = (if oneshotback s = 1 then fw_tell (tls_wifi_set_oneshot_flag 0) s else s);
                      s = fw_tell (tls_wifi_set_psflag 0 0) s;
                      (r, fl) = tls_fls_fast_write_init (mem_cache E) (fw_flash s)
                  in Some (session_id, s\<lparr>fw_flash := fl\<rparr>))))"

definition tls_fwup_exit :: "u32 \<Rightarrow> 'c fw \<Rightarrow> u32 \<times> 'c fw" where
  "tls_fwup_exit session_id s =
     (case fwup s of
        None \<Rightarrow> (TLS_FWUP_STATUS_EPERM, s)
      | Some w \<Rightarrow>
          if \<not> busy w then (TLS_FWUP_STATUS_EPERM, s)
          else if session_id \<noteq> current_session_id w then (TLS_FWUP_STATUS_ESESSIONID, s)
          else if current_state w AND TLS_FWUP_STATE_BUSY \<noteq> 0 then (TLS_FWUP_STATUS_EBUSY, s)
          else
            (let s = with_fwup (\<lambda>w. (reset_session w)\<lparr>received_number := - 1, current_session_id := 0, busy := False\<rparr>)
                       (s\<lparr>current_hdr := no_hdr\<rparr>);
                 s = (if oneshotback s = 1 then fw_tell (tls_wifi_set_oneshot_flag (oneshotback s)) s else s)
             in (TLS_FWUP_STATUS_OK, fw_tell (tls_wifi_set_psflag 1 0) s)))"

definition tls_fwup_get_current_session_id :: "'c fw \<Rightarrow> u32 option" where
  "tls_fwup_get_current_session_id s = map_option current_session_id (fwup s)"

text \<open>A difference of numbers outside of \<^verbatim>\<open>int\<close> is an overflow.\<close>

definition tls_fwup_set_update_numer :: "int \<Rightarrow> 'c fw \<Rightarrow> (u32 \<times> 'c fw) option" where
  "tls_fwup_set_update_numer number s = do {
     w \<leftarrow> fwup s;
     d \<leftarrow> int32 (number - received_number w);
     Some (if d = 1 then (TLS_FWUP_STATUS_OK, with_fwup (received_number_update (\<lambda>_. number)) s)
           else (ucast TLS_FWUP_STATE_UNDEF, s))
   }"

definition tls_fwup_get_current_update_numer :: "'c fw \<Rightarrow> int option" where
  "tls_fwup_get_current_update_numer s = map_option received_number (fwup s)"

definition tls_fwup_get_status :: "'c fw \<Rightarrow> bool option" where
  "tls_fwup_get_status s = map_option busy (fwup s)"

definition tls_fwup_set_crc_error :: "u32 \<Rightarrow> 'c fw \<Rightarrow> u32 \<times> 'c fw" where
  "tls_fwup_set_crc_error session_id s =
     (case fwup s of
        None \<Rightarrow> (ucast TLS_FWUP_STATE_UNDEF, s)
      | Some w \<Rightarrow>
          if session_id \<noteq> current_session_id w then (ucast TLS_FWUP_STATE_UNDEF, s)
          else (TLS_FWUP_STATUS_OK, add_state TLS_FWUP_STATE_ERROR_CRC s))"

text \<open>A null pointer is \<open>None\<close>.\<close>

definition tls_fwup_request_async :: "u32 \<Rightarrow> u8 list option \<Rightarrow> u32 \<Rightarrow> 'c fw \<Rightarrow> u32 \<times> 'c fw" where
  "tls_fwup_request_async session_id data len s =
     (case fwup s of
        None \<Rightarrow> (TLS_FWUP_STATUS_EPERM, s)
      | Some w \<Rightarrow>
          if session_id \<noteq> current_session_id w then (TLS_FWUP_STATUS_ESESSIONID, s)
          else
            (case data of
               None \<Rightarrow> (TLS_FWUP_STATUS_EINVALID, s)
             | Some d \<Rightarrow>
                 if len = 0 then (TLS_FWUP_STATUS_EINVALID, s)
                 else (TLS_FWUP_STATUS_OK, with_fwup (\<lambda>w. w\<lparr>wait_list := wait_list w @ [\<lparr>req_data = d, data_len = len\<rparr>]\<rparr>) s)))"

definition request_result :: "u32 \<Rightarrow> u32" where
  "request_result st =
     (if st = TLS_FWUP_REQ_STATUS_SUCCESS then TLS_FWUP_STATUS_OK
      else if st = TLS_FWUP_REQ_STATUS_FIO then TLS_FWUP_STATUS_EIO
      else if st = TLS_FWUP_REQ_STATUS_FSIGNATURE then TLS_FWUP_STATUS_ESIGNATURE
      else if st = TLS_FWUP_REQ_STATUS_FMEM then TLS_FWUP_STATUS_EMEM
      else if st = TLS_FWUP_REQ_STATUS_FCRC then TLS_FWUP_STATUS_ECRC
      else if st = TLS_FWUP_REQ_STATUS_FCOMPLETE then TLS_FWUP_STATUS_EIO
      else TLS_FWUP_STATUS_EUNDEF)"

text \<open>
  The caller waits until the scheduler completed its request, the last of the list.  Without a request in the list the
  status it looks at would be indeterminate.
\<close>

definition tls_fwup_request_sync :: "fw_env \<Rightarrow> u32 \<Rightarrow> u8 list option \<Rightarrow> u32 \<Rightarrow> 'c fw \<Rightarrow> (u32 \<times> 'c fw) option" where
  "tls_fwup_request_sync E session_id data len s =
     (case fwup s of
        None \<Rightarrow> Some (TLS_FWUP_STATUS_EPERM, s)
      | Some w \<Rightarrow>
          if session_id \<noteq> current_session_id w then Some (TLS_FWUP_STATUS_ESESSIONID, s)
          else if data = None \<or> len = 0 then Some (TLS_FWUP_STATUS_EINVALID, s)
          else if \<not> sem_ok E then Some (TLS_FWUP_STATUS_EMEM, s)
          else do {
            let (r, s) = tls_fwup_request_async session_id data len s;
            if r \<noteq> TLS_FWUP_STATUS_OK then None
            else do {
              (sts, s) \<leftarrow> fwup_scheduler E s;
              Some (request_result (last sts), s)
            }
          })"

definition tls_fwup_current_state :: "u32 \<Rightarrow> 'c fw \<Rightarrow> u16" where
  "tls_fwup_current_state session_id s =
     (case fwup s of
        None \<Rightarrow> TLS_FWUP_STATE_UNDEF
      | Some w \<Rightarrow> if session_id \<noteq> current_session_id w then TLS_FWUP_STATE_UNDEF else current_state w)"

definition tls_fwup_reset :: "u32 \<Rightarrow> 'c fw \<Rightarrow> u32 \<times> 'c fw" where
  "tls_fwup_reset session_id s =
     (case fwup s of
        None \<Rightarrow> (TLS_FWUP_STATUS_EPERM, s)
      | Some w \<Rightarrow>
          if \<not> busy w then (TLS_FWUP_STATUS_EPERM, s)
          else if session_id \<noteq> current_session_id w then (TLS_FWUP_STATUS_ESESSIONID, s)
          else if current_state w AND TLS_FWUP_STATE_BUSY \<noteq> 0 then (TLS_FWUP_STATUS_EBUSY, s)
          else (TLS_FWUP_STATUS_OK, with_fwup reset_session (s\<lparr>current_hdr := no_hdr\<rparr>)))"

definition tls_fwup_clear_error :: "u32 \<Rightarrow> 'c fw \<Rightarrow> u32 \<times> 'c fw" where
  "tls_fwup_clear_error session_id s =
     (case fwup s of
        None \<Rightarrow> (TLS_FWUP_STATUS_EPERM, s)
      | Some w \<Rightarrow>
          if \<not> busy w then (TLS_FWUP_STATUS_EPERM, s)
          else if session_id \<noteq> current_session_id w then (TLS_FWUP_STATUS_ESESSIONID, s)
          else if current_state w AND TLS_FWUP_STATE_BUSY \<noteq> 0 then (TLS_FWUP_STATUS_EBUSY, s)
          else (TLS_FWUP_STATUS_OK, with_fwup (current_state_update (\<lambda>x. x AND NOT TLS_FWUP_STATE_ERROR)) s))"

text \<open>
  The arguments: whether the memory, the semaphore, the queue and the task can be created.  When one of the last three
  cannot, the memory is freed but the pointer to it is kept, so that every later use of the module is undefined: there
  is no state behind such a call.
\<close>

definition tls_fwup_init :: "bool \<Rightarrow> bool \<Rightarrow> bool \<Rightarrow> bool \<Rightarrow> 'c fw \<Rightarrow> u32 \<times> 'c fw option" where
  "tls_fwup_init mem sem queue task s =
     (if fwup s \<noteq> None then (TLS_FWUP_STATUS_EBUSY, Some s)
      else if \<not> mem then (TLS_FWUP_STATUS_EMEM, Some s)
      else if \<not> sem \<or> \<not> queue \<or> \<not> task then (TLS_FWUP_STATUS_EMEM, None)
      else (TLS_FWUP_STATUS_OK, Some (s\<lparr>fwup := Some \<lparr>wait_list = [], busy = False, current_image_src = SRC_LUART,
        current_state = 0, current_session_id = 0, received_len = 0, total_len = 0, updated_len = 0, program_base = 0,
        program_offset = 0, received_number = 0\<rparr>\<rparr>)))"

end
