(* ===== verification/FastWrite.thy ===== *)
theory FastWrite
  imports FlashCorrect
begin

text \<open>
  The buffered writes of \<open>Flash\<close>, \<^verbatim>\<open>tls_fls_fast_write\<close>, on a chip that behaves as a NOR flash: bytes written one call
  after the other, from the start of a sector, are in the chip up to the last full sector and in the cache behind it.
\<close>

lemma installed_updates [simp]:
  "installed drv (s\<lparr>gsflscache := x\<rparr>) = installed drv s" "installed drv (s\<lparr>gsSecOffset := o'\<rparr>) = installed drv s"
  "installed drv (s\<lparr>gsSector := k\<rparr>) = installed drv s"
  by (simp_all add: installed_def fls_drv_def)

section \<open>Flushing a sector\<close>

lemma tls_fls_flush_sector_ok:
  assumes drv: "flash_driver drv mem ready" and inst: "installed drv s" and ready: "ready (chip s)"
    and k: "unat (gsSector s) < 256" and cache: "gsflscache s = Some cache" "length cache = 4096"
  shows "\<exists>c'. tls_fls_flush_sector s = Some (s\<lparr>chip := c', gsSecOffset := 0\<rparr>) \<and> ready c'
    \<and> mem c' = overlay (4096 * unat (gsSector s)) cache (mem (chip s))"
proof -
  note sizes = flash_driver_sizes [OF drv]
  obtain f where f: "spi_fls s = Some f" "current_drv f = Some drv"
    using inst by (auto simp: installed_def fls_drv_def split: option.splits)
  obtain c1 where c1: "drv_erase drv (gsSector s) (chip s) = Some (0, c1)" "ready c1"
      "mem c1 = overlay (4096 * unat (gsSector s)) (replicate 4096 0xFF) (mem (chip s))"
    using flash_driver_erase [OF drv ready k] by blast
  have fits: "4096 * unat (gsSector s) + 4096 \<le> length (mem (chip s))"
    using k by (simp add: sizes)
  then have "take 4096 (drop (4096 * unat (gsSector s)) (mem c1)) = replicate 4096 0xFF"
    unfolding c1(3) using overlay_read [of "4096 * unat (gsSector s)" "replicate 4096 0xFF"] by simp
  from tls_fls_page_write_sector [OF drv, of "s\<lparr>chip := c1\<rparr>" "gsSector s" cache] inst c1(2) k cache(2) this
  obtain c2 where c2: "tls_fls_page_write (gsSector s * 16) cache 16 (s\<lparr>chip := c1\<rparr>) = Some (0, s\<lparr>chip := c2\<rparr>)" "ready c2"
      "mem c2 = overlay (4096 * unat (gsSector s)) cache (mem c1)"
    by auto
  have "mem c2 = overlay (4096 * unat (gsSector s)) cache (mem (chip s))"
    unfolding c2(3) c1(3) using fits cache(2) by (simp add: overlay_same)
  with c2(2) show ?thesis
    by (intro exI [of _ c2]) (simp add: tls_fls_flush_sector_def f c1(1) sizes cache(1) c2(1) Let_def)
qed

section \<open>Writing one call after the other\<close>

text \<open>
  After the bytes \<open>d\<close> were written from \<open>base\<close>: the full sectors are in the chip, the rest is at the start of the cache.
\<close>

definition fast_written :: "('c \<Rightarrow> u8 list) \<Rightarrow> ('c \<Rightarrow> bool) \<Rightarrow> 'c tls_fls_drv \<Rightarrow> nat \<Rightarrow> u8 list \<Rightarrow> u8 list \<Rightarrow> 'c flash \<Rightarrow> bool" where
  "fast_written mem ready drv base m0 d s \<longleftrightarrow>
     installed drv s \<and> ready (chip s) \<and> unat (gsSecOffset s) = length d mod 4096
   \<and> (d \<noteq> [] \<longrightarrow> unat (gsSector s) = base div 4096 + length d div 4096)
   \<and> (\<exists>cache. gsflscache s = Some cache \<and> length cache = 4096
        \<and> take (length d mod 4096) cache = drop (4096 * (length d div 4096)) d)
   \<and> mem (chip s) = overlay base (take (4096 * (length d div 4096)) d) m0"

lemma sector_shift: "base mod 4096 = 0 \<Longrightarrow> (base + n) div 4096 = base div 4096 + n div 4096" for base n :: nat
  by (metis div_add_self1 div_mult_mod_eq add.right_neutral add.commute div_plus_div_distrib_dvd_left mod_eq_0_iff_dvd)

text \<open>One turn that does not fill the sector, and one that does.\<close>

lemma fast_written_part:
  assumes w: "fast_written mem ready drv base m0 d s" and sector: "unat (gsSector s) = base div 4096 + length d div 4096"
    and fits: "length d mod 4096 + length x < 4096" and cache: "gsflscache s = Some cache"
  shows "\<exists>cache'. wr cache (length d mod 4096) x = Some cache'
    \<and> fast_written mem ready drv base m0 (d @ x) (s\<lparr>gsflscache := Some cache', gsSecOffset := gsSecOffset s + word_of_nat (length x)\<rparr>)"
proof -
  define q r where "q = length d div 4096" and "r = length d mod 4096"
  have qr: "length d = 4096 * q + r" "r < 4096"
    by (simp_all add: q_def r_def)
  have c: "length cache = 4096" "take r cache = drop (4096 * q) d"
    using w cache by (auto simp: fast_written_def q_def r_def)
  have divmod: "length (d @ x) div 4096 = q" "length (d @ x) mod 4096 = r + length x"
    using qr fits by (simp_all add: r_def [symmetric] div_nat_eqI mod_nat_eqI)
  have off: "unat (gsSecOffset s + word_of_nat (length x)) = r + length x"
    using w fits by (subst unat_add_small) (simp_all add: fast_written_def unat_of_nat_small r_def)
  let ?c = "take r cache @ x @ drop (r + length x) cache"
  have "wr cache r x = Some ?c" "length ?c = 4096" "take (r + length x) ?c = drop (4096 * q) (d @ x)"
    using c fits qr by (simp_all add: wr_def r_def [symmetric])
  with w sector off divmod qr c show ?thesis
    by (simp add: fast_written_def q_def [symmetric] r_def [symmetric])
qed

lemma fast_written_full:
  assumes drv: "flash_driver drv mem ready" and w: "fast_written mem ready drv base m0 d s"
    and sector: "unat (gsSector s) = base div 4096 + length d div 4096" and base: "base mod 4096 = 0"
    and fits: "length d mod 4096 + length x = 4096" and room: "base + length d + length x \<le> 0x100000" "length m0 = 0x100000"
    and cache: "gsflscache s = Some cache"
  shows "\<exists>cache' s'. wr cache (length d mod 4096) x = Some cache'
    \<and> tls_fls_flush_sector (s\<lparr>gsflscache := Some cache', gsSecOffset := gsSecOffset s + word_of_nat (length x)\<rparr>) = Some s'
    \<and> fast_written mem ready drv base m0 (d @ x) (s'\<lparr>gsSector := gsSector s' + 1\<rparr>)
    \<and> unat (gsSector s' + 1) = base div 4096 + length (d @ x) div 4096"
proof -
  define q r where "q = length d div 4096" and "r = length d mod 4096"
  have qr: "length d = 4096 * q + r" "r < 4096" "length x = 4096 - r"
    using fits by (simp_all add: q_def r_def)
  have c: "length cache = 4096" "take r cache = drop (4096 * q) d"
    using w cache by (auto simp: fast_written_def q_def r_def)
  let ?c = "drop (4096 * q) d @ x"
  have wr: "wr cache r x = Some ?c" "length ?c = 4096"
    using c qr by (simp_all add: wr_def)
  define b where "b = base div 4096"
  have b: "4096 * b = base"
    using base unfolding b_def by (metis add.right_neutral mult_div_mod_eq)
  have k: "unat (gsSector s) = b + q"
    using sector by (simp add: q_def b_def)
  have "b + q < 256"
    using room(1) qr b by linarith
  note k = k this
  let ?s = "s\<lparr>gsflscache := Some ?c, gsSecOffset := gsSecOffset s + word_of_nat (length x)\<rparr>"
  obtain c' where c': "tls_fls_flush_sector ?s = Some (?s\<lparr>chip := c', gsSecOffset := 0\<rparr>)" "ready c'"
      "mem c' = overlay (4096 * (b + q)) ?c (mem (chip s))"
    using tls_fls_flush_sector_ok [OF drv, of ?s ?c] w k wr(2) by (auto simp: fast_written_def)
  have "mem c' = overlay (base + length (take (4096 * q) d)) ?c (overlay base (take (4096 * q) d) m0)"
  proof -
    have "4096 * (b + q) = base + length (take (4096 * q) d)"
      using b qr(1) by (simp add: distrib_left)
    then show ?thesis
      using c'(3) w by (simp add: fast_written_def q_def [symmetric])
  qed
  also have "\<dots> = overlay base (take (4096 * q) d @ ?c) m0"
    using room qr by (intro overlay_append) simp
  finally have m: "mem c' = overlay base (d @ x) m0"
    by (simp only: append_assoc [symmetric] append_take_drop_id)
  have divmod: "length (d @ x) div 4096 = q + 1" "length (d @ x) mod 4096 = 0"
    using qr by simp_all
  have succ: "unat (gsSector s + 1) = base div 4096 + (q + 1)"
    using k by (subst unat_add_small) (simp_all add: b_def)
  have "fast_written mem ready drv base m0 (d @ x) (?s\<lparr>chip := c', gsSecOffset := 0, gsSector := gsSector s + 1\<rparr>)"
    using w c'(2) m divmod succ wr(2) qr by (simp add: fast_written_def)
  with c'(1) wr(1) succ divmod(1) show ?thesis
    unfolding r_def [symmetric] by (intro exI [of _ ?c] exI [of _ "?s\<lparr>chip := c', gsSecOffset := 0\<rparr>"]) simp
qed

text \<open>The loop, and so the whole call.\<close>

lemma fast_write_loop_ok:
  assumes drv: "flash_driver drv mem ready" and base: "base mod 4096 = 0" and m0: "length m0 = 0x100000"
  shows "fast_written mem ready drv base m0 d s \<Longrightarrow> unat (gsSector s) = base div 4096 + length d div 4096
    \<Longrightarrow> unat off = length d mod 4096 \<Longrightarrow> unat maxlen = 4096 - length d mod 4096
    \<Longrightarrow> unat n \<le> length buf \<Longrightarrow> base + length d + unat n \<le> 0x100000
    \<Longrightarrow> \<exists>s'. fast_write_loop drv off maxlen buf n s = Some s' \<and> fast_written mem ready drv base m0 (d @ take (unat n) buf) s'"
proof (induction "unat n" arbitrary: n d s off maxlen buf rule: less_induct)
  case less
  note sizes = flash_driver_sizes [OF drv]
  obtain cache where cache: "gsflscache s = Some cache"
    using less.prems(1) by (auto simp: fast_written_def)
  show ?case
  proof (cases "n = 0")
    case True
    with less.prems(1) show ?thesis by (simp add: fast_write_loop.simps)
  next
    case n: False
    show ?thesis
    proof (cases "unat n < unat maxlen")
      case True
      let ?x = "take (unat n) buf"
      have x: "length ?x = unat n" "length d mod 4096 + length ?x < 4096"
        using True less.prems(4,5) by simp_all
      from fast_written_part [OF less.prems(1,2) x(2) cache] obtain cache' where
          w: "wr cache (length d mod 4096) ?x = Some cache'"
            "fast_written mem ready drv base m0 (d @ ?x) (s\<lparr>gsflscache := Some cache', gsSecOffset := gsSecOffset s + n\<rparr>)"
        using x(1) by auto
      have "length (d @ ?x) mod 4096 < 4096" "unat (gsSecOffset s + n) = length (d @ ?x) mod 4096"
        using w(2) by (simp_all add: fast_written_def)
      then have "\<not> 4096 \<le> gsSecOffset s + n"
        by (simp add: word_le_nat_alt)
      moreover have "\<not> maxlen < n"
        using True by (simp add: word_less_nat_alt)
      ultimately show ?thesis
        using n cache w less.prems(3,5)
        by (simp add: fast_write_loop.simps [of _ off] fast_write_loop.simps [of _ 0] word_gt_0 rd_def sizes Let_def del: linorder_not_less linorder_not_le)
    next
      case False
      let ?x = "take (unat maxlen) buf"
      have x: "length ?x = unat maxlen" "length d mod 4096 + length ?x = 4096"
        using False less.prems(4,5) mod_less_divisor [of 4096 "length d"] by simp_all
      have room: "base + length d + length ?x \<le> 0x100000"
        using False less.prems(6) x(1) by simp
      from fast_written_full [OF drv less.prems(1,2) base x(2) room m0 cache] obtain cache' s1 where
          w: "wr cache (length d mod 4096) ?x = Some cache'"
            "tls_fls_flush_sector (s\<lparr>gsflscache := Some cache', gsSecOffset := gsSecOffset s + maxlen\<rparr>) = Some s1"
            "fast_written mem ready drv base m0 (d @ ?x) (s1\<lparr>gsSector := gsSector s1 + 1\<rparr>)"
            "unat (gsSector s1 + 1) = base div 4096 + length (d @ ?x) div 4096"
        using x(1) by auto
      have full: "4096 \<le> gsSecOffset s + maxlen"
      proof -
        have "unat (gsSecOffset s) = length d mod 4096"
          using less.prems(1) by (simp add: fast_written_def)
        then have "unat (gsSecOffset s + maxlen) = 4096"
          using less.prems(4) by (subst unat_add_small) simp_all
        then show ?thesis by (simp add: word_le_nat_alt)
      qed
      have len: "(if n > maxlen then maxlen else n) = maxlen"
        using False by (auto simp: word_less_nat_alt word_unat_eq_iff)
      have left: "unat (n - maxlen) = unat n - unat maxlen"
        using False by (simp add: unat_sub word_le_nat_alt)
      have whole: "length (d @ ?x) mod 4096 = 0"
        using x(2) by (metis length_append mod_add_left_eq mod_self)
      have "\<exists>s'. fast_write_loop drv 0 4096 (drop (unat maxlen) buf) (n - maxlen) (s1\<lparr>gsSector := gsSector s1 + 1\<rparr>) = Some s'
        \<and> fast_written mem ready drv base m0 ((d @ ?x) @ take (unat (n - maxlen)) (drop (unat maxlen) buf)) s'"
      proof (rule less.hyps)
        show "unat (n - maxlen) < unat n"
          using left x n less.prems(4) False mod_less_divisor [of 4096 "length d"] unat_gt_0 [of n] by linarith
        show "base + length (d @ ?x) + unat (n - maxlen) \<le> 0x100000"
          using left x(1) False less.prems(6) by simp
      qed (use w(3,4) whole left less.prems(5) in simp_all)
      moreover have "(d @ ?x) @ take (unat (n - maxlen)) (drop (unat maxlen) buf) = d @ take (unat n) buf"
        using take_add [of "unat maxlen" "unat n - unat maxlen" buf] left False by simp
      ultimately show ?thesis
        using n cache w(1,2) full less.prems(3,4,5) len False
        by (simp add: fast_write_loop.simps [of _ off] word_gt_0 rd_def sizes Let_def)
    qed
  qed
qed

lemma tls_fls_fast_write_ok:
  assumes drv: "flash_driver drv mem ready" and base: "base mod 4096 = 0" and m0: "length m0 = 0x100000"
    and w: "fast_written mem ready drv base m0 d s"
    and addr: "unat addr = base + length d" and n: "0 < n" "unat n \<le> length buf" "base + length d + unat n \<le> 0x100000"
  shows "\<exists>s'. tls_fls_fast_write addr buf n s = Some (0, s') \<and> fast_written mem ready drv base m0 (d @ take (unat n) buf) s'"
proof -
  note sizes = flash_driver_sizes [OF drv]
  have inst: "fls_drv s = Inr drv"
    using w by (simp add: fast_written_def installed_def)
  have n0: "0 < unat n" "n \<noteq> 0"
    using n(1) by (auto simp: word_gt_0 unat_gt_0)
  have bad: "\<not> (addr \<ge> 0x100000 \<or> n = 0)"
    using n(3) n0 addr by (simp add: word_le_nat_alt)
  have sector: "unat (addr div 4096) = base div 4096 + length d div 4096"
    using addr base by (simp add: unat_div sector_shift)
  have off: "unat (addr mod 4096) = length d mod 4096"
    using addr base by (simp add: unat_mod mod_add_eq [of base, symmetric])
  have same: "\<not> (addr div 4096 \<noteq> gsSector s \<and> gsSecOffset s \<noteq> 0)"
  proof (cases "d = []")
    case True
    with w show ?thesis by (simp add: fast_written_def unat_eq_zero)
  next
    case False
    with w sector show ?thesis by (simp add: fast_written_def word_unat_eq_iff)
  qed
  have w': "fast_written mem ready drv base m0 d (s\<lparr>gsSector := addr div 4096\<rparr>)"
    using w sector by (auto simp: fast_written_def)
  have max: "unat (4096 - addr mod 4096) = 4096 - length d mod 4096"
  proof -
    have "addr mod 4096 \<le> 4096"
      using off mod_less_divisor [of 4096 "length d"] by (simp add: word_le_nat_alt)
    then show ?thesis by (simp add: unat_sub off)
  qed
  from fast_write_loop_ok [OF drv base m0 w' _ off max n(2,3)] sector
  obtain s' where "fast_write_loop drv (addr mod 4096) (4096 - addr mod 4096) buf n (s\<lparr>gsSector := addr div 4096\<rparr>) = Some s'"
      "fast_written mem ready drv base m0 (d @ take (unat n) buf) s'"
    by auto
  with inst bad same show ?thesis
    by (auto simp: tls_fls_fast_write_def sizes Let_def simp del: linorder_not_less linorder_not_le)
qed

text \<open>The end: the last sector is written whole, with what the cache holds behind the data.\<close>

lemma tls_fls_fast_write_destroy_ok:
  assumes drv: "flash_driver drv mem ready" and base: "base mod 4096 = 0" and m0: "length m0 = 0x100000"
    and w: "fast_written mem ready drv base m0 d s" and d: "d \<noteq> []" "base + length d < 0x100000"
  shows "\<exists>s' tail. tls_fls_fast_write_destroy s = Some s' \<and> installed drv s' \<and> ready (chip s') \<and> gsflscache s' = None
    \<and> mem (chip s') = overlay base (d @ tail) m0 \<and> length tail = 4096 - length d mod 4096"
proof -
  define q r where "q = length d div 4096" and "r = length d mod 4096"
  have qr: "length d = 4096 * q + r" "r < 4096"
    by (simp_all add: q_def r_def)
  obtain cache where c: "gsflscache s = Some cache" "length cache = 4096" "take r cache = drop (4096 * q) d"
    using w by (auto simp: fast_written_def q_def r_def)
  define b where "b = base div 4096"
  have b: "4096 * b = base"
    using base unfolding b_def by (metis add.right_neutral mult_div_mod_eq)
  have k: "unat (gsSector s) = b + q"
    using w d(1) by (simp add: fast_written_def q_def b_def)
  have "b + q < 256"
    using d(2) qr b by linarith
  with tls_fls_flush_sector_ok [OF drv, of s cache] w c k obtain c' where
      c': "tls_fls_flush_sector s = Some (s\<lparr>chip := c', gsSecOffset := 0\<rparr>)" "ready c'"
      "mem c' = overlay (4096 * (b + q)) cache (mem (chip s))"
    by (auto simp: fast_written_def)
  have "mem c' = overlay (base + length (take (4096 * q) d)) cache (overlay base (take (4096 * q) d) m0)"
  proof -
    have "4096 * (b + q) = base + length (take (4096 * q) d)"
      using b qr(1) by (simp add: distrib_left)
    then show ?thesis
      using c'(3) w by (simp add: fast_written_def q_def [symmetric])
  qed
  also have "\<dots> = overlay base (take (4096 * q) d @ cache) m0"
    using \<open>b + q < 256\<close> b m0 qr c(2) by (intro overlay_append) simp
  also have "take (4096 * q) d @ cache = d @ drop r cache"
    by (metis append.assoc append_take_drop_id c(3))
  finally have m: "mem c' = overlay base (d @ drop r cache) m0" .
  have "tls_fls_fast_write_destroy s = Some (s\<lparr>chip := c', gsSecOffset := 0, gsflscache := None\<rparr>)"
    using c(1) c'(1) by (simp add: tls_fls_fast_write_destroy_def)
  with c'(2) m c(2) w show ?thesis
    unfolding r_def [symmetric] by (intro exI [of _ "s\<lparr>chip := c', gsSecOffset := 0, gsflscache := None\<rparr>"] exI [of _ "drop r cache"])
      (simp add: fast_written_def)
qed

end
