(* ===== verification/FwupVerify.thy ===== *)
theory FwupVerify
  imports Fwup FastWrite
begin

text \<open>
  The verification of a written image in \<open>Fwup\<close>: it reads the image back and computes its checksum of 8 bits and the
  sum of its words, for every length.
\<close>

section \<open>The verification\<close>

fun words_sum :: "u8 list \<Rightarrow> 64 word" where
  "words_sum (a # b # c # d # xs) = ucast (le32 [a, b, c, d]) + words_sum xs"
| "words_sum _ = 0"

text \<open>The sum and the checksum of an image: its words, the last one filled with zeros.\<close>

definition padded :: "u8 list \<Rightarrow> u8 list" where
  "padded d = d @ replicate ((4 - length d mod 4) mod 4) 0"

definition check_of :: "64 word \<Rightarrow> u32" where
  "check_of acc = NOT (ucast (drop_bit 32 acc) + ucast acc)"

lemma words_sum_append: "length a mod 4 = 0 \<Longrightarrow> words_sum (a @ b) = words_sum a + words_sum b"
  by (induction a rule: words_sum.induct) auto

lemma sum_words_eq: "length a = 4 * k \<Longrightarrow> sum_words k (a @ rest) acc = Some (acc + words_sum a)"
proof (induction k arbitrary: a acc)
  case (Suc k)
  then obtain w xs where a: "a = w @ xs" "length w = 4" "length xs = 4 * k"
    by (intro that [of "take 4 a" "drop 4 a"]) simp_all
  then obtain x y z v where w: "w = [x, y, z, v]"
    by (elim length_4E) (rule that)
  have "rd32 (a @ rest) 0 = Some (le32 [x, y, z, v])"
    by (simp add: rd32_def rd_def a w le32_def)
  with Suc.IH [OF a(3)] show ?case
    by (simp add: a w ac_simps)
qed simp

lemma word_and_3: "unat (n AND 3) = unat n mod 4" for n :: u32
proof -
  have three: "(3 :: u32) = mask 2"
    by (simp add: mask_eq_exp_minus_1)
  show ?thesis
    unfolding three by (simp add: take_bit_eq_mask [symmetric] unsigned_take_bit_eq take_bit_nat_def)
qed

text \<open>One piece in the buffer: its checksum, and the sum with its words.\<close>

lemma checksum_piece:
  assumes n: "unat n \<le> 1024" "length buf = 1024" "take (unat n) buf = d"
  shows "\<exists>buf'. (if n AND 3 \<noteq> 0 then wr buf (unat n) (replicate (unat (4 - (n AND 3))) 0) else Some buf) = Some buf'
    \<and> length buf' = 1024
    \<and> checksum buf' (n div 4 + (if n AND 3 \<noteq> 0 then 1 else 0)) init acc
        = Some (check_of ((if init = 0 then 0 else acc) + words_sum (padded d)), (if init = 0 then 0 else acc) + words_sum (padded d))"
proof (cases "n AND 3 = 0")
  case True
  then have m: "unat n mod 4 = 0"
    using word_and_3 [of n] by simp
  have d: "length d = unat n" "padded d = d" "d @ drop (unat n) buf = buf"
    using n m by (auto simp: padded_def)
  have "length d = 4 * (unat n div 4)"
    using d(1) m by presburger
  from sum_words_eq [OF this, of "drop (unat n) buf"] True n(2) d show ?thesis
    by (simp add: checksum_def check_of_def unat_div)
next
  case False
  then have m: "unat n mod 4 \<noteq> 0"
    using word_and_3 [of n] by (metis unat_eq_zero)
  define p where "p = 4 - unat n mod 4"
  have p: "unat (4 - (n AND 3)) = p"
  proof -
    have "n AND 3 \<le> 4"
      using word_and_3 [of n] mod_less_divisor [of 4 "unat n"] by (simp add: word_le_nat_alt)
    then show ?thesis by (simp add: unat_sub word_and_3 p_def)
  qed
  have q: "unat n + p = 4 * (unat n div 4 + 1)" "p < 4"
    using m unfolding p_def by presburger+
  have d: "length d = unat n" "padded d = d @ replicate p 0"
    using n m by (auto simp: padded_def p_def)
  have fits: "unat n + p \<le> 1024"
    using q n(1) by presburger
  let ?buf = "(d @ replicate p 0) @ drop (unat n + p) buf"
  have wr: "wr buf (unat n) (replicate p 0) = Some ?buf"
    using n fits by (simp add: wr_def)
  have len: "unat (n div 4 + 1) = unat n div 4 + 1"
    using n(1) by (subst unat_add_small) (simp_all add: unat_div)
  have "length (d @ replicate p 0) = 4 * (unat n div 4 + 1)"
    using d(1) q(1) by simp
  from sum_words_eq [OF this, of "drop (unat n + p) buf"]
  have total: "sum_words (unat (n div 4 + 1)) ?buf a = Some (a + words_sum (padded d))" for a
    unfolding len d(2) .
  have "length ?buf = 1024"
    using d(1) fits n(2) by simp
  with False wr total show ?thesis
    unfolding p by (intro exI [of _ ?buf]) (simp add: checksum_def check_of_def del: sum_words.simps append_assoc)
qed

lemma padded_append: "length a mod 4 = 0 \<Longrightarrow> padded (a @ b) = a @ padded b"
proof -
  assume "length a mod 4 = 0"
  then have "length (a @ b) mod 4 = length b mod 4"
    by (simp add: mod_add_eq [symmetric])
  then show ?thesis by (simp add: padded_def)
qed

text \<open>The loop reads the image back, and leaves the chip as it is.\<close>

lemma verify_loop_ok:
  assumes drv: "flash_driver drv mem ready"
  shows "installed drv (fw_flash s) \<Longrightarrow> ready (chip (fw_flash s)) \<Longrightarrow> length buf = 1024
    \<Longrightarrow> unat base + unat off + unat left \<le> 0x100000 \<Longrightarrow> take (unat left) (drop (unat base + unat off) (mem (chip (fw_flash s)))) = d
    \<Longrightarrow> acc = (if off = 0 then 0 else checksum_sum s)
    \<Longrightarrow> \<exists>c' acc'. verify_loop base off left crc8 check buf s
        = Some (Inr ((fold crc8_turn d crc8, if d = [] then check else check_of (acc + words_sum (padded d))),
                 s\<lparr>fw_flash := (fw_flash s)\<lparr>chip := c'\<rparr>, checksum_sum := acc'\<rparr>))
      \<and> ready c' \<and> mem c' = mem (chip (fw_flash s))"
proof (induction "unat left" arbitrary: off left crc8 check buf s d acc rule: less_induct)
  case less
  note sizes = flash_driver_sizes [OF drv]
  show ?case
  proof (cases "left = 0")
    case True
    with less.prems show ?thesis
      by (intro exI [of _ "chip (fw_flash s)"] exI [of _ "checksum_sum s"]) (simp add: verify_loop.simps)
  next
    case False
    define len where "len = (if left > 1024 then 1024 else left)"
    have len: "unat len = min 1024 (unat left)" "0 < len" "len \<le> left"
      using False unat_gt_0 [of left] by (auto simp: len_def word_less_nat_alt word_le_nat_alt)
    have addr: "unat (base + off) = unat base + unat off"
      using less.prems(4) by (intro unat_add_small) simp
    have inside: "unat (base + off) + unat len \<le> 0x100000" "unat len \<le> length buf"
      using less.prems(3,4) len(1) by (simp_all add: addr)
    obtain c1 where c1: "tls_fls_read (base + off) buf len (fw_flash s)
        = Some (0, take (unat len) (drop (unat base + unat off) (mem (chip (fw_flash s)))) @ drop (unat len) buf, (fw_flash s)\<lparr>chip := c1\<rparr>)"
        "ready c1" "mem c1 = mem (chip (fw_flash s))"
      using tls_fls_read_ok [OF drv less.prems(1,2) inside(1) len(2) inside(2)] unfolding addr by blast
    define d1 d2 where "d1 = take (unat len) d" and "d2 = drop (unat len) d"
    have d: "d = d1 @ d2"
      by (simp add: d1_def d2_def)
    have whole: "length d = unat left"
      using less.prems(4) unfolding less.prems(5) [symmetric] by (simp add: sizes)
    have d1: "take (unat len) (drop (unat base + unat off) (mem (chip (fw_flash s)))) = d1" "length d1 = unat len"
    proof -
      have "take (unat len) (drop (unat base + unat off) (mem (chip (fw_flash s))))
          = take (unat len) (take (unat left) (drop (unat base + unat off) (mem (chip (fw_flash s)))))"
        using len(1) by simp
      then show "take (unat len) (drop (unat base + unat off) (mem (chip (fw_flash s)))) = d1"
        unfolding less.prems(5) d1_def .
      show "length d1 = unat len"
        using len(1) by (simp add: d1_def whole)
    qed
    let ?buf = "d1 @ drop (unat len) buf"
    have buf: "length ?buf = 1024" "take (unat len) ?buf = d1" "unat len \<le> 1024"
      using d1(2) len(1) less.prems(3) by simp_all
    have crc: "calculate_crc8 crc8 ?buf len = Some (fold crc8_turn d1 crc8)"
      using buf by (simp add: calculate_crc8_def rd_def)
    obtain buf' where buf': "(if len AND 3 \<noteq> 0 then wr ?buf (unat len) (replicate (unat (4 - (len AND 3))) 0) else Some ?buf) = Some buf'"
        "length buf' = 1024"
        "checksum buf' (len div 4 + (if len AND 3 \<noteq> 0 then 1 else 0)) off (checksum_sum s)
           = Some (check_of (acc + words_sum (padded d1)), acc + words_sum (padded d1))"
      using checksum_piece [OF buf(3,1,2), of off "checksum_sum s"] less.prems(6) by auto
    let ?s = "s\<lparr>fw_flash := (fw_flash s)\<lparr>chip := c1\<rparr>, checksum_sum := acc + words_sum (padded d1)\<rparr>"
    have turn: "verify_loop base off left crc8 check buf s
        = verify_loop base (off + len) (left - len) (fold crc8_turn d1 crc8) (check_of (acc + words_sum (padded d1))) buf' ?s"
      using False c1(1) crc buf'(1,3) unfolding d1(1)
      by (subst verify_loop.simps) (simp add: len_def [symmetric] word_gt_0 Let_def)
    have left: "unat (left - len) = unat left - unat len"
      using len(3) by (simp add: unat_sub word_le_nat_alt)
    have off: "unat (off + len) = unat off + unat len"
      using less.prems(4) len(1) by (intro unat_add_small) simp
    have "off + len \<noteq> 0"
    proof
      assume "off + len = 0"
      then have "unat off + unat len = 0"
        using off by simp
      with len(2) show False
        by (simp add: unat_eq_zero)
    qed
    have "\<exists>c' acc'. verify_loop base (off + len) (left - len) (fold crc8_turn d1 crc8) (check_of (acc + words_sum (padded d1))) buf' ?s
        = Some (Inr ((fold crc8_turn d2 (fold crc8_turn d1 crc8),
                 if d2 = [] then check_of (acc + words_sum (padded d1)) else check_of (acc + words_sum (padded d1) + words_sum (padded d2))),
               ?s\<lparr>fw_flash := (fw_flash ?s)\<lparr>chip := c'\<rparr>, checksum_sum := acc'\<rparr>))
        \<and> ready c' \<and> mem c' = mem (chip (fw_flash ?s))"
    proof (rule less.hyps)
      show "unat (left - len) < unat left"
        using left len(2) unat_gt_0 [of len] False unat_gt_0 [of left] by (simp add: word_gt_0)
      show "unat base + unat (off + len) + unat (left - len) \<le> 0x100000"
        using less.prems(4) left off len(1) by simp
      have "take (unat left) (drop (unat base + unat off) (mem (chip (fw_flash s)))) = d" by (rule less.prems(5))
      then have "d2 = drop (unat len) (take (unat left) (drop (unat base + unat off) (mem (chip (fw_flash s)))))"
        by (simp add: d2_def)
      then show "take (unat (left - len)) (drop (unat base + unat (off + len)) (mem (chip (fw_flash ?s)))) = d2"
        unfolding left off by (simp add: c1(3) drop_take ac_simps)
    qed (use less.prems(1) c1(2) buf'(2) \<open>off + len \<noteq> 0\<close> in simp_all)
    then obtain c' acc' where "verify_loop base (off + len) (left - len) (fold crc8_turn d1 crc8) (check_of (acc + words_sum (padded d1))) buf' ?s
        = Some (Inr ((fold crc8_turn d2 (fold crc8_turn d1 crc8),
                 if d2 = [] then check_of (acc + words_sum (padded d1)) else check_of (acc + words_sum (padded d1) + words_sum (padded d2))),
               ?s\<lparr>fw_flash := (fw_flash ?s)\<lparr>chip := c'\<rparr>, checksum_sum := acc'\<rparr>))"
        "ready c'" "mem c' = mem (chip (fw_flash ?s))"
      by (elim exE conjE) (rule that)
    moreover have "words_sum (padded d) = words_sum (padded d1) + words_sum (padded d2)" if "d2 \<noteq> []"
    proof -
      have "length d1 mod 4 = 0"
        using that d1(2) len(1) unfolding d2_def by (auto simp: whole min_def split: if_splits)
      moreover then have "padded d1 = d1"
        by (simp add: padded_def)
      ultimately show ?thesis
        by (simp add: d padded_append words_sum_append)
    qed
    moreover have "d \<noteq> []"
      using whole False unat_gt_0 [of left] by auto
    ultimately show ?thesis
      unfolding turn by (intro exI [of _ c'] exI [of _ acc']) (cases "d2 = []", auto simp: d c1(3) add.assoc)
  qed
qed

end
