(* ===== verification/FwupCorrect.thy ===== *)
theory FwupCorrect
  imports FwupVerify
begin

text \<open>
  An update of the firmware through the updater of \<open>Fwup\<close> on a chip that behaves as a NOR flash: an image sent in any
  pieces is written, verified and made the image to boot, and nothing but a verified image changes the boot footer.
\<close>

section \<open>Writing the image\<close>

text \<open>What the outside has to give: the memory, the semaphores and a session number.\<close>

definition env_ok :: "fw_env \<Rightarrow> bool" where
  "env_ok E \<longleftrightarrow> (\<exists>b. mem_buffer E = Some b \<and> length b = 1024) \<and> (\<exists>b. mem_sector E = Some b \<and> length b = 4096)
     \<and> (\<exists>b. mem_cache E = Some b \<and> length b = 4096) \<and> length (stack_footer E) = 44 \<and> sem_ok E
     \<and> (\<exists>r\<in>set (rand_values E). r \<noteq> 0)"

text \<open>The image \<open>d\<close> was written so far, for the header \<open>h\<close>, to the sectors from \<open>base\<close> on.\<close>

definition programmed ::
  "('c \<Rightarrow> u8 list) \<Rightarrow> ('c \<Rightarrow> bool) \<Rightarrow> 'c tls_fls_drv \<Rightarrow> tls_fwup_image_hdr \<Rightarrow> u32 \<Rightarrow> u8 list \<Rightarrow> u8 list \<Rightarrow> tls_fwup \<Rightarrow> 'c fw \<Rightarrow> bool" where
  "programmed mem ready drv h base m0 d w s \<longleftrightarrow>
     fwup s = Some w \<and> current_hdr s = h \<and> total_len w = file_len h \<and> unat (updated_len w) = length d
   \<and> program_base w = base \<and> unat (program_offset w) = length d
   \<and> fast_written mem ready drv (unat base) m0 d (fw_flash s)"

definition advance :: "u32 \<Rightarrow> tls_fwup \<Rightarrow> tls_fwup" where
  "advance n w = w\<lparr>program_offset := program_offset w + n, updated_len := updated_len w + n\<rparr>"

text \<open>The place of the image: behind the boot footer, from the start of a sector on.\<close>

definition region :: "('c \<Rightarrow> u8 list) \<Rightarrow> ('c \<Rightarrow> bool) \<Rightarrow> 'c tls_fls_drv \<Rightarrow> u32 \<Rightarrow> u8 list \<Rightarrow> bool" where
  "region mem ready drv base m0 \<longleftrightarrow> flash_driver drv mem ready \<and> unat base mod 4096 = 0 \<and> 0x3000 \<le> unat base
     \<and> unat base \<le> 0x4e000 \<and> length m0 = 0x100000"

lemma fwup_write_ok:
  assumes R: "region mem ready drv base m0" and P: "programmed mem ready drv h base m0 d w s"
    and n: "0 < n" "unat n = length x" "length d + length x \<le> 0x4B000"
  shows "\<exists>fl. tls_fls_fast_write (program_base w + program_offset w) x n (fw_flash s) = Some (0, fl)
    \<and> programmed mem ready drv h base m0 (d @ x) (advance n w) (with_fwup (advance n) (s\<lparr>fw_flash := fl\<rparr>))"
proof -
  note r = R [unfolded region_def] and p = P [unfolded programmed_def]
  have addr: "unat (program_base w + program_offset w) = unat base + length d"
    using r p n(3) by (subst unat_add_small) simp_all
  have fits: "unat n \<le> length x" "unat base + length d + unat n \<le> 0x100000"
    using n r by simp_all
  obtain fl where fl: "tls_fls_fast_write (program_base w + program_offset w) x n (fw_flash s) = Some (0, fl)"
      "fast_written mem ready drv (unat base) m0 (d @ take (unat n) x) fl"
    using tls_fls_fast_write_ok [of drv mem ready "unat base" m0 d "fw_flash s", OF _ _ _ _ addr n(1) fits] r p by auto
  have sums: "unat (program_offset w + n) = length d + length x" "unat (updated_len w + n) = length d + length x"
    using p n by (simp_all add: unat_add_small)
  from fl n(2) p sums show ?thesis
    by (intro exI [of _ fl]) (simp add: programmed_def with_fwup_def advance_def)
qed

text \<open>A piece that is not the last one.\<close>

lemma fwup_program_part:
  assumes R: "region mem ready drv base m0" and P: "programmed mem ready drv h base m0 d w s"
    and n: "unat n = length x" "length d + length x < unat (file_len h)" "unat (file_len h) \<le> 0x4B000"
  shows "\<exists>fl. fwup_program E x n s = Some (Inr ((), with_fwup (advance n) (s\<lparr>fw_flash := fl\<rparr>)))
    \<and> programmed mem ready drv h base m0 (d @ x) (advance n w) (with_fwup (advance n) (s\<lparr>fw_flash := fl\<rparr>))"
proof (cases "n = 0")
  case True
  have "advance 0 = (\<lambda>w. w)"
    by (simp add: fun_eq_iff advance_def)
  then have "with_fwup (advance n) (s\<lparr>fw_flash := fw_flash s\<rparr>) = s" "advance n w = w" "x = []"
    using n(1) True by (simp_all add: with_fwup_def option.map_ident)
  with P True show ?thesis
    by (intro exI [of _ "fw_flash s"]) (simp add: fwup_program_def)
next
  case False
  then obtain fl where fl: "tls_fls_fast_write (program_base w + program_offset w) x n (fw_flash s) = Some (0, fl)"
      "programmed mem ready drv h base m0 (d @ x) (advance n w) (with_fwup (advance n) (s\<lparr>fw_flash := fl\<rparr>))"
    using fwup_write_ok [OF R P, of n x] n by (auto simp: word_gt_0)
  have "\<not> total_len w \<le> updated_len w + n"
  proof -
    have "unat (updated_len w + n) = length d + length x"
      using P n by (subst unat_add_small) (simp_all add: programmed_def)
    then show ?thesis
      using P n(2) by (simp add: word_le_nat_alt programmed_def)
  qed
  with fl P False show ?thesis
    by (intro exI [of _ fl]) (simp add: fwup_program_def programmed_def word_gt_0 Let_def advance_def [abs_def])
qed

text \<open>The last piece: the image is verified, and on success the boot footer is written.\<close>

lemma fwup_finish_ok:
  assumes R: "region mem ready drv base m0" and P: "programmed mem ready drv h base m0 img w s" and E: "env_ok E"
    and h: "dest_specific h = 0" "unat (file_len h) = length img" "img \<noteq> []" "length img \<le> 0x4B000"
  shows "\<exists>s' tail. fwup s' = Some (w\<lparr>current_state := current_state w OR
        (if hdr_crc8 h = fold crc8_turn img 0 then TLS_FWUP_STATE_COMPLETE else TLS_FWUP_STATE_ERROR_CRC)\<rparr>)
    \<and> fwup_finish E s = Some (if hdr_crc8 h = fold crc8_turn img 0 then Inr ((), s') else Inl (TLS_FWUP_REQ_STATUS_FCRC, s'))
    \<and> mem (chip (fw_flash s')) = (if hdr_crc8 h = fold crc8_turn img 0
        then overlay 0 (boot_footer_bytes (new_footer w (check_of (words_sum (padded img))))) (overlay (unat base) (img @ tail) m0)
        else overlay (unat base) (img @ tail) m0)
    \<and> length tail = 4096 - length img mod 4096"
proof -
  note r = R [unfolded region_def] and p = P [unfolded programmed_def]
  have drv: "flash_driver drv mem ready" using r by simp
  note sizes = flash_driver_sizes [OF drv]
  have room: "unat base + length img < 0x100000"
    using r h(4) by simp
  obtain fl tail where fl: "tls_fls_fast_write_destroy (fw_flash s) = Some fl" "installed drv fl" "ready (chip fl)"
      "mem (chip fl) = overlay (unat base) (img @ tail) m0" "length tail = 4096 - length img mod 4096"
    using tls_fls_fast_write_destroy_ok [OF drv, of "unat base" m0 img "fw_flash s"] r p h(3) room by auto
  obtain buf where buf: "mem_buffer E = Some buf" "length buf = 1024"
    using E by (auto simp: env_ok_def)
  obtain sec where sec: "mem_sector E = Some sec" "length sec = 4096"
    using E by (auto simp: env_ok_def)
  let ?s = "s\<lparr>fw_flash := fl\<rparr>"
  have read: "take (unat (file_len h)) (drop (unat base + unat 0) (mem (chip fl))) = img"
    using h(2) r unfolding fl(4) by (simp add: overlay_def)
  have total: "total_len w = file_len h" "program_base w = base"
    using p by simp_all
  obtain c1 acc where v: "verify_loop base 0 (file_len h) 0 0 buf ?s
        = Some (Inr ((fold crc8_turn img 0, check_of (words_sum (padded img))),
            ?s\<lparr>fw_flash := fl\<lparr>chip := c1\<rparr>, checksum_sum := acc\<rparr>))"
      "ready c1" "mem c1 = mem (chip fl)"
    using verify_loop_ok [OF drv, of ?s buf base 0 "file_len h" img 0 0 0] fl(2,3) buf(2) read room h(2,3) by auto
  let ?v = "?s\<lparr>fw_flash := fl\<lparr>chip := c1\<rparr>, checksum_sum := acc\<rparr>"
  show ?thesis
  proof (cases "hdr_crc8 h = fold crc8_turn img 0")
    case False
    with fl(1,4,5) buf(1) v(1,3) p show ?thesis
      by (intro exI [of _ "add_state TLS_FWUP_STATE_ERROR_CRC ?v"] exI [of _ tail])
        (simp add: fwup_finish_def or_finish_def add_state_def with_fwup_def)
  next
    case True
    let ?f = "boot_footer_bytes (new_footer w (check_of (words_sum (padded img))))"
    have f: "length ?f = 44"
      by (simp add: boot_footer_bytes_def new_footer_def)
    obtain c2 where w: "tls_fls_write (Some sec) 0 ?f 44 (fl\<lparr>chip := c1\<rparr>) = Some (0, fl\<lparr>chip := c2\<rparr>)"
        "mem c2 = overlay 0 ?f (mem c1)"
      using tls_fls_write_ok [OF drv, of "fl\<lparr>chip := c1\<rparr>" 0 44 ?f sec] fl(2) v(2) sec(2) f by auto
    let ?s1 = "add_state TLS_FWUP_STATE_COMPLETE (?v\<lparr>fw_flash := fl\<lparr>chip := c2\<rparr>\<rparr>)"
    have "fwup_finish E s = Some (Inr ((), if oneshotback ?s1 = 1 then fw_tell (tls_wifi_set_oneshot_flag (oneshotback ?s1)) ?s1 else ?s1))"
      using True fl(1) buf(1) sec(1) v(1) w(1) p h(1)
      by (simp add: fwup_finish_def or_finish_def Let_def add_state_def with_fwup_def)
    with True fl(4,5) v(3) w(2) p show ?thesis
      by (intro exI [of _ "if oneshotback ?s1 = 1 then fw_tell (tls_wifi_set_oneshot_flag (oneshotback ?s1)) ?s1 else ?s1"] exI [of _ tail])
        (simp add: add_state_def with_fwup_def fw_tell_def)
  qed
qed

section \<open>One request\<close>

text \<open>What \<^verbatim>\<open>request_finish\<close> makes of the state of the updater.\<close>

definition finished :: "tls_fwup \<Rightarrow> tls_fwup" where
  "finished w = w\<lparr>wait_list := [], current_state := current_state w AND NOT TLS_FWUP_STATE_BUSY\<rparr>"

definition request_end :: "tls_fwup \<Rightarrow> 'c fw \<Rightarrow> 'c fw" where
  "request_end w s = (let s = s\<lparr>fwup := Some (finished w)\<rparr> in if updated_len w \<ge> total_len w then fw_tell tls_sys_reset s else s)"

lemma request_turn_end:
  assumes "fwup s' = Some w'" "length (wait_list w') = 1"
  shows "fwup_handle E req s = Some (Inr ((), s')) \<Longrightarrow> request_turn E req s = Some (TLS_FWUP_REQ_STATUS_SUCCESS, request_end w' s')"
    "fwup_handle E req s = Some (Inl (st, s')) \<Longrightarrow> request_turn E req s = Some (st, request_end w' s')"
proof -
  have "tl (wait_list w') = []"
    using assms(2) by (cases "wait_list w'") simp_all
  then show "fwup_handle E req s = Some (Inr ((), s')) \<Longrightarrow> request_turn E req s = Some (TLS_FWUP_REQ_STATUS_SUCCESS, request_end w' s')"
    "fwup_handle E req s = Some (Inl (st, s')) \<Longrightarrow> request_turn E req s = Some (st, request_end w' s')"
    using assms(1) by (simp_all add: request_turn_def request_end_def finished_def with_fwup_def Let_def)
qed

text \<open>A request on an empty list is the only one the scheduler handles.\<close>

definition queued :: "u8 list \<Rightarrow> u32 \<Rightarrow> tls_fwup \<Rightarrow> tls_fwup" where
  "queued x n w = w\<lparr>wait_list := [\<lparr>req_data = x, data_len = n\<rparr>], current_state := current_state w OR TLS_FWUP_STATE_BUSY\<rparr>"

lemma tls_fwup_request_sync_one:
  assumes "fwup s = Some w" "wait_list w = []" "current_session_id w = sid" "n \<noteq> 0" "sem_ok E"
  shows "tls_fwup_request_sync E sid (Some x) n s = do {
      (st, s') \<leftarrow> request_turn E \<lparr>req_data = x, data_len = n\<rparr> (s\<lparr>fwup := Some (queued x n w)\<rparr>);
      Some (request_result st, s')
    }"
proof -
  have "add_state TLS_FWUP_STATE_BUSY (with_fwup (\<lambda>w. w\<lparr>wait_list := wait_list w @ [\<lparr>req_data = x, data_len = n\<rparr>]\<rparr>) s)
      = s\<lparr>fwup := Some (queued x n w)\<rparr>"
    using assms(1,2) by (simp add: add_state_def with_fwup_def queued_def)
  then show ?thesis
    using assms by (cases "request_turn E \<lparr>req_data = x, data_len = n\<rparr> (s\<lparr>fwup := Some (queued x n w)\<rparr>)")
      (simp_all add: tls_fwup_request_sync_def tls_fwup_request_async_def fwup_scheduler_def with_fwup_def split: prod.split)
qed

text \<open>The session between two pieces of the image.\<close>

definition updating ::
  "('c \<Rightarrow> u8 list) \<Rightarrow> ('c \<Rightarrow> bool) \<Rightarrow> 'c tls_fls_drv \<Rightarrow> u32 \<Rightarrow> tls_fwup_image_hdr \<Rightarrow> u32 \<Rightarrow> u8 list \<Rightarrow> u8 list \<Rightarrow> 'c fw \<Rightarrow> bool" where
  "updating mem ready drv sid h base m0 d s \<longleftrightarrow>
     (\<exists>w. programmed mem ready drv h base m0 d w s \<and> wait_list w = [] \<and> current_image_src w = SRC_WEB \<and> current_state w = 0
        \<and> current_session_id w = sid \<and> unat (received_len w) = 16 + length d)"

text \<open>The session after \<^verbatim>\<open>tls_fwup_enter\<close>.\<close>

definition entered ::
  "('c \<Rightarrow> u8 list) \<Rightarrow> ('c \<Rightarrow> bool) \<Rightarrow> 'c tls_fls_drv \<Rightarrow> u32 \<Rightarrow> u8 list \<Rightarrow> 'c fw \<Rightarrow> bool" where
  "entered mem ready drv sid m0 s \<longleftrightarrow>
     (\<exists>w. fwup s = Some w \<and> wait_list w = [] \<and> current_image_src w = SRC_WEB \<and> current_state w = 0
        \<and> current_session_id w = sid \<and> received_len w = 0 \<and> updated_len w = 0 \<and> program_offset w = 0)
   \<and> current_hdr s = no_hdr \<and> (\<forall>base. fast_written mem ready drv base m0 [] (fw_flash s))"

text \<open>A part of the image is taken as it is; the first piece loses its header.\<close>

lemma fwup_image_data:
  assumes "fwup s = Some w" "16 \<le> received_len w"
  shows "fwup_image E \<lparr>req_data = x, data_len = n\<rparr> s = Some (Inr ((x, n), with_fwup (received_len_update (\<lambda>k. k + n)) s))"
proof -
  have "\<not> received_len w < 16"
    using assms(2) by simp
  with assms(1) show ?thesis
    by (simp add: fwup_image_def or_finish_def del: linorder_not_less)
qed

text \<open>The header as the cloud sends it, with the bytes of its numbers in network order.\<close>

definition web_hdr :: "tls_fwup_image_hdr \<Rightarrow> u8 list" where
  "web_hdr h = image_hdr_bytes (h\<lparr>hdr_magic := swap_32 (hdr_magic h), file_len := swap_32 (file_len h),
     dest_offset := swap_16 (dest_offset h)\<rparr>)"

lemma swap_swap: "swap_32 (swap_32 v) = v" "swap_16 (swap_16 u) = u"
proof -
  have m: "(0xff :: u32) = mask 8" "(0xff00 :: u32) = push_bit 8 (mask 8)" "(0xff0000 :: u32) = push_bit 16 (mask 8)" "(0xff :: u16) = mask 8"
    by (simp_all add: mask_eq_exp_minus_1 push_bit_eq_mult)
  show "swap_16 (swap_16 u) = u"
    unfolding swap_16_def m by (rule bit_word_eqI) (auto simp: bit_simps dest: bit_imp_le_length)
  show "swap_32 (swap_32 v) = v"
  proof (rule bit_word_eqI)
    fix n assume "n < LENGTH(32)"
    then consider "n < 8" | "8 \<le> n" "n < 16" | "16 \<le> n" "n < 24" | "24 \<le> n" "n < 32"
      by fastforce
    then show "bit (swap_32 (swap_32 v)) n = bit v n"
      unfolding swap_32_def m by cases (auto simp: bit_simps dest: bit_imp_le_length)
  qed
qed

lemma image_hdr_of_bytes: "length (hdr_time h) = 4 \<Longrightarrow> image_hdr_of (image_hdr_bytes h) = h"
  by (simp add: image_hdr_of_def image_hdr_bytes_def nth_append)

text \<open>Where the next image goes: to the region the boot footer does not point at.\<close>

definition next_base :: "u8 list \<Rightarrow> u32" where
  "next_base m = (let f = boot_footer_of (take 44 m)
     in if signature f = TLS_FWUP_BOOT_IMAGE_SIGNATURE_WORD \<and> footer_base f = TLS_FLASH_FIRMWARE1_ADDR
        then TLS_FLASH_FIRMWARE2_ADDR else TLS_FLASH_FIRMWARE1_ADDR)"

lemma next_base_region:
  "flash_driver drv mem ready \<Longrightarrow> length m0 = 0x100000 \<Longrightarrow> region mem ready drv (next_base m0) m0"
  by (simp add: region_def next_base_def Let_def)

definition good_hdr :: "tls_fwup_image_hdr \<Rightarrow> bool" where
  "good_hdr h \<longleftrightarrow> (hdr_magic h = TLS_FWUP_IMAGE_SIGNATURE_WORD \<or> hdr_magic h = TLS_FWUP_IMAGE_SIGNATURE_WORD_B)
     \<and> dest_specific h = 0 \<and> length (hdr_time h) = 4 \<and> 0 < unat (file_len h) \<and> unat (file_len h) \<le> 0x4B000"

lemma length_web_hdr [simp]: "length (hdr_time h) = 4 \<Longrightarrow> length (web_hdr h) = 16"
  by (simp add: web_hdr_def image_hdr_bytes_def)

lemma fwup_image_first:
  assumes drv: "flash_driver drv mem ready" and m0: "length m0 = 0x100000" and E: "env_ok E" and h: "good_hdr h"
    and e: "entered mem ready drv sid m0 s" and n: "unat n = 16 + length x"
  shows "\<exists>w w' s'. fwup s = Some w \<and> wait_list w = [] \<and> current_session_id w = sid \<and> current_state w = 0 \<and> current_image_src w = SRC_WEB
    \<and> fwup_image E \<lparr>req_data = web_hdr h @ x, data_len = n\<rparr> (s\<lparr>fwup := Some (queued (web_hdr h @ x) n w)\<rparr>) = Some (Inr ((x, n - 16), s'))
    \<and> programmed mem ready drv h (next_base m0) m0 [] w' s' \<and> fw_calls s' = fw_calls s
    \<and> length (wait_list w') = 1 \<and> current_image_src w' = SRC_WEB \<and> current_state w' = TLS_FWUP_STATE_BUSY \<and> current_session_id w' = sid
    \<and> unat (received_len w') = 16 + length x"
proof -
  obtain w where w: "fwup s = Some w" "wait_list w = []" "current_image_src w = SRC_WEB" "current_state w = 0"
      "current_session_id w = sid" "received_len w = 0" "updated_len w = 0" "program_offset w = 0"
    using e by (auto simp: entered_def)
  have c: "current_hdr s = no_hdr" "installed drv (fw_flash s)" "ready (chip (fw_flash s))" "mem (chip (fw_flash s)) = m0"
    using e by (simp_all add: entered_def fast_written_def)
  obtain c1 where c1: "tls_fls_read 0 (stack_footer E) 44 (fw_flash s) = Some (0, take 44 m0, (fw_flash s)\<lparr>chip := c1\<rparr>)" "ready c1" "mem c1 = m0"
    using tls_fls_read_ok [OF drv c(2,3), of 0 44 "stack_footer E"] E c(4) by (auto simp: env_ok_def)
  let ?h = "h\<lparr>hdr_magic := swap_32 (hdr_magic h), file_len := swap_32 (file_len h), dest_offset := swap_16 (dest_offset h)\<rparr>"
  have t: "length (hdr_time h) = 4"
    using h by (simp add: good_hdr_def)
  have "rd (web_hdr h @ x) 0 16 = Some (web_hdr h)" "wr (image_hdr_bytes no_hdr) 0 (web_hdr h) = Some (web_hdr h)"
    using t by (simp_all add: rd_def wr_def image_hdr_bytes_def no_hdr_def)
  note hdr = this image_hdr_of_bytes [of ?h, folded web_hdr_def] t
  have big: "\<not> n < 16" "n - 16 + 16 = n"
    using n by (simp_all add: word_less_nat_alt)
  let ?w = "(queued (web_hdr h @ x) n w)\<lparr>received_len := n, program_base := next_base m0, updated_len := 0, total_len := file_len h\<rparr>"
  let ?s = "s\<lparr>fwup := Some ?w, current_hdr := h, fw_flash := (fw_flash s)\<lparr>chip := c1\<rparr>\<rparr>"
  have "fwup_image E \<lparr>req_data = web_hdr h @ x, data_len = n\<rparr> (s\<lparr>fwup := Some (queued (web_hdr h @ x) n w)\<rparr>) = Some (Inr ((x, n - 16), ?s))"
    using w c(1) c1(1) h hdr big
    by (simp add: fwup_image_def or_finish_def queued_def with_fwup_def with_hdr_def header_received_def read_footer_def good_hdr_def
        swap_swap next_base_def Let_def del: linorder_not_less)
  moreover have "programmed mem ready drv h (next_base m0) m0 [] ?w ?s"
  proof -
    have "fast_written mem ready drv (unat (next_base m0)) m0 [] (fw_flash s)"
      using e by (simp add: entered_def)
    then have "fast_written mem ready drv (unat (next_base m0)) m0 [] ((fw_flash s)\<lparr>chip := c1\<rparr>)"
      using c1(2,3) by (simp add: fast_written_def)
    with w show ?thesis by (simp add: programmed_def queued_def)
  qed
  ultimately show ?thesis
    using w n by (intro exI [of _ w] exI [of _ ?w] exI [of _ ?s]) (simp add: queued_def)
qed

text \<open>A request that is not the last, and the last one.\<close>

lemma request_part:
  assumes R: "region mem ready drv base m0" and P: "programmed mem ready drv h base m0 d w s1"
    and req: "fwup_handle E req s = fwup_program E x n s1"
    and w: "length (wait_list w) = 1" "current_image_src w = SRC_WEB" "current_state w = TLS_FWUP_STATE_BUSY" "current_session_id w = sid"
      "unat (received_len w) = 16 + length d + length x"
    and n: "unat n = length x" "length d + length x < unat (file_len h)" "unat (file_len h) \<le> 0x4B000"
  shows "\<exists>s'. request_turn E req s = Some (TLS_FWUP_REQ_STATUS_SUCCESS, s') \<and> fw_calls s' = fw_calls s1
    \<and> updating mem ready drv sid h base m0 (d @ x) s'"
proof -
  obtain fl where fl: "fwup_program E x n s1 = Some (Inr ((), with_fwup (advance n) (s1\<lparr>fw_flash := fl\<rparr>)))"
      "programmed mem ready drv h base m0 (d @ x) (advance n w) (with_fwup (advance n) (s1\<lparr>fw_flash := fl\<rparr>))"
    using fwup_program_part [OF R P n] by blast
  have w': "fwup (with_fwup (advance n) (s1\<lparr>fw_flash := fl\<rparr>)) = Some (advance n w)" "length (wait_list (advance n w)) = 1"
    using P w(1) by (simp_all add: programmed_def with_fwup_def advance_def)
  have "\<not> total_len (advance n w) \<le> updated_len (advance n w)"
    using fl(2) n(2) by (simp add: programmed_def word_le_nat_alt)
  then have "request_end (advance n w) (with_fwup (advance n) (s1\<lparr>fw_flash := fl\<rparr>))
      = (with_fwup (advance n) (s1\<lparr>fw_flash := fl\<rparr>))\<lparr>fwup := Some (finished (advance n w))\<rparr>"
    by (simp add: request_end_def Let_def)
  with request_turn_end(1) [OF w' req [unfolded fl(1)]] fl(2) w P show ?thesis
    by (simp add: updating_def programmed_def finished_def advance_def with_fwup_def)
qed

lemma request_last:
  assumes R: "region mem ready drv base m0" and P: "programmed mem ready drv h base m0 d w s1" and E: "env_ok E"
    and req: "fwup_handle E req s = fwup_program E x n s1"
    and w: "length (wait_list w) = 1"
    and n: "unat n = length x" "img = d @ x" "length img = unat (file_len h)" "x \<noteq> []" and h: "good_hdr h"
  shows "\<exists>s' tail. request_turn E req s
      = Some (if hdr_crc8 h = fold crc8_turn img 0 then TLS_FWUP_REQ_STATUS_SUCCESS else TLS_FWUP_REQ_STATUS_FCRC, s')
    \<and> tls_sys_reset \<in> set (fw_calls s')
    \<and> mem (chip (fw_flash s')) = (if hdr_crc8 h = fold crc8_turn img 0
        then overlay 0 (boot_footer_bytes (new_footer w (check_of (words_sum (padded img))))) (overlay (unat base) (img @ tail) m0)
        else overlay (unat base) (img @ tail) m0)
    \<and> length tail = 4096 - length img mod 4096"
proof -
  have n0: "0 < n" "n \<noteq> 0"
    using n(1,4) by (auto simp: word_gt_0)
  have len: "length d + length x \<le> 0x4B000"
    using n(2,3) h by (simp add: good_hdr_def)
  obtain fl where fl: "tls_fls_fast_write (program_base w + program_offset w) x n (fw_flash s1) = Some (0, fl)"
      "programmed mem ready drv h base m0 (d @ x) (advance n w) (with_fwup (advance n) (s1\<lparr>fw_flash := fl\<rparr>))"
    using fwup_write_ok [OF R P n0(1) n(1) len] by blast
  let ?s = "with_fwup (advance n) (s1\<lparr>fw_flash := fl\<rparr>)"
  have p: "fwup s1 = Some w" "total_len w = file_len h"
    using P by (simp_all add: programmed_def)
  have all: "total_len w \<le> updated_len w + n" "total_len (advance n w) \<le> updated_len (advance n w)"
    using fl(2) n(2,3) by (simp_all add: programmed_def advance_def word_le_nat_alt)
  have prog: "fwup_program E x n s1 = fwup_finish E ?s"
    using fl(1) p(1) n0 all(1) by (simp add: fwup_program_def advance_def [abs_def] Let_def)
  obtain s' tail where f: "fwup s' = Some ((advance n w)\<lparr>current_state := current_state (advance n w) OR
        (if hdr_crc8 h = fold crc8_turn img 0 then TLS_FWUP_STATE_COMPLETE else TLS_FWUP_STATE_ERROR_CRC)\<rparr>)"
      "fwup_finish E ?s = Some (if hdr_crc8 h = fold crc8_turn img 0 then Inr ((), s') else Inl (TLS_FWUP_REQ_STATUS_FCRC, s'))"
      "mem (chip (fw_flash s')) = (if hdr_crc8 h = fold crc8_turn img 0
        then overlay 0 (boot_footer_bytes (new_footer (advance n w) (check_of (words_sum (padded img))))) (overlay (unat base) (img @ tail) m0)
        else overlay (unat base) (img @ tail) m0)"
      "length tail = 4096 - length img mod 4096"
    using fwup_finish_ok [OF R fl(2) E] h n(2-4) len by (auto simp: good_hdr_def)
  have nf: "new_footer (advance n w) k = new_footer w k" for k
    by (simp add: new_footer_def advance_def)
  let ?w = "(advance n w)\<lparr>current_state := current_state (advance n w) OR
        (if hdr_crc8 h = fold crc8_turn img 0 then TLS_FWUP_STATE_COMPLETE else TLS_FWUP_STATE_ERROR_CRC)\<rparr>"
  have one: "length (wait_list ?w) = 1"
    using w by (simp add: advance_def)
  have "request_turn E req s
      = Some (if hdr_crc8 h = fold crc8_turn img 0 then TLS_FWUP_REQ_STATUS_SUCCESS else TLS_FWUP_REQ_STATUS_FCRC, request_end ?w s')"
    using request_turn_end(1) [OF f(1) one, of E req s] request_turn_end(2) [OF f(1) one, of E req s] req prog f(2)
    by (cases "hdr_crc8 h = fold crc8_turn img 0") simp_all
  moreover have "tls_sys_reset \<in> set (fw_calls (request_end ?w s'))" "fw_flash (request_end ?w s') = fw_flash s'"
    using all(2) by (simp_all add: request_end_def fw_tell_def Let_def)
  ultimately show ?thesis
    using f(3,4) unfolding nf by (intro exI [of _ "request_end ?w s'"] exI [of _ tail]) simp
qed

section \<open>The pieces of an image\<close>

text \<open>The piece \<open>c\<close> brings the bytes \<open>x\<close> behind the bytes \<open>d\<close> of the image.\<close>

definition takes_piece ::
  "('c \<Rightarrow> u8 list) \<Rightarrow> ('c \<Rightarrow> bool) \<Rightarrow> 'c tls_fls_drv \<Rightarrow> fw_env \<Rightarrow> u32 \<Rightarrow> tls_fwup_image_hdr \<Rightarrow> u8 list \<Rightarrow> u8 list \<Rightarrow> u8 list \<Rightarrow> u8 list
     \<Rightarrow> 'c fw \<Rightarrow> bool" where
  "takes_piece mem ready drv E sid h m0 d c x s \<longleftrightarrow>
     (\<exists>w n w1 s1. fwup s = Some w \<and> wait_list w = [] \<and> current_session_id w = sid \<and> n \<noteq> 0 \<and> n = word_of_nat (length c)
        \<and> (\<exists>k. fwup_handle E \<lparr>req_data = c, data_len = n\<rparr> (s\<lparr>fwup := Some (queued c n w)\<rparr>) = fwup_program E x k s1 \<and> unat k = length x)
        \<and> programmed mem ready drv h (next_base m0) m0 d w1 s1 \<and> fw_calls s1 = fw_calls s \<and> length (wait_list w1) = 1
        \<and> current_image_src w1 = SRC_WEB \<and> current_state w1 = TLS_FWUP_STATE_BUSY \<and> current_session_id w1 = sid
        \<and> unat (received_len w1) = 16 + length d + length x)"

lemma fwup_handle_image:
  assumes "fwup s = Some w" "current_state w = TLS_FWUP_STATE_BUSY" "current_image_src w = SRC_WEB"
    and "fwup_image E req s = Some (Inr ((x, n), s1))"
  shows "fwup_handle E req s = fwup_program E x n s1"
  using assms by (simp add: fwup_handle_def discard_status_def or_finish_def)

lemma entered_takes_piece:
  assumes drv: "flash_driver drv mem ready" and m0: "length m0 = 0x100000" and E: "env_ok E" and h: "good_hdr h"
    and e: "entered mem ready drv sid m0 s" and x: "length x \<le> 0x4B000"
  shows "takes_piece mem ready drv E sid h m0 [] (web_hdr h @ x) x s"
proof -
  define n :: u32 where "n = word_of_nat (length (web_hdr h @ x))"
  have t: "length (hdr_time h) = 4"
    using h by (simp add: good_hdr_def)
  have n: "unat n = 16 + length x"
    unfolding n_def using t x by (subst unat_of_nat_small) simp_all
  obtain w w1 s1 where i: "fwup s = Some w" "wait_list w = []" "current_session_id w = sid" "current_state w = 0" "current_image_src w = SRC_WEB"
      "fwup_image E \<lparr>req_data = web_hdr h @ x, data_len = n\<rparr> (s\<lparr>fwup := Some (queued (web_hdr h @ x) n w)\<rparr>) = Some (Inr ((x, n - 16), s1))"
      "programmed mem ready drv h (next_base m0) m0 [] w1 s1" "fw_calls s1 = fw_calls s"
      "length (wait_list w1) = 1" "current_image_src w1 = SRC_WEB" "current_state w1 = TLS_FWUP_STATE_BUSY" "current_session_id w1 = sid"
      "unat (received_len w1) = 16 + length x"
    using fwup_image_first [OF drv m0 E h e n] by (elim exE conjE) (rule that)
  have "fwup_handle E \<lparr>req_data = web_hdr h @ x, data_len = n\<rparr> (s\<lparr>fwup := Some (queued (web_hdr h @ x) n w)\<rparr>) = fwup_program E x (n - 16) s1"
    by (rule fwup_handle_image [where w = "queued (web_hdr h @ x) n w", OF _ _ _ i(6)]) (use i in \<open>simp_all add: queued_def\<close>)
  moreover have "unat (n - 16) = length x" "n \<noteq> 0"
    using n by (auto simp: unat_sub word_le_nat_alt)
  ultimately show ?thesis
    unfolding takes_piece_def using i
    by (intro exI [of _ w] exI [of _ n] exI [of _ w1] exI [of _ s1]) (auto simp: n_def)
qed

lemma updating_takes_piece:
  assumes u: "updating mem ready drv sid h (next_base m0) m0 d s" and x: "x \<noteq> []" "length d + length x \<le> 0x4B000"
  shows "takes_piece mem ready drv E sid h m0 d x x s"
proof -
  define n :: u32 where "n = word_of_nat (length x)"
  have n: "unat n = length x" "n \<noteq> 0"
  proof -
    show "unat n = length x"
      unfolding n_def using x(2) by (subst unat_of_nat_small) simp_all
    with x(1) show "n \<noteq> 0" by auto
  qed
  obtain w where w: "programmed mem ready drv h (next_base m0) m0 d w s" "wait_list w = []" "current_image_src w = SRC_WEB"
      "current_state w = 0" "current_session_id w = sid" "unat (received_len w) = 16 + length d"
    using u unfolding updating_def by (elim exE conjE) (rule that)
  let ?s = "s\<lparr>fwup := Some (queued x n w)\<rparr>"
  let ?w1 = "(queued x n w)\<lparr>received_len := received_len w + n\<rparr>"
  have q: "fwup ?s = Some (queued x n w)" "16 \<le> received_len (queued x n w)"
    using w(6) by (simp_all add: queued_def word_le_nat_alt)
  have "fwup_handle E \<lparr>req_data = x, data_len = n\<rparr> ?s = fwup_program E x n (with_fwup (received_len_update (\<lambda>k. k + n)) ?s)"
    by (rule fwup_handle_image [OF q(1) _ _ fwup_image_data [OF q]]) (use w in \<open>simp_all add: queued_def\<close>)
  moreover have "programmed mem ready drv h (next_base m0) m0 d ?w1 (with_fwup (received_len_update (\<lambda>k. k + n)) ?s)"
    using w(1) by (simp add: programmed_def with_fwup_def queued_def)
  moreover have "unat (received_len ?w1) = 16 + length d + length x"
    using w(6) n(1) x(2) by (simp add: unat_add_small)
  moreover have "fwup s = Some w"
    using w(1) by (simp add: programmed_def)
  ultimately show ?thesis
    unfolding takes_piece_def using w(2-5) n
    by (intro exI [of _ w] exI [of _ n] exI [of _ ?w1] exI [of _ "with_fwup (received_len_update (\<lambda>k. k + n)) ?s"])
      (auto simp: n_def [symmetric] queued_def with_fwup_def)
qed

lemma sync_part:
  assumes drv: "flash_driver drv mem ready" and m0: "length m0 = 0x100000" and E: "env_ok E" and h: "good_hdr h"
    and t: "takes_piece mem ready drv E sid h m0 d c x s" and x: "length d + length x < unat (file_len h)"
  shows "\<exists>s'. tls_fwup_request_sync E sid (Some c) (word_of_nat (length c)) s = Some (TLS_FWUP_STATUS_OK, s')
    \<and> fw_calls s' = fw_calls s \<and> updating mem ready drv sid h (next_base m0) m0 (d @ x) s'"
proof -
  obtain w n w1 s1 k where i: "fwup s = Some w" "wait_list w = []" "current_session_id w = sid" "n \<noteq> 0" "n = word_of_nat (length c)"
      "fwup_handle E \<lparr>req_data = c, data_len = n\<rparr> (s\<lparr>fwup := Some (queued c n w)\<rparr>) = fwup_program E x k s1" "unat k = length x"
      "programmed mem ready drv h (next_base m0) m0 d w1 s1" "fw_calls s1 = fw_calls s" "length (wait_list w1) = 1"
      "current_image_src w1 = SRC_WEB" "current_state w1 = TLS_FWUP_STATE_BUSY" "current_session_id w1 = sid"
      "unat (received_len w1) = 16 + length d + length x"
    using t unfolding takes_piece_def by (elim exE conjE) (rule that)
  have small: "unat (file_len h) \<le> 0x4B000"
    using h by (simp add: good_hdr_def)
  obtain s' where "request_turn E \<lparr>req_data = c, data_len = n\<rparr> (s\<lparr>fwup := Some (queued c n w)\<rparr>) = Some (TLS_FWUP_REQ_STATUS_SUCCESS, s')"
      "fw_calls s' = fw_calls s1" "updating mem ready drv sid h (next_base m0) m0 (d @ x) s'"
    using request_part [OF next_base_region [OF drv m0] i(8,6,10-14,7) x small] by blast
  with tls_fwup_request_sync_one [OF i(1-4), of E c] E i(5,9) show ?thesis
    by (simp add: env_ok_def request_result_def)
qed

lemma sync_last:
  assumes drv: "flash_driver drv mem ready" and m0: "length m0 = 0x100000" and E: "env_ok E" and h: "good_hdr h"
    and t: "takes_piece mem ready drv E sid h m0 d c x s" and x: "img = d @ x" "length img = unat (file_len h)" "x \<noteq> []"
  shows "\<exists>s' tail f. tls_fwup_request_sync E sid (Some c) (word_of_nat (length c)) s
      = Some (if hdr_crc8 h = fold crc8_turn img 0 then TLS_FWUP_STATUS_OK else TLS_FWUP_STATUS_ECRC, s')
    \<and> tls_sys_reset \<in> set (fw_calls s') \<and> length tail = 4096 - length img mod 4096
    \<and> f = \<lparr>footer_base = next_base m0, footer_length = file_len h, load_address = TLS_SRAM_FIRMWARE_EXEC_ADDR,
          exec_address = TLS_SRAM_FIRMWARE_EXEC_ADDR, footer_name = [0x63, 0x75, 0x63, 0x6b, 0x6f, 0x6f] @ replicate 10 0,
          signature = TLS_FWUP_BOOT_IMAGE_SIGNATURE_WORD, footer_type = 4, image_checksum = check_of (words_sum (padded img))\<rparr>
    \<and> mem (chip (fw_flash s')) = (if hdr_crc8 h = fold crc8_turn img 0
        then overlay 0 (boot_footer_bytes f) (overlay (unat (next_base m0)) (img @ tail) m0)
        else overlay (unat (next_base m0)) (img @ tail) m0)"
proof -
  obtain w n w1 s1 k where i: "fwup s = Some w" "wait_list w = []" "current_session_id w = sid" "n \<noteq> 0" "n = word_of_nat (length c)"
      "fwup_handle E \<lparr>req_data = c, data_len = n\<rparr> (s\<lparr>fwup := Some (queued c n w)\<rparr>) = fwup_program E x k s1" "unat k = length x"
      "programmed mem ready drv h (next_base m0) m0 d w1 s1" "fw_calls s1 = fw_calls s" "length (wait_list w1) = 1"
      "current_image_src w1 = SRC_WEB" "current_state w1 = TLS_FWUP_STATE_BUSY" "current_session_id w1 = sid"
      "unat (received_len w1) = 16 + length d + length x"
    using t unfolding takes_piece_def by (elim exE conjE) (rule that)
  obtain s' tail where r: "request_turn E \<lparr>req_data = c, data_len = n\<rparr> (s\<lparr>fwup := Some (queued c n w)\<rparr>)
      = Some (if hdr_crc8 h = fold crc8_turn img 0 then TLS_FWUP_REQ_STATUS_SUCCESS else TLS_FWUP_REQ_STATUS_FCRC, s')"
      "tls_sys_reset \<in> set (fw_calls s')"
      "mem (chip (fw_flash s')) = (if hdr_crc8 h = fold crc8_turn img 0
        then overlay 0 (boot_footer_bytes (new_footer w1 (check_of (words_sum (padded img))))) (overlay (unat (next_base m0)) (img @ tail) m0)
        else overlay (unat (next_base m0)) (img @ tail) m0)" "length tail = 4096 - length img mod 4096"
    using request_last [OF next_base_region [OF drv m0] i(8) E i(6,10,7) x h] by (elim exE conjE) (rule that)
  have "program_base w1 = next_base m0" "total_len w1 = file_len h"
    using i(8) by (simp_all add: programmed_def)
  with r tls_fwup_request_sync_one [OF i(1-4), of E c] E i(5) show ?thesis
    by (intro exI [of _ s'] exI [of _ tail] exI) (auto simp: env_ok_def request_result_def new_footer_def)
qed

text \<open>Sending pieces one after the other, with the results.\<close>

fun fw_send :: "fw_env \<Rightarrow> u32 \<Rightarrow> u8 list list \<Rightarrow> 'c fw \<Rightarrow> (u32 list \<times> 'c fw) option" where
  "fw_send E sid [] s = Some ([], s)"
| "fw_send E sid (c # cs) s = do {
     (r, s) \<leftarrow> tls_fwup_request_sync E sid (Some c) (word_of_nat (length c)) s;
     (rs, s) \<leftarrow> fw_send E sid cs s;
     Some (r # rs, s)
   }"

lemma fw_send_parts:
  assumes drv: "flash_driver drv mem ready" and m0: "length m0 = 0x100000" and E: "env_ok E" and h: "good_hdr h"
  shows "updating mem ready drv sid h (next_base m0) m0 d s \<Longrightarrow> \<forall>c\<in>set cs. c \<noteq> [] \<Longrightarrow> length d + length (concat cs) < unat (file_len h)
    \<Longrightarrow> \<exists>s'. fw_send E sid cs s = Some (replicate (length cs) TLS_FWUP_STATUS_OK, s') \<and> fw_calls s' = fw_calls s
      \<and> updating mem ready drv sid h (next_base m0) m0 (d @ concat cs) s'"
proof (induction cs arbitrary: d s)
  case (Cons c cs)
  have small: "unat (file_len h) \<le> 0x4B000"
    using h by (simp add: good_hdr_def)
  have "takes_piece mem ready drv E sid h m0 d c c s"
    using Cons.prems small by (intro updating_takes_piece) auto
  from sync_part [OF drv m0 E h this] Cons.prems(3)
  obtain s1 where s1: "tls_fwup_request_sync E sid (Some c) (word_of_nat (length c)) s = Some (TLS_FWUP_STATUS_OK, s1)"
      "fw_calls s1 = fw_calls s" "updating mem ready drv sid h (next_base m0) m0 (d @ c) s1"
    by auto
  with Cons.IH [OF s1(3)] Cons.prems(2,3) show ?case by auto
qed auto

lemma fw_send_append:
  "fw_send E sid (cs @ ds) s = do { (rs, s) \<leftarrow> fw_send E sid cs s; (ts, s) \<leftarrow> fw_send E sid ds s; Some (rs @ ts, s) }"
proof (induction cs arbitrary: s)
  case Nil
  then show ?case by (cases "fw_send E sid ds s") auto
next
  case (Cons c cs)
  show ?case
    by (cases "tls_fwup_request_sync E sid (Some c) (word_of_nat (length c)) s"; cases "fw_send E sid cs (snd (the (tls_fwup_request_sync E sid (Some c) (word_of_nat (length c)) s)))")
      (auto simp: Cons.IH split: prod.splits bind_splits)
qed

lemma fw_send_prefix:
  assumes drv: "flash_driver drv mem ready" and m0: "length m0 = 0x100000" and E: "env_ok E" and h: "good_hdr h"
    and e: "entered mem ready drv sid m0 s"
    and cs: "concat (c # cs) = web_hdr h @ d" "16 \<le> length c" "\<forall>c\<in>set cs. c \<noteq> []" and d: "length d < unat (file_len h)"
  shows "\<exists>s'. fw_send E sid (c # cs) s = Some (replicate (length (c # cs)) TLS_FWUP_STATUS_OK, s') \<and> fw_calls s' = fw_calls s
    \<and> updating mem ready drv sid h (next_base m0) m0 d s'"
proof -
  have t: "length (hdr_time h) = 4" "unat (file_len h) \<le> 0x4B000"
    using h by (simp_all add: good_hdr_def)
  define x where "x = drop 16 c"
  have "take 16 c = take 16 (concat (c # cs))"
    using cs(2) by simp
  also have "\<dots> = web_hdr h"
    unfolding cs(1) using t by simp
  finally have c: "c = web_hdr h @ x"
    using append_take_drop_id [of 16 c] by (simp add: x_def)
  have rest: "x @ concat cs = d"
    using cs(1) by (simp add: c)
  have len: "length x \<le> 0x4B000" "length [] + length x < unat (file_len h)"
    using rest d t(2) by auto
  obtain s1 where s1: "tls_fwup_request_sync E sid (Some c) (word_of_nat (length c)) s = Some (TLS_FWUP_STATUS_OK, s1)"
      "fw_calls s1 = fw_calls s" "updating mem ready drv sid h (next_base m0) m0 x s1"
    using sync_part [OF drv m0 E h entered_takes_piece [OF drv m0 E h e len(1)] len(2)] unfolding c by auto
  with fw_send_parts [OF drv m0 E h s1(3) cs(3)] rest d show ?thesis by auto
qed

lemma fw_send_all:
  assumes drv: "flash_driver drv mem ready" and m0: "length m0 = 0x100000" and E: "env_ok E" and h: "good_hdr h"
    and e: "entered mem ready drv sid m0 s"
    and cs: "concat cs = web_hdr h @ img" "cs \<noteq> []" "16 \<le> length (hd cs)" "\<forall>c\<in>set cs. c \<noteq> []" and img: "length img = unat (file_len h)"
  shows "\<exists>s' tail f. fw_send E sid cs s
      = Some (replicate (length cs - 1) TLS_FWUP_STATUS_OK @ [if hdr_crc8 h = fold crc8_turn img 0 then TLS_FWUP_STATUS_OK else TLS_FWUP_STATUS_ECRC], s')
    \<and> tls_sys_reset \<in> set (fw_calls s') \<and> length tail = 4096 - length img mod 4096
    \<and> f = \<lparr>footer_base = next_base m0, footer_length = file_len h, load_address = TLS_SRAM_FIRMWARE_EXEC_ADDR,
          exec_address = TLS_SRAM_FIRMWARE_EXEC_ADDR, footer_name = [0x63, 0x75, 0x63, 0x6b, 0x6f, 0x6f] @ replicate 10 0,
          signature = TLS_FWUP_BOOT_IMAGE_SIGNATURE_WORD, footer_type = 4, image_checksum = check_of (words_sum (padded img))\<rparr>
    \<and> mem (chip (fw_flash s')) = (if hdr_crc8 h = fold crc8_turn img 0
        then overlay 0 (boot_footer_bytes f) (overlay (unat (next_base m0)) (img @ tail) m0)
        else overlay (unat (next_base m0)) (img @ tail) m0)"
proof -
  have t: "length (hdr_time h) = 4" "unat (file_len h) \<le> 0x4B000" "img \<noteq> []"
    using h img by (auto simp: good_hdr_def)
  obtain ps c where ps: "cs = ps @ [c]"
    using cs(2) by (cases cs rule: rev_cases) auto
  have "\<exists>d x s1. fw_send E sid ps s = Some (replicate (length ps) TLS_FWUP_STATUS_OK, s1) \<and> img = d @ x \<and> x \<noteq> []
      \<and> takes_piece mem ready drv E sid h m0 d c x s1"
  proof (cases ps)
    case Nil
    then have "c = web_hdr h @ img"
      using cs(1) by (simp add: ps)
    with entered_takes_piece [OF drv m0 E h e, of img] Nil t img show ?thesis by auto
  next
    case (Cons c0 qs)
    have long: "16 \<le> length (concat ps)"
      using cs(3) by (simp add: ps Cons)
    define d where "d = drop 16 (concat ps)"
    have all: "concat ps @ c = web_hdr h @ img"
      using cs(1) by (simp add: ps)
    have "take 16 (concat ps) = web_hdr h"
      using arg_cong [OF all, of "take 16"] long t by simp
    then have d: "concat ps = web_hdr h @ d"
      using append_take_drop_id [of 16 "concat ps"] by (simp add: d_def)
    have c: "d @ c = img" "c \<noteq> []"
      using all cs(4) by (simp_all add: ps d)
    have "length d + length c = unat (file_len h)" "0 < length c"
      using arg_cong [OF c(1), of length] c(2) img by simp_all
    then have len: "length d < unat (file_len h)" "length d + length c \<le> 0x4B000"
      using t(2) by linarith+
    obtain s1 where s1: "fw_send E sid ps s = Some (replicate (length ps) TLS_FWUP_STATUS_OK, s1)"
        "updating mem ready drv sid h (next_base m0) m0 d s1"
      using fw_send_prefix [OF drv m0 E h e, of c0 qs d] d cs(3,4) len(1) unfolding ps Cons by auto
    show ?thesis
      by (intro exI [of _ d] exI [of _ c] exI [of _ s1] conjI s1(1) c(1) [symmetric] c(2) updating_takes_piece [OF s1(2) c(2) len(2)])
  qed
  then obtain d x s1 where s1: "fw_send E sid ps s = Some (replicate (length ps) TLS_FWUP_STATUS_OK, s1)" "img = d @ x" "x \<noteq> []"
      "takes_piece mem ready drv E sid h m0 d c x s1"
    by (elim exE conjE) (rule that)
  from sync_last [OF drv m0 E h s1(4,2) img s1(3)] s1(1) show ?thesis
    unfolding ps fw_send_append by auto
qed

section \<open>A session\<close>

text \<open>The updater is installed and idle, over an installed flash driver.\<close>

definition fw_idle :: "'c tls_fls_drv \<Rightarrow> 'c fw \<Rightarrow> bool" where
  "fw_idle drv s \<longleftrightarrow> (\<exists>w. fwup s = Some w \<and> \<not> busy w \<and> wait_list w = []) \<and> installed drv (fw_flash s)
     \<and> gsflscache (fw_flash s) = None \<and> gsSecOffset (fw_flash s) = 0"

lemma tls_fwup_enter_ok:
  assumes drv: "flash_driver drv mem ready" and i: "fw_idle drv s" "ready (chip (fw_flash s))" and E: "env_ok E"
  shows "\<exists>sid s'. tls_fwup_enter E SRC_WEB s = Some (sid, s') \<and> sid \<noteq> 0 \<and> entered mem ready drv sid (mem (chip (fw_flash s))) s'"
proof -
  obtain w where w: "fwup s = Some w" "\<not> busy w" "wait_list w = []"
    using i(1) by (auto simp: fw_idle_def)
  have f: "fls_drv (fw_flash s) = Inr drv" "gsflscache (fw_flash s) = None" "gsSecOffset (fw_flash s) = 0"
    using i(1) by (simp_all add: fw_idle_def installed_def)
  obtain sid rest where r: "dropWhile (\<lambda>r. r = 0) (rand_values E) = sid # rest" "sid \<noteq> 0"
  proof -
    have "dropWhile (\<lambda>r. r = 0) (rand_values E) \<noteq> []"
      using E by (auto simp: env_ok_def dropWhile_eq_Nil_conv)
    moreover then have "hd (dropWhile (\<lambda>r. r = 0) (rand_values E)) \<noteq> 0"
      using hd_dropWhile by blast
    ultimately show ?thesis
      using that by (cases "dropWhile (\<lambda>r. r = 0) (rand_values E)") auto
  qed
  obtain b where b: "mem_cache E = Some b" "length b = 4096"
    using E by (auto simp: env_ok_def)
  show ?thesis
    using w f r b i
    by (simp add: tls_fwup_enter_def with_fwup_def reset_session_def fw_tell_def tls_fls_fast_write_init_def entered_def
        fast_written_def fw_idle_def Let_def)
qed

section \<open>Properties\<close>

text \<open>C5: an image for the updater, cut into any pieces of which the first holds at least the header, is installed: on a
  chip that behaves as a NOR flash every piece is accepted, the image is behind the boot footer in the region the old
  footer does not point at, the new footer points at it with its length and the sum of its words, and the module
  is reset.\<close>

theorem fwup_installs_image:
  assumes "nor_chip bus mem wel bsy" and "fw_idle (gd25qxx_fls bus) s" and "bsy (chip (fw_flash s)) = 0" and "env_ok E"
    and "good_hdr h" and "length img = unat (file_len h)" and "hdr_crc8 h = fold crc8_turn img 0"
    and "concat cs = web_hdr h @ img" and "cs \<noteq> []" and "16 \<le> length (hd cs)" and "\<forall>c\<in>set cs. c \<noteq> []"
  shows "\<exists>sid s1 s2. tls_fwup_enter E SRC_WEB s = Some (sid, s1) \<and> sid \<noteq> 0
    \<and> fw_send E sid cs s1 = Some (replicate (length cs) TLS_FWUP_STATUS_OK, s2) \<and> tls_sys_reset \<in> set (fw_calls s2)
    \<and> (let m0 = mem (chip (fw_flash s)); m = mem (chip (fw_flash s2)); base = next_base m0
       in take (length img) (drop (unat base) m) = img
        \<and> boot_footer_of (take 44 m) = \<lparr>footer_base = base, footer_length = file_len h, load_address = TLS_SRAM_FIRMWARE_EXEC_ADDR,
            exec_address = TLS_SRAM_FIRMWARE_EXEC_ADDR, footer_name = [0x63, 0x75, 0x63, 0x6b, 0x6f, 0x6f] @ replicate 10 0,
            signature = TLS_FWUP_BOOT_IMAGE_SIGNATURE_WORD, footer_type = 4, image_checksum = check_of (words_sum (padded img))\<rparr>)"
proof -
  note drv = gd25_driver [OF assms(1)]
  let ?m0 = "mem (chip (fw_flash s))"
  let ?b = "unat (next_base ?m0)"
  have m0: "length ?m0 = 0x100000"
    by (rule nor_chip_size [OF assms(1)])
  obtain sid s1 where s1: "tls_fwup_enter E SRC_WEB s = Some (sid, s1)" "sid \<noteq> 0" "entered mem (\<lambda>c. bsy c = 0) (gd25qxx_fls bus) sid ?m0 s1"
    using tls_fwup_enter_ok [OF drv assms(2,3,4)] by (elim exE conjE) (rule that)
  obtain s2 tail f where s2: "fw_send E sid cs s1 = Some (replicate (length cs - 1) TLS_FWUP_STATUS_OK @ [TLS_FWUP_STATUS_OK], s2)"
      "tls_sys_reset \<in> set (fw_calls s2)" "length tail = 4096 - length img mod 4096"
      "f = \<lparr>footer_base = next_base ?m0, footer_length = file_len h, load_address = TLS_SRAM_FIRMWARE_EXEC_ADDR,
          exec_address = TLS_SRAM_FIRMWARE_EXEC_ADDR, footer_name = [0x63, 0x75, 0x63, 0x6b, 0x6f, 0x6f] @ replicate 10 0,
          signature = TLS_FWUP_BOOT_IMAGE_SIGNATURE_WORD, footer_type = 4, image_checksum = check_of (words_sum (padded img))\<rparr>"
      "mem (chip (fw_flash s2)) = overlay 0 (boot_footer_bytes f) (overlay ?b (img @ tail) ?m0)"
  proof -
    have "(hdr_crc8 h = fold crc8_turn img 0) = True"
      using assms(7) by simp
    from fw_send_all [OF drv m0 assms(4,5) s1(3) assms(8-11,6), unfolded this if_True] that show ?thesis
      by (elim exE conjE)
  qed
  have b: "0x3000 \<le> ?b" "?b \<le> 0x4e000"
    using next_base_region [OF drv m0] by (simp_all add: region_def)
  have len: "length (boot_footer_bytes f) = 44" "length img \<le> 0x4B000"
    using assms(5,6) by (simp_all add: s2(4) boot_footer_bytes_def good_hdr_def)
  have "drop ?b (mem (chip (fw_flash s2))) = drop ?b (overlay ?b (img @ tail) ?m0)"
    unfolding s2(5) using b len s2(3) m0 by (intro overlay_elsewhere) simp_all
  then have "take (length img) (drop ?b (mem (chip (fw_flash s2)))) = img"
    using b m0 by (simp add: overlay_def)
  moreover have "take 44 (mem (chip (fw_flash s2))) = boot_footer_bytes f"
    unfolding s2(5) using len(1) by (simp add: overlay_def)
  then have "boot_footer_of (take 44 (mem (chip (fw_flash s2)))) = f"
    by (simp add: boot_footer_of_def boot_footer_bytes_def s2(4))
  moreover have "replicate (length cs - 1) (0 :: u32) @ [0] = replicate (length cs) 0"
    using assms(9) by (cases cs) (simp_all add: replicate_append_same)
  ultimately show ?thesis
    using s1(1,2) s2(1,2) unfolding s2(4) Let_def by (intro exI conjI) simp_all
qed

text \<open>The image that the boot footer points at: its region, when there is a valid footer.\<close>

definition boots_from :: "u8 list \<Rightarrow> u32 \<Rightarrow> bool" where
  "boots_from m base = (let f = boot_footer_of (take 44 m)
     in signature f = TLS_FWUP_BOOT_IMAGE_SIGNATURE_WORD \<and> footer_base f = base
        \<and> (base = TLS_FLASH_FIRMWARE1_ADDR \<or> base = TLS_FLASH_FIRMWARE2_ADDR))"

lemma boots_from_next_base:
  "boots_from m base \<Longrightarrow> base = TLS_FLASH_FIRMWARE1_ADDR \<and> next_base m = TLS_FLASH_FIRMWARE2_ADDR
     \<or> base = TLS_FLASH_FIRMWARE2_ADDR \<and> next_base m = TLS_FLASH_FIRMWARE1_ADDR"
  by (auto simp: boots_from_def next_base_def Let_def)

lemma overlay_apart:
  assumes "b \<le> length m" "p + n \<le> b \<or> b + length x \<le> p"
  shows "take n (drop p (overlay b x m)) = take n (drop p m)"
  using assms(2)
proof
  assume "p + n \<le> b"
  then show ?thesis
    using assms(1) by (simp add: overlay_def drop_take)
next
  assume "b + length x \<le> p"
  then show ?thesis
    using assms(1) by (simp add: overlay_def)
qed

text \<open>What a write of \<open>x\<close> at the place of the next image leaves alone.\<close>

lemma next_base_overlay_keeps:
  assumes m: "length m = 0x100000"
  shows "take 0x3000 (overlay (unat (next_base m)) x m) = take 0x3000 m"
    and "boots_from m base \<Longrightarrow> length x \<le> 0x4B000 \<or> base = TLS_FLASH_FIRMWARE1_ADDR \<Longrightarrow>
      take 0x4B000 (drop (unat base) (overlay (unat (next_base m)) x m)) = take 0x4B000 (drop (unat base) m)"
    and "boots_from m base \<Longrightarrow> boots_from (overlay (unat (next_base m)) x m) base"
proof -
  have b: "0x3000 \<le> unat (next_base m)" "unat (next_base m) \<le> length m"
    using m by (simp_all add: next_base_def Let_def)
  show front: "take 0x3000 (overlay (unat (next_base m)) x m) = take 0x3000 m"
    using overlay_apart [OF b(2), of 0 "0x3000" x] b(1) by simp
  have "take 44 (overlay (unat (next_base m)) x m) = take 44 m"
    using arg_cong [OF front, of "take 44"] by simp
  then show "boots_from m base \<Longrightarrow> boots_from (overlay (unat (next_base m)) x m) base"
    by (simp add: boots_from_def)
  assume base: "boots_from m base" and x: "length x \<le> 0x4B000 \<or> base = TLS_FLASH_FIRMWARE1_ADDR"
  have "unat base + 0x4B000 \<le> unat (next_base m) \<or> unat (next_base m) + length x \<le> unat base"
    using boots_from_next_base [OF base] x by auto
  then show "take 0x4B000 (drop (unat base) (overlay (unat (next_base m)) x m)) = take 0x4B000 (drop (unat base) m)"
    by (rule overlay_apart [OF b(2)])
qed

text \<open>How many bytes of whole sectors are programmed when \<open>sent\<close> bytes of an image have come: the full sectors, and
  with the last byte one sector more, because \<^verbatim>\<open>tls_fls_fast_write_destroy\<close> always flushes.\<close>

definition programmed_bytes :: "u8 list \<Rightarrow> u8 list \<Rightarrow> nat" where
  "programmed_bytes sent unsent = 4096 * (length sent div 4096) + (if unsent = [] then 4096 else 0)"

text \<open>C6: an image that is not complete, or whose checksum is not that of the header, leaves the boot footer, and
  everything else in front of the two regions, as it was; the chip changes only from the start of the region that
  the footer does not point at, over the sectors programmed so far.  So the old image (region of 0x4B000 bytes) is
  unchanged, byte for byte, and the footer still points at it, unless all 0x4B000 bytes of an image of full size
  have come and the old image is in the second region: then the flush at the end erases and programs one sector
  more than the region has, the first sector of the old image.  The wrong checksum is reported to the sender of the
  last piece, and the module is reset all the same.\<close>

theorem fwup_keeps_boot_footer:
  assumes "nor_chip bus mem wel bsy" and "fw_idle (gd25qxx_fls bus) s" and "bsy (chip (fw_flash s)) = 0" and "env_ok E"
    and "good_hdr h" and "length img = unat (file_len h)" and "unsent \<noteq> [] \<or> hdr_crc8 h \<noteq> fold crc8_turn img 0"
    and "concat cs = web_hdr h @ sent" and "sent @ unsent = img" and "cs \<noteq> []" and "16 \<le> length (hd cs)" and "\<forall>c\<in>set cs. c \<noteq> []"
  shows "\<exists>sid s1 s2 r x. tls_fwup_enter E SRC_WEB s = Some (sid, s1)
    \<and> fw_send E sid cs s1 = Some (replicate (length cs - 1) TLS_FWUP_STATUS_OK @ [r], s2)
    \<and> r = (if unsent = [] then TLS_FWUP_STATUS_ECRC else TLS_FWUP_STATUS_OK) \<and> (unsent = [] \<longrightarrow> tls_sys_reset \<in> set (fw_calls s2))
    \<and> (let m0 = mem (chip (fw_flash s)); m = mem (chip (fw_flash s2))
       in m = overlay (unat (next_base m0)) x m0 \<and> length x = programmed_bytes sent unsent
        \<and> take 0x3000 m = take 0x3000 m0
        \<and> (\<forall>base. boots_from m0 base \<longrightarrow> boots_from m base
             \<and> (unsent \<noteq> [] \<or> length img < 0x4B000 \<or> base = TLS_FLASH_FIRMWARE1_ADDR
                \<longrightarrow> take 0x4B000 (drop (unat base) m) = take 0x4B000 (drop (unat base) m0))))"
proof -
  note drv = gd25_driver [OF assms(1)]
  let ?m0 = "mem (chip (fw_flash s))"
  let ?b = "unat (next_base ?m0)"
  have m0: "length ?m0 = 0x100000"
    by (rule nor_chip_size [OF assms(1)])
  have il: "length img \<le> 0x4B000" "length sent + length unsent = length img"
    using assms(5,6) arg_cong [OF assms(9), of length] by (simp_all add: good_hdr_def)
  obtain sid s1 where s1: "tls_fwup_enter E SRC_WEB s = Some (sid, s1)" "entered mem (\<lambda>c. bsy c = 0) (gd25qxx_fls bus) sid ?m0 s1"
    using tls_fwup_enter_ok [OF drv assms(2,3,4)] by (elim exE conjE) (rule that)
  have "\<exists>s2 r x. fw_send E sid cs s1 = Some (replicate (length cs - 1) TLS_FWUP_STATUS_OK @ [r], s2)
    \<and> r = (if unsent = [] then TLS_FWUP_STATUS_ECRC else TLS_FWUP_STATUS_OK) \<and> (unsent = [] \<longrightarrow> tls_sys_reset \<in> set (fw_calls s2))
    \<and> mem (chip (fw_flash s2)) = overlay ?b x ?m0 \<and> length x = programmed_bytes sent unsent"
  proof (cases "unsent = []")
    case True
    then have c: "concat cs = web_hdr h @ img" "(hdr_crc8 h = fold crc8_turn img 0) = False"
      using assms(7-9) by simp_all
    note last = fw_send_all [OF drv m0 assms(4,5) s1(2) c(1) assms(10-12,6), unfolded c(2) if_False]
    obtain s2 tail where s2: "fw_send E sid cs s1 = Some (replicate (length cs - 1) TLS_FWUP_STATUS_OK @ [TLS_FWUP_STATUS_ECRC], s2)"
        "tls_sys_reset \<in> set (fw_calls s2)" "mem (chip (fw_flash s2)) = overlay ?b (img @ tail) ?m0"
        "length tail = 4096 - length img mod 4096"
      using last by (elim exE conjE) (rule that)
    have "length img + (4096 - length img mod 4096) = 4096 * (length img div 4096) + 4096"
      using mult_div_mod_eq [of 4096 "length img"] mod_less_divisor [of 4096 "length img"] by linarith
    then have "length (img @ tail) = programmed_bytes sent unsent"
      using s2(4) True il(2) by (simp add: programmed_bytes_def)
    with s2 True show ?thesis
      by (intro exI [of _ s2] exI [of _ TLS_FWUP_STATUS_ECRC] exI [of _ "img @ tail"]) simp
  next
    case False
    obtain c ds where cs: "cs = c # ds"
      using assms(10) by (cases cs) auto
    have "length sent < unat (file_len h)"
      using assms(6) False unfolding assms(9) [symmetric] by (cases unsent) simp_all
    with fw_send_prefix [OF drv m0 assms(4,5) s1(2), of c ds sent] assms(8,11,12)
    obtain s2 where s2: "fw_send E sid cs s1 = Some (replicate (length cs) TLS_FWUP_STATUS_OK, s2)"
        "updating mem (\<lambda>c. bsy c = 0) (gd25qxx_fls bus) sid h (next_base ?m0) ?m0 sent s2"
      unfolding cs by auto
    have "mem (chip (fw_flash s2)) = overlay ?b (take (4096 * (length sent div 4096)) sent) ?m0"
      using s2(2) by (auto simp: updating_def programmed_def fast_written_def)
    moreover have "replicate (length cs) (0 :: u32) = replicate (length cs - 1) 0 @ [0]"
      unfolding cs by (simp add: replicate_append_same)
    moreover have "length (take (4096 * (length sent div 4096)) sent) = programmed_bytes sent unsent"
      using False by (simp add: programmed_bytes_def)
    ultimately show ?thesis
      using s2(1) False by (intro exI [of _ s2] exI [of _ TLS_FWUP_STATUS_OK] exI [of _ "take (4096 * (length sent div 4096)) sent"]) simp
  qed
  then obtain s2 r x where s2: "fw_send E sid cs s1 = Some (replicate (length cs - 1) TLS_FWUP_STATUS_OK @ [r], s2)"
      "r = (if unsent = [] then TLS_FWUP_STATUS_ECRC else TLS_FWUP_STATUS_OK)" "unsent = [] \<longrightarrow> tls_sys_reset \<in> set (fw_calls s2)"
      "mem (chip (fw_flash s2)) = overlay ?b x ?m0" "length x = programmed_bytes sent unsent"
    by (elim exE conjE) (rule that)
  have "length x \<le> 0x4B000" if "unsent \<noteq> [] \<or> length img < 0x4B000"
    using that il unfolding s2(5) programmed_bytes_def by (cases unsent) auto
  then have "unsent \<noteq> [] \<or> length img < 0x4B000 \<or> base = TLS_FLASH_FIRMWARE1_ADDR \<Longrightarrow> boots_from ?m0 base \<Longrightarrow>
      take 0x4B000 (drop (unat base) (overlay ?b x ?m0)) = take 0x4B000 (drop (unat base) ?m0)" for base
    using next_base_overlay_keeps(2) [OF m0] by blast
  then have "let m0 = ?m0; m = mem (chip (fw_flash s2))
       in m = overlay (unat (next_base m0)) x m0 \<and> length x = programmed_bytes sent unsent
        \<and> take 0x3000 m = take 0x3000 m0
        \<and> (\<forall>base. boots_from m0 base \<longrightarrow> boots_from m base
             \<and> (unsent \<noteq> [] \<or> length img < 0x4B000 \<or> base = TLS_FLASH_FIRMWARE1_ADDR
                \<longrightarrow> take 0x4B000 (drop (unat base) m) = take 0x4B000 (drop (unat base) m0)))"
    using next_base_overlay_keeps(1,3) [OF m0] s2(5) unfolding Let_def s2(4) by simp
  with s1(1) s2(1-3) show ?thesis by (intro exI conjI)
qed

text \<open>C31: a first piece that is shorter than the header is accepted, and resets the module: the length of the image is
  not known yet, and zero bytes of zero count as all of them.\<close>

theorem fwup_short_piece_resets:
  assumes "fw_idle drv s" and "env_ok E" and "0 < length c" and "length c < 16"
  shows "\<exists>sid s1 s2. tls_fwup_enter E SRC_WEB s = Some (sid, s1)
    \<and> tls_fwup_request_sync E sid (Some c) (word_of_nat (length c)) s1 = Some (TLS_FWUP_STATUS_OK, s2)
    \<and> tls_sys_reset \<in> set (fw_calls s2) \<and> fw_flash s2 = fw_flash s1"
proof -
  define n :: u32 where "n = word_of_nat (length c)"
  have un: "unat n = length c"
    unfolding n_def using assms(4) by (subst unat_of_nat_small) simp_all
  have n: "n \<noteq> 0" "n < 16" "n \<noteq> 16"
    using un assms(3,4) by (auto simp: word_less_nat_alt)
  obtain sid rest where r: "dropWhile (\<lambda>r. r = 0) (rand_values E) = sid # rest"
    using assms(2) by (cases "dropWhile (\<lambda>r. r = 0) (rand_values E)") (auto simp: env_ok_def dropWhile_eq_Nil_conv)
  obtain w where w: "fwup s = Some w" "\<not> busy w" "wait_list w = []"
    using assms(1) by (auto simp: fw_idle_def)
  obtain r0 fl where fl: "tls_fls_fast_write_init (mem_cache E) (fw_flash s) = (r0, fl)"
    by (cases "tls_fls_fast_write_init (mem_cache E) (fw_flash s)") (rule that)
  have "\<exists>s1 w1. tls_fwup_enter E SRC_WEB s = Some (sid, s1) \<and> fwup s1 = Some w1 \<and> wait_list w1 = []
      \<and> current_session_id w1 = sid \<and> current_state w1 = 0 \<and> current_image_src w1 = SRC_WEB \<and> received_len w1 = 0
      \<and> updated_len w1 = 0 \<and> total_len w1 = 0 \<and> current_hdr s1 = no_hdr"
    using w r fl by (cases "oneshot_flag E = 1") (simp_all add: tls_fwup_enter_def with_fwup_def reset_session_def fw_tell_def Let_def)
  then obtain s1 w1 where s1: "tls_fwup_enter E SRC_WEB s = Some (sid, s1)" "fwup s1 = Some w1" "wait_list w1 = []" "current_session_id w1 = sid"
      "current_state w1 = 0" "current_image_src w1 = SRC_WEB" "received_len w1 = 0" "updated_len w1 = 0" "total_len w1 = 0"
      "current_hdr s1 = no_hdr"
    by (elim exE conjE) (rule that)
  let ?s = "s1\<lparr>fwup := Some (queued c n w1)\<rparr>" and ?h = "c @ drop (length c) (image_hdr_bytes no_hdr)"
  let ?w = "(queued c n w1)\<lparr>received_len := n\<rparr>"
  have "wr (image_hdr_bytes no_hdr) 0 c = Some ?h"
    using assms(4) by (intro wr_prefix) (simp add: image_hdr_bytes_def no_hdr_def)
  then have "fwup_image E \<lparr>req_data = c, data_len = n\<rparr> ?s
      = Some (Inr (([], 0), s1\<lparr>current_hdr := image_hdr_of ?h, fwup := Some ?w\<rparr>))"
    using s1 n un by (simp add: fwup_image_def or_finish_def queued_def with_fwup_def Let_def)
  then have "fwup_handle E \<lparr>req_data = c, data_len = n\<rparr> ?s = Some (Inr ((), s1\<lparr>current_hdr := image_hdr_of ?h, fwup := Some ?w\<rparr>))"
    using s1 by (simp add: fwup_handle_image [of _ "queued c n w1"] queued_def fwup_program_def)
  from request_turn_end(1) [OF _ _ this, of ?w] s1
  have "request_turn E \<lparr>req_data = c, data_len = n\<rparr> ?s
      = Some (TLS_FWUP_REQ_STATUS_SUCCESS, request_end ?w (s1\<lparr>current_hdr := image_hdr_of ?h, fwup := Some ?w\<rparr>))"
    by (simp add: queued_def)
  with tls_fwup_request_sync_one [OF s1(2-4) n(1), of E c] assms(2)
  have "tls_fwup_request_sync E sid (Some c) n s1
      = Some (TLS_FWUP_STATUS_OK, request_end ?w (s1\<lparr>current_hdr := image_hdr_of ?h, fwup := Some ?w\<rparr>))"
    by (simp add: env_ok_def request_result_def)
  moreover have "tls_sys_reset \<in> set (fw_calls (request_end ?w x))" "fw_flash (request_end ?w x) = fw_flash x" for x :: "'a fw"
    using s1 by (simp_all add: request_end_def queued_def fw_tell_def Let_def)
  ultimately show ?thesis
    using s1(1) unfolding n_def by simp
qed

text \<open>A module that was just initialised, over the erased chip, and an outside that grants everything.\<close>

definition fw_plenty :: fw_env where
  "fw_plenty = \<lparr>mem_buffer = Some (replicate 1024 0), mem_sector = Some (replicate 4096 0), mem_cache = Some (replicate 4096 0),
     stack_footer = replicate 44 0, sem_ok = True, oneshot_flag = 1, rand_values = [0, 7]\<rparr>"

definition fw_boot :: "nor fw" where
  "fw_boot = the (snd (tls_fwup_init True True True True
     \<lparr>fwup = None, current_hdr = no_hdr, oneshotback = 0, checksum_sum = 0, fw_flash = nor_flash, fw_calls = []\<rparr>))"

definition five_hdr :: "u8 \<Rightarrow> tls_fwup_image_hdr" where
  "five_hdr off = \<lparr>hdr_magic = TLS_FWUP_IMAGE_SIGNATURE_WORD, hdr_crc8 = fold crc8_turn [1, 2, 3, 4, 5] 0 + off, dest_specific = 0,
     dest_offset = 0, file_len = 5, hdr_time = [0, 0, 0, 0]\<rparr>"

lemma fw_plenty_ok: "env_ok fw_plenty"
  by (simp add: env_ok_def fw_plenty_def)

lemma fw_boot_idle: "fw_idle (gd25qxx_fls nor_bus) fw_boot" "nor_busy (chip (fw_flash fw_boot)) = 0"
  using nor_flash_installed by (simp_all add: fw_idle_def fw_boot_def tls_fwup_init_def) (simp_all add: nor_flash_def)

lemma five_hdr_good: "good_hdr (five_hdr off)" "length [1, 2, 3, 4, 5 :: u8] = unat (file_len (five_hdr off))"
    "hdr_crc8 (five_hdr 0) = fold crc8_turn [1, 2, 3, 4, 5] 0" "hdr_crc8 (five_hdr 1) \<noteq> fold crc8_turn [1, 2, 3, 4, 5] 0"
    "web_hdr (five_hdr off) \<noteq> []" "length (web_hdr (five_hdr off)) = 16"
  by (simp_all add: good_hdr_def five_hdr_def web_hdr_def image_hdr_bytes_def del: fold_simps)

lemma fwup_installs_image_witness:
  "\<exists>sid s1 s2. tls_fwup_enter fw_plenty SRC_WEB fw_boot = Some (sid, s1)
    \<and> fw_send fw_plenty sid [web_hdr (five_hdr 0) @ [1], [2, 3], [4, 5]] s1 = Some ([TLS_FWUP_STATUS_OK, TLS_FWUP_STATUS_OK, TLS_FWUP_STATUS_OK], s2)
    \<and> tls_sys_reset \<in> set (fw_calls s2)"
proof -
  let ?cs = "[web_hdr (five_hdr 0) @ [1], [2, 3], [4, 5]]"
  have "concat ?cs = web_hdr (five_hdr 0) @ [1, 2, 3, 4, 5]" "?cs \<noteq> []" "16 \<le> length (hd ?cs)" "\<forall>c\<in>set ?cs. c \<noteq> []"
    by (simp_all add: five_hdr_good)
  from fwup_installs_image [OF nor_bus_chip fw_boot_idle fw_plenty_ok five_hdr_good(1-3) this]
  obtain sid s1 s2 where "tls_fwup_enter fw_plenty SRC_WEB fw_boot = Some (sid, s1)"
      "fw_send fw_plenty sid ?cs s1 = Some (replicate (length ?cs) TLS_FWUP_STATUS_OK, s2)" "tls_sys_reset \<in> set (fw_calls s2)"
    by (elim exE conjE) (rule that)
  then show ?thesis
    by (intro exI [of _ sid] exI [of _ s1] exI [of _ s2]) (simp del: fw_send.simps)
qed

text \<open>The same module over a chip whose boot footer points at an image in the second region.\<close>

definition old_footer :: tls_fwup_boot_footer where
  "old_footer = \<lparr>footer_base = TLS_FLASH_FIRMWARE2_ADDR, footer_length = 5, load_address = TLS_SRAM_FIRMWARE_EXEC_ADDR,
     exec_address = TLS_SRAM_FIRMWARE_EXEC_ADDR, footer_name = replicate 16 0,
     signature = TLS_FWUP_BOOT_IMAGE_SIGNATURE_WORD, footer_type = 4, image_checksum = 0\<rparr>"

definition old_chip :: nor where
  "old_chip = (chip nor_flash)\<lparr>nor_cells := (\<lambda>i. if i < 44 then boot_footer_bytes old_footer ! i else word_of_nat i)\<rparr>"

definition fw_old :: "nor fw" where
  "fw_old = fw_boot\<lparr>fw_flash := (fw_flash fw_boot)\<lparr>chip := old_chip\<rparr>\<rparr>"

lemma fw_old_idle: "fw_idle (gd25qxx_fls nor_bus) fw_old" "nor_busy (chip (fw_flash fw_old)) = 0"
  using fw_boot_idle nor_flash_installed(2) by (simp_all add: fw_idle_def fw_old_def old_chip_def)

lemma boots_from_old: "boots_from (nor_mem (chip (fw_flash fw_old))) TLS_FLASH_FIRMWARE2_ADDR"
proof -
  have len: "length (boot_footer_bytes old_footer) = 44"
    by (simp add: boot_footer_bytes_def old_footer_def)
  have "take 44 (nor_mem old_chip) = map (nor_cells old_chip) [0..<44]"
    by (simp add: nor_mem_def take_map del: upt_rec_numeral)
  also have "\<dots> = map (\<lambda>i. boot_footer_bytes old_footer ! i) [0..<44]"
    by (rule map_cong [OF refl]) (simp add: old_chip_def)
  also have "\<dots> = boot_footer_bytes old_footer"
    using map_nth [of "boot_footer_bytes old_footer"] unfolding len .
  finally have m: "take 44 (nor_mem old_chip) = boot_footer_bytes old_footer" .
  have "boot_footer_of (boot_footer_bytes old_footer) = old_footer"
    by (simp add: boot_footer_of_def boot_footer_bytes_def old_footer_def)
  then show ?thesis
    by (simp add: boots_from_def fw_old_def m) (simp add: old_footer_def)
qed

lemma fwup_keeps_boot_footer_witness:
  "\<exists>sid s1 s2. tls_fwup_enter fw_plenty SRC_WEB fw_old = Some (sid, s1)
    \<and> fw_send fw_plenty sid [web_hdr (five_hdr 1), [1, 2, 3], [4, 5]] s1 = Some ([TLS_FWUP_STATUS_OK, TLS_FWUP_STATUS_OK, TLS_FWUP_STATUS_ECRC], s2)
    \<and> (let m0 = nor_mem (chip (fw_flash fw_old)); m = nor_mem (chip (fw_flash s2))
       in take 0x3000 m = take 0x3000 m0 \<and> boots_from m TLS_FLASH_FIRMWARE2_ADDR
        \<and> take 0x4B000 (drop 0x4e000 m) = take 0x4B000 (drop 0x4e000 m0))"
proof -
  let ?cs = "[web_hdr (five_hdr 1), [1, 2, 3], [4, 5]]" and ?img = "[1, 2, 3, 4, 5 :: u8]"
  have "([] :: u8 list) \<noteq> [] \<or> hdr_crc8 (five_hdr 1) \<noteq> fold crc8_turn ?img 0" "concat ?cs = web_hdr (five_hdr 1) @ ?img" "?img @ [] = ?img"
      "?cs \<noteq> []" "16 \<le> length (hd ?cs)" "\<forall>c\<in>set ?cs. c \<noteq> []"
    using five_hdr_good(4) by (simp_all add: five_hdr_good del: fold_simps)
  from fwup_keeps_boot_footer [OF nor_bus_chip fw_old_idle fw_plenty_ok five_hdr_good(1,2) this]
  obtain sid s1 s2 r x where s2: "tls_fwup_enter fw_plenty SRC_WEB fw_old = Some (sid, s1)"
      "fw_send fw_plenty sid ?cs s1 = Some (replicate (length ?cs - 1) TLS_FWUP_STATUS_OK @ [r], s2)"
      "r = (if ([] :: u8 list) = [] then TLS_FWUP_STATUS_ECRC else TLS_FWUP_STATUS_OK)"
    and m: "let m0 = nor_mem (chip (fw_flash fw_old)); m = nor_mem (chip (fw_flash s2))
       in m = overlay (unat (next_base m0)) x m0 \<and> length x = programmed_bytes ?img []
        \<and> take 0x3000 m = take 0x3000 m0
        \<and> (\<forall>base. boots_from m0 base \<longrightarrow> boots_from m base
             \<and> (([] :: u8 list) \<noteq> [] \<or> length ?img < 0x4B000 \<or> base = TLS_FLASH_FIRMWARE1_ADDR
                \<longrightarrow> take 0x4B000 (drop (unat base) m) = take 0x4B000 (drop (unat base) m0)))"
    by (elim exE conjE) (rule that)
  have "length ?img < 0x4B000" by simp
  with m boots_from_old have "take 0x3000 (nor_mem (chip (fw_flash s2))) = take 0x3000 (nor_mem (chip (fw_flash fw_old)))"
      "boots_from (nor_mem (chip (fw_flash s2))) TLS_FLASH_FIRMWARE2_ADDR"
      "take 0x4B000 (drop (unat TLS_FLASH_FIRMWARE2_ADDR) (nor_mem (chip (fw_flash s2))))
        = take 0x4B000 (drop (unat TLS_FLASH_FIRMWARE2_ADDR) (nor_mem (chip (fw_flash fw_old))))"
    unfolding Let_def by blast+
  moreover have "unat TLS_FLASH_FIRMWARE2_ADDR = 0x4e000" by simp
  ultimately show ?thesis
    using s2 by (intro exI [of _ sid] exI [of _ s1] exI [of _ s2]) (simp add: Let_def del: fw_send.simps)
qed

lemma fwup_short_piece_resets_witness:
  "\<exists>sid s1 s2. tls_fwup_enter fw_plenty SRC_WEB fw_boot = Some (sid, s1)
    \<and> tls_fwup_request_sync fw_plenty sid (Some [0x77, 0x55, 0x36]) 3 s1 = Some (TLS_FWUP_STATUS_OK, s2)
    \<and> tls_sys_reset \<in> set (fw_calls s2)"
proof -
  have "0 < length [0x77, 0x55, 0x36 :: u8]" "length [0x77, 0x55, 0x36 :: u8] < 16"
    by simp_all
  from fwup_short_piece_resets [OF fw_boot_idle(1) fw_plenty_ok this]
  obtain sid s1 s2 where "tls_fwup_enter fw_plenty SRC_WEB fw_boot = Some (sid, s1)"
      "tls_fwup_request_sync fw_plenty sid (Some [0x77, 0x55, 0x36]) (word_of_nat (length [0x77, 0x55, 0x36 :: u8])) s1 = Some (TLS_FWUP_STATUS_OK, s2)"
      "tls_sys_reset \<in> set (fw_calls s2)"
    by (elim exE conjE) (rule that)
  then show ?thesis
    by (intro exI [of _ sid] exI [of _ s1] exI [of _ s2]) simp
qed

end
