(* ===== verification/FwupLink.thy ===== *)
theory FwupLink
  imports HfAdapter FwupCorrect
begin

text \<open>
  The adapter in front of the updater: what \<^verbatim>\<open>HF_FirmwareUpdate\<close> makes of the results of \<^verbatim>\<open>tls_fwup_request_sync\<close>.
\<close>

lemma request_result_small: "request_result st \<in> {0, 2, 6, 7, 8, 9}"
  by (simp add: request_result_def)

lemma tls_fwup_request_sync_small:
  assumes "tls_fwup_request_sync F sid d n w = Some (r, w')"
  shows "r \<in> {0, 1, 2, 3, 5, 6, 7, 8, 9}"
proof -
  have "r = TLS_FWUP_STATUS_EPERM \<or> r = TLS_FWUP_STATUS_ESESSIONID \<or> r = TLS_FWUP_STATUS_EINVALID \<or> r = TLS_FWUP_STATUS_EMEM
      \<or> (\<exists>st. r = request_result st)"
    using assms by (auto simp: tls_fwup_request_sync_def Let_def elim!: bindE split: option.splits if_splits prod.splits)
  then show ?thesis
    using request_result_small by auto
qed

section \<open>Properties\<close>

text \<open>C24: whatever the updater answers to a piece behind the first, an error or not, \<^verbatim>\<open>HF_FirmwareUpdate\<close> reports
  success: the errors of the updater are positive numbers, and the adapter looks for a negative one.\<close>

theorem fwup_errors_unreported:
  assumes "tls_fwup_request_sync F sid (Some (take (unat n) data)) n w = Some (r, w')"
    and "g_u32session_id (platform s) = sid" and "off \<noteq> 0" and "unat n \<le> length data"
    and "ans_res (answer E (calls (platform s)) (call_fwup_request sid (take (unat n) data))) = sint r"
  shows "\<exists>s'. HF_FirmwareUpdate E data off n s = Some (s', ZC_RET_OK)"
proof -
  have "0 \<le> sint r"
    using tls_fwup_request_sync_small [OF assms(1)] by auto
  then show ?thesis
    using assms(2-5) by (simp add: HF_FirmwareUpdate_def fwup_request_def ask_def rd_def)
qed

text \<open>The updater has no session 1, and says so.\<close>

definition stranger_env :: hf_env where
  "stranger_env = \<lparr>answer = (\<lambda>h x. \<lparr>ans_res = sint (fst (the (tls_fwup_request_sync fw_plenty 1 (Some [7]) 1 fw_boot))),
     ans_val = 0, ans_data = []\<rparr>), env_rsa_encrypt = (\<lambda>_ _ b. (0, b)), env_rsa_decrypt = (\<lambda>_ b. (0, 0, b)),
     env_version = 0, env_type = 0\<rparr>"

definition stranger :: "nor hf_zc" where
  "stranger = zc_start (\<lambda>_. 0) \<lparr>g_struHfTimer = [], g_u32session_id = 1, hf_flash = nor_flash, calls = []\<rparr>"

lemma stranger_sync: "tls_fwup_request_sync fw_plenty 1 (Some [7]) 1 fw_boot = Some (TLS_FWUP_STATUS_ESESSIONID, fw_boot)"
  by (simp add: tls_fwup_request_sync_def fw_boot_def tls_fwup_init_def)

lemma fwup_errors_unreported_witness:
  "tls_fwup_request_sync fw_plenty 1 (Some [7]) 1 fw_boot = Some (TLS_FWUP_STATUS_ESESSIONID, fw_boot)
    \<and> (\<exists>s'. HF_FirmwareUpdate stranger_env [7] 512 1 stranger = Some (s', ZC_RET_OK))"
  using stranger_sync fwup_errors_unreported [of fw_plenty 1 1 "[7]" fw_boot 5 fw_boot stranger 512 stranger_env]
  by (simp add: stranger_env_def stranger_def zc_start_def)

end
