(* ===== verification/UserFlash.thy ===== *)
theory UserFlash
  imports FlashCorrect "HOL-Library.Multiset"
begin

text \<open>
  The list of devices of the application, \<^verbatim>\<open>App/user/user_flash.c\<close>: a hundred hardware addresses, kept twice in the
  flash memory.  The result of \<^verbatim>\<open>tls_mem_alloc\<close> for the sector of a write is an argument, one for each write.
\<close>

section \<open>The structures of \<^verbatim>\<open>user_flash.h\<close>\<close>

abbreviation (input) USER_PARAM1_ADDR :: u32 where "USER_PARAM1_ADDR \<equiv> 0xF8000"
abbreviation (input) USER_PARAM2_ADDR :: u32 where "USER_PARAM2_ADDR \<equiv> 0xF9000"
abbreviation (input) USER_FLASH_ID1 :: u32 where "USER_FLASH_ID1 \<equiv> 0xAA555253"
abbreviation (input) USER_FLASH_ID2 :: u32 where "USER_FLASH_ID2 \<equiv> 0xC98980FF"

record FLASH_MAC_INFO =
  mac_valid :: u16
  mac_addr :: "u8 list"

record USER_FLASH_INFO =
  info_id1 :: u32
  info_id2 :: u32
  info_device :: "FLASH_MAC_INFO list"

definition mac_bytes :: "FLASH_MAC_INFO \<Rightarrow> u8 list" where
  "mac_bytes d = bytes16 (mac_valid d) @ mac_addr d"

definition info_bytes :: "USER_FLASH_INFO \<Rightarrow> u8 list" where
  "info_bytes i = bytes32 (info_id1 i) @ bytes32 (info_id2 i) @ concat (map mac_bytes (info_device i))"

definition mac_of :: "u8 list \<Rightarrow> FLASH_MAC_INFO" where
  "mac_of b = \<lparr>mac_valid = le16 b, mac_addr = drop 2 b\<rparr>"

definition info_of :: "u8 list \<Rightarrow> USER_FLASH_INFO" where
  "info_of b = \<lparr>info_id1 = le32 b, info_id2 = le32 (drop 4 b),
     info_device = map (\<lambda>i. mac_of (take 8 (drop (8 * i) (drop 8 b)))) [0..<100]\<rparr>"

text \<open>\<^verbatim>\<open>gstFlashInfo\<close> and the flash memory.\<close>

record 'c user_flash =
  gstFlashInfo :: USER_FLASH_INFO
  user_fls :: "'c flash"

section \<open>The operations\<close>

definition bad_ids :: "u32 \<Rightarrow> u32 \<Rightarrow> bool" where
  "bad_ids id1 id2 \<longleftrightarrow> USER_FLASH_ID1 \<noteq> id1 \<or> USER_FLASH_ID2 \<noteq> id2"

definition load_copy :: "u32 \<Rightarrow> 'c user_flash \<Rightarrow> 'c user_flash option" where
  "load_copy addr s = do {
     (err, b, fl) \<leftarrow> tls_fls_read addr (info_bytes (gstFlashInfo s)) 808 (user_fls s);
     Some (s\<lparr>gstFlashInfo := info_of b, user_fls := fl\<rparr>)
   }"

definition save_copy :: "u8 list option \<Rightarrow> u32 \<Rightarrow> 'c user_flash \<Rightarrow> 'c user_flash option" where
  "save_copy sec addr s = do {
     (err, fl) \<leftarrow> tls_fls_write sec addr (info_bytes (gstFlashInfo s)) 808 (user_fls s);
     Some (s\<lparr>user_fls := fl\<rparr>)
   }"

definition UserSaveFlashInfo :: "u8 list option \<Rightarrow> u8 list option \<Rightarrow> 'c user_flash \<Rightarrow> 'c user_flash option" where
  "UserSaveFlashInfo sec1 sec2 s = do {
     s \<leftarrow> save_copy sec1 USER_PARAM1_ADDR s;
     save_copy sec2 USER_PARAM2_ADDR s
   }"

definition fresh_info :: USER_FLASH_INFO where
  "fresh_info = \<lparr>info_id1 = USER_FLASH_ID1, info_id2 = USER_FLASH_ID2,
     info_device = replicate 100 \<lparr>mac_valid = 0, mac_addr = replicate 6 0\<rparr>\<rparr>"

text \<open>\<open>id1\<close> and \<open>id2\<close> are the bytes of the variables on the stack.\<close>

definition UserLoadFlashInfo :: "u8 list option \<Rightarrow> u8 list option \<Rightarrow> u8 list \<Rightarrow> u8 list \<Rightarrow> 'c user_flash \<Rightarrow> 'c user_flash option" where
  "UserLoadFlashInfo sec1 sec2 id1 id2 s = do {
     s \<leftarrow> load_copy USER_PARAM1_ADDR s;
     if bad_ids (info_id1 (gstFlashInfo s)) (info_id2 (gstFlashInfo s)) then do {
       s \<leftarrow> load_copy USER_PARAM2_ADDR s;
       if bad_ids (info_id1 (gstFlashInfo s)) (info_id2 (gstFlashInfo s))
       then UserSaveFlashInfo sec1 sec2 (s\<lparr>gstFlashInfo := fresh_info\<rparr>)
       else save_copy sec1 USER_PARAM1_ADDR s
     } else do {
       (err, id1, fl) \<leftarrow> tls_fls_read USER_PARAM2_ADDR id1 4 (user_fls s);
       (err, id2, fl) \<leftarrow> tls_fls_read (USER_PARAM2_ADDR + 4) id2 4 fl;
       let s = s\<lparr>user_fls := fl\<rparr>;
       if bad_ids (le32 id1) (le32 id2) then save_copy sec1 USER_PARAM2_ADDR s else Some s
     }
   }"

text \<open>The first entry that a loop stops at.\<close>

fun find_device :: "(FLASH_MAC_INFO \<Rightarrow> bool) \<Rightarrow> nat \<Rightarrow> FLASH_MAC_INFO list \<Rightarrow> nat option" where
  "find_device p i [] = None"
| "find_device p i (d # ds) = (if p d then Some i else find_device p (i + 1) ds)"

definition set_device :: "nat \<Rightarrow> FLASH_MAC_INFO \<Rightarrow> 'c user_flash \<Rightarrow> 'c user_flash" where
  "set_device i d s = s\<lparr>gstFlashInfo := (gstFlashInfo s)\<lparr>info_device := (info_device (gstFlashInfo s))[i := d]\<rparr>\<rparr>"

definition UserAddFlashInfo :: "u8 list option \<Rightarrow> u8 list option \<Rightarrow> u8 list \<Rightarrow> 'c user_flash \<Rightarrow> (int \<times> 'c user_flash) option" where
  "UserAddFlashInfo sec1 sec2 mac s =
     (case find_device (\<lambda>d. mac_valid d = 0) 0 (info_device (gstFlashInfo s)) of
        None \<Rightarrow> Some (- 1, s)
      | Some i \<Rightarrow> do {
          m \<leftarrow> rd mac 0 6;
          s \<leftarrow> UserSaveFlashInfo sec1 sec2 (set_device i \<lparr>mac_valid = 1, mac_addr = m\<rparr> s);
          Some (0, s)
        })"

definition UserDelFlashInfo :: "u8 list option \<Rightarrow> u8 list option \<Rightarrow> u8 list \<Rightarrow> 'c user_flash \<Rightarrow> (int \<times> 'c user_flash) option" where
  "UserDelFlashInfo sec1 sec2 mac s = do {
     m \<leftarrow> rd mac 0 6;
     case find_device (\<lambda>d. mac_addr d = m) 0 (info_device (gstFlashInfo s)) of
       None \<Rightarrow> Some (- 1, s)
     | Some i \<Rightarrow> do {
         s \<leftarrow> UserSaveFlashInfo sec1 sec2 (set_device i \<lparr>mac_valid = 0, mac_addr = replicate 6 0\<rparr> s);
         Some (0, s)
       }
   }"

end
