(* ===== verification/UserFlashCorrect.thy ===== *)
theory UserFlashCorrect
  imports UserFlash
begin

text \<open>
  The list of devices survives the loss of one of its copies; as a bag of addresses it is what was added and not deleted.
\<close>

declare upt_rec_numeral [simp del]

section \<open>The layout\<close>

definition info_ok :: "USER_FLASH_INFO \<Rightarrow> bool" where
  "info_ok i \<longleftrightarrow> info_id1 i = USER_FLASH_ID1 \<and> info_id2 i = USER_FLASH_ID2 \<and> length (info_device i) = 100
     \<and> (\<forall>d\<in>set (info_device i). length (mac_addr d) = 6)"

definition info_fits :: "USER_FLASH_INFO \<Rightarrow> bool" where
  "info_fits i \<longleftrightarrow> length (info_bytes i) = 808"

lemma length_concat_const: "\<forall>x\<in>set xs. length (f x) = n \<Longrightarrow> length (concat (map f xs)) = n * length xs"
  by (induction xs) simp_all

lemma drop_concat_const:
  "\<forall>x\<in>set xs. length (f x) = n \<Longrightarrow> i < length xs \<Longrightarrow> take n (drop (n * i) (concat (map f xs))) = f (xs ! i)"
proof (induction xs arbitrary: i)
  case (Cons x xs)
  then show ?case by (cases i) simp_all
qed simp

lemma concat_pieces: "concat (map (\<lambda>i. take n (drop (n * i) b)) [0..<k]) = take (n * k) b"
proof (induction k)
  case (Suc k)
  then show ?case by (simp add: take_add [symmetric] add.commute)
qed simp

lemma mac_of_bytes: "mac_of (mac_bytes d) = d" "length b = 8 \<Longrightarrow> mac_bytes (mac_of b) = b"
proof -
  show "mac_of (mac_bytes d) = d"
    by (simp add: mac_of_def mac_bytes_def)
  assume "length b = 8"
  then have "bytes16 (le16 (take 2 b)) = take 2 b"
    by (intro bytes16_le16) simp
  then show "mac_bytes (mac_of b) = b"
    by (simp add: mac_of_def mac_bytes_def)
qed

lemma info_ok_fits: "info_ok i \<Longrightarrow> info_fits i"
  by (simp add: info_ok_def info_fits_def info_bytes_def length_concat_const [where n = 8] mac_bytes_def)

lemma info_of_bytes: "info_ok i \<Longrightarrow> info_of (info_bytes i) = i"
proof -
  assume ok: "info_ok i"
  let ?c = "concat (map mac_bytes (info_device i))"
  have "map (\<lambda>k. mac_of (take 8 (drop (8 * k) ?c))) [0..<100] = map (\<lambda>k. info_device i ! k) [0..<100]"
    using ok by (intro map_cong refl) (simp add: info_ok_def drop_concat_const mac_bytes_def mac_of_bytes(1) [unfolded mac_bytes_def])
  also have "\<dots> = info_device i"
  proof -
    have len: "length (info_device i) = 100"
      using ok by (simp add: info_ok_def)
    show ?thesis by (rule map_nth [of "info_device i", unfolded len])
  qed
  finally show ?thesis
    using ok by (simp add: info_of_def info_bytes_def)
qed

lemma le32_take_4: "4 \<le> length b \<Longrightarrow> bytes32 (le32 b) = take 4 b"
  using bytes32_le32 [of "take 4 b"] le32_append [of "take 4 b" "drop 4 b"] by simp

lemma info_bytes_of: "length b = 808 \<Longrightarrow> info_bytes (info_of b) = b"
proof -
  assume len: "length b = 808"
  have ids: "bytes32 (le32 b) = take 4 b" "bytes32 (le32 (drop 4 b)) = take 4 (drop 4 b)"
    using len by (simp_all add: le32_take_4)
  have "concat (map (\<lambda>k. mac_bytes (mac_of (take 8 (drop (8 * k) (drop 8 b))))) [0..<100])
      = concat (map (\<lambda>k. take 8 (drop (8 * k) (drop 8 b))) [0..<100])"
    using len by (intro arg_cong [of _ _ concat] map_cong refl mac_of_bytes(2)) simp
  also have "\<dots> = drop 8 b"
    unfolding concat_pieces using len by simp
  finally have "info_bytes (info_of b) = take 4 b @ take 4 (drop 4 b) @ drop 8 b"
    using ids by (simp add: info_bytes_def info_of_def o_def)
  also have "\<dots> = b"
    by (metis append_take_drop_id drop_drop numeral_Bit0)
  finally show ?thesis .
qed

section \<open>The operations on a chip that works\<close>

definition flash_up :: "'c tls_fls_drv \<Rightarrow> ('c \<Rightarrow> bool) \<Rightarrow> 'c user_flash \<Rightarrow> bool" where
  "flash_up drv ready s \<longleftrightarrow> installed drv (user_fls s) \<and> ready (chip (user_fls s))"

abbreviation cells :: "('c \<Rightarrow> u8 list) \<Rightarrow> 'c user_flash \<Rightarrow> u8 list" where
  "cells mem s \<equiv> mem (chip (user_fls s))"

definition copy1 :: "u8 list \<Rightarrow> u8 list" where
  "copy1 m = take 808 (drop 0xF8000 m)"

definition copy2 :: "u8 list \<Rightarrow> u8 list" where
  "copy2 m = take 808 (drop 0xF9000 m)"

definition ids_ok :: "u8 list \<Rightarrow> bool" where
  "ids_ok b \<longleftrightarrow> \<not> bad_ids (le32 b) (le32 (drop 4 b))"

lemma load_copy_ok:
  assumes drv: "flash_driver drv mem ready" and up: "flash_up drv ready s" and fits: "info_fits (gstFlashInfo s)"
    and addr: "unat addr + 808 \<le> 0x100000"
  shows "\<exists>s'. load_copy addr s = Some s' \<and> gstFlashInfo s' = info_of (take 808 (drop (unat addr) (cells mem s)))
    \<and> flash_up drv ready s' \<and> cells mem s' = cells mem s"
  using tls_fls_read_ok [OF drv, of "user_fls s" addr 808 "info_bytes (gstFlashInfo s)"] up fits addr
  by (auto simp: load_copy_def flash_up_def info_fits_def)

lemma save_copy_ok:
  assumes drv: "flash_driver drv mem ready" and up: "flash_up drv ready s" and fits: "info_fits (gstFlashInfo s)"
    and sec: "length sec = 4096" and addr: "unat addr + 808 \<le> 0x100000" "unat addr mod 4096 = 0"
  shows "\<exists>s'. save_copy (Some sec) addr s = Some s' \<and> gstFlashInfo s' = gstFlashInfo s
    \<and> flash_up drv ready s' \<and> cells mem s' = overlay (unat addr) (info_bytes (gstFlashInfo s)) (cells mem s)"
  using tls_fls_write_ok [OF drv, of "user_fls s" addr 808 "info_bytes (gstFlashInfo s)" sec] assms(2-6)
  by (auto simp: save_copy_def flash_up_def info_fits_def)

lemma copies_overlay:
  assumes "length m = 0x100000" and "length b = 808"
  shows "copy1 (overlay 0xF8000 b m) = b" "copy2 (overlay 0xF8000 b m) = copy2 m"
    "copy1 (overlay 0xF9000 b m) = copy1 m" "copy2 (overlay 0xF9000 b m) = b"
proof -
  show "copy1 (overlay 0xF8000 b m) = b" "copy2 (overlay 0xF9000 b m) = b"
    using overlay_read [of _ b m] assms by (simp_all add: copy1_def copy2_def)
  show "copy2 (overlay 0xF8000 b m) = copy2 m"
    using assms by (simp add: copy2_def overlay_elsewhere)
  have "take 0xF9000 (overlay 0xF9000 b m) = take 0xF9000 m"
    using assms by (simp add: overlay_def)
  then have "drop 0xF8000 (take 0xF9000 (overlay 0xF9000 b m)) = drop 0xF8000 (take 0xF9000 m)"
    by (simp only:)
  then have "take 808 (take 4096 (drop 0xF8000 (overlay 0xF9000 b m))) = take 808 (take 4096 (drop 0xF8000 m))"
    by (simp add: drop_take)
  then show "copy1 (overlay 0xF9000 b m) = copy1 m"
    by (simp add: copy1_def)
qed

lemma UserSaveFlashInfo_ok:
  assumes drv: "flash_driver drv mem ready" and up: "flash_up drv ready s" and fits: "info_fits (gstFlashInfo s)"
    and sec: "length sec1 = 4096" "length sec2 = 4096"
  shows "\<exists>s'. UserSaveFlashInfo (Some sec1) (Some sec2) s = Some s' \<and> gstFlashInfo s' = gstFlashInfo s \<and> flash_up drv ready s'
    \<and> copy1 (cells mem s') = info_bytes (gstFlashInfo s) \<and> copy2 (cells mem s') = info_bytes (gstFlashInfo s)"
proof -
  note size = flash_driver_sizes(4) [OF drv]
  obtain s1 where s1: "save_copy (Some sec1) 0xF8000 s = Some s1" "gstFlashInfo s1 = gstFlashInfo s" "flash_up drv ready s1"
      "cells mem s1 = overlay 0xF8000 (info_bytes (gstFlashInfo s)) (cells mem s)"
    using save_copy_ok [OF drv up fits sec(1), of "0xF8000"] by auto
  obtain s2 where s2: "save_copy (Some sec2) 0xF9000 s1 = Some s2" "gstFlashInfo s2 = gstFlashInfo s" "flash_up drv ready s2"
      "cells mem s2 = overlay 0xF9000 (info_bytes (gstFlashInfo s)) (cells mem s1)"
    using save_copy_ok [OF drv s1(3) _ sec(2), of "0xF9000"] fits s1(2) by auto
  have len: "length (info_bytes (gstFlashInfo s)) = 808"
    using fits by (simp add: info_fits_def)
  have "copy1 (cells mem s2) = info_bytes (gstFlashInfo s)" "copy2 (cells mem s2) = info_bytes (gstFlashInfo s)"
    using copies_overlay [OF _ len] size by (simp_all add: s2(4) s1(4) len)
  with s1(1) s2 show ?thesis
    by (simp add: UserSaveFlashInfo_def)
qed

text \<open>Reading the two identifiers of the second copy.\<close>

lemma le32_first: "4 \<le> n \<Longrightarrow> 4 \<le> length b \<Longrightarrow> le32 (take n b) = le32 b"
  by (simp add: le32_def)

lemma read_id_ok:
  assumes drv: "flash_driver drv mem ready" and up: "installed drv fl" "ready (chip fl)" and n: "length b = 4"
    and addr: "unat addr + 4 \<le> 0x100000"
  shows "\<exists>c. tls_fls_read addr b 4 fl = Some (0, take 4 (drop (unat addr) (mem (chip fl))), fl\<lparr>chip := c\<rparr>)
    \<and> ready c \<and> mem c = mem (chip fl)"
  using tls_fls_read_ok [OF drv up, of addr 4 b] n addr by auto

lemma UserLoadFlashInfo_first:
  assumes drv: "flash_driver drv mem ready" and up: "flash_up drv ready s" and fits: "info_fits (gstFlashInfo s)"
    and sec: "length sec1 = 4096" and ids: "length id1 = 4" "length id2 = 4" and i: "info_ok i"
    and first: "copy1 (cells mem s) = info_bytes i" "copy2 (cells mem s) = info_bytes i \<or> \<not> ids_ok (copy2 (cells mem s))"
  shows "\<exists>s'. UserLoadFlashInfo (Some sec1) sec2 id1 id2 s = Some s' \<and> gstFlashInfo s' = i \<and> flash_up drv ready s'
    \<and> copy1 (cells mem s') = info_bytes i \<and> copy2 (cells mem s') = info_bytes i"
proof -
  have size: "length (mem c) = 0x100000" for c
    by (rule flash_driver_sizes [OF drv])
  obtain s1 where s1: "load_copy 0xF8000 s = Some s1" "gstFlashInfo s1 = i" "flash_up drv ready s1" "cells mem s1 = cells mem s"
    using load_copy_ok [OF drv up fits, of "0xF8000"] first(1) info_of_bytes [OF i] by (auto simp: copy1_def)
  have good: "\<not> bad_ids (info_id1 i) (info_id2 i)"
    using i by (simp add: info_ok_def bad_ids_def)
  let ?d = "drop 0xF9000 (cells mem s)"
  obtain c1 where c1: "tls_fls_read 0xF9000 id1 4 (user_fls s1) = Some (0, take 4 ?d, (user_fls s1)\<lparr>chip := c1\<rparr>)"
      "ready c1" "mem c1 = cells mem s"
    using read_id_ok [OF drv _ _ ids(1), of "user_fls s1" "0xF9000"] s1(3,4) by (auto simp: flash_up_def)
  obtain c2 where c2: "tls_fls_read 0xF9004 id2 4 ((user_fls s1)\<lparr>chip := c1\<rparr>) = Some (0, take 4 (drop 4 ?d), (user_fls s1)\<lparr>chip := c2\<rparr>)"
      "ready c2" "mem c2 = cells mem s"
    using read_id_ok [OF drv _ _ ids(2), of "(user_fls s1)\<lparr>chip := c1\<rparr>" "0xF9004"] s1(3) c1(2,3) by (auto simp: flash_up_def)
  let ?s = "s1\<lparr>user_fls := (user_fls s1)\<lparr>chip := c2\<rparr>\<rparr>"
  have ids: "bad_ids (le32 (take 4 ?d)) (le32 (take 4 (drop 4 ?d))) \<longleftrightarrow> \<not> ids_ok (copy2 (cells mem s))"
    by (simp add: ids_ok_def copy2_def le32_first drop_take size)
  have run: "UserLoadFlashInfo (Some sec1) sec2 id1 id2 s
      = (if \<not> ids_ok (copy2 (cells mem s)) then save_copy (Some sec1) 0xF9000 ?s else Some ?s)"
    using s1(1,2) good c1(1) c2(1) ids by (simp add: UserLoadFlashInfo_def Let_def)
  have up2: "flash_up drv ready ?s"
    using s1(3) c2(2) by (simp add: flash_up_def)
  show ?thesis
  proof (cases "ids_ok (copy2 (cells mem s))")
    case True
    with run first up2 s1(2) c2(3) show ?thesis by simp
  next
    case False
    obtain s' where s': "save_copy (Some sec1) 0xF9000 ?s = Some s'" "gstFlashInfo s' = i" "flash_up drv ready s'"
        "cells mem s' = overlay 0xF9000 (info_bytes i) (cells mem s)"
      using save_copy_ok [OF drv up2 _ sec, of "0xF9000"] info_ok_fits [OF i] s1(2) c2(3) by auto
    with False run first(1) info_ok_fits [OF i] copies_overlay(3,4) [OF size, of "info_bytes i"] show ?thesis
      by (simp add: info_fits_def)
  qed
qed

lemma UserLoadFlashInfo_second:
  assumes drv: "flash_driver drv mem ready" and up: "flash_up drv ready s" and fits: "info_fits (gstFlashInfo s)"
    and sec: "length sec1 = 4096" and i: "info_ok i"
    and second: "\<not> ids_ok (copy1 (cells mem s))" "copy2 (cells mem s) = info_bytes i"
  shows "\<exists>s'. UserLoadFlashInfo (Some sec1) sec2 id1 id2 s = Some s' \<and> gstFlashInfo s' = i \<and> flash_up drv ready s'
    \<and> copy1 (cells mem s') = info_bytes i \<and> copy2 (cells mem s') = info_bytes i"
proof -
  have size: "length (mem c) = 0x100000" for c
    by (rule flash_driver_sizes [OF drv])
  obtain s1 where s1: "load_copy 0xF8000 s = Some s1" "gstFlashInfo s1 = info_of (copy1 (cells mem s))" "flash_up drv ready s1"
      "cells mem s1 = cells mem s"
    using load_copy_ok [OF drv up fits, of "0xF8000"] by (auto simp: copy1_def)
  have bad: "bad_ids (info_id1 (gstFlashInfo s1)) (info_id2 (gstFlashInfo s1))"
    using second(1) by (simp add: s1(2) ids_ok_def info_of_def)
  have "info_fits (gstFlashInfo s1)"
    by (simp add: s1(2) info_fits_def info_bytes_of copy1_def size)
  then obtain s2 where s2: "load_copy 0xF9000 s1 = Some s2" "gstFlashInfo s2 = i" "flash_up drv ready s2" "cells mem s2 = cells mem s"
    using load_copy_ok [OF drv s1(3), of "0xF9000"] s1(4) second(2) info_of_bytes [OF i] by (auto simp: copy2_def)
  have good: "\<not> bad_ids (info_id1 i) (info_id2 i)"
    using i by (simp add: info_ok_def bad_ids_def)
  obtain s' where s': "save_copy (Some sec1) 0xF8000 s2 = Some s'" "gstFlashInfo s' = i" "flash_up drv ready s'"
      "cells mem s' = overlay 0xF8000 (info_bytes i) (cells mem s)"
    using save_copy_ok [OF drv s2(3) _ sec, of "0xF8000"] info_ok_fits [OF i] s2(2,4) by auto
  have "UserLoadFlashInfo (Some sec1) sec2 id1 id2 s = Some s'"
    using s1(1) bad s2(1,2) good s'(1) by (simp add: UserLoadFlashInfo_def)
  with s' second(2) info_ok_fits [OF i] copies_overlay(1,2) [OF size, of "info_bytes i"] show ?thesis
    by (simp add: info_fits_def)
qed

section \<open>The bag of addresses\<close>

definition devices :: "USER_FLASH_INFO \<Rightarrow> u8 list multiset" where
  "devices i = mset (map mac_addr (filter (\<lambda>d. mac_valid d \<noteq> 0) (info_device i)))"

definition info_inv :: "USER_FLASH_INFO \<Rightarrow> bool" where
  "info_inv i \<longleftrightarrow> info_ok i \<and> (\<forall>d\<in>set (info_device i). mac_valid d = 0 \<longrightarrow> mac_addr d = replicate 6 0)"

text \<open>After the damage one of the copies of \<open>m\<close> is left in \<open>m'\<close>, and the other is as it was or has no identifiers.\<close>

definition one_copy_left :: "u8 list \<Rightarrow> u8 list \<Rightarrow> bool" where
  "one_copy_left m m' \<longleftrightarrow> copy1 m' = copy1 m \<and> (copy2 m' = copy2 m \<or> \<not> ids_ok (copy2 m'))
     \<or> \<not> ids_ok (copy1 m') \<and> copy2 m' = copy2 m"

lemma find_device_Some:
  "find_device p i ds = Some k \<Longrightarrow> \<exists>xs d ys. ds = xs @ d # ys \<and> p d \<and> (\<forall>x\<in>set xs. \<not> p x) \<and> k = i + length xs"
proof (induction p i ds rule: find_device.induct)
  case (2 p i d ds)
  show ?case
  proof (cases "p d")
    case True
    with 2 show ?thesis by (intro exI [of _ "[]"]) auto
  next
    case False
    with 2 obtain xs e ys where "ds = xs @ e # ys" "p e" "\<forall>x\<in>set xs. \<not> p x" "k = (i + 1) + length xs"
      by auto
    with False show ?thesis
      by (intro exI [of _ "d # xs"] exI [of _ e] exI [of _ ys]) simp
  qed
qed simp

lemma find_device_None: "find_device p i ds = None \<longleftrightarrow> (\<forall>d\<in>set ds. \<not> p d)"
  by (induction p i ds rule: find_device.induct) auto

lemma set_device_add:
  assumes "info_inv (gstFlashInfo s)" and "find_device (\<lambda>d. mac_valid d = 0) 0 (info_device (gstFlashInfo s)) = Some k"
    and "length m = 6"
  shows "info_inv (gstFlashInfo (set_device k \<lparr>mac_valid = 1, mac_addr = m\<rparr> s))"
    and "devices (gstFlashInfo (set_device k \<lparr>mac_valid = 1, mac_addr = m\<rparr> s)) = add_mset m (devices (gstFlashInfo s))"
  using assms find_device_Some [OF assms(2)]
  by (auto simp: info_inv_def info_ok_def devices_def set_device_def list_update_append)

lemma set_device_del:
  assumes "info_inv (gstFlashInfo s)" and "find_device (\<lambda>d. mac_addr d = m) 0 (info_device (gstFlashInfo s)) = Some k"
    and "m \<noteq> replicate 6 0"
  shows "info_inv (gstFlashInfo (set_device k \<lparr>mac_valid = 0, mac_addr = replicate 6 0\<rparr> s))"
    and "devices (gstFlashInfo s) = add_mset m (devices (gstFlashInfo (set_device k \<lparr>mac_valid = 0, mac_addr = replicate 6 0\<rparr> s)))"
  using assms find_device_Some [OF assms(2)]
  by (auto simp: info_inv_def info_ok_def devices_def set_device_def list_update_append)

lemma saved_survives:
  assumes drv: "flash_driver drv mem ready" and sec: "length sec = 4096" and ids: "length id1 = 4" "length id2 = 4"
    and i: "info_ok i" "copy1 m = info_bytes i" "copy2 m = info_bytes i"
    and s: "flash_up drv ready s" "info_fits (gstFlashInfo s)" "one_copy_left m (cells mem s)"
  shows "\<exists>s'. UserLoadFlashInfo (Some sec) sec2 id1 id2 s = Some s' \<and> gstFlashInfo s' = i
    \<and> copy1 (cells mem s') = info_bytes i \<and> copy2 (cells mem s') = info_bytes i"
  using s(3) UserLoadFlashInfo_first [OF drv s(1,2) sec ids i(1)] UserLoadFlashInfo_second [OF drv s(1,2) sec i(1)] i(2,3)
  unfolding one_copy_left_def by metis

text \<open>What was saved survives: after any damage that leaves a copy, the list is loaded and both copies are whole again.\<close>

definition recovers :: "'c tls_fls_drv \<Rightarrow> ('c \<Rightarrow> u8 list) \<Rightarrow> ('c \<Rightarrow> bool) \<Rightarrow> 'c user_flash \<Rightarrow> bool" where
  "recovers drv mem ready s \<longleftrightarrow> (\<forall>s' sec sec2 id1 id2.
     flash_up drv ready s' \<and> info_fits (gstFlashInfo s') \<and> one_copy_left (cells mem s) (cells mem s')
       \<and> length sec = 4096 \<and> length id1 = 4 \<and> length id2 = 4
     \<longrightarrow> (\<exists>s''. UserLoadFlashInfo (Some sec) sec2 id1 id2 s' = Some s'' \<and> gstFlashInfo s'' = gstFlashInfo s
           \<and> copy1 (cells mem s'') = info_bytes (gstFlashInfo s) \<and> copy2 (cells mem s'') = info_bytes (gstFlashInfo s)))"

lemma UserSaveFlashInfo_recovers:
  assumes drv: "flash_driver drv mem ready" and up: "flash_up drv ready s" and inv: "info_inv (gstFlashInfo s)"
    and sec: "length sec1 = 4096" "length sec2 = 4096"
  shows "\<exists>s'. UserSaveFlashInfo (Some sec1) (Some sec2) s = Some s' \<and> gstFlashInfo s' = gstFlashInfo s \<and> flash_up drv ready s'
    \<and> recovers drv mem ready s'"
proof -
  have ok: "info_ok (gstFlashInfo s)"
    using inv by (simp add: info_inv_def)
  from UserSaveFlashInfo_ok [OF drv up info_ok_fits [OF ok] sec] obtain s' where
    s': "UserSaveFlashInfo (Some sec1) (Some sec2) s = Some s'" "gstFlashInfo s' = gstFlashInfo s" "flash_up drv ready s'"
      "copy1 (cells mem s') = info_bytes (gstFlashInfo s)" "copy2 (cells mem s') = info_bytes (gstFlashInfo s)" by blast
  have "recovers drv mem ready s'"
    unfolding recovers_def s'(2)
    using saved_survives [OF drv _ _ _ ok s'(4,5)] by blast
  with s' show ?thesis by blast
qed

lemma flash_up_set_device [simp]: "flash_up drv ready (set_device k d s) = flash_up drv ready s"
  by (simp add: flash_up_def set_device_def)

lemma full_list:
  assumes "info_ok i"
  shows "find_device (\<lambda>d. mac_valid d = 0) 0 (info_device i) = None \<longleftrightarrow> size (devices i) = 100"
proof -
  have "length (filter p xs) = length xs \<longleftrightarrow> (\<forall>d\<in>set xs. p d)" for p and xs :: "FLASH_MAC_INFO list"
    using length_filter_le [of p] by (induction xs) (auto simp: Suc_le_eq not_less_eq_eq le_imp_less_Suc nat_neq_iff)
  from this [of "\<lambda>d. mac_valid d \<noteq> 0" "info_device i"] show ?thesis
    using assms by (simp add: find_device_None devices_def info_ok_def size_mset del: mset_map mset_filter)
qed

lemma missing_device:
  assumes "info_inv i" and "m \<noteq> replicate 6 0"
  shows "find_device (\<lambda>d. mac_addr d = m) 0 (info_device i) = None \<longleftrightarrow> m \<notin># devices i"
  using assms by (auto simp: find_device_None devices_def info_inv_def)

section \<open>Properties\<close>

text \<open>C28: adding and deleting a device changes the bag of stored addresses by this one (a full list refuses, and so does
  the deletion of what is not there), and both copies in the flash memory are written: whatever destroys the
  identifiers of one of them, \<^verbatim>\<open>UserLoadFlashInfo\<close> restores the list and the lost copy.\<close>

theorem user_devices_survive:
  assumes "nor_chip bus mem wel busy" and "flash_up (gd25qxx_fls bus) (\<lambda>c. busy c = 0) s" and "info_inv (gstFlashInfo s)"
    and "length sec1 = 4096" and "length sec2 = 4096" and "6 \<le> length mac" and "take 6 mac \<noteq> replicate 6 0"
  shows "(if size (devices (gstFlashInfo s)) = 100 then UserAddFlashInfo (Some sec1) (Some sec2) mac s = Some (- 1, s)
      else \<exists>s'. UserAddFlashInfo (Some sec1) (Some sec2) mac s = Some (0, s') \<and> info_inv (gstFlashInfo s')
        \<and> devices (gstFlashInfo s') = add_mset (take 6 mac) (devices (gstFlashInfo s))
        \<and> recovers (gd25qxx_fls bus) mem (\<lambda>c. busy c = 0) s')
    \<and> (if take 6 mac \<notin># devices (gstFlashInfo s) then UserDelFlashInfo (Some sec1) (Some sec2) mac s = Some (- 1, s)
      else \<exists>s'. UserDelFlashInfo (Some sec1) (Some sec2) mac s = Some (0, s') \<and> info_inv (gstFlashInfo s')
        \<and> devices (gstFlashInfo s') = devices (gstFlashInfo s) - {#take 6 mac#}
        \<and> recovers (gd25qxx_fls bus) mem (\<lambda>c. busy c = 0) s')"
    (is "?add \<and> ?del")
proof
  note drv = gd25_driver [OF assms(1)]
  have ok: "info_ok (gstFlashInfo s)"
    using assms(3) by (simp add: info_inv_def)
  have m: "rd mac 0 6 = Some (take 6 mac)" "length (take 6 mac) = 6"
    using assms(6) by (simp_all add: rd_def)
  show ?add
  proof (cases "find_device (\<lambda>d. mac_valid d = 0) 0 (info_device (gstFlashInfo s))")
    case None
    with full_list [OF ok] show ?thesis by (simp add: UserAddFlashInfo_def)
  next
    case (Some k)
    note set = set_device_add [OF assms(3) Some m(2)]
    from UserSaveFlashInfo_recovers [OF drv _ set(1) assms(4,5)] Some assms(2) set m full_list [OF ok] show ?thesis
      by (auto simp: UserAddFlashInfo_def)
  qed
  show ?del
  proof (cases "find_device (\<lambda>d. mac_addr d = take 6 mac) 0 (info_device (gstFlashInfo s))")
    case None
    with missing_device [OF assms(3,7)] m show ?thesis by (simp add: UserDelFlashInfo_def)
  next
    case (Some k)
    note set = set_device_del [OF assms(3) Some assms(7)]
    from UserSaveFlashInfo_recovers [OF drv _ set(1) assms(4,5)] Some assms(2) set m missing_device [OF assms(3,7)] show ?thesis
      by (auto simp: UserDelFlashInfo_def)
  qed
qed

text \<open>A list without a device, over the erased chip.\<close>

definition user_fresh :: "nor user_flash" where
  "user_fresh = \<lparr>gstFlashInfo = fresh_info, user_fls = nor_flash\<rparr>"

lemma user_fresh_ok: "flash_up (gd25qxx_fls nor_bus) (\<lambda>c. nor_busy c = 0) user_fresh" "info_inv (gstFlashInfo user_fresh)"
    "devices (gstFlashInfo user_fresh) = {#}"
  using nor_flash_installed by (simp_all add: user_fresh_def flash_up_def fresh_info_def info_inv_def info_ok_def devices_def)

theorem user_devices_survive_witness:
  "\<exists>s'. UserAddFlashInfo (Some (replicate 4096 0)) (Some (replicate 4096 0)) [1, 2, 3, 4, 5, 6] user_fresh = Some (0, s')
    \<and> devices (gstFlashInfo s') = {#[1, 2, 3, 4, 5, 6]#} \<and> recovers (gd25qxx_fls nor_bus) nor_mem (\<lambda>c. nor_busy c = 0) s'"
proof -
  have "length (replicate 4096 (0 :: u8)) = 4096" "6 \<le> length [1, 2, 3, 4, 5, 6 :: u8]" "take 6 [1, 2, 3, 4, 5, 6 :: u8] \<noteq> replicate 6 0"
    by (simp_all add: eval_nat_numeral)
  from user_devices_survive [OF nor_bus_chip user_fresh_ok(1,2) this(1,1,2,3)] show ?thesis
    by (auto simp: user_fresh_ok(3))
qed

end
