(* ===== verification/Spec2Isabelle.thy ===== *)
theory Spec2Isabelle
  imports Crc Messages MsgQueue Aes AesCbc Retransmit HfStore ClientTable CloudQueue Crc32 UtilsCorrect FwupLink UserFlashCorrect
begin

text \<open>
  A verification development for the firmware of the ZCloud Wi-Fi module (HED10W07SN, \<^verbatim>\<open>src/\<close>).

  The module connects a device to the cloud: it reads packets of the device from a serial line, keeps an encrypted
  TCP session with the cloud, serves local TCP clients and UDP queries, keeps its configuration in a flash memory and
  passes firmware updates on.  What is modelled is the program's own code; vendored libraries, operating systems and
  chip drivers are parameters of it.

  \<^bold>\<open>Conventions.\<close>  A C integer is a word of its width.  An object is a list of bytes of its size, a structure a record,
  the global variables of the protocol core one record (\<open>'h zc\<close>), which every function takes and returns.  A function
  of the option monad has the value \<open>None\<close> where C has no defined behaviour (an access outside of an object, a null
  pointer) or the code does not return; an error code of the program is a value.  Indeterminate bytes come from a
  field of the state (\<open>indet\<close>), so that nothing can be proved about them.  \<open>Prelude\<close> holds the words, the byte order
  and the bounded accesses \<open>rd\<close>, \<open>wr\<close>, \<open>rd1\<close>, \<open>wr1\<close>.

  \<^bold>\<open>Data and algorithms.\<close>
  \<^item> \<open>Crc\<close> (\<^verbatim>\<open>App/Adapter/ZC/crc.c\<close>): the three CRC-CCITT routines agree, and a burst of 16 bits changes the result.
  \<^item> \<open>Messages\<close> (\<^verbatim>\<open>zc_cloud_event.c\<close>, \<^verbatim>\<open>zc_protocol_interface.h\<close>): heads, options, the message builders and
    \<^verbatim>\<open>PCT_CheckCrc\<close>, which accepts what is built and refuses it after a burst.
  \<^item> \<open>MsgQueue\<close> (\<^verbatim>\<open>zc_message_queue.c\<close>): the ring of four pointers refines a FIFO (locale \<open>bounded_fifo\<close> and its like),
    \<^verbatim>\<open>MSG_RecvData\<close> refines the accumulation of a byte stream, so a frame cut in any way is put together.
  \<^item> \<open>AesTables\<close>, \<open>Aes\<close>, \<open>AesCbc\<close> (\<^verbatim>\<open>App/Adapter/aes\<close>): key schedules, block functions, CBC with padding; decryption
    inverts encryption for every key size.
  \<^item> \<open>Utils\<close> (\<^verbatim>\<open>Src/Common/utils/utils.c\<close>): the checksums of the updater and the conversions from and to text; \<open>Crc32\<close>: the
    equations of \<^verbatim>\<open>_cal_crc32\<close> are CRC-32; \<open>UtilsCorrect\<close>: CRC-8 notices a changed byte, addresses are read back.

  \<^bold>\<open>The protocol core\<close>, \<^verbatim>\<open>App/Adapter/ZC/src/zc\<close>.
  \<^item> \<open>ZcState\<close>: the structures and the global variables; the record \<open>PTC_ModuleAdapter\<close> of platform functions is an
    argument \<open>A\<close> of the operations.  \<open>Adapter\<close>: the contract of that record.
  \<^item> \<open>Timer\<close> (\<^verbatim>\<open>zc_timer.c\<close>), \<open>Config\<close> (\<^verbatim>\<open>zc_configuration.c\<close>), \<open>SecEngine\<close> (\<^verbatim>\<open>zc_sec_engine.c\<close>; RSA is a parameter).
  \<^item> \<open>CloudLink\<close>: \<^verbatim>\<open>PCT_SendMsgToCloud\<close> and \<^verbatim>\<open>MSG_RecvDataFromCloud\<close>, the way of a message from plain text to
    frame and back; what is sent is received, and a frame that cannot be decrypted blocks the receive buffer.
    \<open>CloudQueue\<close>: with \<^verbatim>\<open>MSG_SendDataToCloud\<close> and the platform's \<^verbatim>\<open>HF_SendTcpData\<close> it is a FIFO of three messages.
  \<^item> \<open>Client\<close> (\<^verbatim>\<open>zc_client_manager.c\<close>), with \<open>ClientTable\<close>: connecting and disconnecting refine a bounded set.
  \<^item> \<open>Controller\<close> (\<^verbatim>\<open>zc_protocol_controller.c\<close>): handshake, events, retransmission, update messages, \<^verbatim>\<open>PCT_Run\<close>.
  \<^item> \<open>Moudle\<close> (\<^verbatim>\<open>zc_moudle_manager.c\<close>), with \<open>UartPacket\<close>: packets of the serial line are put together from any pieces,
    inside the buffer.  \<open>Broadcast\<close> (\<^verbatim>\<open>zc_bc.c\<close>), \<open>AcApi\<close> (\<^verbatim>\<open>App/Adapter/AC\<close>).
  \<^item> \<open>Invariant\<close>, \<open>Machine\<close>, \<open>Entry\<close>, \<open>ModuleEntry\<close>: the invariant \<open>zc_inv\<close> of the core and the moves of its main state,
    kept operation by operation.

  \<^bold>\<open>The platform.\<close>
  \<^item> \<open>Flash\<close> (\<^verbatim>\<open>wm_fls.c\<close>, \<^verbatim>\<open>wm_fls_gd25qxx.c\<close>) over a bus of SPI transactions; \<open>FlashCorrect\<close>: on a chip that behaves as a
    NOR flash, what is written is read.  The waiting loops are partial functions, so that each of these theorems
    includes that the operation returns.
  \<^item> \<open>HfAdapter\<close>, \<open>HfTasks\<close> (\<^verbatim>\<open>zc_hf_adpter.c\<close>): the functions behind \<^verbatim>\<open>PTC_ModuleAdapter\<close> and the loop bodies of the two
    tasks.  Sockets, OS timers and the firmware updater answer by a function of the calls made before (\<open>hf_env\<close>), which
    covers every behaviour; the calls are recorded, so that a theorem can speak of what was sent.
  \<^item> \<open>Fwup\<close> (\<^verbatim>\<open>Src/Common/fwup/wm_fwup.c\<close>): the sessions and the scheduler of the firmware updater over \<open>Flash\<close>;
    \<open>FastWrite\<close>, \<open>FwupVerify\<close>, \<open>FwupCorrect\<close>: writing through the cache, the verification, and an image in any pieces is
    installed, or the boot footer and the image it points at stay as they were (but for the sector that an image of
    full size overwrites behind its region).  \<open>FwupLink\<close>: what the adapter makes of the results of the updater.
  \<^item> \<open>UserFlash\<close>, \<open>UserFlashCorrect\<close> (\<^verbatim>\<open>App/user/user_flash.c\<close>): the list of devices, kept twice, survives the loss of a copy.
  \<^item> \<open>System\<close>: the module as a transition system, one call or turn of a loop a step.  \<open>SystemCorrect\<close>: the invariant of
    every reachable state and the order of the main states.  \<open>Handshake\<close>: what is checked before the module counts as
    connected; \<open>Progress\<close>: with the right messages it gets there, on every platform that answers (locale
    \<open>responsive_adapter\<close>); \<open>Retransmit\<close>: an unacknowledged message is sent again four times and given up.
    \<open>HfTimers\<close>, \<open>HfStore\<close>, \<open>HfNet\<close>: timer callbacks, the stored configuration, the sockets and the announcements.

  \<^bold>\<open>Interfaces\<close> are locales, interpreted on the model's definitions in the theory of the provider: the message
  queue, the block cipher under CBC, the platform functions under the protocol core, the client table.

  \<^bold>\<open>Bounds.\<close>  Loops over a fixed number of entries (timers, clients, send buffers) are recursions over that number.
  The loops of the flash driver, of \<^verbatim>\<open>tls_fls_fast_write\<close> and of the verification of an image have no bound in the code and are partial functions;
  nothing is proved by assuming that they return.

  \<^bold>\<open>Not modelled.\<close>  \<^verbatim>\<open>Src/Network/lwip1.4.1\<close>, \<^verbatim>\<open>Src/OS\<close> and \<^verbatim>\<open>tropicssl\<close> are vendored and are parameters.  The other drivers
  under \<^verbatim>\<open>Src/Drivers\<close> are register accesses and interrupt handlers of the chip vendor.  \<^verbatim>\<open>App/main.c\<close> and the rest of
  \<^verbatim>\<open>App/user\<close> start tasks and drive demos.  Traces, semaphores and memory statistics have no effect on the modelled state.
  Preemption of a task inside a turn is not modelled.  In the runs of \<open>System\<close> the updater is one of the parameters;
  \<open>FwupLink\<close> joins its model to the adapter.
\<close>

end
